(* ===== verification/Prelude.thy ===== *)
theory Prelude imports
  Main
  "HOL-Library.Word"
  "HOL-Library.Multiset"
begin

text \<open>
  Shared vocabulary of the development: the C integer types as words, the readings of a C
  \<open>char\<close>, the arithmetic helpers of \<open>include/xtf/numbers.h\<close> and \<open>include/xtf/lib.h\<close>, the build
  configurations of \<open>build/common.mk\<close>, and the generic lemmas on lists and words that the
  component theories share. The later theories fill the collections \<open>xtf_consts\<close> (named
  constants of the headers), \<open>io_simps\<close> (evaluation of effectful programs) and \<open>init_states\<close> (the
  concrete machines of the witnesses).
\<close>

unbundle bit_operations_syntax

named_theorems xtf_consts \<open>definitions of the constants of the headers\<close>
named_theorems io_simps \<open>evaluation of effectful programs\<close>
named_theorems init_states \<open>the sample machines and initial states of the witnesses\<close>

section \<open>C integer types\<close>

type_synonym u8 = "8 word"
type_synonym u16 = "16 word"
type_synonym u32 = "32 word"
type_synonym u64 = "64 word"

section \<open>C characters\<close>

text \<open>
  A C \<open>char\<close> object is an Isabelle \<open>char\<close> (eight bits). Converted to \<open>unsigned char\<close> it is in
  0..255; plain \<open>char\<close> is signed on x86, in -128..127.
\<close>

definition uchar_of :: "char \<Rightarrow> int" where
  "uchar_of c = of_char c"

definition schar_of :: "char \<Rightarrow> int" where
  "schar_of c = (let u = of_char c :: int in if u < 128 then u else u - 256)"

definition NUL :: char where
  "NUL = CHR 0x00"

definition CR :: char where
  "CR = CHR 0x0D"

definition LF :: char where
  "LF = CHR 0x0A"

lemma uchar_of_range: "0 \<le> uchar_of c \<and> uchar_of c < 256"
proof -
  have "(of_char c :: nat) < 256" by simp
  moreover have "uchar_of c = int (of_char c)"
    unfolding uchar_of_def by (rule of_nat_of_char [symmetric])
  ultimately show ?thesis by linarith
qed

lemma uchar_of_inject [simp]: "uchar_of c = uchar_of d \<longleftrightarrow> c = d"
  by (simp add: uchar_of_def)

lemma uchar_of_eq_0 [simp]: "uchar_of c = 0 \<longleftrightarrow> c = NUL"
  using uchar_of_inject [of c NUL] by (simp add: uchar_of_def NUL_def)

lemma schar_of_inject [simp]: "schar_of c = schar_of d \<longleftrightarrow> c = d"
proof
  assume "schar_of c = schar_of d"
  then have "uchar_of c = uchar_of d"
    using uchar_of_range [of c] uchar_of_range [of d]
    by (auto simp: schar_of_def uchar_of_def Let_def split: if_splits)
  then show "c = d" by simp
qed simp

text \<open>\<open>isdigit\<close> of \<open>common/libc/vsnprintf.c\<close> and \<open>common/lib.c\<close> (the two copies are the same).\<close>

definition isdigit :: "char \<Rightarrow> bool" where
  "isdigit c \<longleftrightarrow> schar_of c \<ge> 48 \<and> schar_of c \<le> 57"

section \<open>Number helpers of include/xtf/numbers.h and include/xtf/lib.h\<close>

definition IS_ALIGNED :: "'a::len word \<Rightarrow> 'a word \<Rightarrow> bool" where
  "IS_ALIGNED val align \<longleftrightarrow> val AND (align - 1) = 0"

definition MASK_EXTR :: "'a::len word \<Rightarrow> 'a word \<Rightarrow> 'a word" where
  "MASK_EXTR v m = (v AND m) div (m AND - m)"

definition MASK_INSR :: "'a::len word \<Rightarrow> 'a word \<Rightarrow> 'a word" where
  "MASK_INSR v m = (v * (m AND - m)) AND m"

definition ROUNDUP :: "'a::len word \<Rightarrow> 'a word \<Rightarrow> 'a word" where
  "ROUNDUP x a = (x + a - 1) AND NOT (a - 1)"

section \<open>Build configurations\<close>

text \<open>
  \<open>build/common.mk\<close> builds every test for some of six environments. The preprocessor symbols
  that the code tests with \<open>IS_DEFINED(..)\<close>, \<open>#ifdef\<close> and \<open>#if\<close> become predicates of the
  environment.
\<close>

datatype env = PV64 | PV32PAE | HVM64 | HVM32PAE | HVM32PSE | HVM32

fun CONFIG_PV :: "env \<Rightarrow> bool" where
  "CONFIG_PV e = (e = PV64 \<or> e = PV32PAE)"

fun CONFIG_HVM :: "env \<Rightarrow> bool" where
  "CONFIG_HVM e = (\<not> CONFIG_PV e)"

fun CONFIG_64BIT :: "env \<Rightarrow> bool" where
  "CONFIG_64BIT e = (e = PV64 \<or> e = HVM64)"

fun CONFIG_PAGING_LEVELS :: "env \<Rightarrow> nat" where
  "CONFIG_PAGING_LEVELS e =
     (case e of PV64 \<Rightarrow> 4 | HVM64 \<Rightarrow> 4 | PV32PAE \<Rightarrow> 3 | HVM32PAE \<Rightarrow> 3 | HVM32PSE \<Rightarrow> 2 | HVM32 \<Rightarrow> 0)"

text \<open>\<open>unsigned long\<close>, \<open>size_t\<close> and pointers are 64 or 32 bits wide.\<close>

fun BITS_PER_LONG :: "env \<Rightarrow> nat" where
  "BITS_PER_LONG e = (if CONFIG_64BIT e then 64 else 32)"

text \<open>A value of type \<open>unsigned long\<close>, held in 64 bits.\<close>

definition to_ulong :: "env \<Rightarrow> u64 \<Rightarrow> u64" where
  "to_ulong e v = take_bit (BITS_PER_LONG e) v"

section \<open>Shared lemmas\<close>

lemma unat_u8_less: "unat (x :: u8) < 256"
proof -
  have "unat x < 2 ^ LENGTH(8)" by (rule unsigned_less)
  then show ?thesis by simp
qed

lemma unat_u16_less: "unat (x :: u16) < 65536"
proof -
  have "unat x < 2 ^ LENGTH(16)" by (rule unsigned_less)
  then show ?thesis by simp
qed

lemma unat_u32_less: "unat (x :: u32) < 4294967296"
proof -
  have "unat x < 2 ^ LENGTH(32)" by (rule unsigned_less)
  then show ?thesis by simp
qed

lemma unat_u64_less: "unat (x :: u64) < 18446744073709551616"
proof -
  have "unat x < 2 ^ LENGTH(64)" by (rule unsigned_less)
  then show ?thesis by simp
qed

lemma unat_of_nat_less [simp]:
  "n < 2 ^ LENGTH('a) \<Longrightarrow> unat (of_nat n :: 'a::len word) = n"
  by (simp add: unsigned_of_nat take_bit_nat_eq_self)

lemma unat_ucast_32_64 [simp]: "unat (ucast (x :: u32) :: u64) = unat x"
  using unat_u32_less [of x] by (simp add: unsigned_ucast_eq take_bit_nat_eq_self_iff)

lemma unat_ucast_16_64 [simp]: "unat (ucast (x :: u16) :: u64) = unat x"
  using unat_u16_less [of x] by (simp add: unsigned_ucast_eq take_bit_nat_eq_self_iff)

lemma take_Suc_nth_append:
  "n < length xs \<Longrightarrow> take (Suc n) xs = take n xs @ [xs ! n]"
  by (rule take_Suc_conv_app_nth)

lemma list_update_take_eq: "n \<le> i \<Longrightarrow> take n (xs[i := x]) = take n xs"
  by simp

lemma unat_and_mask: "unat ((x :: 'a::len word) AND mask n) = unat x mod 2 ^ n"
  by (metis take_bit_eq_mask take_bit_eq_mod unsigned_take_bit_eq)

lemma unat_and_mask_lt: "unat ((x :: 'a::len word) AND mask n) < 2 ^ n"
  by (simp add: unat_and_mask)

end
