(* ===== verification/Libc_String.thy ===== *)
theory Libc_String imports
  Prelude
begin

text \<open>
  The string and memory functions of \<open>common/libc/string.c\<close>. A C pointer is modelled by the bytes
  from the place it points to up to the end of its object, so walking a pointer is walking the
  list, and a read or a write beyond the object is undefined behaviour, the value \<open>None\<close>.
  Functions that write return the destination object after the call. Overlapping objects, which
  \<open>memcpy\<close> and \<open>strcpy\<close> do not support, are not modelled.
\<close>

section \<open>The functions\<close>

fun strlen :: "char list \<Rightarrow> nat option" where
  "strlen [] = None"
| "strlen (c # cs) = (if c \<noteq> NUL then map_option Suc (strlen cs) else Some 0)"

fun strnlen :: "char list \<Rightarrow> nat \<Rightarrow> nat option" where
  "strnlen s 0 = Some 0"
| "strnlen [] (Suc n) = None"
| "strnlen (c # cs) (Suc n) = (if c \<noteq> NUL then map_option Suc (strnlen cs n) else Some 0)"

fun strcpy :: "char list \<Rightarrow> char list \<Rightarrow> char list option" where
  "strcpy (d # ds) (s # ss) =
     (if s \<noteq> NUL then map_option ((#) s) (strcpy ds ss) else Some (s # ds))"
| "strcpy _ _ = None"

text \<open>The second loop of \<open>strncpy\<close>, which pads with NUL bytes.\<close>

fun strncpy_pad :: "char list \<Rightarrow> nat \<Rightarrow> char list option" where
  "strncpy_pad ds 0 = Some ds"
| "strncpy_pad [] (Suc n) = None"
| "strncpy_pad (d # ds) (Suc n) = map_option ((#) NUL) (strncpy_pad ds n)"

fun strncpy :: "char list \<Rightarrow> char list \<Rightarrow> nat \<Rightarrow> char list option" where
  "strncpy ds ss 0 = Some ds"
| "strncpy ds [] (Suc n) = None"
| "strncpy ds (s # ss) (Suc n) =
     (if s \<noteq> NUL
      then (case ds of [] \<Rightarrow> None | d # ds' \<Rightarrow> map_option ((#) s) (strncpy ds' ss n))
      else strncpy_pad ds (Suc n))"

fun strcmp :: "char list \<Rightarrow> char list \<Rightarrow> int option" where
  "strcmp (c1 # s1) (c2 # s2) =
     (let u1 = uchar_of c1; u2 = uchar_of c2 in
      if u1 \<noteq> 0 \<and> u1 = u2 then strcmp s1 s2
      else Some (if u1 < u2 then -1 else if u1 > u2 then 1 else 0))"
| "strcmp _ _ = None"

fun strncmp :: "char list \<Rightarrow> char list \<Rightarrow> nat \<Rightarrow> int option" where
  "strncmp s1 s2 0 = Some 0"
| "strncmp (c1 # s1) (c2 # s2) (Suc n) =
     (if schar_of c1 \<noteq> schar_of c2 then Some (schar_of c1 - schar_of c2) else strncmp s1 s2 n)"
| "strncmp _ _ (Suc n) = None"

text \<open>\<open>memset\<close> stores \<open>c\<close> converted to \<open>char\<close>.\<close>

fun memset :: "char list \<Rightarrow> int \<Rightarrow> nat \<Rightarrow> char list option" where
  "memset s c 0 = Some s"
| "memset [] c (Suc n) = None"
| "memset (d # ds) c (Suc n) = map_option ((#) (char_of c)) (memset ds c n)"

fun memcpy :: "char list \<Rightarrow> char list \<Rightarrow> nat \<Rightarrow> char list option" where
  "memcpy ds ss 0 = Some ds"
| "memcpy (d # ds) (s # ss) (Suc n) = map_option ((#) s) (memcpy ds ss n)"
| "memcpy _ _ (Suc n) = None"

text \<open>\<open>for ( ; !res && n; --n )\<close> with \<open>res\<close> the difference of the last two bytes.\<close>

fun memcmp_loop :: "int \<Rightarrow> char list \<Rightarrow> char list \<Rightarrow> nat \<Rightarrow> int option" where
  "memcmp_loop res s1 s2 0 = Some res"
| "memcmp_loop res s1 s2 (Suc n) =
     (if res \<noteq> 0 then Some res
      else case (s1, s2) of
        (c1 # s1', c2 # s2') \<Rightarrow> memcmp_loop (uchar_of c1 - uchar_of c2) s1' s2' n
      | _ \<Rightarrow> None)"

definition memcmp :: "char list \<Rightarrow> char list \<Rightarrow> nat \<Rightarrow> int option" where
  "memcmp s1 s2 n = memcmp_loop 0 s1 s2 n"

section \<open>The string an object holds\<close>

text \<open>The C string at the start of an object: the bytes before its first NUL.\<close>

definition cstr :: "char list \<Rightarrow> char list" where
  "cstr m = takeWhile (\<lambda>c. c \<noteq> NUL) m"

lemma cstr_Nil [simp]: "cstr [] = []"
  by (simp add: cstr_def)

lemma cstr_Cons [simp]: "cstr (c # m) = (if c = NUL then [] else c # cstr m)"
  by (simp add: cstr_def)

lemma NUL_notin_cstr [simp]: "NUL \<notin> set (cstr m)"
  by (auto simp: cstr_def dest: set_takeWhileD)

lemma cstr_append_NUL [simp]: "NUL \<notin> set s \<Longrightarrow> cstr (s @ NUL # r) = s"
  by (induction s) auto

lemma length_cstr_less: "NUL \<in> set m \<Longrightarrow> length (cstr m) < length m"
  by (induction m) auto

lemma take_length_cstr [simp]: "take (length (cstr m)) m = cstr m"
  by (induction m) auto

section \<open>strlen, strnlen\<close>

lemma strlen_eq: "strlen m = (if NUL \<in> set m then Some (length (cstr m)) else None)"
  by (induction m) auto

lemma strlen_Some_iff:
  "strlen m = Some n \<longleftrightarrow> n < length m \<and> m ! n = NUL \<and> (\<forall>i < n. m ! i \<noteq> NUL)"
proof (induction m arbitrary: n)
  case (Cons c m)
  show ?case
    by (cases n) (auto simp: Cons.IH All_less_Suc2)
qed simp

lemma strnlen_eq:
  "strnlen m k =
     (if NUL \<in> set m \<or> k \<le> length m then Some (min k (length (cstr m))) else None)"
  by (induction m k rule: strnlen.induct) (auto simp: min_def)

section \<open>strcpy, strncpy\<close>

lemma strcpy_eq:
  "strcpy d s =
     (if NUL \<in> set s \<and> length (cstr s) < length d
      then Some (cstr s @ NUL # drop (Suc (length (cstr s))) d) else None)"
  by (induction d s rule: strcpy.induct) auto

lemma strncpy_pad_eq:
  "strncpy_pad d n = (if n \<le> length d then Some (replicate n NUL @ drop n d) else None)"
  by (induction d n rule: strncpy_pad.induct) auto

lemma strncpy_eq:
  assumes "NUL \<in> set s \<or> n \<le> length s" "n \<le> length d"
  shows "strncpy d s n =
     Some (take n (cstr s) @ replicate (n - length (cstr s)) NUL @ drop n d)"
  using assms
proof (induction d s n rule: strncpy.induct)
  case (3 d c s n)
  show ?case
  proof (cases "c = NUL")
    case True
    with 3 show ?thesis by (simp add: strncpy_pad_eq)
  next
    case False
    with 3 show ?thesis by (cases d) auto
  qed
qed auto

section \<open>Comparison\<close>

text \<open>
  \<open>ulex s t\<close> is the order of strings as sequences of unsigned bytes: the sign of the first
  difference, a proper prefix being smaller.
\<close>

fun ulex :: "char list \<Rightarrow> char list \<Rightarrow> int" where
  "ulex [] [] = 0"
| "ulex [] (_ # _) = -1"
| "ulex (_ # _) [] = 1"
| "ulex (c # s) (d # t) =
     (if c = d then ulex s t else if uchar_of c < uchar_of d then -1 else 1)"

lemma ulex_eq_0 [simp]: "ulex s t = 0 \<longleftrightarrow> s = t"
  by (induction s t rule: ulex.induct) auto

lemma uchar_of_pos: "c \<noteq> NUL \<Longrightarrow> 0 < uchar_of c"
  using uchar_of_range [of c] uchar_of_eq_0 [of c] by linarith

lemma uchar_of_NUL [simp]: "uchar_of NUL = 0"
  by simp

lemma strcmp_eq:
  assumes "NUL \<in> set s" "NUL \<in> set t"
  shows "strcmp s t = Some (ulex (cstr s) (cstr t))"
  using assms
proof (induction s t rule: strcmp.induct)
  case (1 c1 s1 c2 s2)
  show ?case
  proof (cases "c1 = NUL \<or> c2 = NUL")
    case True
    then show ?thesis using uchar_of_pos [of c1] uchar_of_pos [of c2]
      by (cases "c1 = NUL"; cases "c2 = NUL") (auto simp: Let_def)
  next
    case False
    with 1 show ?thesis by (auto simp: Let_def)
  qed
qed auto

lemma memcmp_loop_sgn:
  assumes "n \<le> length s" "n \<le> length t"
  shows "\<exists>r. memcmp_loop 0 s t n = Some r \<and> sgn r = ulex (take n s) (take n t)"
  using assms
proof (induction n arbitrary: s t)
  case (Suc n)
  then obtain c s' d t' where st: "s = c # s'" "t = d # t'"
    by (cases s; cases t) auto
  show ?case
  proof (cases "c = d")
    case True
    with Suc st show ?thesis by simp
  next
    case False
    then have "uchar_of c - uchar_of d \<noteq> 0" by simp
    then have "memcmp_loop (uchar_of c - uchar_of d) s' t' n = Some (uchar_of c - uchar_of d)"
      by (cases n) auto
    with st False show ?thesis by (auto simp: sgn_if)
  qed
qed simp

lemma memcmp_sgn:
  assumes "n \<le> length s" "n \<le> length t"
  shows "\<exists>r. memcmp s t n = Some r \<and> sgn r = ulex (take n s) (take n t)"
  using memcmp_loop_sgn [OF assms] by (simp add: memcmp_def)

lemma strncmp_eq:
  assumes "n \<le> length s" "n \<le> length t"
  shows "strncmp s t n =
     Some (case dropWhile (\<lambda>(c, d). c = d) (zip (take n s) (take n t)) of
             [] \<Rightarrow> 0 | (c, d) # _ \<Rightarrow> schar_of c - schar_of d)"
  using assms by (induction s t n rule: strncmp.induct) auto

section \<open>Raw memory\<close>

lemma memset_eq:
  "memset d c n = (if n \<le> length d then Some (replicate n (char_of c) @ drop n d) else None)"
  by (induction d c n rule: memset.induct) auto

lemma memcpy_eq:
  "memcpy d s n =
     (if n \<le> length d \<and> n \<le> length s then Some (take n s @ drop n d) else None)"
  by (induction d s n rule: memcpy.induct) auto

section \<open>What callers rely on\<close>

text \<open>
  \<open>strcmp\<close> agrees with the lexicographic order of the two C strings as unsigned characters, and
  returns 0 exactly when the strings are equal; it never reads past a terminating NUL.
\<close>

lemma strcmp_orders:
  assumes "NUL \<in> set s" "NUL \<in> set t"
  shows "strcmp s t = Some (ulex (cstr s) (cstr t)) \<and> (strcmp s t = Some 0 \<longleftrightarrow> cstr s = cstr t)"
  using strcmp_eq [OF assms] by simp

lemma strcmp_orders_witness:
  "strcmp (''ab'' @ [NUL]) (''ac'' @ [NUL]) = Some (ulex ''ab'' ''ac'')"
proof -
  have "strcmp (''ab'' @ [NUL]) (''ac'' @ [NUL]) = Some (ulex (cstr (''ab'' @ [NUL])) (cstr (''ac'' @ [NUL])))"
    using strcmp_orders [of "''ab'' @ [NUL]" "''ac'' @ [NUL]"] by simp
  then show ?thesis by (simp add: NUL_def)
qed

text \<open>
  Strncmp compares all n characters: unlike the standard function it does not stop at a NUL
  that both strings hold, and the sign of a difference is that of the signed characters. Arrays
  that agree as strings can therefore compare as different.
\<close>

lemma strncmp_ignores_NUL:
  assumes "n \<le> length s" "n \<le> length t"
  shows "strncmp s t n =
     Some (case dropWhile (\<lambda>(c, d). c = d) (zip (take n s) (take n t)) of
             [] \<Rightarrow> 0 | (c, d) # _ \<Rightarrow> schar_of c - schar_of d)"
  using assms by (rule strncmp_eq)

lemma strncmp_ignores_NUL_witness:
  "strncmp [CHR ''a'', NUL, CHR ''x''] [CHR ''a'', NUL, CHR ''y''] 3 = Some (- 1)"
  using strncmp_ignores_NUL [of 3 "[CHR ''a'', NUL, CHR ''x'']" "[CHR ''a'', NUL, CHR ''y'']"] by (simp add: NUL_def schar_of_def)

text \<open>
  strcpy, given a destination with room for the string and its NUL, copies exactly the string,
  terminates it, and leaves the rest of the destination alone.
\<close>

lemma strcpy_terminates:
  assumes "NUL \<in> set s" "length (cstr s) < length d"
  shows "strcpy d s = Some (cstr s @ NUL # drop (Suc (length (cstr s))) d)"
  using assms by (simp add: strcpy_eq)

end
