(* ===== verification/X86_Div.thy ===== *)
theory X86_Div imports
  Prelude
begin

text \<open>
  \<open>divmod64()\<close> of \<open>arch/x86/include/arch/div.h\<close>: a 64-bit dividend by a 32-bit divisor. The 64-bit
  build uses the C operators, the 32-bit build two hardware divisions. The \<open>divl\<close> instruction
  divides \<open>edx:eax\<close> and raises \<open>#DE\<close>, here \<open>None\<close>, when the divisor is zero or the quotient does
  not fit in 32 bits; so does the 64-bit division by zero.
\<close>

definition divl :: "u32 \<Rightarrow> u32 \<Rightarrow> u32 \<Rightarrow> (u32 \<times> u32) option" where
  "divl edx eax d =
     (let n = unat edx * 2 ^ 32 + unat eax in
      if d = 0 \<or> n div unat d \<ge> 2 ^ 32 then None
      else Some (of_nat (n div unat d), of_nat (n mod unat d)))"

text \<open>The quotient and the remainder, in the order \<open>(*dividend, mod)\<close>.\<close>

definition divmod64_x86_64 :: "u64 \<Rightarrow> u32 \<Rightarrow> (u64 \<times> u32) option" where
  "divmod64_x86_64 dividend divisor =
     (if divisor = 0 then None
      else Some (dividend div ucast divisor, ucast (dividend mod ucast divisor)))"

definition divmod64_i386 :: "u64 \<Rightarrow> u32 \<Rightarrow> (u64 \<times> u32) option" where
  "divmod64_i386 dividend divisor =
     (let high = ucast (drop_bit 32 dividend) :: u32; low = ucast dividend :: u32;
          umod = (if high \<noteq> 0 then high mod divisor else 0);
          high' = (if high \<noteq> 0 then high div divisor else high)
      in if high \<noteq> 0 \<and> divisor = 0 then None
         else case divl umod low divisor of
           None \<Rightarrow> None
         | Some (low', m) \<Rightarrow> Some (push_bit 32 (ucast high') OR ucast low', m))"

definition divmod64 :: "env \<Rightarrow> u64 \<Rightarrow> u32 \<Rightarrow> (u64 \<times> u32) option" where
  "divmod64 e dividend divisor =
     (if CONFIG_64BIT e then divmod64_x86_64 dividend divisor else divmod64_i386 dividend divisor)"

section \<open>The two builds agree\<close>

lemma u64_eq_iff_unat: "(x :: u64) = y \<longleftrightarrow> unat x = unat y"
  by (rule word_unat_eq_iff)

lemma push_bit_32_or:
  "unat (push_bit 32 (ucast (h :: u32)) OR ucast (l :: u32) :: u64) = unat h * 2 ^ 32 + unat l"
proof -
  have disj: "push_bit 32 (ucast h) AND ucast l = (0 :: u64)"
    by (rule bit_word_eqI) (auto simp: bit_simps dest: bit_imp_le_length)
  have "push_bit 32 (ucast h) OR ucast l = (push_bit 32 (ucast h) + ucast l :: u64)"
    by (rule disjunctive_add [symmetric]) (use disj in \<open>simp add: bit_eq_iff bit_simps\<close>)
  moreover have "unat (push_bit 32 (ucast h) :: u64) = unat h * 2 ^ 32"
  proof -
    have "unat h * 2 ^ 32 < 2 ^ 64"
      using unat_u32_less [of h] by simp
    then show ?thesis
      by (simp add: push_bit_eq_mult unat_word_ariths mult.commute)
  qed
  moreover have "unat h * 2 ^ 32 + unat l < 2 ^ 64"
    using unat_u32_less [of h] unat_u32_less [of l] by simp
  ultimately show ?thesis
    by (simp add: unat_word_ariths)
qed

lemma unat_high_low:
  "unat (x :: u64) = unat (ucast (drop_bit 32 x) :: u32) * 2 ^ 32 + unat (ucast x :: u32)"
proof -
  have "push_bit 32 (ucast (ucast (drop_bit 32 x) :: u32)) OR ucast (ucast x :: u32) = x"
    by (rule bit_word_eqI) (auto simp: bit_simps dest: bit_imp_le_length)
  then show ?thesis
    using push_bit_32_or [of "ucast (drop_bit 32 x)" "ucast x"] by simp
qed

lemma unat_u64_div_less: "unat (n :: u64) div k < 2 ^ 64"
  using unat_u64_less [of n] by (simp add: le_less_trans [OF div_le_dividend])

lemma divmod64_x86_64_unat:
  assumes "d \<noteq> 0"
  shows "divmod64_x86_64 n d = Some (of_nat (unat n div unat d), of_nat (unat n mod unat d))"
proof -
  have "unat n mod unat d < 2 ^ 32"
  proof -
    have "unat n mod unat d < unat d"
      using assms by (simp add: unat_gt_0)
    then show ?thesis using unat_u32_less [of d] by simp
  qed
  then show ?thesis using assms unat_u64_div_less [of n "unat d"]
    by (simp add: divmod64_x86_64_def word_unat_eq_iff unat_div_distrib unat_mod_distrib
        unsigned_ucast_eq take_bit_nat_eq_self unsigned_of_nat)
qed

lemma split_div_mod:
  fixes h l d :: nat
  assumes "0 < d"
  shows "(h * b + l) div d = (h div d) * b + ((h mod d) * b + l) div d"
    and "(h * b + l) mod d = ((h mod d) * b + l) mod d"
proof -
  have eq: "h * b + l = ((h mod d) * b + l) + d * ((h div d) * b)"
    by (metis add.assoc add.commute distrib_right mult.assoc mult_div_mod_eq)
  show "(h * b + l) div d = (h div d) * b + ((h mod d) * b + l) div d"
    using assms by (subst eq) simp
  show "(h * b + l) mod d = ((h mod d) * b + l) mod d"
    by (subst eq) simp
qed

lemma divmod64_i386_unat:
  assumes "d \<noteq> 0"
  shows "divmod64_i386 n d = Some (of_nat (unat n div unat d), of_nat (unat n mod unat d))"
proof -
  define h where "h = unat (ucast (drop_bit 32 n) :: u32)"
  define l where "l = unat (ucast n :: u32)"
  define k where "k = unat d"
  have k: "0 < k" using assms by (simp add: k_def unat_gt_0)
  have n: "unat n = h * 2 ^ 32 + l" by (simp add: h_def l_def unat_high_low)
  have l: "l < 2 ^ 32" using unat_u32_less by (simp add: l_def)
  have "(h mod k) * 2 ^ 32 + l < k * 2 ^ 32"
  proof -
    have "Suc (h mod k) \<le> k" using k by (simp add: Suc_leI)
    then have "Suc (h mod k) * 2 ^ 32 \<le> k * 2 ^ 32" by (rule mult_le_mono1)
    with l show ?thesis by simp
  qed
  then have q: "((h mod k) * 2 ^ 32 + l) div k < 2 ^ 32"
    using k by (simp add: less_mult_imp_div_less mult.commute)
  have umod: "unat ((if ucast (drop_bit 32 n) \<noteq> (0 :: u32)
      then ucast (drop_bit 32 n) mod d else 0)) = h mod k"
    by (auto simp: h_def k_def unat_mod_distrib)
  have high: "unat ((if ucast (drop_bit 32 n) \<noteq> (0 :: u32)
      then ucast (drop_bit 32 n) div d else ucast (drop_bit 32 n))) = h div k"
    by (auto simp: h_def k_def unat_div_distrib)
  have div: "divl (if ucast (drop_bit 32 n) \<noteq> (0 :: u32) then ucast (drop_bit 32 n) mod d else 0)
      (ucast n) d = Some (of_nat (((h mod k) * 2 ^ 32 + l) div k), of_nat (((h mod k) * 2 ^ 32 + l) mod k))"
    using assms q unfolding divl_def Let_def umod by (simp add: l_def k_def)
  have "divmod64_i386 n d =
      Some (push_bit 32 (ucast (if ucast (drop_bit 32 n) \<noteq> (0 :: u32)
              then ucast (drop_bit 32 n) div d else ucast (drop_bit 32 n)))
            OR ucast (of_nat (((h mod k) * 2 ^ 32 + l) div k) :: u32),
            of_nat (((h mod k) * 2 ^ 32 + l) mod k))"
    unfolding divmod64_i386_def Let_def div using assms by simp
  moreover have "push_bit 32 (ucast (if ucast (drop_bit 32 n) \<noteq> (0 :: u32)
              then ucast (drop_bit 32 n) div d else ucast (drop_bit 32 n)))
            OR ucast (of_nat (((h mod k) * 2 ^ 32 + l) div k) :: u32)
      = (of_nat (unat n div unat d) :: u64)"
  proof -
    have "unat n div unat d = (h div k) * 2 ^ 32 + ((h mod k) * 2 ^ 32 + l) div k"
      unfolding n k_def [symmetric] by (rule split_div_mod(1) [OF k])
    moreover have "unat (of_nat (((h mod k) * 2 ^ 32 + l) div k) :: u32)
        = ((h mod k) * 2 ^ 32 + l) div k"
      using q by (intro unat_of_nat_less) simp
    moreover have "unat (of_nat (unat n div unat d) :: u64) = unat n div unat d"
      using unat_u64_div_less [of n "unat d"] by (intro unat_of_nat_less) simp
    ultimately show ?thesis
      by (simp only: u64_eq_iff_unat push_bit_32_or high)
  qed
  moreover have "((h mod k) * 2 ^ 32 + l) mod k = unat n mod unat d"
    unfolding n k_def [symmetric] by (rule split_div_mod(2) [OF k, symmetric])
  ultimately show ?thesis by simp
qed

lemma divmod64_unat:
  "d \<noteq> 0 \<Longrightarrow> divmod64 e n d = Some (of_nat (unat n div unat d), of_nat (unat n mod unat d))"
  by (simp add: divmod64_def divmod64_x86_64_unat divmod64_i386_unat)

text \<open>
  C19: For a divisor other than zero, the two-step 32-bit division computes exactly what the 64-bit
  build computes, and the \<open>divl\<close> it issues never raises \<open>#DE\<close>.
\<close>

theorem divmod64_builds_agree:
  assumes "divisor \<noteq> 0"
  shows "divmod64_i386 dividend divisor = divmod64_x86_64 dividend divisor
       \<and> divmod64_i386 dividend divisor \<noteq> None"
  using assms by (simp add: divmod64_i386_unat divmod64_x86_64_unat)

theorem divmod64_builds_agree_witness:
  "divmod64_i386 0x123456789abcdef0 10 = divmod64_x86_64 0x123456789abcdef0 10
   \<and> divmod64_i386 0x123456789abcdef0 10 \<noteq> None"
  by (rule divmod64_builds_agree) simp

end
