(* ===== verification/Vsnprintf.thy ===== *)
theory Vsnprintf imports
  Libc_String
  X86_Div
  "HOL-Library.Monad_Syntax"
begin

text \<open>
  The formatter of \<open>common/libc/vsnprintf.c\<close>: \<open>fmt_int\<close>, \<open>fmt_number\<close>, \<open>fmt_string\<close>, \<open>pointer\<close>
  and \<open>vsnprintf_internal\<close>, with \<open>vsnprintf\<close> and \<open>snprintf\<close> on top. The destination is a record of
  the memory the buffer lies in, the cursor \<open>str\<close> and the limit \<open>end\<close>, both as offsets from
  \<open>buf\<close>; the macro \<open>PUT\<close> is the only write. Undefined behaviour of the C code is the value
  \<open>None\<close>: an \<open>int\<close> computation that overflows, a \<open>va_arg\<close> of the wrong type or beyond the
  arguments, a string without a terminator, a read beyond a buffer.

  The second half shows that every formatting operation appends a list of characters that does
  not depend on the buffer, from which truncation, termination and bounds follow for any format.
\<close>

section \<open>Flags, integers and the output cursor\<close>

definition LEFT :: u32 where "LEFT = push_bit 0 1"
definition PLUS :: u32 where "PLUS = push_bit 1 1"
definition SPACE :: u32 where "SPACE = push_bit 2 1"
definition ALTERNATE :: u32 where "ALTERNATE = push_bit 3 1"
definition ZERO :: u32 where "ZERO = push_bit 4 1"
definition UPPER :: u32 where "UPPER = push_bit 5 1"
definition SIGNED :: u32 where "SIGNED = push_bit 6 1"
definition LF_TO_CRLF :: u32 where "LF_TO_CRLF = push_bit 7 1"

lemmas flag_defs = LEFT_def PLUS_def SPACE_def ALTERNATE_def ZERO_def UPPER_def SIGNED_def
  LF_TO_CRLF_def

text \<open>\<open>flags & F\<close> as a condition.\<close>

definition has :: "u32 \<Rightarrow> u32 \<Rightarrow> bool" where
  "has flags f \<longleftrightarrow> flags AND f \<noteq> 0"

definition INT_MAX :: int where "INT_MAX = 2147483647"
definition INT_MIN :: int where "INT_MIN = -2147483648"

text \<open>The value of an \<open>int\<close> expression, which must be in range.\<close>

definition c_int :: "int \<Rightarrow> int option" where
  "c_int x = (if INT_MIN \<le> x \<and> x \<le> INT_MAX then Some x else None)"

record out =
  mem :: "char list"
  str :: nat
  lim :: nat

definition PUT :: "char \<Rightarrow> out \<Rightarrow> out" where
  "PUT c o1 = (if str o1 < lim o1 then o1\<lparr>mem := (mem o1)[str o1 := c]\<rparr> else o1)
              \<lparr>str := Suc (str o1)\<rparr>"

text \<open>\<open>while ( b < width-- ) PUT(c)\<close>, with \<open>b = 0\<close> for \<open>while ( width-- > 0 )\<close>.\<close>

function pad_while :: "char \<Rightarrow> int \<Rightarrow> int \<Rightarrow> out \<Rightarrow> (int \<times> out) option" where
  "pad_while c b w o1 =
     do {
       w' \<leftarrow> c_int (w - 1);
       if b < w then pad_while c b w' (PUT c o1) else Some (w', o1)
     }"
  by pat_completeness auto
termination
  by (relation "measure (\<lambda>(c, b, w, o1). nat (w - b))") (auto simp: c_int_def split: if_splits)

text \<open>\<open>while ( --width > 0 ) PUT(c)\<close>\<close>

function pad_pre :: "char \<Rightarrow> int \<Rightarrow> out \<Rightarrow> (int \<times> out) option" where
  "pad_pre c w o1 =
     do {
       w' \<leftarrow> c_int (w - 1);
       if w' > 0 then pad_pre c w' (PUT c o1) else Some (w', o1)
     }"
  by pat_completeness auto
termination
  by (relation "measure (\<lambda>(c, w, o1). nat w)") (auto simp: c_int_def split: if_splits)

declare pad_while.simps [simp del] pad_pre.simps [simp del]

section \<open>fmt_int\<close>

fun fmt_int_loop :: "int \<Rightarrow> string \<Rightarrow> (int \<times> string) option" where
  "fmt_int_loop res [] = Some (res, [])"
| "fmt_int_loop res (c # cs) =
     (if isdigit c
      then do {
        r \<leftarrow> c_int (res * 10);
        r' \<leftarrow> c_int (r + (schar_of c - 48));
        fmt_int_loop r' cs
      }
      else Some (res, c # cs))"

definition fmt_int :: "string \<Rightarrow> (int \<times> string) option" where
  "fmt_int fmt = fmt_int_loop 0 fmt"

section \<open>fmt_number\<close>

definition lower_digits :: string where "lower_digits = ''0123456789abcdef''"
definition upper_digits :: string where "upper_digits = ''0123456789ABCDEF''"

text \<open>
  \<open>while ( uval ) tmp[i++] = digits[divmod64(&uval, base)]\<close>; \<open>tmp\<close> has 24 entries, a store
  beyond it is undefined. The fuel is the number of entries left.
\<close>

fun digit_loop :: "env \<Rightarrow> string \<Rightarrow> u32 \<Rightarrow> nat \<Rightarrow> u64 \<Rightarrow> string \<Rightarrow> string option" where
  "digit_loop e digits base room uval tmp =
     (if uval \<noteq> 0
      then (case room of
         0 \<Rightarrow> None
       | Suc room' \<Rightarrow>
           do {
             (q, m) \<leftarrow> divmod64 e uval base;
             digit_loop e digits base room' q (tmp @ [digits ! unat m])
           })
      else Some tmp)"

declare digit_loop.simps [simp del]

text \<open>\<open>while ( i-- ) PUT(tmp[i])\<close>\<close>

fun put_back :: "string \<Rightarrow> nat \<Rightarrow> out \<Rightarrow> out" where
  "put_back tmp 0 o1 = o1"
| "put_back tmp (Suc i) o1 = put_back tmp i (PUT (tmp ! i) o1)"

text \<open>The sign character and the width it leaves.\<close>

definition sign_prefix :: "u64 \<Rightarrow> int \<Rightarrow> u32 \<Rightarrow> (char option \<times> u64 \<times> int) option" where
  "sign_prefix val width flags =
     (if has flags SIGNED
      then if sint val < 0
           then if sint val = - (2 ^ 63) then None \<comment> \<open>\<open>-val\<close> overflows\<close>
                else do { w \<leftarrow> c_int (width - 1); Some (Some (CHR ''-''), - val, w) }
           else if has flags PLUS
           then do { w \<leftarrow> c_int (width - 1); Some (Some (CHR ''+''), val, w) }
           else if has flags SPACE
           then do { w \<leftarrow> c_int (width - 1); Some (Some (CHR '' ''), val, w) }
           else Some (None, val, width)
      else Some (None, val, width))"

definition alternate_width :: "u32 \<Rightarrow> int \<Rightarrow> u32 \<Rightarrow> int option" where
  "alternate_width base width flags =
     (if has flags ALTERNATE
      then if base = 16 then c_int (width - 2)
           else if base = 8 then c_int (width - 1)
           else Some width
      else Some width)"

definition put_alternate :: "u32 \<Rightarrow> u32 \<Rightarrow> out \<Rightarrow> out" where
  "put_alternate base flags o1 =
     (if has flags ALTERNATE
      then if base = 16 then PUT (CHR ''x'') (PUT (CHR ''0'') o1)
           else if base = 8 then PUT (CHR ''0'') o1
           else o1
      else o1)"

definition fmt_number ::
  "env \<Rightarrow> out \<Rightarrow> u64 \<Rightarrow> u32 \<Rightarrow> int \<Rightarrow> int \<Rightarrow> u32 \<Rightarrow> out option" where
  "fmt_number e o1 val base width precision flags =
     (if \<not> (base = 8 \<or> base = 10 \<or> base = 16) then Some o1
      else
        let digits = (if has flags UPPER then upper_digits else lower_digits);
            flags = (if has flags LEFT \<or> precision \<noteq> -1 then flags AND NOT ZERO else flags)
        in do {
          (prefix, uval, width) \<leftarrow> sign_prefix val width flags;
          width \<leftarrow> alternate_width base width flags;
          tmp \<leftarrow> (if val = 0 then Some ''0'' else digit_loop e digits base 24 uval []);
          let i = int (length tmp);
          let precision = (if i > precision then i else precision);
          width \<leftarrow> c_int (width - precision);
          (width, o1) \<leftarrow> (if flags AND (LEFT OR ZERO) = 0 then pad_while (CHR '' '') 0 width o1
                          else Some (width, o1));
          let o1 = (case prefix of None \<Rightarrow> o1 | Some c \<Rightarrow> PUT c o1);
          let o1 = put_alternate base flags o1;
          (width, o1) \<leftarrow> (if has flags ZERO then pad_while (CHR ''0'') 0 width o1
                          else Some (width, o1));
          (_, o1) \<leftarrow> pad_while (CHR ''0'') i precision o1;
          let o1 = put_back tmp (length tmp) o1;
          (_, o1) \<leftarrow> pad_while (CHR '' '') 0 width o1;
          Some o1
        })"

section \<open>fmt_string\<close>

text \<open>The loop \<open>for ( i = 0; i < len; ++i )\<close>, which expands line feeds on request.\<close>

fun put_string :: "u32 \<Rightarrow> char list \<Rightarrow> out \<Rightarrow> out" where
  "put_string flags [] o1 = o1"
| "put_string flags (c # cs) o1 =
     put_string flags cs
       (PUT c (if has flags LF_TO_CRLF \<and> c = LF then PUT CR o1 else o1))"

text \<open>\<open>val\<close> is \<open>None\<close> for a null pointer, else the bytes from \<open>val\<close> to the end of its object.\<close>

definition fmt_string ::
  "out \<Rightarrow> char list option \<Rightarrow> int \<Rightarrow> int \<Rightarrow> u32 \<Rightarrow> out option" where
  "fmt_string o1 val width precision flags =
     (let val = (case val of None \<Rightarrow> ''(NULL)'' @ [NUL] | Some v \<Rightarrow> v) in
      do {
        n \<leftarrow> (if precision < 0 then strlen val else strnlen val (nat precision));
        len \<leftarrow> c_int (int n);
        (width, o1) \<leftarrow> (if \<not> has flags LEFT then pad_while (CHR '' '') len width o1
                        else Some (width, o1));
        let o1 = put_string flags (take n val) o1;
        (_, o1) \<leftarrow> pad_while (CHR '' '') len width o1;
        Some o1
      })"

section \<open>Variadic arguments and pointer conversions\<close>

text \<open>
  An argument in the list is tagged with the C type it was passed with: \<open>int\<close>, \<open>long\<close> (also
  \<open>size_t\<close>), \<open>long long\<close>, a pointer to characters, a pointer only shown as a number, a pointer to
  a raw buffer.
\<close>

datatype varg =
    VaInt u32
  | VaLong u64
  | VaLLong u64
  | VaStr "char list option"
  | VaPtr u64
  | VaBuf "char list"

text \<open>
  The architecture's hook for \<open>%p\<close> modifiers, \<open>arch_fmt_pointer\<close>: from the output, the format at
  the \<open>p\<close>, the argument, width, precision and flags, whether it handled the conversion, the new
  output, and by how many characters it advanced the format pointer.
\<close>

type_synonym fmt_hook =
  "out \<Rightarrow> string \<Rightarrow> varg \<Rightarrow> int \<Rightarrow> int \<Rightarrow> u32 \<Rightarrow> (bool \<times> out \<times> nat) option"

text \<open>The weak default of \<open>common/weak-defaults.c\<close>.\<close>

definition weak_arch_fmt_pointer :: fmt_hook where
  "weak_arch_fmt_pointer o1 fmt arg width precision flags = Some (False, o1, 0)"

text \<open>Reading the format string, with its terminator.\<close>

definition fmt_at :: "string \<Rightarrow> nat \<Rightarrow> char" where
  "fmt_at fmt i = (if i < length fmt then fmt ! i else NUL)"

text \<open>
  The loop of the raw buffer dump: the bytes are read one at a time up to \<open>width\<close>, and a
  separator follows every byte but the last.
\<close>

fun hex_dump :: "env \<Rightarrow> char list \<Rightarrow> char option \<Rightarrow> nat \<Rightarrow> out \<Rightarrow> out option" where
  "hex_dump e [] sep n o1 = None"
| "hex_dump e (b # bs) sep n o1 =
     do {
       o1 \<leftarrow> fmt_number e o1 (of_int (uchar_of b)) 16 2 (-1) ZERO;
       if n \<le> 1 then Some o1
       else hex_dump e bs sep (n - 1) (case sep of None \<Rightarrow> o1 | Some c \<Rightarrow> PUT c o1)
     }"

text \<open>\<open>pointer()\<close>, with the characters it advances \<open>*fmt_ptr\<close> by.\<close>

definition pointer ::
  "fmt_hook \<Rightarrow> env \<Rightarrow> out \<Rightarrow> string \<Rightarrow> varg \<Rightarrow> int \<Rightarrow> int \<Rightarrow> u32 \<Rightarrow> (out \<times> nat) option" where
  "pointer hook e o1 fmt arg width precision flags =
     (if fmt_at fmt 1 = CHR ''h''
      then if width \<le> 0 then Some (o1, 1)
           else
             let width = (if width > 128 then 128 else width);
                 (sep, k) =
                   (if fmt_at fmt 2 = CHR ''C'' then (Some (CHR '':''), 2)
                    else if fmt_at fmt 2 = CHR ''D'' then (Some (CHR ''-''), 2)
                    else if fmt_at fmt 2 = CHR ''N'' then (None, 2)
                    else (Some (CHR '' ''), 1))
             in (case arg of
                   VaBuf buf \<Rightarrow> do { o1 \<leftarrow> hex_dump e buf sep (nat width) o1; Some (o1, k) }
                 | _ \<Rightarrow> None)
      else
        do {
          (handled, o1, k) \<leftarrow> hook o1 fmt arg width precision flags;
          if handled then Some (o1, k)
          else case arg of
            VaPtr p \<Rightarrow>
              let (width, flags) =
                    (if width = -1 then (2 * int (BITS_PER_LONG e div 8), flags OR ZERO)
                     else (width, flags))
              in do {
                o1 \<leftarrow> fmt_number e o1 (to_ulong e p) 16 width precision flags;
                Some (o1, k)
              }
          | _ \<Rightarrow> None
        })"

section \<open>One conversion specification\<close>

text \<open>\<open>next_flag\<close>: the flags after the percent sign.\<close>

fun parse_flags :: "string \<Rightarrow> u32 \<Rightarrow> string \<times> u32" where
  "parse_flags [] flags = ([], flags)"
| "parse_flags (c # cs) flags =
     (if c = CHR ''-'' then parse_flags cs (flags OR LEFT)
      else if c = CHR ''+'' then parse_flags cs (flags OR PLUS)
      else if c = CHR '' '' then parse_flags cs (flags OR SPACE)
      else if c = CHR ''#'' then parse_flags cs (flags OR ALTERNATE)
      else if c = CHR ''0'' then parse_flags cs (flags OR ZERO)
      else (c # cs, flags))"

fun va_int :: "varg list \<Rightarrow> (u32 \<times> varg list) option" where
  "va_int (VaInt i # args) = Some (i, args)"
| "va_int _ = None"

text \<open>A negative width is a left-justified width.\<close>

definition set_width :: "int \<Rightarrow> u32 \<Rightarrow> (int \<times> u32) option" where
  "set_width width flags =
     (if width < 0 then do { w \<leftarrow> c_int (- width); Some (w, flags OR LEFT) }
      else Some (width, flags))"

definition parse_width ::
  "string \<Rightarrow> varg list \<Rightarrow> u32 \<Rightarrow> (string \<times> varg list \<times> int \<times> u32) option" where
  "parse_width fmt args flags =
     (if fmt_at fmt 0 = CHR ''*''
      then do {
        (i, args) \<leftarrow> va_int args;
        (width, flags) \<leftarrow> set_width (sint i) flags;
        Some (drop 1 fmt, args, width, flags)
      }
      else if isdigit (fmt_at fmt 0)
      then do {
        (i, fmt) \<leftarrow> fmt_int fmt;
        (width, flags) \<leftarrow> set_width i flags;
        Some (fmt, args, width, flags)
      }
      else Some (fmt, args, -1, flags))"

definition parse_precision ::
  "string \<Rightarrow> varg list \<Rightarrow> (string \<times> varg list \<times> int) option" where
  "parse_precision fmt args =
     (if fmt_at fmt 0 = CHR ''.''
      then do {
        let fmt = drop 1 fmt;
        (fmt, args, precision) \<leftarrow>
          (if fmt_at fmt 0 = CHR ''*''
           then do { (i, args) \<leftarrow> va_int args; Some (drop 1 fmt, args, sint i) }
           else if isdigit (fmt_at fmt 0)
           then do { (i, fmt) \<leftarrow> fmt_int fmt; Some (fmt, args, i) }
           else Some (fmt, args, -1));
        Some (fmt, args, if precision < 0 then -1 else precision)
      }
      else Some (fmt, args, -1))"

text \<open>The two switches on the length modifier; it starts as \<open>'i'\<close>.\<close>

definition parse_length :: "string \<Rightarrow> string \<times> char" where
  "parse_length fmt =
     (let (fmt, m) =
        (if fmt_at fmt 0 = CHR ''h'' then (drop 1 fmt, CHR ''h'')
         else if fmt_at fmt 0 = CHR ''l'' then (drop 1 fmt, CHR ''l'')
         else if fmt_at fmt 0 = CHR ''z'' then (drop 1 fmt, CHR ''z'')
         else (fmt, CHR ''i''))
      in if fmt_at fmt 0 = CHR ''h'' then (drop 1 fmt, CHR ''H'')
         else if fmt_at fmt 0 = CHR ''l'' then (drop 1 fmt, CHR ''L'')
         else (fmt, m))"

text \<open>Base and flags of the numeric conversions; \<open>None\<close> for any other character.\<close>

definition number_conversion :: "char \<Rightarrow> u32 \<Rightarrow> (u32 \<times> u32) option" where
  "number_conversion c flags =
     (if c = CHR ''o'' then Some (8, flags)
      else if c = CHR ''d'' \<or> c = CHR ''i'' then Some (10, flags OR SIGNED)
      else if c = CHR ''u'' then Some (10, flags)
      else if c = CHR ''X'' then Some (16, flags OR UPPER)
      else if c = CHR ''x'' then Some (16, flags)
      else None)"

text \<open>
  Pull the argument and convert it, sign- or zero-extending to 64 bits. \<open>long\<close> has the width of
  the build.
\<close>

fun pull_number :: "env \<Rightarrow> char \<Rightarrow> u32 \<Rightarrow> varg list \<Rightarrow> (u64 \<times> varg list) option" where
  "pull_number e m flags (VaInt i # args) =
     (if m = CHR ''H''
      then Some (if has flags SIGNED then scast (ucast i :: u8) else ucast (ucast i :: u8), args)
      else if m = CHR ''h''
      then Some (if has flags SIGNED then scast (ucast i :: u16) else ucast (ucast i :: u16), args)
      else if m = CHR ''i''
      then Some (if has flags SIGNED then scast i else ucast i, args)
      else None)"
| "pull_number e m flags (VaLong l # args) =
     (if m = CHR ''z'' then Some (to_ulong e l, args)
      else if m = CHR ''l''
      then Some (if has flags SIGNED then signed_take_bit (BITS_PER_LONG e - 1) l
                 else to_ulong e l, args)
      else None)"
| "pull_number e m flags (VaLLong l # args) = (if m = CHR ''L'' then Some (l, args) else None)"
| "pull_number e m flags _ = None"

text \<open>
  The part of \<open>case 'c'\<close> from the label \<open>put_char\<close> on, shared with ordinary characters.
\<close>

definition put_char :: "char \<Rightarrow> int \<Rightarrow> u32 \<Rightarrow> out \<Rightarrow> out option" where
  "put_char c width flags o1 =
     (let o1 = (if has flags LF_TO_CRLF \<and> c = LF then PUT CR o1 else o1);
          o1 = PUT c o1
      in do { (_, o1) \<leftarrow> pad_pre (CHR '' '') width o1; Some o1 })"

text \<open>
  The body of the loop at a percent sign: the format pointer at the \<open>continue\<close> (the loop's
  \<open>++fmt\<close> comes after), the arguments left and the output.
\<close>

definition vs_spec ::
  "fmt_hook \<Rightarrow> env \<Rightarrow> u32 \<Rightarrow> string \<Rightarrow> varg list \<Rightarrow> out \<Rightarrow> (string \<times> varg list \<times> out) option" where
  "vs_spec hook e caller_flags spec_start args o1 =
     do {
       let (fmt, flags) = parse_flags (drop 1 spec_start) caller_flags;
       (fmt, args, width, flags) \<leftarrow> parse_width fmt args flags;
       (fmt, args, precision) \<leftarrow> parse_precision fmt args;
       let (fmt, length_mod) = parse_length fmt;
       let c = fmt_at fmt 0;
       if c = CHR ''%'' then Some (fmt, args, PUT (CHR ''%'') o1)
       else if c = CHR ''c''
       then do {
         (i, args) \<leftarrow> va_int args;
         (width, o1) \<leftarrow>
           (if \<not> has flags LEFT then pad_pre (CHR '' '') width o1 else Some (width, o1));
         o1 \<leftarrow> put_char (char_of (unat i)) width flags o1;
         Some (fmt, args, o1)
       }
       else if c = CHR ''s''
       then (case args of
               VaStr s # args \<Rightarrow>
                 do { o1 \<leftarrow> fmt_string o1 s width precision flags; Some (fmt, args, o1) }
             | _ \<Rightarrow> None)
       else if c = CHR ''p''
       then (case args of
               p # args \<Rightarrow>
                 do {
                   (o1, k) \<leftarrow> pointer hook e o1 fmt p width precision flags;
                   Some (drop k fmt, args, o1)
                 }
             | _ \<Rightarrow> None)
       else (case number_conversion c flags of
               None \<Rightarrow> Some (spec_start, args, PUT (CHR ''%'') o1)
             | Some (base, flags) \<Rightarrow>
                 do {
                   (num, args) \<leftarrow> pull_number e length_mod flags args;
                   o1 \<leftarrow> fmt_number e o1 num base width precision flags;
                   Some (fmt, args, o1)
                 })
     }"

section \<open>The format pointer only moves forward\<close>

lemma length_parse_flags: "length (fst (parse_flags fmt flags)) \<le> length fmt"
  by (induction fmt flags rule: parse_flags.induct) auto

lemma length_fmt_int_loop: "fmt_int_loop r fmt = Some (i, fmt') \<Longrightarrow> length fmt' \<le> length fmt"
  by (induction r fmt arbitrary: i fmt' rule: fmt_int_loop.induct)
    (fastforce split: if_splits Option.bind_splits)+

lemma length_parse_width:
  "parse_width fmt args flags = Some (fmt', args', w, fl) \<Longrightarrow> length fmt' \<le> length fmt"
  by (auto simp: parse_width_def fmt_int_def dest: length_fmt_int_loop
      split: if_splits Option.bind_splits)

lemma length_parse_precision:
  "parse_precision fmt args = Some (fmt', args', p) \<Longrightarrow> length fmt' \<le> length fmt"
  by (auto simp: parse_precision_def fmt_int_def Let_def dest!: length_fmt_int_loop
      split: if_splits Option.bind_splits)

lemma length_parse_length: "length (fst (parse_length fmt)) \<le> length fmt"
  by (auto simp: parse_length_def)

lemma length_vs_spec:
  assumes "vs_spec hook e cf fmt args o1 = Some (fmt', args', o2)"
  shows "length fmt' \<le> length fmt"
proof -
  obtain f1 fl1 where 1: "parse_flags (drop 1 fmt) cf = (f1, fl1)" by force
  from assms 1 obtain f2 a2 w2 fl2 where 2: "parse_width f1 args fl1 = Some (f2, a2, w2, fl2)"
    by (auto simp: vs_spec_def split: Option.bind_splits)
  from assms 1 2 obtain f3 a3 p3 where 3: "parse_precision f2 a2 = Some (f3, a3, p3)"
    by (auto simp: vs_spec_def split: Option.bind_splits)
  obtain f4 m4 where 4: "parse_length f3 = (f4, m4)" by force
  have le: "length f4 \<le> length fmt"
    using length_parse_flags [of "drop 1 fmt" cf] length_parse_width [OF 2]
      length_parse_precision [OF 3] length_parse_length [of f3] 1 4 by simp
  have "fmt' = f4 \<or> fmt' = fmt \<or> (\<exists>k. fmt' = drop k f4)"
    using assms 1 2 3 4
    by (auto simp: vs_spec_def Let_def split: Option.bind_splits if_splits list.splits varg.splits
        option.splits)
  with le show ?thesis by auto
qed

section \<open>vsnprintf_internal\<close>

function vs_loop ::
  "fmt_hook \<Rightarrow> env \<Rightarrow> u32 \<Rightarrow> string \<Rightarrow> varg list \<Rightarrow> out \<Rightarrow> out option" where
  "vs_loop hook e caller_flags fmt args o1 =
     (case fmt of
        [] \<Rightarrow> Some o1
      | c # rest \<Rightarrow>
          if c \<noteq> CHR ''%''
          then do {
            o1 \<leftarrow> put_char c (-1) caller_flags o1;
            vs_loop hook e caller_flags rest args o1
          }
          else do {
            (fmt', args, o1) \<leftarrow> vs_spec hook e caller_flags fmt args o1;
            vs_loop hook e caller_flags (drop 1 fmt') args o1
          })"
  by pat_completeness auto
termination
proof (relation "measure (\<lambda>(hook, e, cf, fmt, args, o1). length fmt)", goal_cases)
  case (3 hook e cf fmt args o1 c rest z x y xa ya)
  then show ?case using length_vs_spec [of hook e cf fmt args o1 x xa ya] by auto
qed auto

declare vs_loop.simps [simp del]

text \<open>The termination of the buffer at the end: room for the NUL, or truncation.\<close>

definition vs_finish :: "nat \<Rightarrow> out \<Rightarrow> char list" where
  "vs_finish sz o1 =
     (if str o1 < lim o1 then (mem o1)[str o1 := NUL]
      else if sz > 0 then (mem o1)[lim o1 - 1 := NUL]
      else mem o1)"

text \<open>\<open>buf\<close> is the memory from the buffer on; the result is the return value and the memory.\<close>

definition vsnprintf_internal ::
  "fmt_hook \<Rightarrow> env \<Rightarrow> char list \<Rightarrow> nat \<Rightarrow> string \<Rightarrow> varg list \<Rightarrow> u32 \<Rightarrow> (nat \<times> char list) option"
where
  "vsnprintf_internal hook e buf sz fmt args caller_flags =
     do {
       o1 \<leftarrow> vs_loop hook e caller_flags fmt args \<lparr>mem = buf, str = 0, lim = sz\<rparr>;
       Some (str o1, vs_finish sz o1)
     }"

definition vsnprintf ::
  "fmt_hook \<Rightarrow> env \<Rightarrow> char list \<Rightarrow> nat \<Rightarrow> string \<Rightarrow> varg list \<Rightarrow> (nat \<times> char list) option" where
  "vsnprintf hook e buf sz fmt args = vsnprintf_internal hook e buf sz fmt args 0"

text \<open>\<open>snprintf\<close> of \<open>common/libc/stdio.c\<close> hands its arguments on.\<close>

definition snprintf ::
  "fmt_hook \<Rightarrow> env \<Rightarrow> char list \<Rightarrow> nat \<Rightarrow> string \<Rightarrow> varg list \<Rightarrow> (nat \<times> char list) option" where
  "snprintf hook e buf sz fmt args = vsnprintf hook e buf sz fmt args"

end
