(* ===== verification/Machine.thy ===== *)
theory Machine imports
  Prelude
  Vsnprintf
begin

text \<open>
  The machine that the effectful code runs on. The hypervisor and the processor are not part of
  the repository: they are the parameter \<open>hw\<close>, a record of functions that answer each request as
  any function of the events so far. A C function that has effects is a \<open>prog\<close>: it reads and
  updates the static variables and appends to the trace the requests that it makes. The state is
  an extensible record: a component adds its static variables to \<open>machine\<close>. A path that does not
  return (a \<open>__noreturn\<close> function, or an exception that nothing handles) is the outcome \<open>Stop\<close>.
\<close>

section \<open>Events and the environment\<close>

text \<open>
  A hypercall carries its number, its register arguments (a pointer is not an argument here) and
  the words of the structure its pointer argument refers to, in the order of the fields.
\<close>

datatype ev =
    Printk string "varg list"
  | Hypercall nat "u64 list" "u64 list"
  | Rdmsr u32
  | Wrmsr u32 u64
  | Cpuid u32 u32
  | MmioRd nat u64
  | MmioWr nat u64 u64
  | PortWr u16 string
  | Insn string "u64 list"

text \<open>
  \<open>hw_env\<close> is the build configuration the code was compiled for. The other fields are the
  answers: the return value of a hypercall and the words of the structure after it; \<open>None\<close>
  where the instruction faults, and then \<open>hw_fault\<close> is the vector and the error code of the exception.
\<close>

record hw =
  hw_env :: env
  hw_hypercall :: "ev list \<Rightarrow> nat \<Rightarrow> u64 list \<Rightarrow> u64 list \<Rightarrow> int \<times> u64 list"
  hw_rdmsr :: "ev list \<Rightarrow> u32 \<Rightarrow> u64 option"
  hw_wrmsr :: "ev list \<Rightarrow> u32 \<Rightarrow> u64 \<Rightarrow> bool"
  hw_cpuid :: "ev list \<Rightarrow> u32 \<Rightarrow> u32 \<Rightarrow> u32 \<times> u32 \<times> u32 \<times> u32"
  hw_mmio :: "ev list \<Rightarrow> nat \<Rightarrow> u64 \<Rightarrow> u64"
  hw_insn :: "ev list \<Rightarrow> string \<Rightarrow> u64 list \<Rightarrow> u64 list option"
  hw_fault :: "ev list \<Rightarrow> string \<Rightarrow> u64 list \<Rightarrow> u32 \<times> u32"

record machine =
  trace :: "ev list"

datatype ('s, 'a) outcome = Done 'a 's | Stop 's

type_synonym ('s, 'a) prog = "hw \<Rightarrow> 's \<Rightarrow> ('s, 'a) outcome"

fun final :: "('s, 'a) outcome \<Rightarrow> 's" where
  "final (Done a s) = s"
| "final (Stop s) = s"

fun returned :: "('s, 'a) outcome \<Rightarrow> 'a option" where
  "returned (Done a s) = Some a"
| "returned (Stop s) = None"

section \<open>Sequencing\<close>

definition ret :: "'a \<Rightarrow> ('s, 'a) prog" where
  "ret a = (\<lambda>h s. Done a s)"

definition halt :: "('s, 'a) prog" where
  "halt = (\<lambda>h s. Stop s)"

definition bnd :: "('s, 'a) prog \<Rightarrow> ('a \<Rightarrow> ('s, 'b) prog) \<Rightarrow> ('s, 'b) prog" where
  "bnd m f = (\<lambda>h s. case m h s of Done a s1 \<Rightarrow> f a h s1 | Stop s1 \<Rightarrow> Stop s1)"

definition seq :: "('s, 'a) prog \<Rightarrow> ('s, 'b) prog \<Rightarrow> ('s, 'b) prog" where
  "seq m n = bnd m (\<lambda>_. n)"

fun block :: "('s, unit) prog list \<Rightarrow> ('s, unit) prog" where
  "block [] = ret ()"
| "block (p # ps) = seq p (block ps)"

definition when1 :: "bool \<Rightarrow> ('s, unit) prog \<Rightarrow> ('s, unit) prog" where
  "when1 b p = (if b then p else ret ())"

definition fetch :: "('s \<Rightarrow> 'a) \<Rightarrow> ('s, 'a) prog" where
  "fetch f = (\<lambda>h s. Done (f s) s)"

definition update :: "('s \<Rightarrow> 's) \<Rightarrow> ('s, unit) prog" where
  "update f = (\<lambda>h s. Done () (f s))"

text \<open>A statement that discards the value of the call it makes.\<close>

definition void :: "('s, 'a) prog \<Rightarrow> ('s, unit) prog" where
  "void m = seq m (ret ())"

lemma ret_run [io_simps]: "ret a h s = Done a s" by (simp add: ret_def)
lemma halt_run [io_simps]: "halt h s = Stop s" by (simp add: halt_def)
lemma fetch_run [io_simps]: "fetch f h s = Done (f s) s" by (simp add: fetch_def)
lemma update_run [io_simps]: "update f h s = Done () (f s)" by (simp add: update_def)

lemma bnd_Done: "m h s = Done a s1 \<Longrightarrow> bnd m f h s = f a h s1" by (simp add: bnd_def)
lemma bnd_Stop: "m h s = Stop s1 \<Longrightarrow> bnd m f h s = Stop s1" by (simp add: bnd_def)

lemma bnd_ret [simp]: "bnd (ret a) f = f a" by (simp add: bnd_def fun_eq_iff ret_def)
lemma bnd_halt [simp]: "bnd halt f = halt" by (simp add: bnd_def fun_eq_iff halt_def)
lemma ret_bnd [simp]: "bnd m ret = m" by (simp add: bnd_def fun_eq_iff ret_def split: outcome.split)

lemma bnd_bnd: "bnd (bnd m f) g = bnd m (\<lambda>a. bnd (f a) g)"
  by (simp add: bnd_def fun_eq_iff split: outcome.split)

lemma seq_ret [simp]: "seq (ret a) p = p" by (simp add: seq_def)
lemma seq_halt [simp]: "seq halt p = halt" by (simp add: seq_def)
lemma seq_seq: "seq (seq p q) r = seq p (seq q r)" by (simp add: seq_def bnd_bnd)

lemma bnd_run [io_simps]:
  "bnd m f h s = (case m h s of Done a s1 \<Rightarrow> f a h s1 | Stop s1 \<Rightarrow> Stop s1)"
  by (simp add: bnd_def)

lemma seq_run [io_simps]:
  "seq m n h s = (case m h s of Done a s1 \<Rightarrow> n h s1 | Stop s1 \<Rightarrow> Stop s1)"
  by (simp add: seq_def bnd_def)

lemma when1_run [io_simps]: "when1 b p h s = (if b then p h s else Done () s)"
  by (simp add: when1_def ret_run)

lemma void_run [io_simps]:
  "void m h s = (case m h s of Done a s1 \<Rightarrow> Done () s1 | Stop s1 \<Rightarrow> Stop s1)"
  by (simp add: void_def seq_run ret_run split: outcome.split)

lemma block_append: "block (ps @ qs) = seq (block ps) (block qs)"
  by (induction ps) (simp_all add: seq_seq)

lemmas block_simps [io_simps] = block.simps

text \<open>The preprocessor symbols of the build, as \<open>IS_DEFINED(..)\<close> reads them.\<close>

definition config :: "(env \<Rightarrow> 'a) \<Rightarrow> ('s, 'a) prog" where
  "config f = (\<lambda>h s. Done (f (hw_env h)) s)"

lemma config_run [io_simps]: "config f h s = Done (f (hw_env h)) s"
  by (simp add: config_def)

section \<open>Requests\<close>

definition emit :: "ev \<Rightarrow> ('z machine_scheme, unit) prog" where
  "emit e = (\<lambda>h s. Done () (s\<lparr>trace := trace s @ [e]\<rparr>))"

definition printk :: "string \<Rightarrow> varg list \<Rightarrow> ('z machine_scheme, unit) prog" where
  "printk fmt args = emit (Printk fmt args)"

definition hypercall :: "nat \<Rightarrow> u64 list \<Rightarrow> u64 list \<Rightarrow> ('z machine_scheme, int \<times> u64 list) prog" where
  "hypercall nr args words =
     (\<lambda>h s. Done (hw_hypercall h (trace s) nr args words)
              (s\<lparr>trace := trace s @ [Hypercall nr args words]\<rparr>))"

text \<open>\<open>rdmsr\<close> and \<open>wrmsr\<close>: a \<open>#GP\<close> that no table entry handles ends the run.\<close>

definition rdmsr :: "u32 \<Rightarrow> ('z machine_scheme, u64) prog" where
  "rdmsr idx =
     (\<lambda>h s. let s1 = (s\<lparr>trace := trace s @ [Rdmsr idx]\<rparr>) in
        case hw_rdmsr h (trace s) idx of Some v \<Rightarrow> Done v s1 | None \<Rightarrow> Stop s1)"

definition wrmsr :: "u32 \<Rightarrow> u64 \<Rightarrow> ('z machine_scheme, unit) prog" where
  "wrmsr idx val =
     (\<lambda>h s. let s1 = (s\<lparr>trace := trace s @ [Wrmsr idx val]\<rparr>) in
        if hw_wrmsr h (trace s) idx val then Done () s1 else Stop s1)"

definition cpuid_count :: "u32 \<Rightarrow> u32 \<Rightarrow> ('z machine_scheme, u32 \<times> u32 \<times> u32 \<times> u32) prog" where
  "cpuid_count leaf subleaf =
     (\<lambda>h s. Done (hw_cpuid h (trace s) leaf subleaf)
              (s\<lparr>trace := trace s @ [Cpuid leaf subleaf]\<rparr>))"

definition cpuid :: "u32 \<Rightarrow> ('z machine_scheme, u32 \<times> u32 \<times> u32 \<times> u32) prog" where
  "cpuid leaf = cpuid_count leaf 0"

text \<open>An access of \<open>w\<close> bits, with \<open>w\<close> 32 or 64, at an address of the MMIO space.\<close>

definition mmio_read :: "nat \<Rightarrow> u64 \<Rightarrow> ('z machine_scheme, u64) prog" where
  "mmio_read w addr =
     (\<lambda>h s. Done (take_bit w (hw_mmio h (trace s) w addr)) (s\<lparr>trace := trace s @ [MmioRd w addr]\<rparr>))"

definition mmio_write :: "nat \<Rightarrow> u64 \<Rightarrow> u64 \<Rightarrow> ('z machine_scheme, unit) prog" where
  "mmio_write w addr v = emit (MmioWr w addr v)"

text \<open>An instruction that may fault under an exception-table entry: \<open>None\<close> when it did.\<close>

definition insn_safe :: "string \<Rightarrow> u64 list \<Rightarrow> ('z machine_scheme, u64 list option) prog" where
  "insn_safe name ops =
     (\<lambda>h s. Done (hw_insn h (trace s) name ops) (s\<lparr>trace := trace s @ [Insn name ops]\<rparr>))"

text \<open>The same instruction without an entry: a fault ends the run.\<close>

definition insn :: "string \<Rightarrow> u64 list \<Rightarrow> ('z machine_scheme, u64 list) prog" where
  "insn name ops = bnd (insn_safe name ops) (\<lambda>r. case r of Some vs \<Rightarrow> ret vs | None \<Rightarrow> halt)"

lemma emit_run [io_simps]: "emit e h s = Done () (s\<lparr>trace := trace s @ [e]\<rparr>)"
  by (simp add: emit_def)

lemma printk_run [io_simps]: "printk fmt args h s = Done () (s\<lparr>trace := trace s @ [Printk fmt args]\<rparr>)"
  by (simp add: printk_def emit_run)

lemma hypercall_run [io_simps]:
  "hypercall nr args ws h s =
     Done (hw_hypercall h (trace s) nr args ws) (s\<lparr>trace := trace s @ [Hypercall nr args ws]\<rparr>)"
  by (simp add: hypercall_def)

lemma rdmsr_run [io_simps]:
  "rdmsr idx h s = (case hw_rdmsr h (trace s) idx of
       Some v \<Rightarrow> Done v (s\<lparr>trace := trace s @ [Rdmsr idx]\<rparr>)
     | None \<Rightarrow> Stop (s\<lparr>trace := trace s @ [Rdmsr idx]\<rparr>))"
  by (simp add: rdmsr_def Let_def)

lemma wrmsr_run [io_simps]:
  "wrmsr idx val h s = (if hw_wrmsr h (trace s) idx val
     then Done () (s\<lparr>trace := trace s @ [Wrmsr idx val]\<rparr>)
     else Stop (s\<lparr>trace := trace s @ [Wrmsr idx val]\<rparr>))"
  by (simp add: wrmsr_def Let_def)

lemma cpuid_count_run [io_simps]:
  "cpuid_count l c h s = Done (hw_cpuid h (trace s) l c) (s\<lparr>trace := trace s @ [Cpuid l c]\<rparr>)"
  by (simp add: cpuid_count_def)

lemma cpuid_run [io_simps]:
  "cpuid l h s = Done (hw_cpuid h (trace s) l 0) (s\<lparr>trace := trace s @ [Cpuid l 0]\<rparr>)"
  by (simp add: cpuid_def cpuid_count_run)

lemma mmio_read_run [io_simps]:
  "mmio_read w a h s = Done (take_bit w (hw_mmio h (trace s) w a)) (s\<lparr>trace := trace s @ [MmioRd w a]\<rparr>)"
  by (simp add: mmio_read_def)

lemma mmio_write_run [io_simps]:
  "mmio_write w a v h s = Done () (s\<lparr>trace := trace s @ [MmioWr w a v]\<rparr>)"
  by (simp add: mmio_write_def emit_run)

lemma insn_safe_run [io_simps]:
  "insn_safe n ops h s = Done (hw_insn h (trace s) n ops) (s\<lparr>trace := trace s @ [Insn n ops]\<rparr>)"
  by (simp add: insn_safe_def)

lemma insn_run [io_simps]:
  "insn n ops h s = (case hw_insn h (trace s) n ops of
       Some vs \<Rightarrow> Done vs (s\<lparr>trace := trace s @ [Insn n ops]\<rparr>)
     | None \<Rightarrow> Stop (s\<lparr>trace := trace s @ [Insn n ops]\<rparr>))"
  by (simp add: insn_def bnd_run insn_safe_run halt_run ret_run split: option.split)

section \<open>Hypercall wrappers of include/xtf/hypercall.h\<close>

definition DOMID_SELF :: u64 where [xtf_consts]: "DOMID_SELF = 0x7ff0"
definition DOMID_FIRST_RESERVED :: u64 where [xtf_consts]: "DOMID_FIRST_RESERVED = 0x7ff0"
definition SHUTDOWN_poweroff :: u64 where [xtf_consts]: "SHUTDOWN_poweroff = 0"
definition SHUTDOWN_crash :: u64 where [xtf_consts]: "SHUTDOWN_crash = 3"

definition hypercall_set_trap_table :: "u64 list \<Rightarrow> ('z machine_scheme, int) prog" where
  "hypercall_set_trap_table ti = bnd (hypercall 0 [] ti) (\<lambda>(rc, _). ret rc)"

definition hypercall_set_gdt :: "u64 list \<Rightarrow> u64 \<Rightarrow> ('z machine_scheme, int) prog" where
  "hypercall_set_gdt mfns entries = bnd (hypercall 2 [entries] mfns) (\<lambda>(rc, _). ret rc)"

definition hypercall_stack_switch :: "u64 \<Rightarrow> u64 \<Rightarrow> ('z machine_scheme, int) prog" where
  "hypercall_stack_switch ss sp = bnd (hypercall 3 [ss, sp] []) (\<lambda>(rc, _). ret rc)"

text \<open>The last of the words is \<open>*done\<close>.\<close>

definition hypercall_mmu_update ::
  "u64 list \<Rightarrow> u64 \<Rightarrow> u64 \<Rightarrow> u64 \<Rightarrow> ('z machine_scheme, int \<times> u64 list) prog" where
  "hypercall_mmu_update reqs n done_count foreigndom = hypercall 1 [n, foreigndom] (reqs @ [done_count])"

definition hypercall_set_debugreg :: "u32 \<Rightarrow> u64 \<Rightarrow> ('z machine_scheme, int) prog" where
  "hypercall_set_debugreg reg val = bnd (hypercall 8 [ucast reg, val] []) (\<lambda>(rc, _). ret rc)"

definition hypercall_get_debugreg :: "u32 \<Rightarrow> ('z machine_scheme, int) prog" where
  "hypercall_get_debugreg reg = bnd (hypercall 9 [ucast reg] []) (\<lambda>(rc, _). ret rc)"

text \<open>A 64-bit argument is one register, or two on a 32-bit build.\<close>

definition split_arg :: "env \<Rightarrow> u64 \<Rightarrow> u64 list" where
  "split_arg e v = (if CONFIG_64BIT e then [v] else [take_bit 32 v, drop_bit 32 v])"

definition hypercall_update_descriptor :: "env \<Rightarrow> u64 \<Rightarrow> u64 \<Rightarrow> ('z machine_scheme, int) prog" where
  "hypercall_update_descriptor e maddr desc =
     bnd (hypercall 10 (split_arg e maddr @ split_arg e desc) []) (\<lambda>(rc, _). ret rc)"

definition hypercall_memory_op :: "u64 \<Rightarrow> u64 list \<Rightarrow> ('z machine_scheme, int \<times> u64 list) prog" where
  "hypercall_memory_op cmd arg = hypercall 12 [cmd] arg"

definition hypercall_multicall :: "u64 list \<Rightarrow> u32 \<Rightarrow> ('z machine_scheme, int \<times> u64 list) prog" where
  "hypercall_multicall calls nr = hypercall 13 [ucast nr] calls"

definition hypercall_update_va_mapping ::
  "env \<Rightarrow> u64 \<Rightarrow> u64 \<Rightarrow> u64 \<Rightarrow> ('z machine_scheme, int) prog" where
  "hypercall_update_va_mapping e linear npte flags =
     bnd (hypercall 14 (if CONFIG_64BIT e then [linear, npte, flags]
                        else [linear, take_bit 32 npte, drop_bit 32 npte, flags]) [])
       (\<lambda>(rc, _). ret rc)"

definition hypercall_console_write :: "string \<Rightarrow> ('z machine_scheme, unit) prog" where
  "hypercall_console_write buf =
     void (hypercall 18 [0, of_nat (length buf)] (map (\<lambda>c. of_int (uchar_of c)) buf))"

definition hypercall_xen_version :: "u32 \<Rightarrow> u64 list \<Rightarrow> ('z machine_scheme, int \<times> u64 list) prog" where
  "hypercall_xen_version cmd arg = hypercall 17 [ucast cmd] arg"

definition hypercall_grant_table_op ::
  "u64 \<Rightarrow> u64 list \<Rightarrow> u64 \<Rightarrow> ('z machine_scheme, int \<times> u64 list) prog" where
  "hypercall_grant_table_op cmd args n = hypercall 20 [cmd, n] args"

definition hypercall_vm_assist :: "u32 \<Rightarrow> u32 \<Rightarrow> ('z machine_scheme, int) prog" where
  "hypercall_vm_assist cmd type = bnd (hypercall 21 [ucast cmd, ucast type] []) (\<lambda>(rc, _). ret rc)"

definition hypercall_vcpu_op :: "u32 \<Rightarrow> u32 \<Rightarrow> u64 list \<Rightarrow> ('z machine_scheme, int \<times> u64 list) prog" where
  "hypercall_vcpu_op cmd vcpu extra = hypercall 24 [ucast cmd, ucast vcpu] extra"

definition hypercall_mmuext_op :: "u64 list \<Rightarrow> u64 \<Rightarrow> u64 \<Rightarrow> ('z machine_scheme, int) prog" where
  "hypercall_mmuext_op ops n foreigndom =
     bnd (hypercall 26 [n, foreigndom] ops) (\<lambda>(rc, _). ret rc)"

definition hypercall_sched_op :: "u64 \<Rightarrow> u64 list \<Rightarrow> ('z machine_scheme, int) prog" where
  "hypercall_sched_op cmd arg = bnd (hypercall 29 [cmd] arg) (\<lambda>(rc, _). ret rc)"

definition hypercall_callback_op :: "u64 \<Rightarrow> u64 list \<Rightarrow> ('z machine_scheme, int) prog" where
  "hypercall_callback_op cmd arg = bnd (hypercall 30 [cmd] arg) (\<lambda>(rc, _). ret rc)"

definition hypercall_event_channel_op ::
  "u64 \<Rightarrow> u64 list \<Rightarrow> ('z machine_scheme, int \<times> u64 list) prog" where
  "hypercall_event_channel_op cmd arg = hypercall 32 [cmd] arg"

definition hypercall_physdev_op :: "u32 \<Rightarrow> u64 list \<Rightarrow> ('z machine_scheme, int \<times> u64 list) prog" where
  "hypercall_physdev_op cmd arg = hypercall 33 [ucast cmd] arg"

definition hypercall_hvm_op :: "u64 \<Rightarrow> u64 list \<Rightarrow> ('z machine_scheme, int \<times> u64 list) prog" where
  "hypercall_hvm_op cmd arg = hypercall 34 [cmd] arg"

text \<open>The words of \<open>xen_sysctl_t\<close> that the code sets: \<open>cmd\<close> and \<open>interface_version\<close>.\<close>

definition hypercall_sysctl :: "u64 \<Rightarrow> u64 \<Rightarrow> ('z machine_scheme, int) prog" where
  "hypercall_sysctl cmd version = bnd (hypercall 35 [] [cmd, version]) (\<lambda>(rc, _). ret rc)"

definition hypercall_argo_op ::
  "u64 \<Rightarrow> u64 list \<Rightarrow> u64 list \<Rightarrow> u64 \<Rightarrow> u64 \<Rightarrow> ('z machine_scheme, int \<times> u64 list) prog" where
  "hypercall_argo_op cmd arg1 arg2 arg3 arg4 = hypercall 39 [cmd, arg3, arg4] (arg1 @ arg2)"

definition hypercall_shutdown :: "u64 \<Rightarrow> ('z machine_scheme, int) prog" where
  "hypercall_shutdown reason = hypercall_sched_op 2 [reason]"

definition hypercall_yield :: "('z machine_scheme, unit) prog" where
  "hypercall_yield = void (hypercall_sched_op 0 [])"

text \<open>\<open>struct sched_poll\<close>: the ports (here the one port), \<open>nr_ports\<close> and the timeout 0.\<close>

definition hypercall_poll :: "u32 \<Rightarrow> ('z machine_scheme, int) prog" where
  "hypercall_poll port = hypercall_sched_op 3 [ucast port, 1, 0]"

definition hypercall_register_callback :: "u64 list \<Rightarrow> ('z machine_scheme, int) prog" where
  "hypercall_register_callback cb = hypercall_callback_op 0 cb"

definition hypercall_evtchn_close :: "u64 \<Rightarrow> ('z machine_scheme, int) prog" where
  "hypercall_evtchn_close port = bnd (hypercall_event_channel_op 3 [port]) (\<lambda>(rc, _). ret rc)"

definition hypercall_evtchn_send :: "u32 \<Rightarrow> ('z machine_scheme, int) prog" where
  "hypercall_evtchn_send port = bnd (hypercall_event_channel_op 4 [ucast port]) (\<lambda>(rc, _). ret rc)"

text \<open>\<open>struct evtchn_status\<close>: dom, port, and, filled in by Xen, status, vcpu and the remote domain.\<close>

definition hypercall_evtchn_status ::
  "u64 list \<Rightarrow> ('z machine_scheme, int \<times> u64 list) prog" where
  "hypercall_evtchn_status status = hypercall_event_channel_op 5 status"

text \<open>\<open>struct evtchn_alloc_unbound\<close>: dom, remote_dom, and the port filled in by Xen.\<close>

definition hypercall_evtchn_alloc_unbound ::
  "u64 list \<Rightarrow> ('z machine_scheme, int \<times> u64 list) prog" where
  "hypercall_evtchn_alloc_unbound ub = hypercall_event_channel_op 6 ub"

text \<open>\<open>xen_hvm_param_t\<close>: domid, index, value.\<close>

definition hvm_set_param :: "u64 \<Rightarrow> u64 \<Rightarrow> ('z machine_scheme, int) prog" where
  "hvm_set_param idx val = bnd (hypercall_hvm_op 0 [DOMID_SELF, idx, val]) (\<lambda>(rc, _). ret rc)"

definition hvm_get_param :: "u64 \<Rightarrow> ('z machine_scheme, int \<times> u64 option) prog" where
  "hvm_get_param idx =
     bnd (hypercall_hvm_op 1 [DOMID_SELF, idx, 0]) (\<lambda>(rc, p).
     ret (rc, if rc = 0 then Some (p ! 2) else None))"

lemmas hypercall_defs [io_simps] =
  hypercall_set_trap_table_def hypercall_set_gdt_def hypercall_stack_switch_def
  hypercall_mmu_update_def hypercall_set_debugreg_def hypercall_get_debugreg_def
  hypercall_update_descriptor_def hypercall_multicall_def hypercall_xen_version_def
  hypercall_vm_assist_def hypercall_vcpu_op_def hypercall_callback_op_def hypercall_physdev_op_def
  hypercall_memory_op_def hypercall_update_va_mapping_def hypercall_console_write_def
  hypercall_grant_table_op_def hypercall_mmuext_op_def hypercall_sched_op_def
  hypercall_event_channel_op_def hypercall_hvm_op_def hypercall_sysctl_def hypercall_argo_op_def
  hypercall_shutdown_def hypercall_yield_def hypercall_poll_def hypercall_register_callback_def
  hypercall_evtchn_close_def hypercall_evtchn_send_def hypercall_evtchn_status_def
  hypercall_evtchn_alloc_unbound_def hvm_set_param_def hvm_get_param_def

section \<open>A machine that accepts everything\<close>

definition accept_hw :: "env \<Rightarrow> hw" where
  "accept_hw e =
     \<lparr>hw_env = e, hw_hypercall = (\<lambda>t nr args ws. (0, ws)), hw_rdmsr = (\<lambda>t i. Some 0),
      hw_wrmsr = (\<lambda>t i v. True), hw_cpuid = (\<lambda>t l c. (0, 0, 0, 0)), hw_mmio = (\<lambda>t w a. 0),
      hw_insn = (\<lambda>t n ops. Some [0, 0, 0, 0]), hw_fault = (\<lambda>t n ops. (13, 0))\<rparr>"

lemma accept_hw_simps [simp]:
  "hw_env (accept_hw e) = e" "hw_hypercall (accept_hw e) t nr args ws = (0, ws)"
  "hw_rdmsr (accept_hw e) t i = Some 0" "hw_wrmsr (accept_hw e) t i v = True"
  "hw_cpuid (accept_hw e) t l c = (0, 0, 0, 0)" "hw_mmio (accept_hw e) t w a = 0"
  "hw_insn (accept_hw e) t n ops = Some [0, 0, 0, 0]" "hw_fault (accept_hw e) t n ops = (13, 0)"
  by (simp_all add: accept_hw_def)

definition machine0 :: machine where [init_states]: "machine0 = \<lparr>trace = []\<rparr>"

declare machine.defs [init_states]

end
