(* ===== verification/Framework.thy ===== *)
theory Framework imports
  Machine
begin

text \<open>
  The end of every run, and the probing of the hypervisor: \<open>panic()\<close> and
  \<open>xtf_probe_sysctl_interface_version()\<close> and \<open>evtchn_get_domid()\<close> of \<open>common/lib.c\<close>, with
  \<open>arch_crash_hard()\<close> of \<open>arch/x86/pv/traps.c\<close> and \<open>arch/x86/hvm/traps.c\<close>.
\<close>

section \<open>Panic\<close>

text \<open>
  \<open>arch_crash_hard()\<close>: a PV guest pushes to an invalid stack, an HVM guest halts with interrupts
  disabled; what follows is a loop that is never left.
\<close>

definition arch_crash_hard :: "('z machine_scheme, 'a) prog" where
  "arch_crash_hard =
     bnd (config id) (\<lambda>e.
     seq (if CONFIG_PV e
          then emit (Insn ''pushf'' [if CONFIG_64BIT e then 0x800000000badc0de else 0xfbadc0de])
          else seq (emit (Insn ''cli'' [])) (emit (Insn ''hlt'' [])))
     halt)"

definition PANIC_RULE :: string where
  "PANIC_RULE = replicate 30 (CHR ''*'') @ [LF]"

definition panic :: "string \<Rightarrow> varg list \<Rightarrow> ('z machine_scheme, 'a) prog" where
  "panic fmt args =
     seq (printk PANIC_RULE []) (
     seq (printk ''PANIC: '' []) (
     seq (printk fmt args) (
     seq (printk PANIC_RULE []) (
     seq (hypercall_shutdown SHUTDOWN_crash)
     arch_crash_hard))))"

text \<open>\<open>ASSERT(cond)\<close> of \<open>include/xtf/lib.h\<close>: the text of the condition, the file and the line.\<close>

definition ASSERT :: "bool \<Rightarrow> string \<Rightarrow> string \<Rightarrow> u32 \<Rightarrow> ('z machine_scheme, unit) prog" where
  "ASSERT cond text file line =
     (if \<not> cond
      then panic (''ASSERT(%s) failed at %s:%u'' @ [LF])
             [VaStr (Some (text @ [NUL])), VaStr (Some (file @ [NUL])), VaInt line]
      else ret ())"

text \<open>A \<open>uint64_t\<close> argument and its conversion: \<open>long\<close> in 64-bit builds, \<open>long long\<close> in 32-bit ones.\<close>

definition PRIx64 :: "env \<Rightarrow> string" where
  "PRIx64 e = (if CONFIG_64BIT e then ''lx'' else ''llx'')"

definition va_u64 :: "env \<Rightarrow> u64 \<Rightarrow> varg" where
  "va_u64 e v = (if CONFIG_64BIT e then VaLong v else VaLLong v)"

text \<open>The requests of a panic, in order: the report, the shutdown and the attempt to crash.\<close>

definition crash_events :: "env \<Rightarrow> ev list" where
  "crash_events e =
     (if CONFIG_PV e
      then [Insn ''pushf'' [if CONFIG_64BIT e then 0x800000000badc0de else 0xfbadc0de]]
      else [Insn ''cli'' [], Insn ''hlt'' []])"

definition panic_events :: "env \<Rightarrow> string \<Rightarrow> varg list \<Rightarrow> ev list" where
  "panic_events e fmt args =
     [Printk PANIC_RULE [], Printk ''PANIC: '' [], Printk fmt args, Printk PANIC_RULE [],
      Hypercall 29 [2] [3]] @ crash_events e"

lemma arch_crash_hard_run [io_simps]:
  "arch_crash_hard h s = Stop (s\<lparr>trace := trace s @ crash_events (hw_env h)\<rparr>)"
  by (simp add: arch_crash_hard_def io_simps crash_events_def)

lemma panic_run [io_simps]:
  "panic fmt args h s = Stop (s\<lparr>trace := trace s @ panic_events (hw_env h) fmt args\<rparr>)"
  by (simp add: panic_def panic_events_def io_simps xtf_consts split: prod.split)

lemma bnd_panic [simp]: "bnd (panic fmt args) f = panic fmt args"
  by (simp add: fun_eq_iff io_simps)

lemma ASSERT_True [simp, io_simps]: "ASSERT True t f l = ret ()"
  by (simp add: ASSERT_def)

section \<open>Probing the sysctl interface version\<close>

definition EACCES :: int where [xtf_consts]: "EACCES = 13"
definition EIO :: int where [xtf_consts]: "EIO = 5"
definition ENODEV :: int where [xtf_consts]: "ENODEV = 19"
definition ENOSYS :: int where [xtf_consts]: "ENOSYS = 38"
definition EPERM :: int where [xtf_consts]: "EPERM = 1"
definition ENOMEM :: int where [xtf_consts]: "ENOMEM = 12"
definition EINVAL :: int where [xtf_consts]: "EINVAL = 22"

text \<open>The loop over \<open>i < 128\<close>, with \<open>n\<close> the iterations that are left.\<close>

fun probe_sysctl_from :: "nat \<Rightarrow> nat \<Rightarrow> ('z machine_scheme, int) prog" where
  "probe_sysctl_from 0 i = ret (- 1)"
| "probe_sysctl_from (Suc n) i =
     bnd (hypercall_sysctl 0 (of_nat i)) (\<lambda>rc.
     if rc \<noteq> - EACCES then ret (int i) else probe_sysctl_from n (Suc i))"

definition xtf_probe_sysctl_interface_version :: "('z machine_scheme, int) prog" where
  "xtf_probe_sysctl_interface_version = probe_sysctl_from 128 0"

section \<open>The domain id from an event channel\<close>

text \<open>
  The union of the two structures is written as its fields: after the allocation word 2 is the
  port; after the status call word 4 is the remote domain, a 16-bit field.
\<close>

definition evtchn_get_domid :: "('z machine_scheme, int) prog" where
  "evtchn_get_domid =
     bnd (hypercall_evtchn_alloc_unbound [DOMID_SELF, DOMID_SELF, 0]) (\<lambda>(rc, alloc).
     if rc \<noteq> 0 then ret (- 1)
     else
       let port = alloc ! 2 in
       bnd (hypercall_evtchn_status [DOMID_SELF, port, 0, 0, 0]) (\<lambda>(rc, status).
       seq (hypercall_evtchn_close port)
       (if rc \<noteq> 0 then ret (- 1) else ret (uint (ucast (status ! 4) :: u16)))))"

section \<open>What they do\<close>

text \<open>The versions that the hypervisor refuses with \<open>-EACCES\<close>, whatever was asked before.\<close>

definition sysctl_refuses :: "hw \<Rightarrow> nat \<Rightarrow> bool" where
  "sysctl_refuses h i \<longleftrightarrow> (\<forall>t. fst (hw_hypercall h t 35 [] [0, of_nat i]) = - EACCES)"

definition sysctl_accepts :: "hw \<Rightarrow> nat \<Rightarrow> bool" where
  "sysctl_accepts h i \<longleftrightarrow> (\<forall>t. fst (hw_hypercall h t 35 [] [0, of_nat i]) \<noteq> - EACCES)"

lemma probe_sysctl_from_found:
  fixes s :: "'z machine_scheme"
  assumes "i \<le> v" "v < i + n" "sysctl_accepts h v" "\<And>k. i \<le> k \<Longrightarrow> k < v \<Longrightarrow> sysctl_refuses h k"
  shows "returned (probe_sysctl_from n i h s) = Some (int v)"
  using assms
proof (induction n arbitrary: i s)
  case 0
  then show ?case by simp
next
  case (Suc n)
  show ?case
  proof (cases "i = v")
    case True
    then show ?thesis
      using Suc.prems(3)
      by (cases "hw_hypercall h (trace s) 35 [] [0, of_nat v]")
        (auto simp: io_simps sysctl_accepts_def dest: spec [of _ "trace s"])
  next
    case False
    have "fst (hw_hypercall h (trace s) 35 [] [0, of_nat i]) = - EACCES"
      using Suc.prems(4) [of i] Suc.prems(1) False by (simp add: sysctl_refuses_def)
    moreover have "returned (probe_sysctl_from n (Suc i) h s1) = Some (int v)" for s1 :: "'z machine_scheme"
      using Suc.prems False by (intro Suc.IH) auto
    ultimately show ?thesis
      by (auto simp: io_simps split: prod.split)
  qed
qed

lemma probe_sysctl_from_refused:
  fixes s :: "'z machine_scheme"
  assumes "\<And>k. i \<le> k \<Longrightarrow> k < i + n \<Longrightarrow> sysctl_refuses h k"
  shows "returned (probe_sysctl_from n i h s) = Some (- 1)"
  using assms
proof (induction n arbitrary: i s)
  case 0
  then show ?case by (simp add: io_simps)
next
  case (Suc n)
  have "fst (hw_hypercall h (trace s) 35 [] [0, of_nat i]) = - EACCES"
    using Suc.prems [of i] by (simp add: sysctl_refuses_def)
  moreover have "returned (probe_sysctl_from n (Suc i) h s1) = Some (- 1)" for s1 :: "'z machine_scheme"
    by (rule Suc.IH) (auto intro!: Suc.prems)
  ultimately show ?case
    by (auto simp: io_simps split: prod.split)
qed

text \<open>Every path of \<open>evtchn_get_domid\<close> that allocated a port closes that port, and only that one.\<close>

lemma evtchn_get_domid_cases:
  obtains (alloc_failed) rc ws s1 where
      "hw_hypercall h (trace s) 32 [6] [DOMID_SELF, DOMID_SELF, 0] = (rc, ws)" "rc \<noteq> 0"
      "evtchn_get_domid h s = Done (- 1) s1"
      "trace s1 = trace s @ [Hypercall 32 [6] [DOMID_SELF, DOMID_SELF, 0]]"
  | (allocated) ws rc st s1 where
      "hw_hypercall h (trace s) 32 [6] [DOMID_SELF, DOMID_SELF, 0] = (0, ws)"
      "hw_hypercall h (trace s @ [Hypercall 32 [6] [DOMID_SELF, DOMID_SELF, 0]]) 32 [5]
         [DOMID_SELF, ws ! 2, 0, 0, 0] = (rc, st)"
      "evtchn_get_domid h s = Done (if rc \<noteq> 0 then - 1 else uint (ucast (st ! 4) :: u16)) s1"
      "trace s1 = trace s @ [Hypercall 32 [6] [DOMID_SELF, DOMID_SELF, 0],
         Hypercall 32 [5] [DOMID_SELF, ws ! 2, 0, 0, 0], Hypercall 32 [3] [ws ! 2]]"
proof -
  let ?a = "[DOMID_SELF, DOMID_SELF, 0]"
  obtain rc ws where a: "hw_hypercall h (trace s) 32 [6] ?a = (rc, ws)"
    by (cases "hw_hypercall h (trace s) 32 [6] ?a")
  obtain rc2 st where b: "hw_hypercall h (trace s @ [Hypercall 32 [6] ?a]) 32 [5]
      [DOMID_SELF, ws ! 2, 0, 0, 0] = (rc2, st)"
    by (cases "hw_hypercall h (trace s @ [Hypercall 32 [6] ?a]) 32 [5] [DOMID_SELF, ws ! 2, 0, 0, 0]")
  show ?thesis
  proof (cases "rc = 0")
    case False
    then show ?thesis
      using a by (intro alloc_failed [of rc ws]) (auto simp: evtchn_get_domid_def io_simps)
  next
    case True
    then show ?thesis
      using a b by (intro allocated [of ws rc2 st])
        (auto simp: evtchn_get_domid_def io_simps Let_def split: prod.split)
  qed
qed

section \<open>Probing and asking Xen\<close>

text \<open>
  C38: xtf_probe_sysctl_interface_version finds the interface version of the running hypervisor:
  when Xen refuses every version below v and accepts v, it returns v, and -1 when no version below
  128 is accepted.
\<close>

theorem probe_sysctl_version:
  assumes "\<And>k. k < v \<Longrightarrow> sysctl_refuses h k" "v < 128 \<Longrightarrow> sysctl_accepts h v" "v \<le> 128"
  shows "returned (xtf_probe_sysctl_interface_version h s) = Some (if v < 128 then int v else - 1)"
  using assms probe_sysctl_from_found [of 0 v 128 h s] probe_sysctl_from_refused [of 0 128 h s]
  by (auto simp: xtf_probe_sysctl_interface_version_def)

theorem probe_sysctl_version_witness:
  "returned (xtf_probe_sysctl_interface_version (accept_hw PV64\<lparr>hw_hypercall := \<lambda>t nr a ws. (if ws = [0, 21] then 0 else - EACCES, ws)\<rparr>) machine0) = Some 21"
proof -
  let ?h = "accept_hw PV64\<lparr>hw_hypercall := \<lambda>t nr a ws. (if ws = [0, 21] then 0 else - EACCES, ws)\<rparr>"
  have "sysctl_refuses ?h k" if "k < 21" for k
  proof -
    have "(of_nat k :: u64) \<noteq> 21" using that by (subst word_unat_eq_iff) (simp add: unat_of_nat)
    then show ?thesis by (simp add: sysctl_refuses_def)
  qed
  moreover have "sysctl_accepts ?h 21" by (simp add: sysctl_accepts_def EACCES_def)
  ultimately show ?thesis
    using probe_sysctl_version [of 21 ?h machine0] by simp
qed

text \<open>
  \<open>evtchn_get_domid\<close> allocates a port to learn the domain id and always closes it again: a
  failing allocation gives -1 and nothing else happens, otherwise status and close follow on that
  port, and the result is a 16-bit domain id or -1.
\<close>

lemma evtchn_get_domid_cleans_up:
  "\<exists>d s1. evtchn_get_domid h s = Done d s1 \<and>
     (let alloc = Hypercall 32 [6] [DOMID_SELF, DOMID_SELF, 0];
          (rc, ws) = hw_hypercall h (trace s) 32 [6] [DOMID_SELF, DOMID_SELF, 0]
      in if rc \<noteq> 0 then d = - 1 \<and> trace s1 = trace s @ [alloc]
         else d \<in> {- 1 ..< 2 ^ 16} \<and>
              trace s1 = trace s @ [alloc, Hypercall 32 [5] [DOMID_SELF, ws ! 2, 0, 0, 0], Hypercall 32 [3] [ws ! 2]])"
proof (rule evtchn_get_domid_cases [of h s])
  fix ws rc st s1
  have u16: "- 1 \<le> uint x \<and> uint x < 65536" for x :: u16
    using uint_bounded [of x] order_trans [of "- 1" 0 "uint x"] by simp
  have bound: "(if rc \<noteq> 0 then - 1 else uint (ucast (st ! 4) :: u16)) \<in> {- 1 ..< 2 ^ 16}"
    using u16 [of "ucast (st ! 4)"] by (cases "rc = 0") (simp_all del: uint_ge_0)
  assume "hw_hypercall h (trace s) 32 [6] [DOMID_SELF, DOMID_SELF, 0] = (0, ws)"
    "evtchn_get_domid h s = Done (if rc \<noteq> 0 then - 1 else uint (ucast (st ! 4) :: u16)) s1"
    "trace s1 = trace s @ [Hypercall 32 [6] [DOMID_SELF, DOMID_SELF, 0],
       Hypercall 32 [5] [DOMID_SELF, ws ! 2, 0, 0, 0], Hypercall 32 [3] [ws ! 2]]"
  then show ?thesis using bound by (intro exI conjI) (assumption, simp add: Let_def)
qed (simp add: Let_def)

end
