(* ===== verification/Frame.thy ===== *)
theory Frame imports
  Framework
begin

text \<open>
  What a routine leaves alone: \<open>keeps f p\<close> says that the observation \<open>f\<close> of the state is the same
  after \<open>p\<close> as before, whether \<open>p\<close> returns or not. There is one rule for each way to put programs
  together and one for each request, so that \<open>(intro keeps_rules; simp)\<close> proves most frames.
\<close>

named_theorems keeps_rules

definition keeps :: "('s \<Rightarrow> 'b) \<Rightarrow> ('s, 'a) prog \<Rightarrow> bool" where
  "keeps f p \<longleftrightarrow> (\<forall>h s. f (final (p h s)) = f s)"

lemma keepsI: "(\<And>h s. f (final (p h s)) = f s) \<Longrightarrow> keeps f p"
  by (simp add: keeps_def)

lemma keepsD: "keeps f p \<Longrightarrow> f (final (p h s)) = f s"
  by (simp add: keeps_def)

lemma keeps_Done: "keeps f p \<Longrightarrow> p h s = Done a s1 \<Longrightarrow> f s1 = f s"
  using keepsD [of f p h s] by simp

lemma keeps_ret [keeps_rules]: "keeps f (ret a)"
  by (rule keepsI) (simp add: ret_run)

lemma keeps_halt [keeps_rules]: "keeps f halt"
  by (rule keepsI) (simp add: halt_run)

lemma keeps_fetch [keeps_rules]: "keeps f (fetch g)"
  by (rule keepsI) (simp add: fetch_run)

lemma keeps_config [keeps_rules]: "keeps f (config g)"
  by (rule keepsI) (simp add: config_run)

lemma keeps_update [keeps_rules]: "(\<And>s. f (g s) = f s) \<Longrightarrow> keeps f (update g)"
  by (rule keepsI) (simp add: update_run)

lemma keeps_bnd [keeps_rules]:
  assumes "keeps f p" "\<And>a. keeps f (q a)"
  shows "keeps f (bnd p q)"
proof (rule keepsI)
  fix h s
  show "f (final (bnd p q h s)) = f s"
    using keepsD [OF assms(1), of h s] keepsD [OF assms(2), of _ h]
    by (cases "p h s") (simp_all add: bnd_run)
qed

lemma keeps_seq [keeps_rules]: "keeps f p \<Longrightarrow> keeps f q \<Longrightarrow> keeps f (seq p q)"
  unfolding seq_def by (rule keeps_bnd)

lemma keeps_void [keeps_rules]: "keeps f p \<Longrightarrow> keeps f (void p)"
  unfolding void_def by (intro keeps_seq keeps_ret)

lemma keeps_when1 [keeps_rules]: "(b \<Longrightarrow> keeps f p) \<Longrightarrow> keeps f (when1 b p)"
  by (simp add: when1_def keeps_ret)

lemma keeps_if [keeps_rules]: "(b \<Longrightarrow> keeps f p) \<Longrightarrow> (\<not> b \<Longrightarrow> keeps f q) \<Longrightarrow> keeps f (if b then p else q)"
  by simp

lemma keeps_prod [keeps_rules]: "(\<And>a b. keeps f (q a b)) \<Longrightarrow> keeps f (case x of (a, b) \<Rightarrow> q a b)"
  by (simp split: prod.split)

lemma keeps_option [keeps_rules]:
  "keeps f p \<Longrightarrow> (\<And>a. keeps f (q a)) \<Longrightarrow> keeps f (case x of None \<Rightarrow> p | Some a \<Rightarrow> q a)"
  by (simp split: option.split)

lemma keeps_bool [keeps_rules]:
  "keeps f p \<Longrightarrow> keeps f q \<Longrightarrow> keeps f (case x of True \<Rightarrow> p | False \<Rightarrow> q)"
  by (simp split: bool.split)

lemma keeps_block [keeps_rules]: "(\<And>p. p \<in> set ps \<Longrightarrow> keeps f p) \<Longrightarrow> keeps f (block ps)"
  by (induction ps) (auto intro!: keeps_ret keeps_seq)

text \<open>Requests change the trace only.\<close>

definition off_trace :: "('z machine_scheme \<Rightarrow> 'b) \<Rightarrow> bool" where
  "off_trace f \<longleftrightarrow> (\<forall>s t. f (s\<lparr>trace := t\<rparr>) = f s)"

lemma off_traceD: "off_trace f \<Longrightarrow> f (s\<lparr>trace := t\<rparr>) = f s"
  by (simp add: off_trace_def)

lemma keeps_requests [keeps_rules]:
  assumes "off_trace f"
  shows "keeps f (emit e)" "keeps f (printk fmt args)" "keeps f (hypercall nr ar ws)"
    "keeps f (rdmsr idx)" "keeps f (wrmsr idx v)" "keeps f (cpuid_count l c)" "keeps f (cpuid l)"
    "keeps f (mmio_read w a)" "keeps f (mmio_write w a v)" "keeps f (insn_safe n ops)" "keeps f (insn n ops)"
    "keeps f arch_crash_hard" "keeps f (panic fmt args)"
  using off_traceD [OF assms] by (auto simp: keeps_def io_simps split: option.splits if_splits)

end
