(* ===== verification/Report.thy ===== *)
theory Report imports
  Framework
begin

text \<open>
  \<open>common/report.c\<close>: the status of the test. The status only ever gets worse, and \<open>xtf_exit()\<close>
  reports it once and shuts the domain down.
\<close>

section \<open>State\<close>

datatype test_status = STATUS_RUNNING | STATUS_SUCCESS | STATUS_SKIP | STATUS_ERROR | STATUS_FAILURE

text \<open>The value of the C enumerator.\<close>

fun status_num :: "test_status \<Rightarrow> nat" where
  "status_num STATUS_RUNNING = 0"
| "status_num STATUS_SUCCESS = 1"
| "status_num STATUS_SKIP = 2"
| "status_num STATUS_ERROR = 3"
| "status_num STATUS_FAILURE = 4"

lemma status_num_inject: "status_num a = status_num b \<Longrightarrow> a = b"
  by (cases a; cases b) simp_all

instantiation test_status :: linorder
begin

definition less_eq_test_status :: "test_status \<Rightarrow> test_status \<Rightarrow> bool" where
  "less_eq_test_status a b \<longleftrightarrow> status_num a \<le> status_num b"

definition less_test_status :: "test_status \<Rightarrow> test_status \<Rightarrow> bool" where
  "less_test_status a b \<longleftrightarrow> status_num a < status_num b"

instance
  by standard (auto simp: less_eq_test_status_def less_test_status_def intro: status_num_inject)

end

lemmas status_order = less_eq_test_status_def less_test_status_def

lemma status_num_0 [simp]: "status_num st = 0 \<longleftrightarrow> st = STATUS_RUNNING"
  by (cases st) simp_all

lemma status_less_SUCCESS: "st < STATUS_SUCCESS \<longleftrightarrow> st = STATUS_RUNNING"
  by (cases st) (simp_all add: status_order)

record report = machine +
  status :: test_status
  warnings :: bool

definition status_to_str :: "test_status \<Rightarrow> string" where
  "status_to_str st =
     (case st of STATUS_RUNNING \<Rightarrow> ''RUNNING'' | STATUS_SUCCESS \<Rightarrow> ''SUCCESS''
      | STATUS_SKIP \<Rightarrow> ''SKIP'' | STATUS_ERROR \<Rightarrow> ''ERROR'' | STATUS_FAILURE \<Rightarrow> ''FAILURE'')"

section \<open>Operations\<close>

definition set_status :: "test_status \<Rightarrow> ('z report_scheme, unit) prog" where
  "set_status st =
     bnd (fetch status) (\<lambda>cur. when1 (st > cur) (update (\<lambda>s. s\<lparr>status := st\<rparr>)))"

text \<open>The \<open>if ( fmt ) vprintk(fmt, args)\<close> of each reporting function; \<open>None\<close> is the null pointer.\<close>

definition report_text :: "string option \<Rightarrow> varg list \<Rightarrow> ('z report_scheme, unit) prog" where
  "report_text fmt args = (case fmt of Some f \<Rightarrow> printk f args | None \<Rightarrow> ret ())"

definition xtf_success :: "string option \<Rightarrow> varg list \<Rightarrow> ('z report_scheme, unit) prog" where
  "xtf_success fmt args = seq (set_status STATUS_SUCCESS) (report_text fmt args)"

definition xtf_warning :: "string option \<Rightarrow> varg list \<Rightarrow> ('z report_scheme, unit) prog" where
  "xtf_warning fmt args = seq (update (\<lambda>s. s\<lparr>warnings := True\<rparr>)) (report_text fmt args)"

definition xtf_skip :: "string option \<Rightarrow> varg list \<Rightarrow> ('z report_scheme, unit) prog" where
  "xtf_skip fmt args = seq (set_status STATUS_SKIP) (report_text fmt args)"

definition xtf_error :: "string option \<Rightarrow> varg list \<Rightarrow> ('z report_scheme, unit) prog" where
  "xtf_error fmt args = seq (set_status STATUS_ERROR) (report_text fmt args)"

definition xtf_failure :: "string option \<Rightarrow> varg list \<Rightarrow> ('z report_scheme, unit) prog" where
  "xtf_failure fmt args = seq (set_status STATUS_FAILURE) (report_text fmt args)"

definition xtf_report_status :: "('z report_scheme, unit) prog" where
  "xtf_report_status =
     bnd (fetch status) (\<lambda>st0.
     seq (when1 (st0 < STATUS_SUCCESS)
            (xtf_error (Some (''Test did not report a status'' @ [LF])) [])) (
     bnd (fetch status) (\<lambda>st.
     bnd (fetch warnings) (\<lambda>w.
     printk (''Test result: %s%s'' @ [LF])
       [VaStr (Some (status_to_str st @ [NUL])),
        VaStr (Some ((if w \<and> st = STATUS_SUCCESS then '' with warnings'' else '''') @ [NUL]))]))))"

definition xtf_status_reported :: "('z report_scheme, bool) prog" where
  "xtf_status_reported = bnd (fetch status) (\<lambda>st. ret (st \<noteq> STATUS_RUNNING))"

definition xtf_exit :: "('z report_scheme, 'a) prog" where
  "xtf_exit =
     seq xtf_report_status (
     seq (hypercall_shutdown SHUTDOWN_poweroff)
     (panic (''xtf_exit(): hypercall_shutdown(SHUTDOWN_poweroff) returned'' @ [LF]) []))"

section \<open>Evaluation\<close>

lemma set_status_run [io_simps]:
  "set_status st h s = Done () (s\<lparr>status := max (status s) st\<rparr>)"
  by (cases s) (auto simp: set_status_def io_simps max_def not_le)

definition text_events :: "string option \<Rightarrow> varg list \<Rightarrow> ev list" where
  "text_events fmt args = (case fmt of Some f \<Rightarrow> [Printk f args] | None \<Rightarrow> [])"

lemma report_text_run [io_simps]:
  "report_text fmt args h s = Done () (s\<lparr>trace := trace s @ text_events fmt args\<rparr>)"
  by (cases s) (simp add: report_text_def text_events_def io_simps split: option.split)

lemma xtf_report_run [io_simps]:
  "xtf_success fmt args h s =
     Done () (s\<lparr>status := max (status s) STATUS_SUCCESS, trace := trace s @ text_events fmt args\<rparr>)"
  "xtf_skip fmt args h s =
     Done () (s\<lparr>status := max (status s) STATUS_SKIP, trace := trace s @ text_events fmt args\<rparr>)"
  "xtf_error fmt args h s =
     Done () (s\<lparr>status := max (status s) STATUS_ERROR, trace := trace s @ text_events fmt args\<rparr>)"
  "xtf_failure fmt args h s =
     Done () (s\<lparr>status := max (status s) STATUS_FAILURE, trace := trace s @ text_events fmt args\<rparr>)"
  "xtf_warning fmt args h s =
     Done () (s\<lparr>warnings := True, trace := trace s @ text_events fmt args\<rparr>)"
  by (simp_all add: xtf_success_def xtf_skip_def xtf_error_def xtf_failure_def xtf_warning_def io_simps)

text \<open>The final status: the worst reported one, \<open>ERROR\<close> when the test reported none.\<close>

definition exit_status :: "test_status \<Rightarrow> test_status" where
  "exit_status st = (if st = STATUS_RUNNING then STATUS_ERROR else st)"

definition result_line :: "test_status \<Rightarrow> bool \<Rightarrow> ev" where
  "result_line st w =
     Printk (''Test result: %s%s'' @ [LF])
       [VaStr (Some (status_to_str st @ [NUL])),
        VaStr (Some ((if w \<and> st = STATUS_SUCCESS then '' with warnings'' else '''') @ [NUL]))]"

definition no_status_line :: "test_status \<Rightarrow> ev list" where
  "no_status_line st =
     (if st = STATUS_RUNNING then [Printk (''Test did not report a status'' @ [LF]) []] else [])"

lemma xtf_report_status_run [io_simps]:
  "xtf_report_status h s =
     Done () (s\<lparr>status := exit_status (status s),
               trace := trace s @ no_status_line (status s)
                        @ [result_line (exit_status (status s)) (warnings s)]\<rparr>)"
  by (cases s) (auto simp: xtf_report_status_def io_simps status_less_SUCCESS exit_status_def
      no_status_line_def result_line_def text_events_def max_def status_order)

lemma xtf_exit_run [io_simps]:
  "xtf_exit h s =
     Stop (s\<lparr>status := exit_status (status s),
             trace := trace s @ no_status_line (status s)
               @ [result_line (exit_status (status s)) (warnings s), Hypercall 29 [2] [0]]
               @ panic_events (hw_env h)
                   (''xtf_exit(): hypercall_shutdown(SHUTDOWN_poweroff) returned'' @ [LF]) []\<rparr>)"
  by (simp add: xtf_exit_def io_simps xtf_consts split: prod.split)

section \<open>The most severe report is the one that is kept\<close>

datatype report_call = Success | Warning | Skip | Error | Failure

fun severity :: "report_call \<Rightarrow> test_status" where
  "severity Success = STATUS_SUCCESS"
| "severity Warning = STATUS_RUNNING"
| "severity Skip = STATUS_SKIP"
| "severity Error = STATUS_ERROR"
| "severity Failure = STATUS_FAILURE"

text \<open>One of the reporting functions, called with a message.\<close>

fun report_fn :: "report_call \<Rightarrow> string option \<Rightarrow> varg list \<Rightarrow> ('z report_scheme, unit) prog" where
  "report_fn Success = xtf_success"
| "report_fn Warning = xtf_warning"
| "report_fn Skip = xtf_skip"
| "report_fn Error = xtf_error"
| "report_fn Failure = xtf_failure"

lemma report_fn_status:
  "report_fn c fmt args h s =
     Done () (s\<lparr>status := max (status s) (severity c), warnings := warnings s \<or> c = Warning,
                trace := trace s @ text_events fmt args\<rparr>)"
  by (cases s; cases c; cases "status s") (simp_all add: io_simps max_def status_order)

lemma fold_max_start: "foldr max xs (max a b) = max a (foldr max xs (b :: 'a::linorder))"
  by (induction xs) (simp_all add: max.left_commute)

lemma report_calls_run:
  "\<exists>t. block (map (\<lambda>(c, fmt, args). report_fn c fmt args) calls) h s =
     Done () (s\<lparr>status := foldr max (map (severity \<circ> fst) calls) (status s),
                warnings := warnings s \<or> Warning \<in> fst ` set calls,
                trace := trace s @ t\<rparr>)"
proof (induction calls arbitrary: s)
  case Nil
  show ?case by (cases s) (auto simp: io_simps intro: exI [of _ "[]"])
next
  case (Cons x xs)
  obtain c fmt args where x: "x = (c, fmt, args)" by (cases x)
  let ?s = "s\<lparr>status := max (status s) (severity c), warnings := warnings s \<or> c = Warning,
                trace := trace s @ text_events fmt args\<rparr>"
  obtain t where t: "block (map (\<lambda>(c, fmt, args). report_fn c fmt args) xs) h ?s =
      Done () (?s\<lparr>status := foldr max (map (severity \<circ> fst) xs) (status ?s),
                warnings := warnings ?s \<or> Warning \<in> fst ` set xs, trace := trace ?s @ t\<rparr>)"
    using Cons.IH [of ?s] by blast
  have step: "report_fn c fmt args h s = Done () ?s"
    by (rule report_fn_status)
  have worst: "foldr max (map (severity \<circ> fst) xs) (status ?s) =
      foldr max (map (severity \<circ> fst) (x # xs)) (status s)"
    using fold_max_start [of "map (severity \<circ> fst) xs" "severity c" "status s"]
    by (simp add: x max.commute)
  show ?case
    using t worst by (intro exI [of _ "text_events fmt args @ t"]) (auto simp: x seq_run step comp_def eq_commute [of Warning])
qed

lemma foldr_max_mset:
  "mset xs = mset ys \<Longrightarrow> foldr max xs a = foldr max ys (a :: 'a::linorder)"
proof -
  assume "mset xs = mset ys"
  then have "fold max xs a = fold max ys a"
    by (intro fold_permuted_eq) (auto simp: max.left_commute)
  then show ?thesis
    by (simp add: foldr_fold max.left_commute fun_eq_iff comp_def)
qed

section \<open>The order of reports does not matter\<close>

text \<open>
  C21: the verdict of a test does not depend on the order of its reports. Two runs of the reporting
  functions xtf_success, xtf_warning, xtf_skip, xtf_error and xtf_failure over the same calls in
  any order end with the same status and the same warnings flag, and the status is at least the
  one before and at least that of every call made.
\<close>

theorem reports_order:
  assumes "mset calls = mset calls1"
    and "block (map (\<lambda>(c, fmt, args). report_fn c fmt args) calls) h s = Done () s1"
    and "block (map (\<lambda>(c, fmt, args). report_fn c fmt args) calls1) h s = Done () s2"
  shows "status s1 = status s2 \<and> warnings s1 = warnings s2 \<and> status s \<le> status s1
     \<and> (\<forall>(c, _) \<in> set calls. severity c \<le> status s1)"
proof -
  have "mset (map (severity \<circ> fst) calls) = mset (map (severity \<circ> fst) calls1)" using assms(1) by simp
  note worst = foldr_max_mset [OF this, of "status s"]
  have sets: "set calls = set calls1" using assms(1) by (rule mset_eq_setD)
  have ge: "a \<le> foldr max xs a" "x \<in> set xs \<Longrightarrow> x \<le> foldr max xs a" for xs and a x :: test_status
    by (induction xs) (auto simp: le_max_iff_disj)
  obtain t where "s1 = s\<lparr>status := foldr max (map (severity \<circ> fst) calls) (status s),
                warnings := warnings s \<or> Warning \<in> fst ` set calls, trace := trace s @ t\<rparr>"
    using report_calls_run [of calls h s] assms(2) by auto
  moreover obtain t2 where "s2 = s\<lparr>status := foldr max (map (severity \<circ> fst) calls1) (status s),
                warnings := warnings s \<or> Warning \<in> fst ` set calls1, trace := trace s @ t2\<rparr>"
    using report_calls_run [of calls1 h s] assms(3) by auto
  ultimately show ?thesis using worst sets ge(1) by (auto intro!: ge(2)) (force simp: image_iff)
qed

definition report0 :: report where [init_states]:
  "report0 = machine.extend machine0 (report.fields STATUS_RUNNING False)"

declare report.defs [init_states]

theorem reports_order_witness:
  "\<exists>s1 s2. block (map (\<lambda>(c, fmt, args). report_fn c fmt args) [(Skip, None, []), (Failure, None, [])]) (accept_hw PV64) report0
       = Done () s1
     \<and> block (map (\<lambda>(c, fmt, args). report_fn c fmt args) [(Failure, None, []), (Skip, None, [])]) (accept_hw PV64) report0
       = Done () s2
     \<and> status s1 = status s2 \<and> STATUS_FAILURE \<le> status s1"
proof -
  let ?a = "[(Skip, None, []), (Failure, None, [])] :: (report_call \<times> string option \<times> varg list) list"
  let ?b = "[(Failure, None, []), (Skip, None, [])] :: (report_call \<times> string option \<times> varg list) list"
  obtain s1 s2 where run: "block (map (\<lambda>(c, fmt, args). report_fn c fmt args) ?a) (accept_hw PV64) report0 = Done () s1"
      "block (map (\<lambda>(c, fmt, args). report_fn c fmt args) ?b) (accept_hw PV64) report0 = Done () s2"
    using report_calls_run [of ?a "accept_hw PV64" report0] report_calls_run [of ?b "accept_hw PV64" report0] by blast
  have "mset ?a = mset ?b" by simp
  from reports_order [OF this run] show ?thesis using run by auto
qed

end
