(* ===== verification/X86_Desc.thy ===== *)
theory X86_Desc imports
  Prelude
begin

text \<open>
  Segment descriptors, gates and task state segments: \<open>arch/x86/include/arch/desc.h\<close>,
  \<open>x86-gate.h\<close>, \<open>segment.h\<close>, \<open>x86-tss.h\<close> and the tables of \<open>arch/x86/desc.c\<close>. Bit-fields are
  words of their width, and the raw words of the unions are computed from them.
\<close>

section \<open>Gates\<close>

record x86_gate32 =
  g32_offset0 :: u16
  g32_selector :: u16
  g32_param_count :: "5 word"
  g32_r0 :: "3 word"
  g32_type :: "4 word"
  g32_s :: bool
  g32_dpl :: "2 word"
  g32_p :: bool
  g32_offset1 :: u16

text \<open>The members \<open>lo\<close> and \<open>hi\<close> of the union.\<close>

definition gate32_lo :: "x86_gate32 \<Rightarrow> u32" where
  "gate32_lo g = ucast (g32_offset0 g) OR push_bit 16 (ucast (g32_selector g))"

definition gate32_hi :: "x86_gate32 \<Rightarrow> u32" where
  "gate32_hi g =
     ucast (g32_param_count g) OR push_bit 5 (ucast (g32_r0 g)) OR push_bit 8 (ucast (g32_type g))
     OR push_bit 12 (of_bool (g32_s g)) OR push_bit 13 (ucast (g32_dpl g))
     OR push_bit 15 (of_bool (g32_p g)) OR push_bit 16 (ucast (g32_offset1 g))"

definition pack_x86_gate32 :: "u32 \<Rightarrow> u32 \<Rightarrow> u32 \<Rightarrow> u32 \<Rightarrow> u32 \<Rightarrow> x86_gate32" where
  "pack_x86_gate32 ty sel offset dpl cnt =
     \<lparr>g32_offset0 = ucast (offset AND 0xffff), g32_selector = ucast sel,
      g32_param_count = ucast cnt, g32_r0 = 0, g32_type = ucast ty, g32_s = False,
      g32_dpl = ucast dpl, g32_p = True, g32_offset1 = ucast (drop_bit 16 offset AND 0xffff)\<rparr>"

record x86_gate64 =
  g64_offset0 :: u16
  g64_selector :: u16
  g64_ist :: "3 word"
  g64_r0 :: "5 word"
  g64_type :: "4 word"
  g64_s :: bool
  g64_dpl :: "2 word"
  g64_p :: bool
  g64_offset1 :: u16
  g64_offset2 :: u32
  g64_r1 :: u32

definition gate64_lo :: "x86_gate64 \<Rightarrow> u64" where
  "gate64_lo g =
     ucast (g64_offset0 g) OR push_bit 16 (ucast (g64_selector g)) OR push_bit 32 (ucast (g64_ist g))
     OR push_bit 35 (ucast (g64_r0 g)) OR push_bit 40 (ucast (g64_type g))
     OR push_bit 44 (of_bool (g64_s g)) OR push_bit 45 (ucast (g64_dpl g))
     OR push_bit 47 (of_bool (g64_p g)) OR push_bit 48 (ucast (g64_offset1 g))"

definition gate64_hi :: "x86_gate64 \<Rightarrow> u64" where
  "gate64_hi g = ucast (g64_offset2 g) OR push_bit 32 (ucast (g64_r1 g))"

definition pack_x86_gate64 :: "u32 \<Rightarrow> u32 \<Rightarrow> u64 \<Rightarrow> u32 \<Rightarrow> u32 \<Rightarrow> x86_gate64" where
  "pack_x86_gate64 ty sel offset dpl ist =
     \<lparr>g64_offset0 = ucast (offset AND 0xffff), g64_selector = ucast sel, g64_ist = ucast ist,
      g64_r0 = 0, g64_type = ucast ty, g64_s = False, g64_dpl = ucast dpl, g64_p = True,
      g64_offset1 = ucast (drop_bit 16 offset AND 0xffff),
      g64_offset2 = ucast (drop_bit 32 offset AND 0xffffffff), g64_r1 = 0\<rparr>"

text \<open>\<open>env_gate\<close>: the gate of the environment.\<close>

datatype env_gate = Gate32 x86_gate32 | Gate64 x86_gate64

definition pack_gate :: "env \<Rightarrow> u32 \<Rightarrow> u32 \<Rightarrow> u64 \<Rightarrow> u32 \<Rightarrow> u32 \<Rightarrow> env_gate" where
  "pack_gate e ty sel offset dpl other =
     (if CONFIG_64BIT e then Gate64 (pack_x86_gate64 ty sel offset dpl other)
      else Gate32 (pack_x86_gate32 ty sel (ucast offset) dpl other))"

definition pack_task_gate :: "env \<Rightarrow> u32 \<Rightarrow> env_gate" where
  "pack_task_gate e selector = pack_gate e 5 selector 0 0 0"

definition pack_call_gate :: "env \<Rightarrow> u32 \<Rightarrow> u64 \<Rightarrow> u32 \<Rightarrow> u32 \<Rightarrow> env_gate" where
  "pack_call_gate e sel offset dpl other = pack_gate e 12 sel offset dpl other"

definition pack_intr_gate :: "env \<Rightarrow> u32 \<Rightarrow> u64 \<Rightarrow> u32 \<Rightarrow> u32 \<Rightarrow> env_gate" where
  "pack_intr_gate e sel offset dpl other = pack_gate e 14 sel offset dpl other"

definition pack_trap_gate :: "env \<Rightarrow> u32 \<Rightarrow> u64 \<Rightarrow> u32 \<Rightarrow> u32 \<Rightarrow> env_gate" where
  "pack_trap_gate e sel offset dpl other = pack_gate e 15 sel offset dpl other"

text \<open>What the processor reads from a gate: where it enters, through which selector, and its kind.\<close>

fun gate_target :: "env_gate \<Rightarrow> u64" where
  "gate_target (Gate32 g) = ucast (ucast (g32_offset0 g) OR push_bit 16 (ucast (g32_offset1 g)) :: u32)"
| "gate_target (Gate64 g) =
     ucast (g64_offset0 g) OR push_bit 16 (ucast (g64_offset1 g)) OR push_bit 32 (ucast (g64_offset2 g))"

fun gate_selector :: "env_gate \<Rightarrow> u16" where
  "gate_selector (Gate32 g) = g32_selector g"
| "gate_selector (Gate64 g) = g64_selector g"

fun gate_type :: "env_gate \<Rightarrow> nat" where
  "gate_type (Gate32 g) = unat (g32_type g)"
| "gate_type (Gate64 g) = unat (g64_type g)"

fun gate_dpl :: "env_gate \<Rightarrow> nat" where
  "gate_dpl (Gate32 g) = unat (g32_dpl g)"
| "gate_dpl (Gate64 g) = unat (g64_dpl g)"

fun gate_present :: "env_gate \<Rightarrow> bool" where
  "gate_present (Gate32 g) = g32_p g"
| "gate_present (Gate64 g) = g64_p g"

text \<open>\<open>ist\<close> in 64-bit builds; a 32-bit gate has none.\<close>

fun gate_ist :: "env_gate \<Rightarrow> nat" where
  "gate_ist (Gate32 g) = 0"
| "gate_ist (Gate64 g) = unat (g64_ist g)"

lemma split_offset32:
  "(ucast (ucast (x AND 0xffff :: u32) :: u16) OR push_bit 16 (ucast (ucast (drop_bit 16 x AND 0xffff) :: u16)) :: u32) = x"
proof (rule bit_word_eqI)
  have m: "(0xffff :: u32) = mask 16" by (simp add: mask_eq_exp_minus_1)
  fix n assume "n < LENGTH(32)"
  then show "bit (ucast (ucast (x AND 0xffff) :: u16)
      OR push_bit 16 (ucast (ucast (drop_bit 16 x AND 0xffff) :: u16)) :: u32) n \<longleftrightarrow> bit x n"
    unfolding m by (cases "n < 16") (auto simp: bit_simps)
qed

lemma split_offset64:
  "(ucast (ucast (x AND 0xffff :: u64) :: u16) OR push_bit 16 (ucast (ucast (drop_bit 16 x AND 0xffff) :: u16))
    OR push_bit 32 (ucast (ucast (drop_bit 32 x AND 0xffffffff) :: u32)) :: u64) = x"
proof (rule bit_word_eqI)
  have m: "(0xffff :: u64) = mask 16" "(0xffffffff :: u64) = mask 32"
    by (simp_all add: mask_eq_exp_minus_1)
  fix n assume n: "n < LENGTH(64)"
  consider "n < 16" | m where "n = 16 + m" "m < 16" | m where "n = 32 + m" "m < 32"
  proof -
    have "n < 16 \<or> (\<exists>m. n = 16 + m \<and> m < 16) \<or> (\<exists>m. n = 32 + m \<and> m < 32)"
      using n by simp presburger
    then show thesis using that by blast
  qed
  then show "bit (ucast (ucast (x AND 0xffff) :: u16)
      OR push_bit 16 (ucast (ucast (drop_bit 16 x AND 0xffff) :: u16))
      OR push_bit 32 (ucast (ucast (drop_bit 32 x AND 0xffffffff) :: u32)) :: u64) n \<longleftrightarrow> bit x n"
    unfolding m by cases (simp_all add: bit_simps)
qed

lemma unat_ucast_less:
  "unat x < 2 ^ LENGTH('b) \<Longrightarrow> unat (ucast (x :: 'a::len word) :: 'b::len word) = unat x"
  by (simp add: unsigned_ucast_eq take_bit_nat_eq_self)

lemma pack_gate_fields:
  assumes "unat ty < 16" "unat dpl < 4" "unat other < 8"
  shows "gate_target (pack_gate e ty sel offset dpl other) = to_ulong e offset"
    "gate_selector (pack_gate e ty sel offset dpl other) = ucast sel"
    "gate_type (pack_gate e ty sel offset dpl other) = unat ty"
    "gate_dpl (pack_gate e ty sel offset dpl other) = unat dpl"
    "gate_present (pack_gate e ty sel offset dpl other)"
    "gate_ist (pack_gate e ty sel offset dpl other) = (if CONFIG_64BIT e then unat other else 0)"
proof -
  have 32: "to_ulong e offset = ucast (ucast offset :: u32)" if "\<not> CONFIG_64BIT e"
  proof (rule bit_word_eqI)
    fix n assume "n < LENGTH(64)"
    then show "bit (to_ulong e offset) n = bit (ucast (ucast offset :: u32) :: u64) n"
      using that by (auto simp: to_ulong_def bit_simps)
  qed
  have 64: "to_ulong e offset = offset" if "CONFIG_64BIT e"
  proof (rule bit_word_eqI)
    fix n assume "n < LENGTH(64)"
    then show "bit (to_ulong e offset) n = bit offset n"
      using that by (auto simp: to_ulong_def bit_simps)
  qed
  show "gate_target (pack_gate e ty sel offset dpl other) = to_ulong e offset"
  proof (cases "CONFIG_64BIT e")
    case True
    then show ?thesis
      unfolding 64 [OF True] by (simp only: pack_gate_def if_True gate_target.simps
          pack_x86_gate64_def x86_gate64.select_convs split_offset64)
  next
    case False
    then show ?thesis
      unfolding 32 [OF False] by (simp only: pack_gate_def if_False gate_target.simps
          pack_x86_gate32_def x86_gate32.select_convs split_offset32)
  qed
  show "gate_selector (pack_gate e ty sel offset dpl other) = ucast sel"
    "gate_present (pack_gate e ty sel offset dpl other)"
    by (simp_all add: pack_gate_def pack_x86_gate32_def pack_x86_gate64_def)
  show "gate_type (pack_gate e ty sel offset dpl other) = unat ty"
    "gate_dpl (pack_gate e ty sel offset dpl other) = unat dpl"
    "gate_ist (pack_gate e ty sel offset dpl other) = (if CONFIG_64BIT e then unat other else 0)"
    using assms by (simp_all add: pack_gate_def pack_x86_gate32_def pack_x86_gate64_def unat_ucast_less)
qed

text \<open>The raw words of a packed gate.\<close>

lemma gate32_raw:
  assumes "g = pack_x86_gate32 ty sel offset dpl cnt" "unat cnt < 32"
  shows "gate32_lo g = (push_bit 16 sel OR (offset AND 0xffff))"
  unfolding assms gate32_lo_def pack_x86_gate32_def
proof (rule bit_word_eqI)
  have m: "(0xffff :: u32) = mask 16" by (simp add: mask_eq_exp_minus_1)
  fix n assume "n < LENGTH(32)"
  then show "bit (ucast (g32_offset0 \<lparr>g32_offset0 = ucast (offset AND 0xffff), g32_selector = ucast sel,
      g32_param_count = ucast cnt, g32_r0 = 0, g32_type = ucast ty, g32_s = False,
      g32_dpl = ucast dpl, g32_p = True, g32_offset1 = ucast (drop_bit 16 offset AND 0xffff)\<rparr>)
      OR push_bit 16 (ucast (g32_selector \<lparr>g32_offset0 = ucast (offset AND 0xffff), g32_selector = ucast sel,
      g32_param_count = ucast cnt, g32_r0 = 0, g32_type = ucast ty, g32_s = False,
      g32_dpl = ucast dpl, g32_p = True, g32_offset1 = ucast (drop_bit 16 offset AND 0xffff)\<rparr>)) :: u32) n
      \<longleftrightarrow> bit (push_bit 16 sel OR (offset AND 0xffff)) n"
    unfolding m by (auto simp: bit_simps)
qed

section \<open>Segment descriptors\<close>

text \<open>\<open>struct seg_desc32\<close> by its two raw words, with the fields read out of them.\<close>

record user_desc =
  desc_lo :: u32
  desc_hi :: u32

definition desc_limit0 :: "user_desc \<Rightarrow> u16" where "desc_limit0 d = ucast (desc_lo d)"
definition desc_base0 :: "user_desc \<Rightarrow> u16" where "desc_base0 d = ucast (drop_bit 16 (desc_lo d))"
definition desc_base1 :: "user_desc \<Rightarrow> u8" where "desc_base1 d = ucast (desc_hi d)"
definition desc_type :: "user_desc \<Rightarrow> 4 word" where "desc_type d = ucast (drop_bit 8 (desc_hi d))"
definition desc_s :: "user_desc \<Rightarrow> bool" where "desc_s d = bit (desc_hi d) 12"
definition desc_dpl :: "user_desc \<Rightarrow> 2 word" where "desc_dpl d = ucast (drop_bit 13 (desc_hi d))"
definition desc_p :: "user_desc \<Rightarrow> bool" where "desc_p d = bit (desc_hi d) 15"
definition desc_limit1 :: "user_desc \<Rightarrow> 4 word" where "desc_limit1 d = ucast (drop_bit 16 (desc_hi d))"
definition desc_l :: "user_desc \<Rightarrow> bool" where "desc_l d = bit (desc_hi d) 21"
definition desc_db :: "user_desc \<Rightarrow> bool" where "desc_db d = bit (desc_hi d) 22"
definition desc_g :: "user_desc \<Rightarrow> bool" where "desc_g d = bit (desc_hi d) 23"
definition desc_base2 :: "user_desc \<Rightarrow> u8" where "desc_base2 d = ucast (drop_bit 24 (desc_hi d))"

lemmas desc_fields = desc_limit0_def desc_base0_def desc_base1_def desc_type_def desc_s_def
  desc_dpl_def desc_p_def desc_limit1_def desc_l_def desc_db_def desc_g_def desc_base2_def

text \<open>The \<open>SEG_ATTR_\<close> constants.\<close>

definition SEG_ATTR_G :: u32 where [xtf_consts]: "SEG_ATTR_G = 0x8000"
definition SEG_ATTR_COMMON :: u32 where [xtf_consts]: "SEG_ATTR_COMMON = 0x8091"
definition SEG_ATTR_DPL0 :: u32 where [xtf_consts]: "SEG_ATTR_DPL0 = 0x0000"
definition SEG_ATTR_DPL3 :: u32 where [xtf_consts]: "SEG_ATTR_DPL3 = 0x0060"
definition SEG_ATTR_CODE :: u32 where [xtf_consts]: "SEG_ATTR_CODE = 0x0008"
definition SEG_ATTR_DATA :: u32 where [xtf_consts]: "SEG_ATTR_DATA = 0x0000"
definition SEG_ATTR_D :: u32 where [xtf_consts]: "SEG_ATTR_D = 0x4000"
definition SEG_ATTR_L :: u32 where [xtf_consts]: "SEG_ATTR_L = 0x2000"
definition SEG_ATTR_R :: u32 where [xtf_consts]: "SEG_ATTR_R = 0x0002"
definition SEG_ATTR_B :: u32 where [xtf_consts]: "SEG_ATTR_B = 0x4000"
definition SEG_ATTR_W :: u32 where [xtf_consts]: "SEG_ATTR_W = 0x0002"

text \<open>\<open>INIT_GDTE(base, limit, attr)\<close>; the expressions are stored in 32-bit fields.\<close>

definition GDTE :: "u64 \<Rightarrow> u64 \<Rightarrow> u32 \<Rightarrow> user_desc" where
  "GDTE base limit attr =
     \<lparr>desc_lo = ucast (push_bit 16 (base AND 0xffff) OR (limit AND 0xffff)),
      desc_hi = ucast ((base AND 0xff000000) OR (limit AND 0xf0000)
                  OR push_bit 8 (ucast attr AND 0xf0ff) OR drop_bit 16 (base AND 0xff0000))\<rparr>"

text \<open>\<open>user_desc_base(d)\<close>: \<open>d1\<close> is the adjacent slot \<open>d[1]\<close>.\<close>

definition user_desc_base :: "env \<Rightarrow> user_desc \<Rightarrow> user_desc \<Rightarrow> u64" where
  "user_desc_base e d d1 =
     (let base = ucast (desc_base0 d) OR push_bit 16 (ucast (desc_base1 d))
                 OR push_bit 24 (ucast (desc_base2 d))
      in if CONFIG_64BIT e \<and> \<not> desc_s d then base OR push_bit 32 (ucast (desc_lo d1)) else base)"

definition user_desc_limit :: "user_desc \<Rightarrow> u32" where
  "user_desc_limit d =
     (let limit = ucast (desc_limit0 d) OR push_bit 16 (ucast (desc_limit1 d))
      in if desc_g d then push_bit 12 limit OR 0xfff else limit)"

text \<open>\<open>sizeof(env_tss)\<close>; the packed structures of \<open>x86-tss.h\<close> are 104 bytes both.\<close>

definition sizeof_env_tss :: u64 where
  "sizeof_env_tss = 104"

text \<open>\<open>pack_tss_desc\<close> and \<open>pack_ldt_desc\<close>: the slot, and the next one in 64-bit builds.\<close>

definition pack_sys_desc :: "env \<Rightarrow> u64 \<Rightarrow> u64 \<Rightarrow> u32 \<Rightarrow> user_desc \<Rightarrow> user_desc \<times> user_desc" where
  "pack_sys_desc e base limit attr d1 =
     (GDTE base limit attr,
      if CONFIG_64BIT e then \<lparr>desc_lo = ucast (drop_bit 32 base), desc_hi = 0\<rparr> else d1)"

definition pack_tss_desc :: "env \<Rightarrow> u64 \<Rightarrow> user_desc \<Rightarrow> user_desc \<times> user_desc" where
  "pack_tss_desc e t d1 = pack_sys_desc e t (sizeof_env_tss - 1) 0x89 d1"

definition pack_ldt_desc :: "env \<Rightarrow> u64 \<Rightarrow> u32 \<Rightarrow> user_desc \<Rightarrow> user_desc \<times> user_desc" where
  "pack_ldt_desc e ldt limit d1 = pack_sys_desc e ldt (ucast limit) 0x82 d1"

section \<open>The GDT\<close>

definition GDTE_TSS :: nat where [xtf_consts]: "GDTE_TSS = 7"
definition GDTE_TSS_DF :: nat where [xtf_consts]: "GDTE_TSS_DF = 8"
definition NR_GDT_ENTRIES :: nat where [xtf_consts]: "NR_GDT_ENTRIES = 15"

definition null_desc :: user_desc where "null_desc = \<lparr>desc_lo = 0, desc_hi = 0\<rparr>"

definition code_desc :: "u32 \<Rightarrow> u32 \<Rightarrow> user_desc" where
  "code_desc dpl mode = GDTE 0 0xfffff (SEG_ATTR_COMMON OR SEG_ATTR_CODE OR dpl OR SEG_ATTR_R OR mode)"

definition data_desc :: "u32 \<Rightarrow> user_desc" where
  "data_desc dpl = GDTE 0 0xfffff (SEG_ATTR_COMMON OR SEG_ATTR_DATA OR dpl OR SEG_ATTR_B OR SEG_ATTR_W)"

definition init_gdt :: "env \<Rightarrow> user_desc list" where
  "init_gdt e =
     (if CONFIG_HVM e
      then [null_desc, code_desc SEG_ATTR_DPL0 SEG_ATTR_L, code_desc SEG_ATTR_DPL0 SEG_ATTR_D,
            data_desc SEG_ATTR_DPL0, code_desc SEG_ATTR_DPL3 SEG_ATTR_L,
            code_desc SEG_ATTR_DPL3 SEG_ATTR_D, data_desc SEG_ATTR_DPL3]
           @ replicate (NR_GDT_ENTRIES - 7) null_desc
      else replicate NR_GDT_ENTRIES null_desc)"

text \<open>The flat segments that Xen provides, of \<open>include/xen/arch-x86\<close>.\<close>

definition FLAT_RING3_CS32 :: u32 where [simp]: "FLAT_RING3_CS32 = 0xe023"
definition FLAT_RING3_CS64 :: u32 where [simp]: "FLAT_RING3_CS64 = 0xe033"
definition FLAT_RING3_SS64 :: u32 where [simp]: "FLAT_RING3_SS64 = 0xe02b"
definition FLAT_RING1_CS :: u32 where [simp]: "FLAT_RING1_CS = 0xe019"
definition FLAT_RING1_DS :: u32 where [simp]: "FLAT_RING1_DS = 0xe021"
definition FLAT_RING3_CS :: u32 where [simp]: "FLAT_RING3_CS = 0xe02b"
definition FLAT_RING3_DS :: u32 where [simp]: "FLAT_RING3_DS = 0xe033"

text \<open>The selectors of \<open>segment.h\<close>: entries of the GDT for HVM guests, Xen's segments for PV guests.\<close>

definition KERN_CS :: "env \<Rightarrow> u32" where
  "KERN_CS e = (case e of HVM64 \<Rightarrow> 1 * 8 | PV64 \<Rightarrow> FLAT_RING3_CS64 AND NOT 3 | PV32PAE \<Rightarrow> FLAT_RING1_CS | _ \<Rightarrow> 2 * 8)"

definition KERN_DS :: "env \<Rightarrow> u32" where
  "KERN_DS e = (case e of HVM64 \<Rightarrow> 0 | PV64 \<Rightarrow> FLAT_RING3_SS64 AND NOT 3 | PV32PAE \<Rightarrow> FLAT_RING1_DS | _ \<Rightarrow> 3 * 8)"

definition USER_CS :: "env \<Rightarrow> u32" where
  "USER_CS e = (case e of HVM64 \<Rightarrow> 4 * 8 + 3 | PV64 \<Rightarrow> FLAT_RING3_CS64 | PV32PAE \<Rightarrow> FLAT_RING3_CS | _ \<Rightarrow> 5 * 8 + 3)"

definition USER_DS :: "env \<Rightarrow> u32" where
  "USER_DS e = (case e of HVM64 \<Rightarrow> 6 * 8 + 3 | PV64 \<Rightarrow> FLAT_RING3_SS64 | PV32PAE \<Rightarrow> FLAT_RING3_DS | _ \<Rightarrow> 6 * 8 + 3)"

text \<open>The 32-bit segments that a 64-bit build has as well.\<close>

definition KERN_CS32 :: "env \<Rightarrow> u32" where
  "KERN_CS32 e = (case e of HVM64 \<Rightarrow> 2 * 8 | PV64 \<Rightarrow> FLAT_RING3_CS32 AND NOT 3 | _ \<Rightarrow> KERN_CS e)"

definition KERN_DS32 :: "env \<Rightarrow> u32" where "KERN_DS32 e = KERN_DS e"

definition USER_CS32 :: "env \<Rightarrow> u32" where
  "USER_CS32 e = (case e of HVM64 \<Rightarrow> 5 * 8 + 3 | PV64 \<Rightarrow> FLAT_RING3_CS32 | _ \<Rightarrow> USER_CS e)"

definition USER_DS32 :: "env \<Rightarrow> u32" where "USER_DS32 e = USER_DS e"

section \<open>Descriptors read back\<close>

lemma mask_consts64:
  "(0xffff :: u64) = mask 16" "(0xff0000 :: u64) = push_bit 16 (mask 8)"
  "(0xff000000 :: u64) = push_bit 24 (mask 8)" "(0xf0000 :: u64) = push_bit 16 (mask 4)"
  "(0xf0ff :: u64) = push_bit 12 (mask 4) OR mask 8"
  by (simp_all add: mask_eq_exp_minus_1 push_bit_eq_mult)

lemma GDTE_base_low:
  "(ucast (desc_base0 (GDTE base limit attr)) OR push_bit 16 (ucast (desc_base1 (GDTE base limit attr)))
    OR push_bit 24 (ucast (desc_base2 (GDTE base limit attr))) :: u64) = take_bit 32 base"
  unfolding GDTE_def desc_fields user_desc.select_convs mask_consts64
proof (rule bit_word_eqI)
  fix n assume n: "n < LENGTH(64)"
  consider "n < 16" | m where "n = 16 + m" "m < 8" | m where "n = 24 + m" "m < 8" | m where "n = 32 + m" "m < 32"
  proof -
    have "n < 16 \<or> (\<exists>m. n = 16 + m \<and> m < 8) \<or> (\<exists>m. n = 24 + m \<and> m < 8) \<or> (\<exists>m. n = 32 + m \<and> m < 32)"
      using n by simp presburger
    then show thesis using that by blast
  qed
  then show "bit (ucast (ucast (drop_bit 16 (ucast (push_bit 16 (base AND mask 16) OR limit AND mask 16) :: u32)) :: u16) OR
       push_bit 16 (ucast (ucast (ucast (base AND push_bit 24 (mask 8) OR limit AND push_bit 16 (mask 4) OR
               push_bit 8 (ucast attr AND (push_bit 12 (mask 4) OR mask 8)) OR
               drop_bit 16 (base AND push_bit 16 (mask 8))) :: u32) :: u8)) OR
       push_bit 24 (ucast (ucast (drop_bit 24 (ucast (base AND push_bit 24 (mask 8) OR limit AND push_bit 16 (mask 4) OR
               push_bit 8 (ucast attr AND (push_bit 12 (mask 4) OR mask 8)) OR
               drop_bit 16 (base AND push_bit 16 (mask 8))) :: u32)) :: u8)) :: u64) n \<longleftrightarrow> bit (take_bit 32 base) n"
    by cases (simp_all add: bit_simps)
qed

lemma GDTE_s: "desc_s (GDTE base limit attr) = bit attr 4"
  unfolding GDTE_def desc_fields user_desc.select_convs mask_consts64 by (auto simp: bit_simps)

lemma GDTE_g: "desc_g (GDTE base limit attr) = bit attr 15"
  unfolding GDTE_def desc_fields user_desc.select_convs mask_consts64 by (auto simp: bit_simps)

lemma GDTE_limit:
  "(ucast (desc_limit0 (GDTE base limit attr)) OR push_bit 16 (ucast (desc_limit1 (GDTE base limit attr))) :: u32)
   = ucast (take_bit 20 limit)"
  unfolding GDTE_def desc_fields user_desc.select_convs mask_consts64
proof (rule bit_word_eqI)
  fix n assume n: "n < LENGTH(32)"
  consider "n < 16" | "16 \<le> n" "n < 20" | "20 \<le> n" by linarith
  then show "bit (ucast (ucast (ucast (push_bit 16 (base AND mask 16) OR limit AND mask 16) :: u32) :: u16) OR
       push_bit 16 (ucast (ucast (drop_bit 16 (ucast (base AND push_bit 24 (mask 8) OR limit AND push_bit 16 (mask 4) OR
               push_bit 8 (ucast attr AND (push_bit 12 (mask 4) OR mask 8)) OR
               drop_bit 16 (base AND push_bit 16 (mask 8))) :: u32)) :: 4 word)) :: u32) n
     \<longleftrightarrow> bit (ucast (take_bit 20 limit) :: u32) n"
    using n by cases (auto simp: bit_simps)
qed

lemma user_desc_limit_GDTE:
  "user_desc_limit (GDTE base limit attr) =
     (if bit attr 15 then push_bit 12 (ucast (take_bit 20 limit)) OR 0xfff else ucast (take_bit 20 limit))"
  unfolding user_desc_limit_def Let_def GDTE_limit GDTE_g ..

lemma user_desc_base_GDTE:
  "user_desc_base e (GDTE base limit attr) d1 =
     (if CONFIG_64BIT e \<and> \<not> bit attr 4 then take_bit 32 base OR push_bit 32 (ucast (desc_lo d1))
      else take_bit 32 base)"
  unfolding user_desc_base_def Let_def GDTE_base_low GDTE_s ..

lemma join_halves: "take_bit 32 x OR push_bit 32 (ucast (ucast (drop_bit 32 x) :: u32)) = (x :: u64)"
proof (rule bit_word_eqI)
  fix n assume "n < LENGTH(64)"
  then show "bit (take_bit 32 x OR push_bit 32 (ucast (ucast (drop_bit 32 x) :: u32))) n \<longleftrightarrow> bit x n"
    by (cases "n < 32") (auto simp: bit_simps)
qed

lemma pack_sys_desc_base:
  assumes "pack_sys_desc e base limit attr d1 = (d, d')" "\<not> bit attr 4"
  shows "user_desc_base e d d' = to_ulong e base"
proof (cases "CONFIG_64BIT e")
  case True
  moreover have "to_ulong e base = base"
    using True by (intro bit_word_eqI) (auto simp: to_ulong_def bit_simps)
  ultimately show ?thesis
    using assms by (auto simp: pack_sys_desc_def user_desc_base_GDTE join_halves)
next
  case False
  then show ?thesis
    using assms by (auto simp: pack_sys_desc_def user_desc_base_GDTE to_ulong_def)
qed

section \<open>Reading a descriptor back\<close>

text \<open>
  The accessors read back what the builders of descriptors packed. user_desc_limit of a GDTE
  gives the limit field, scaled when the granularity bit is set, and user_desc_base of a packed
  TSS or LDT descriptor gives the base (of the build's width) in both the 8-byte and the 16-byte
  format.
\<close>

lemma user_desc_roundtrip:
  "user_desc_limit (GDTE base limit attr) =
     (if bit attr 15 then push_bit 12 (ucast (take_bit 20 limit)) OR 0xfff else ucast (take_bit 20 limit))
   \<and> (\<forall>d d1'. pack_tss_desc e base d1 = (d, d1') \<or> pack_ldt_desc e base limit1 d1 = (d, d1') \<longrightarrow>
        user_desc_base e d d1' = to_ulong e base)"
proof (intro conjI allI impI)
  fix d d1'
  assume "pack_tss_desc e base d1 = (d, d1') \<or> pack_ldt_desc e base limit1 d1 = (d, d1')"
  then show "user_desc_base e d d1' = to_ulong e base"
    unfolding pack_tss_desc_def pack_ldt_desc_def by (auto dest: pack_sys_desc_base)
qed (rule user_desc_limit_GDTE)

lemma user_desc_roundtrip_witness:
  "user_desc_base HVM64 (fst (pack_tss_desc HVM64 0xffff830000123000 (GDTE 0 0 0)))
     (snd (pack_tss_desc HVM64 0xffff830000123000 (GDTE 0 0 0))) = 0xffff830000123000"
proof -
  obtain d d1 where p: "pack_tss_desc HVM64 0xffff830000123000 (GDTE 0 0 0) = (d, d1)" by force
  then have "user_desc_base HVM64 d d1 = to_ulong HVM64 0xffff830000123000"
    using user_desc_roundtrip [where e = HVM64 and base = "0xffff830000123000"] by blast
  then show ?thesis by (simp add: p to_ulong_def)
qed

end
