(* ===== verification/X86_Tss.thy ===== *)
theory X86_Tss imports
  Report
  X86_Desc
begin

text \<open>
  Task state segments: \<open>arch/x86/include/arch/x86-tss.h\<close>, the dump routines of
  \<open>arch/x86/x86-tss.c\<close>, and the two segments that \<open>arch/x86/hvm/traps.c\<close> defines.
\<close>

record x86_tss32 =
  t32_link :: u16
  t32_esp0 :: u32
  t32_ss0 :: u16
  t32_esp1 :: u32
  t32_ss1 :: u16
  t32_esp2 :: u32
  t32_ss2 :: u16
  t32_cr3 :: u32
  t32_eip :: u32
  t32_eflags :: u32
  t32_eax :: u32
  t32_ecx :: u32
  t32_edx :: u32
  t32_ebx :: u32
  t32_esp :: u32
  t32_ebp :: u32
  t32_esi :: u32
  t32_edi :: u32
  t32_es :: u16
  t32_cs :: u16
  t32_ss :: u16
  t32_ds :: u16
  t32_fs :: u16
  t32_gs :: u16
  t32_ldtr :: u16
  t32_trace :: bool
  t32_iopb :: u16

record x86_tss64 =
  t64_rsp0 :: u64
  t64_rsp1 :: u64
  t64_rsp2 :: u64
  t64_ist :: "u64 list"
  t64_trace :: bool
  t64_iopb :: u16

definition zero_tss32 :: x86_tss32 where
  "zero_tss32 =
     \<lparr>t32_link = 0, t32_esp0 = 0, t32_ss0 = 0, t32_esp1 = 0, t32_ss1 = 0, t32_esp2 = 0, t32_ss2 = 0,
      t32_cr3 = 0, t32_eip = 0, t32_eflags = 0, t32_eax = 0, t32_ecx = 0, t32_edx = 0, t32_ebx = 0,
      t32_esp = 0, t32_ebp = 0, t32_esi = 0, t32_edi = 0, t32_es = 0, t32_cs = 0, t32_ss = 0,
      t32_ds = 0, t32_fs = 0, t32_gs = 0, t32_ldtr = 0, t32_trace = False, t32_iopb = 0\<rparr>"

definition zero_tss64 :: x86_tss64 where
  "zero_tss64 =
     \<lparr>t64_rsp0 = 0, t64_rsp1 = 0, t64_rsp2 = 0, t64_ist = replicate 7 0, t64_trace = False, t64_iopb = 0\<rparr>"

definition X86_TSS_INVALID_IO_BITMAP :: u16 where [xtf_consts]: "X86_TSS_INVALID_IO_BITMAP = 0x8000"

section \<open>The dump routines\<close>

definition TSS32_FMT :: string where
  "TSS32_FMT =
     ''Dump x86_tss32 at %p {'' @ [LF] @
     ''  link %04x'' @ [LF] @
     ''  r0 %04x:%08x'' @ [LF] @
     ''  r1 %04x:%08x'' @ [LF] @
     ''  r2 %04x:%08x'' @ [LF] @
     ''  cr3 %08x'' @ [LF] @
     ''  eip %08x, eflags %08x'' @ [LF] @
     ''  eax %08x, ecx %08x'' @ [LF] @
     ''  edx %08x, ebx %08x'' @ [LF] @
     ''  esp %08x, ebp %08x'' @ [LF] @
     ''  esi %08x, edi %08x'' @ [LF] @
     ''  es %04x, cs %04x, ss %04x'' @ [LF] @
     ''  ds %04x, fs %04x, gs %04x'' @ [LF] @
     ''  ldtr %04x, trace %u, iobp %04x'' @ [LF] @
     ''}'' @ [LF]"

definition dump_x86_tss32 :: "u64 \<Rightarrow> x86_tss32 \<Rightarrow> ('z machine_scheme, unit) prog" where
  "dump_x86_tss32 addr t =
     printk TSS32_FMT
       [VaPtr addr, VaInt (ucast (t32_link t)),
        VaInt (ucast (t32_ss0 t)), VaInt (t32_esp0 t),
        VaInt (ucast (t32_ss1 t)), VaInt (t32_esp1 t),
        VaInt (ucast (t32_ss2 t)), VaInt (t32_esp2 t),
        VaInt (t32_cr3 t),
        VaInt (t32_eip t), VaInt (t32_eflags t),
        VaInt (t32_eax t), VaInt (t32_ecx t),
        VaInt (t32_edx t), VaInt (t32_ebx t),
        VaInt (t32_esp t), VaInt (t32_ebp t),
        VaInt (t32_esi t), VaInt (t32_edi t),
        VaInt (ucast (t32_es t)), VaInt (ucast (t32_cs t)), VaInt (ucast (t32_ss t)),
        VaInt (ucast (t32_ds t)), VaInt (ucast (t32_fs t)), VaInt (ucast (t32_gs t)),
        VaInt (ucast (t32_ldtr t)), VaInt (of_bool (t32_trace t)), VaInt (ucast (t32_iopb t))]"

definition TSS64_FMT :: "env \<Rightarrow> string" where
  "TSS64_FMT e =
     ''Dump x86_tss64 at %p {'' @ [LF] @
     ''  rsp0 %016'' @ PRIx64 e @ '', rsp1 %016'' @ PRIx64 e @ [LF] @
     ''  rsp2 %016'' @ PRIx64 e @ '', ist1 %016'' @ PRIx64 e @ [LF] @
     ''  ist2 %016'' @ PRIx64 e @ '', ist3 %016'' @ PRIx64 e @ [LF] @
     ''  ist4 %016'' @ PRIx64 e @ '', ist5 %016'' @ PRIx64 e @ [LF] @
     ''  ist6 %016'' @ PRIx64 e @ '', ist7 %016'' @ PRIx64 e @ [LF] @
     ''  trace %u, iobp %04x'' @ [LF] @
     ''}'' @ [LF]"

definition dump_x86_tss64 :: "u64 \<Rightarrow> x86_tss64 \<Rightarrow> ('z machine_scheme, unit) prog" where
  "dump_x86_tss64 addr t =
     bnd (config id) (\<lambda>e.
     printk (TSS64_FMT e)
       [VaPtr addr,
        va_u64 e (t64_rsp0 t), va_u64 e (t64_rsp1 t),
        va_u64 e (t64_rsp2 t), va_u64 e (t64_ist t ! 0),
        va_u64 e (t64_ist t ! 1), va_u64 e (t64_ist t ! 2),
        va_u64 e (t64_ist t ! 3), va_u64 e (t64_ist t ! 4),
        va_u64 e (t64_ist t ! 5), va_u64 e (t64_ist t ! 6),
        VaInt (of_bool (t64_trace t)), VaInt (ucast (t64_iopb t))])"

section \<open>The segments of an HVM guest\<close>

text \<open>The addresses that the linker gives to symbols, by their names.\<close>

type_synonym linkage = "string \<Rightarrow> u64"

datatype env_tss = Tss32 x86_tss32 | Tss64 x86_tss64

definition hvm_tss :: "env \<Rightarrow> linkage \<Rightarrow> env_tss" where
  "hvm_tss e lnk =
     (if CONFIG_64BIT e
      then Tss64 (zero_tss64\<lparr>t64_rsp0 := lnk ''boot_stack'' + 2 * 4096,
                   t64_ist := (replicate 7 0)[0 := lnk ''boot_stack'' + 3 * 4096],
                   t64_iopb := X86_TSS_INVALID_IO_BITMAP\<rparr>)
      else Tss32 (zero_tss32\<lparr>t32_esp0 := ucast (lnk ''boot_stack'' + 2 * 4096),
                   t32_ss0 := ucast (KERN_DS e), t32_cr3 := ucast (lnk ''cr3_target''),
                   t32_iopb := X86_TSS_INVALID_IO_BITMAP\<rparr>))"

definition hvm_tss_DF :: "env \<Rightarrow> linkage \<Rightarrow> env_tss" where
  "hvm_tss_DF e lnk =
     (if CONFIG_64BIT e then Tss64 (zero_tss64\<lparr>t64_iopb := X86_TSS_INVALID_IO_BITMAP\<rparr>)
      else Tss32 (zero_tss32\<lparr>t32_esp := ucast (lnk ''boot_stack'' + 3 * 4096),
                   t32_ss := ucast (KERN_DS e), t32_ds := ucast (KERN_DS e), t32_es := ucast (KERN_DS e),
                   t32_fs := ucast (KERN_DS e), t32_gs := ucast (KERN_DS e),
                   t32_eip := ucast (lnk ''entry_DF''), t32_cs := ucast (KERN_CS e),
                   t32_cr3 := ucast (lnk ''cr3_target''),
                   t32_iopb := X86_TSS_INVALID_IO_BITMAP\<rparr>))"

end
