(* ===== verification/Ring.thy ===== *)
theory Ring imports
  Prelude
begin

text \<open>
  Shared-memory rings with free-running 32-bit indices: the byte at index \<open>i\<close> is at
  \<open>buf[i & (size - 1)]\<close>, and the indices wrap. \<open>ring_slice\<close> is the abstract content, the \<open>n\<close> bytes
  from an index on. The console and the xenbus rings share these lemmas.
\<close>

definition ring_pos :: "nat \<Rightarrow> u32 \<Rightarrow> nat" where
  "ring_pos b i = unat (i AND mask b)"

definition ring_slice :: "nat \<Rightarrow> 'a list \<Rightarrow> u32 \<Rightarrow> nat \<Rightarrow> 'a list" where
  "ring_slice b buf start n = map (\<lambda>k. buf ! ring_pos b (start + of_nat k)) [0..<n]"

lemma ring_pos_less: "ring_pos b i < 2 ^ b"
  unfolding ring_pos_def by (rule unat_and_mask_lt)

lemma ring_pos_mod: "ring_pos b i = unat i mod 2 ^ b"
  unfolding ring_pos_def by (rule unat_and_mask)

lemma ring_pos_add:
  assumes "b \<le> 32"
  shows "ring_pos b (i + of_nat k) = (ring_pos b i + k) mod 2 ^ b"
proof -
  have dvd: "(2 :: nat) ^ b dvd 2 ^ 32" using assms by (rule le_imp_power_dvd)
  have "unat (i + of_nat k) mod 2 ^ b = ((unat i + k) mod 2 ^ 32) mod 2 ^ b"
    by (simp add: unat_word_ariths unsigned_of_nat take_bit_eq_mod mod_add_right_eq)
  also have "\<dots> = (unat i + k) mod 2 ^ b" using dvd by (rule mod_mod_cancel)
  finally show ?thesis by (simp add: ring_pos_mod mod_add_left_eq)
qed

lemma mod_add_inject:
  fixes a :: nat
  assumes "(a + j) mod m = (a + k) mod m" "j < m" "k < m"
  shows "j = k"
proof -
  have le: "j = k" if "j \<le> k" "(a + j) mod m = (a + k) mod m" "k < m" for j k
  proof -
    have "m dvd (a + k) - (a + j)" using that by (metis mod_eq_dvd_iff_nat add_le_mono order_refl)
    then have "m dvd k - j" by simp
    then show ?thesis using that by (metis diff_is_0_eq dvd_imp_le le_antisym less_imp_diff_less not_less zero_less_iff_neq_zero)
  qed
  show ?thesis using le [of j k] le [of k j] assms by (cases "j \<le> k") auto
qed

lemma length_ring_slice [simp]: "length (ring_slice b buf start n) = n"
  by (simp add: ring_slice_def)

lemma ring_slice_0 [simp]: "ring_slice b buf start 0 = []"
  by (simp add: ring_slice_def)

lemma nth_ring_slice: "k < n \<Longrightarrow> ring_slice b buf start n ! k = buf ! ring_pos b (start + of_nat k)"
  by (simp add: ring_slice_def)

lemma ring_slice_Suc:
  "ring_slice b buf start (Suc n) = ring_slice b buf start n @ [buf ! ring_pos b (start + of_nat n)]"
  by (simp add: ring_slice_def)

lemma ring_slice_append:
  "ring_slice b buf start (m + n) = ring_slice b buf start m @ ring_slice b buf (start + of_nat m) n"
  by (induction n) (simp_all add: ring_slice_Suc add.assoc)

lemma take_ring_slice: "m \<le> n \<Longrightarrow> take m (ring_slice b buf start n) = ring_slice b buf start m"
  by (simp add: ring_slice_def take_map)

lemma drop_ring_slice:
  "m \<le> n \<Longrightarrow> drop m (ring_slice b buf start n) = ring_slice b buf (start + of_nat m) (n - m)"
  using ring_slice_append [of b buf start m "n - m"] by simp

text \<open>Writing one byte past the content extends it, as long as it does not fill the ring.\<close>

lemma ring_slice_put:
  assumes "b \<le> 32" "n < 2 ^ b" "length buf = 2 ^ b"
  shows "ring_slice b (buf[ring_pos b (start + of_nat n) := c]) start (Suc n) = ring_slice b buf start n @ [c]"
proof -
  have "ring_pos b (start + of_nat n) \<noteq> ring_pos b (start + of_nat k)" if "k < n" for k
    using that assms mod_add_inject [of "ring_pos b start" n "2 ^ b" k] by (auto simp: ring_pos_add)
  then show ?thesis
    using assms ring_pos_less [of b "start + of_nat n"] by (simp add: ring_slice_def)
qed

text \<open>
  A block copy that does not run over the end of the buffer, as \<open>memcpy\<close> does it, extends the
  content in the same way; and a block read returns the first bytes of the content.
\<close>

definition block_write :: "nat \<Rightarrow> 'a list \<Rightarrow> 'a list \<Rightarrow> 'a list" where
  "block_write p xs buf = take p buf @ xs @ drop (p + length xs) buf"

lemma length_block_write: "p + length xs \<le> length buf \<Longrightarrow> length (block_write p xs buf) = length buf"
  by (simp add: block_write_def)

lemma nth_block_write:
  "p + length xs \<le> length buf \<Longrightarrow>
   block_write p xs buf ! i = (if p \<le> i \<and> i < p + length xs then xs ! (i - p) else buf ! i)"
  by (auto simp: block_write_def nth_append)

lemma ring_slice_block:
  assumes "b \<le> 32" "n + length xs \<le> 2 ^ b" "length buf = 2 ^ b"
    and fits: "ring_pos b (start + of_nat n) + length xs \<le> 2 ^ b"
  shows "ring_slice b (block_write (ring_pos b (start + of_nat n)) xs buf) start (n + length xs) =
         ring_slice b buf start n @ xs"
proof (rule nth_equalityI)
  show "length (ring_slice b (block_write (ring_pos b (start + of_nat n)) xs buf) start (n + length xs)) =
      length (ring_slice b buf start n @ xs)" by simp
next
  let ?p = "ring_pos b (start + of_nat n)"
  fix k assume "k < length (ring_slice b (block_write ?p xs buf) start (n + length xs))"
  then have k: "k < n + length xs" by simp
  have bw: "block_write ?p xs buf ! i = (if ?p \<le> i \<and> i < ?p + length xs then xs ! (i - ?p) else buf ! i)" for i
    using fits assms(3) by (intro nth_block_write) simp
  have above: "ring_pos b (start + of_nat (n + j)) = ?p + j" if "j < length xs" for j
  proof -
    have "ring_pos b (start + of_nat n + of_nat j) = (?p + j) mod 2 ^ b"
      by (rule ring_pos_add [OF assms(1)])
    then show ?thesis using that fits by (simp add: add.assoc)
  qed
  show "ring_slice b (block_write ?p xs buf) start (n + length xs) ! k = (ring_slice b buf start n @ xs) ! k"
  proof (cases "k < n")
    case False
    then obtain j where j: "k = n + j" "j < length xs" using k by (metis add_diff_inverse_nat add_less_cancel_left)
    then show ?thesis using above [of j] by (simp add: nth_ring_slice nth_append bw)
  next
    case True
    have "\<not> (?p \<le> ring_pos b (start + of_nat k) \<and> ring_pos b (start + of_nat k) < ?p + length xs)"
    proof
      assume in_block: "?p \<le> ring_pos b (start + of_nat k) \<and> ring_pos b (start + of_nat k) < ?p + length xs"
      define j where "j = ring_pos b (start + of_nat k) - ?p"
      have "j < length xs" "ring_pos b (start + of_nat k) = ring_pos b (start + of_nat (n + j))"
        using in_block above [of j] by (auto simp: j_def)
      then show False
        using mod_add_inject [of "ring_pos b start" k "2 ^ b" "n + j"] True assms(1,2)
        by (auto simp: ring_pos_add simp del: of_nat_add)
    qed
    then show ?thesis using True by (auto simp: nth_ring_slice nth_append bw)
  qed
qed

lemma ring_slice_read:
  assumes "b \<le> 32" "ring_pos b start + n \<le> 2 ^ b" "length buf = 2 ^ b"
  shows "take n (drop (ring_pos b start) buf) = ring_slice b buf start n"
proof (rule nth_equalityI)
  show "length (take n (drop (ring_pos b start) buf)) = length (ring_slice b buf start n)"
    using assms by simp
next
  fix k assume "k < length (take n (drop (ring_pos b start) buf))"
  then have "k < n" by simp
  then show "take n (drop (ring_pos b start) buf) ! k = ring_slice b buf start n ! k"
    using assms by (simp add: nth_ring_slice ring_pos_add)
qed

text \<open>The number of bytes between two free-running indices, and how it changes.\<close>

definition ring_len :: "u32 \<Rightarrow> u32 \<Rightarrow> nat" where
  "ring_len c p = unat (p - c)"

lemma ring_len_self [simp]: "ring_len i i = 0"
  by (simp add: ring_len_def)

lemma ring_len_0: "ring_len c p = 0 \<longleftrightarrow> p = c"
  by (simp add: ring_len_def unat_eq_0)

lemma prod_eq: "p = c + of_nat (ring_len c p)"
  by (simp add: ring_len_def)

lemma ring_len_add_prod:
  "ring_len c p + k < 2 ^ 32 \<Longrightarrow> ring_len c (p + of_nat k) = ring_len c p + k"
proof -
  assume a: "ring_len c p + k < 2 ^ 32"
  have "p + of_nat k - c = of_nat (ring_len c p + k)"
    by (subst (1) prod_eq [of p c]) simp
  then have "ring_len c (p + of_nat k) = unat (of_nat (ring_len c p + k) :: u32)"
    by (simp only: ring_len_def)
  also have "\<dots> = ring_len c p + k" using a by (intro unat_of_nat_less) simp
  finally show ?thesis .
qed

lemma ring_len_add_cons:
  "k \<le> ring_len c p \<Longrightarrow> ring_len (c + of_nat k) p = ring_len c p - k"
proof -
  assume a: "k \<le> ring_len c p"
  have "p - (c + of_nat k) = of_nat (ring_len c p - k)"
    using a by (subst (1) prod_eq [of p c]) (simp add: of_nat_diff)
  moreover have "ring_len c p - k < 2 ^ 32"
    using unat_u32_less [of "p - c"] by (simp add: ring_len_def)
  moreover have "ring_len (c + of_nat k) p = unat (p - (c + of_nat k))"
    by (simp only: ring_len_def)
  ultimately show ?thesis by simp
qed

text \<open>The rings of the code have 1024 and 2048 bytes.\<close>

lemma mask_10: "(i :: u32) AND 1023 = i AND mask 10"
  by (simp add: mask_eq_exp_minus_1)

lemma mask_11: "(i :: u32) AND 2047 = i AND mask 11"
  by (simp add: mask_eq_exp_minus_1)

lemma ring_pos_10: "unat ((i :: u32) AND 1023) = ring_pos 10 i"
  by (simp only: mask_10 ring_pos_def)

lemma ring_pos_11: "unat ((i :: u32) AND 2047) = ring_pos 11 i"
  by (simp only: mask_11 ring_pos_def)

lemma ring_pos_10_less: "ring_pos 10 i < 1024"
  using ring_pos_less [of 10 i] by simp

end
