(* ===== verification/Xenbus.thy ===== *)
theory Xenbus imports
  Ring
  Libc_String
begin

text \<open>
  \<open>common/xenbus.c\<close>: the two rings that are shared with xenstored, and a read from xenstore over
  them. Xenstored is a parameter, a function on the shared state that runs wherever the guest
  notifies it or blocks. Waiting loops have fuel; \<open>None\<close> is a loop that did not end.
\<close>

section \<open>The shared state\<close>

text \<open>
  \<open>struct xenbus_interface\<close> of \<open>include/xen/io/xs_wire.h\<close> and the pending bit of the event channel.
  The fields \<open>received\<close> and \<open>to_send\<close> are not in memory: the request bytes that xenstored has
  taken so far, and the response bytes that it has still to produce.
\<close>

record xenbus =
  req :: string
  rsp :: string
  req_cons :: u32
  req_prod :: u32
  rsp_cons :: u32
  rsp_prod :: u32
  evtchn_pending :: bool
  received :: string
  to_send :: string

definition mask_xenbus_idx :: "u32 \<Rightarrow> u32" where
  "mask_xenbus_idx idx = idx AND (1024 - 1)"

text \<open>
  Waiting for the other side: \<open>hypercall_evtchn_send\<close>, then \<open>hypercall_poll\<close> unless the channel was
  pending, which the test clears.
\<close>

definition kick_and_wait :: "(xenbus \<Rightarrow> xenbus) \<Rightarrow> xenbus \<Rightarrow> xenbus" where
  "kick_and_wait peer r =
     (let r1 = peer r in
      if evtchn_pending r1 then r1\<lparr>evtchn_pending := False\<rparr>
      else peer (r1\<lparr>evtchn_pending := False\<rparr>))"

fun xenbus_write :: "nat \<Rightarrow> (xenbus \<Rightarrow> xenbus) \<Rightarrow> string \<Rightarrow> xenbus \<Rightarrow> xenbus option" where
  "xenbus_write 0 peer data r = None"
| "xenbus_write (Suc n) peer data r =
     (if data = [] then Some r
      else
        let pr = req_prod r; cons = req_cons r;
            part0 = (1024 - 1) - mask_xenbus_idx (pr - cons) in
        if part0 = 0 then xenbus_write n peer data (kick_and_wait peer r)
        else
          let part1 = min part0 (1024 - mask_xenbus_idx pr);
              part = unat (min part1 (of_nat (length data)))
          in xenbus_write n peer (drop part data)
               (r\<lparr>req := block_write (unat (mask_xenbus_idx pr)) (take part data) (req r),
                  req_prod := pr + of_nat part\<rparr>))"

text \<open>\<open>len\<close> bytes are read; the result is what was stored through \<open>data\<close>.\<close>

fun xenbus_read :: "nat \<Rightarrow> (xenbus \<Rightarrow> xenbus) \<Rightarrow> nat \<Rightarrow> xenbus \<Rightarrow> (string \<times> xenbus) option" where
  "xenbus_read 0 peer len r = None"
| "xenbus_read (Suc n) peer len r =
     (if len = 0 then Some ([], r)
      else
        let pr = rsp_prod r; cons = rsp_cons r; part0 = pr - cons in
        if part0 = 0 then xenbus_read n peer len (kick_and_wait peer r)
        else
          let part1 = min part0 (1024 - mask_xenbus_idx cons);
              part = unat (min part1 (of_nat len));
              chunk = take part (drop (unat (mask_xenbus_idx cons)) (rsp r))
          in Option.bind (xenbus_read n peer (len - part) (r\<lparr>rsp_cons := cons + of_nat part\<rparr>))
               (\<lambda>(rest, r1). Some (chunk @ rest, r1)))"

section \<open>Invariant and contents\<close>

definition req_len :: "xenbus \<Rightarrow> nat" where
  "req_len r = ring_len (req_cons r) (req_prod r)"

definition rsp_len :: "xenbus \<Rightarrow> nat" where
  "rsp_len r = ring_len (rsp_cons r) (rsp_prod r)"

definition req_pending :: "xenbus \<Rightarrow> string" where
  "req_pending r = ring_slice 10 (req r) (req_cons r) (req_len r)"

definition rsp_pending :: "xenbus \<Rightarrow> string" where
  "rsp_pending r = ring_slice 10 (rsp r) (rsp_cons r) (rsp_len r)"

text \<open>The guest leaves one byte of the request ring free; xenstored may fill the response ring.\<close>

definition xenbus_ok :: "xenbus \<Rightarrow> bool" where
  "xenbus_ok r \<longleftrightarrow> length (req r) = 1024 \<and> length (rsp r) = 1024 \<and> req_len r < 1024 \<and> rsp_len r \<le> 1024"

text \<open>
  What the guest relies on of xenstored: it keeps the rings well formed, takes requests in order,
  produces its responses in order, and when it is waited for it makes progress: it takes part of
  the requests, and with none left it produces part of what it has to send. The producer index of requests and the consumer index of responses are the guest's.
\<close>

definition xenstored :: "(xenbus \<Rightarrow> xenbus) \<Rightarrow> bool" where
  "xenstored peer \<longleftrightarrow>
     (\<forall>r. xenbus_ok r \<longrightarrow>
        xenbus_ok (peer r) \<and>
        received (peer r) @ req_pending (peer r) = received r @ req_pending r \<and>
        rsp_pending (peer r) @ to_send (peer r) = rsp_pending r @ to_send r \<and>
        req_len (peer r) \<le> req_len r \<and>
        (0 < req_len r \<longrightarrow> req_len (peer r) < req_len r) \<and>
        rsp_len r \<le> rsp_len (peer r) \<and>
        (rsp_len r = 0 \<longrightarrow> to_send r \<noteq> [] \<longrightarrow> req_len r = 0 \<longrightarrow> 0 < rsp_len (peer r)))"

lemma unat_mask_xenbus_idx: "unat (mask_xenbus_idx i) = ring_pos 10 i"
  by (simp add: mask_xenbus_idx_def mask_10 ring_pos_def)

lemma mask_xenbus_idx_less: "unat (mask_xenbus_idx i) < 1024"
  using ring_pos_less [of 10 i] by (simp add: unat_mask_xenbus_idx)

lemma unat_size_minus: "unat (1024 - mask_xenbus_idx i) = 1024 - ring_pos 10 i"
proof -
  have "mask_xenbus_idx i \<le> 1024"
    using mask_xenbus_idx_less [of i] by (simp add: word_le_nat_alt)
  then show ?thesis by (simp add: unat_sub unat_mask_xenbus_idx)
qed

lemma unat_free:
  "ring_len c p < 1024 \<Longrightarrow> unat ((1024 - 1) - mask_xenbus_idx (p - c)) = 1023 - ring_len c p"
proof -
  assume a: "ring_len c p < 1024"
  have "unat (mask_xenbus_idx (p - c)) = ring_len c p"
    using a by (simp add: unat_mask_xenbus_idx ring_pos_mod ring_len_def)
  then have "mask_xenbus_idx (p - c) \<le> 1023" "unat (1023 - mask_xenbus_idx (p - c)) = 1023 - ring_len c p"
    using a by (simp_all add: word_le_nat_alt unat_sub)
  then show ?thesis by simp
qed

lemma unat_min: "unat (min (a :: 'a::len word) b) = min (unat a) (unat b)"
  by (auto simp: min_def word_le_nat_alt)

lemma kick_and_wait_spec:
  assumes peer: "xenstored peer" and ok: "xenbus_ok r"
  shows "xenbus_ok (kick_and_wait peer r)"
    "received (kick_and_wait peer r) @ req_pending (kick_and_wait peer r) = received r @ req_pending r"
    "rsp_pending (kick_and_wait peer r) @ to_send (kick_and_wait peer r) = rsp_pending r @ to_send r"
    "req_len (kick_and_wait peer r) \<le> req_len r"
    "0 < req_len r \<Longrightarrow> req_len (kick_and_wait peer r) < req_len r"
    "rsp_len r = 0 \<Longrightarrow> to_send r \<noteq> [] \<Longrightarrow> req_len r = 0 \<Longrightarrow> 0 < rsp_len (kick_and_wait peer r)"
proof -
  let ?r1 = "peer r" and ?r2 = "(peer r)\<lparr>evtchn_pending := False\<rparr>"
  have same: "xenbus_ok ?r2 = xenbus_ok ?r1" "received ?r2 = received ?r1" "to_send ?r2 = to_send ?r1"
    "req_pending ?r2 = req_pending ?r1" "rsp_pending ?r2 = rsp_pending ?r1"
    "req_len ?r2 = req_len ?r1" "rsp_len ?r2 = rsp_len ?r1"
    by (simp_all add: xenbus_ok_def req_pending_def rsp_pending_def req_len_def rsp_len_def)
  note p1 = peer [unfolded xenstored_def, rule_format, OF ok]
  have ok2: "xenbus_ok ?r2" using p1 same by simp
  note p2 = peer [unfolded xenstored_def, rule_format, OF ok2]
  have kw: "kick_and_wait peer r = ?r2 \<or> kick_and_wait peer r = peer ?r2"
    by (simp add: kick_and_wait_def Let_def)
  show "xenbus_ok (kick_and_wait peer r)"
    "received (kick_and_wait peer r) @ req_pending (kick_and_wait peer r) = received r @ req_pending r"
    "rsp_pending (kick_and_wait peer r) @ to_send (kick_and_wait peer r) = rsp_pending r @ to_send r"
    "req_len (kick_and_wait peer r) \<le> req_len r"
    using kw p1 p2 same by auto
  show "req_len (kick_and_wait peer r) < req_len r" if "0 < req_len r"
    using kw p1 p2 same that by auto
  show "0 < rsp_len (kick_and_wait peer r)" if "rsp_len r = 0" "to_send r \<noteq> []" "req_len r = 0"
    using kw p1 p2 same that by auto
qed

section \<open>Writing\<close>

definition write_chunk :: "string \<Rightarrow> nat \<Rightarrow> xenbus \<Rightarrow> xenbus" where
  "write_chunk data part r =
     r\<lparr>req := block_write (unat (mask_xenbus_idx (req_prod r))) (take part data) (req r),
       req_prod := req_prod r + of_nat part\<rparr>"

lemma write_chunk_spec:
  assumes "xenbus_ok r" "part \<le> length data" "req_len r + part < 1024"
    "ring_pos 10 (req_prod r) + part \<le> 1024"
  shows "xenbus_ok (write_chunk data part r)" "req_len (write_chunk data part r) = req_len r + part"
    "req_pending (write_chunk data part r) = req_pending r @ take part data"
    "received (write_chunk data part r) = received r"
    "rsp_pending (write_chunk data part r) = rsp_pending r" "to_send (write_chunk data part r) = to_send r"
proof -
  have len: "length (req r) = 2 ^ 10" using assms(1) by (simp add: xenbus_ok_def)
  have tk: "length (take part data) = part" using assms(2) by simp
  show l: "req_len (write_chunk data part r) = req_len r + part"
    using assms(3) by (simp add: write_chunk_def req_len_def ring_len_add_prod)
  then show "xenbus_ok (write_chunk data part r)"
    using assms len tk
    by (simp add: xenbus_ok_def write_chunk_def length_block_write unat_mask_xenbus_idx rsp_len_def)
  have "ring_slice 10 (block_write (ring_pos 10 (req_cons r + of_nat (req_len r))) (take part data) (req r))
      (req_cons r) (req_len r + length (take part data)) =
      ring_slice 10 (req r) (req_cons r) (req_len r) @ take part data"
    using assms len tk by (intro ring_slice_block) (simp_all add: req_len_def flip: prod_eq)
  then show "req_pending (write_chunk data part r) = req_pending r @ take part data"
    using l tk
    by (simp add: req_pending_def unat_mask_xenbus_idx req_len_def write_chunk_def flip: prod_eq)
qed (simp_all add: write_chunk_def rsp_pending_def rsp_len_def)

lemma xenbus_write_step:
  assumes "xenbus_ok r" "data \<noteq> []" "length data < 2 ^ 32" "req_len r < 1023"
  obtains part where "0 < part" "part \<le> length data" "req_len r + part < 1024"
    "ring_pos 10 (req_prod r) + part \<le> 1024"
    "xenbus_write (Suc n) peer data r = xenbus_write n peer (drop part data) (write_chunk data part r)"
proof -
  let ?f = "(1024 - 1) - mask_xenbus_idx (req_prod r - req_cons r)"
  let ?p = "unat (min (min ?f (1024 - mask_xenbus_idx (req_prod r))) (of_nat (length data)))"
  have f: "unat ?f = 1023 - req_len r"
    using assms(4) unat_free [of "req_cons r" "req_prod r"] by (simp add: req_len_def)
  then have f0: "?f \<noteq> 0" using assms(4) by (metis diff_is_0_eq not_less unat_0)
  have l: "unat (of_nat (length data) :: u32) = length data"
    using assms(3) by (intro unat_of_nat_less) simp
  have p: "?p = min (min (1023 - req_len r) (1024 - ring_pos 10 (req_prod r))) (length data)"
    by (simp only: unat_min f l unat_size_minus)
  show thesis
  proof (rule that [of ?p])
    show "0 < ?p" unfolding p using assms(2,4) ring_pos_less [of 10 "req_prod r"] by simp
    show "?p \<le> length data" "req_len r + ?p < 1024" "ring_pos 10 (req_prod r) + ?p \<le> 1024"
      unfolding p using assms(4) ring_pos_10_less [of "req_prod r"] by linarith+
    show "xenbus_write (Suc n) peer data r = xenbus_write n peer (drop ?p data) (write_chunk data ?p r)"
      using assms(2) f0 by (simp add: Let_def write_chunk_def)
  qed
qed

lemma xenbus_write_full:
  assumes "xenbus_ok r" "data \<noteq> []" "\<not> req_len r < 1023"
  shows "xenbus_write (Suc n) peer data r = xenbus_write n peer data (kick_and_wait peer r)"
proof -
  have "req_len r = 1023" using assms by (simp add: xenbus_ok_def)
  then have "unat ((1024 - 1) - mask_xenbus_idx (req_prod r - req_cons r)) = 0"
    using unat_free [of "req_cons r" "req_prod r"] by (simp add: req_len_def)
  then have "(1024 - 1) - mask_xenbus_idx (req_prod r - req_cons r) = 0"
    by (simp only: unat_eq_0)
  then show ?thesis using assms(2) by (simp add: Let_def)
qed

lemma xenbus_write_spec:
  assumes peer: "xenstored peer"
    and "xenbus_ok r" "length data < 2 ^ 32" "2 * length data + (if req_len r < 1023 then 0 else 1) < n"
  shows "\<exists>r1. xenbus_write n peer data r = Some r1 \<and> xenbus_ok r1
     \<and> received r1 @ req_pending r1 = received r @ req_pending r @ data
     \<and> rsp_pending r1 @ to_send r1 = rsp_pending r @ to_send r"
  using assms(2-4)
proof (induction n arbitrary: data r)
  case 0
  then show ?case by simp
next
  case (Suc n)
  consider (nothing) "data = []" | (put) "data \<noteq> []" "req_len r < 1023" | (full) "data \<noteq> []" "\<not> req_len r < 1023"
    by blast
  then show ?case
  proof cases
    case nothing
    then show ?thesis using Suc.prems by simp
  next
    case put
    obtain part where part: "0 < part" "part \<le> length data" "req_len r + part < 1024"
        "ring_pos 10 (req_prod r) + part \<le> 1024"
        "xenbus_write (Suc n) peer data r = xenbus_write n peer (drop part data) (write_chunk data part r)"
      using xenbus_write_step [OF Suc.prems(1) put(1) Suc.prems(2) put(2)] by blast
    note wc = write_chunk_spec [OF Suc.prems(1) part(2-4)]
    have m: "2 * length (drop part data) + (if req_len (write_chunk data part r) < 1023 then 0 else 1) < n"
      using part(1,2) Suc.prems(3) put(2) by auto
    have l: "length (drop part data) < 2 ^ 32" using Suc.prems(2) by simp
    obtain r1 where "xenbus_write n peer (drop part data) (write_chunk data part r) = Some r1"
        "xenbus_ok r1"
        "received r1 @ req_pending r1 = received r @ (req_pending r @ take part data) @ drop part data"
        "rsp_pending r1 @ to_send r1 = rsp_pending r @ to_send r"
      using Suc.IH [OF wc(1) l m] wc(3-6) by auto
    then show ?thesis using part(5) by simp
  next
    case full
    note kw = kick_and_wait_spec [OF peer Suc.prems(1)]
    have "req_len (kick_and_wait peer r) < 1023"
      using kw(5) full Suc.prems(1) by (auto simp: xenbus_ok_def)
    then show ?thesis
      using xenbus_write_full [OF Suc.prems(1) full] Suc.IH [OF kw(1) Suc.prems(2)] kw(2,3) full Suc.prems(3)
      by auto
  qed
qed

section \<open>Reading\<close>

lemma xenbus_read_step:
  assumes "xenbus_ok r" "0 < len" "len < 2 ^ 32" "0 < rsp_len r"
  obtains part where "0 < part" "part \<le> len" "part \<le> rsp_len r"
    "xenbus_read (Suc n) peer len r =
       Option.bind (xenbus_read n peer (len - part) (r\<lparr>rsp_cons := rsp_cons r + of_nat part\<rparr>))
         (\<lambda>(rest, r1). Some (take part (rsp_pending r) @ rest, r1))"
proof -
  let ?part0 = "rsp_prod r - rsp_cons r"
  let ?p = "unat (min (min ?part0 (1024 - mask_xenbus_idx (rsp_cons r))) (of_nat len))"
  have l: "unat (of_nat len :: u32) = len"
    using assms(3) by (intro unat_of_nat_less) simp
  have p: "?p = min (min (rsp_len r) (1024 - ring_pos 10 (rsp_cons r))) len"
    by (simp only: unat_min l unat_size_minus rsp_len_def ring_len_def)
  have p0: "?part0 \<noteq> 0" using assms(4) by (metis rsp_len_def ring_len_def unat_0 less_irrefl)
  have chunk: "take ?p (drop (unat (mask_xenbus_idx (rsp_cons r))) (rsp r)) = take ?p (rsp_pending r)"
  proof -
    have "?p \<le> rsp_len r" "ring_pos 10 (rsp_cons r) + ?p \<le> 1024"
      unfolding p using ring_pos_10_less [of "rsp_cons r"] by linarith+
    then show ?thesis
      using assms(1) ring_slice_read [of 10 "rsp_cons r" ?p "rsp r"]
      by (simp add: rsp_pending_def take_ring_slice xenbus_ok_def unat_mask_xenbus_idx)
  qed
  show thesis
  proof (rule that [of ?p])
    show "0 < ?p" "?p \<le> len" "?p \<le> rsp_len r"
      unfolding p using assms(2,4) ring_pos_less [of 10 "rsp_cons r"] by simp_all
    show "xenbus_read (Suc n) peer len r =
       Option.bind (xenbus_read n peer (len - ?p) (r\<lparr>rsp_cons := rsp_cons r + of_nat ?p\<rparr>))
         (\<lambda>(rest, r1). Some (take ?p (rsp_pending r) @ rest, r1))"
      using assms(2) p0 chunk by (simp add: Let_def)
  qed
qed

lemma advance_rsp:
  assumes "xenbus_ok r" "part \<le> rsp_len r"
  defines "r1 \<equiv> r\<lparr>rsp_cons := rsp_cons r + of_nat part\<rparr>"
  shows "xenbus_ok r1" "rsp_len r1 = rsp_len r - part" "rsp_pending r1 = drop part (rsp_pending r)"
    "to_send r1 = to_send r" "received r1 = received r" "req_pending r1 = req_pending r"
proof -
  show l: "rsp_len r1 = rsp_len r - part"
    using assms(2) by (simp add: r1_def rsp_len_def ring_len_add_cons)
  then show "xenbus_ok r1" using assms(1) by (auto simp: xenbus_ok_def r1_def req_len_def)
  show "rsp_pending r1 = drop part (rsp_pending r)"
    using l assms(2) by (simp add: rsp_pending_def drop_ring_slice) (simp add: r1_def)
qed (simp_all add: r1_def req_pending_def req_len_def)

text \<open>The iterations a read may need: each byte may have to wait for the requests to be taken.\<close>

definition turns_to_wait :: "xenbus \<Rightarrow> nat" where
  "turns_to_wait r = (if 0 < rsp_len r then 0 else Suc (req_len r))"

definition read_measure :: "nat \<Rightarrow> xenbus \<Rightarrow> nat" where
  "read_measure len r = len * (req_len r + 2) + turns_to_wait r"

lemma turns_to_wait_le: "turns_to_wait r \<le> Suc (req_len r)"
  by (simp add: turns_to_wait_def)

lemma read_measure_get:
  assumes "0 < part" "part \<le> len" "0 < rsp_len r" "req_len r1 = req_len r"
  shows "read_measure (len - part) r1 < read_measure len r"
proof -
  let ?c = "req_len r + 2"
  obtain k where k: "len = Suc k" using assms by (cases len) auto
  have "(len - part) * ?c \<le> k * ?c" using assms k by (intro mult_le_mono1) simp
  moreover have "len * ?c = ?c + k * ?c" unfolding k by (rule mult_Suc)
  moreover have "turns_to_wait r1 < ?c" using turns_to_wait_le [of r1] assms by simp
  ultimately show ?thesis unfolding read_measure_def assms(4) by linarith
qed

lemma read_measure_wait:
  assumes "rsp_len r = 0" "req_len r1 \<le> req_len r" "req_len r1 < req_len r \<or> 0 < rsp_len r1"
  shows "read_measure len r1 < read_measure len r"
proof -
  have "len * (req_len r1 + 2) \<le> len * (req_len r + 2)" using assms(2) by (intro mult_le_mono2) simp
  moreover have "turns_to_wait r1 < turns_to_wait r" using assms by (auto simp: turns_to_wait_def)
  ultimately show ?thesis unfolding read_measure_def by linarith
qed

lemma read_measure_bound: "xenbus_ok r \<Longrightarrow> read_measure len r \<le> len * 1025 + 1024"
proof -
  assume "xenbus_ok r"
  then have c: "req_len r + 2 \<le> 1025" by (simp add: xenbus_ok_def)
  then have "len * (req_len r + 2) \<le> len * 1025" by (rule mult_le_mono2)
  then show ?thesis using c turns_to_wait_le [of r] unfolding read_measure_def by linarith
qed

lemma xenbus_read_spec:
  assumes peer: "xenstored peer"
    and "xenbus_ok r" "len < 2 ^ 32" "read_measure len r < n"
    and "len \<le> length (rsp_pending r @ to_send r)"
  shows "\<exists>r1. xenbus_read n peer len r = Some (take len (rsp_pending r @ to_send r), r1) \<and> xenbus_ok r1
     \<and> rsp_pending r1 @ to_send r1 = drop len (rsp_pending r @ to_send r)
     \<and> received r1 @ req_pending r1 = received r @ req_pending r"
  using assms(2-5)
proof (induction n arbitrary: len r)
  case 0
  then show ?case by simp
next
  case (Suc n)
  consider (nothing) "len = 0" | (get) "0 < len" "0 < rsp_len r" | (empty) "0 < len" "rsp_len r = 0"
    by blast
  then show ?case
  proof cases
    case nothing
    then show ?thesis using Suc.prems by simp
  next
    case get
    obtain part where part: "0 < part" "part \<le> len" "part \<le> rsp_len r"
        "xenbus_read (Suc n) peer len r =
           Option.bind (xenbus_read n peer (len - part) (r\<lparr>rsp_cons := rsp_cons r + of_nat part\<rparr>))
             (\<lambda>(rest, r1). Some (take part (rsp_pending r) @ rest, r1))"
      using xenbus_read_step [OF Suc.prems(1) get(1) Suc.prems(2) get(2)] by blast
    let ?r = "r\<lparr>rsp_cons := rsp_cons r + of_nat part\<rparr>"
    note adv = advance_rsp [OF Suc.prems(1) part(3)]
    have lp: "length (rsp_pending r) = rsp_len r" by (simp add: rsp_pending_def)
    have rest: "rsp_pending ?r @ to_send ?r = drop part (rsp_pending r @ to_send r)"
      using adv(3,4) part(3) lp by simp
    have "read_measure (len - part) ?r < read_measure len r"
      using part(1,2) get(2) by (rule read_measure_get) (simp add: req_len_def)
    then have m: "read_measure (len - part) ?r < n" using Suc.prems(3) by simp
    have l: "len - part < 2 ^ 32" using Suc.prems(2) by simp
    have "len - part \<le> length (rsp_pending ?r @ to_send ?r)"
      using Suc.prems(4) unfolding rest by simp
    then obtain r1 where r1: "xenbus_read n peer (len - part) ?r =
          Some (take (len - part) (drop part (rsp_pending r @ to_send r)), r1)" "xenbus_ok r1"
        "rsp_pending r1 @ to_send r1 = drop (len - part) (drop part (rsp_pending r @ to_send r))"
        "received r1 @ req_pending r1 = received r @ req_pending r"
      using Suc.IH [OF adv(1) l m] adv(5,6) unfolding rest by auto
    define all where "all = rsp_pending r @ to_send r"
    have "take part (rsp_pending r) = take part all" using part(3) lp by (simp add: all_def)
    then have "take part (rsp_pending r) @ take (len - part) (drop part all) = take len all"
      using part(2) take_add [of part "len - part" all] by simp
    moreover have "drop (len - part) (drop part all) = drop len all" using part(2) by simp
    ultimately show ?thesis
      using r1 part(4) unfolding all_def [symmetric] by (simp del: xenbus_read.simps)
  next
    case empty
    note kw = kick_and_wait_spec [OF peer Suc.prems(1)]
    have "rsp_pending r = []" using empty by (simp add: rsp_pending_def)
    then have "to_send r \<noteq> []" using Suc.prems(4) empty by auto
    then have "req_len (kick_and_wait peer r) < req_len r \<or> 0 < rsp_len (kick_and_wait peer r)"
      using kw(5,6) empty by (cases "req_len r = 0") auto
    then have "read_measure len (kick_and_wait peer r) < n"
      using read_measure_wait [OF empty(2) kw(4), of len] Suc.prems(3) by simp
    moreover have "xenbus_read (Suc n) peer len r = xenbus_read n peer len (kick_and_wait peer r)"
      using empty by (simp add: Let_def rsp_len_def ring_len_0)
    ultimately show ?thesis
      using Suc.IH [OF kw(1) Suc.prems(2)] kw(2,3) Suc.prems(4) by auto
  qed
qed

end
