(* ===== verification/Vsnprintf_Correct.thy ===== *)
theory Vsnprintf_Correct imports
  Vsnprintf
begin

text \<open>
  Correctness of the formatter. Every operation of \<open>Vsnprintf\<close> appends a list of characters: it
  equals \<open>puts cs\<close> for characters that do not depend on the destination. \<open>fmt_hook_contract\<close> is
  the interface between \<open>vsnprintf_internal\<close> and the architecture's \<open>%p\<close> hook; inside it the
  truncation and termination guarantees of the formatter are proved for any format.
\<close>

section \<open>Appending characters\<close>

definition puts :: "char list \<Rightarrow> out \<Rightarrow> out" where
  "puts cs o1 = fold PUT cs o1"

lemma puts_Nil [simp]: "puts [] o1 = o1"
  by (simp add: puts_def)

lemma puts_Cons: "puts (c # cs) o1 = puts cs (PUT c o1)"
  by (simp add: puts_def)

lemma puts_append: "puts (cs @ ds) o1 = puts ds (puts cs o1)"
  by (simp add: puts_def)

lemma PUT_puts: "PUT c o1 = puts [c] o1"
  by (simp add: puts_def)

lemma puts_puts [simp]: "puts ds (puts cs o1) = puts (cs @ ds) o1"
  by (simp add: puts_append)

lemma str_PUT [simp]: "str (PUT c o1) = Suc (str o1)"
  by (simp add: PUT_def)

lemma lim_PUT [simp]: "lim (PUT c o1) = lim o1"
  by (simp add: PUT_def)

lemma str_puts [simp]: "str (puts cs o1) = str o1 + length cs"
  by (induction cs arbitrary: o1) (simp_all add: puts_Cons)

lemma lim_puts [simp]: "lim (puts cs o1) = lim o1"
  by (induction cs arbitrary: o1) (simp_all add: puts_Cons)

lemma length_mem_PUT [simp]: "length (mem (PUT c o1)) = length (mem o1)"
  by (simp add: PUT_def)

lemma length_mem_puts [simp]: "length (mem (puts cs o1)) = length (mem o1)"
  by (induction cs arbitrary: o1) (simp_all add: puts_Cons)

lemma nth_mem_PUT:
  "j < length (mem o1) \<Longrightarrow>
   mem (PUT c o1) ! j = (if j = str o1 \<and> j < lim o1 then c else mem o1 ! j)"
  by (auto simp: PUT_def nth_list_update)

lemma nth_mem_puts:
  "j < length (mem o1) \<Longrightarrow>
   mem (puts cs o1) ! j =
     (if str o1 \<le> j \<and> j < str o1 + length cs \<and> j < lim o1 then cs ! (j - str o1) else mem o1 ! j)"
proof (induction cs arbitrary: o1)
  case (Cons c cs)
  show ?case
  proof (cases "j = str o1")
    case True
    with Cons show ?thesis by (simp add: puts_Cons nth_mem_PUT)
  next
    case False
    with Cons show ?thesis by (auto simp: puts_Cons nth_mem_PUT nth_Cons')
  qed
qed auto

text \<open>The whole memory after a run that started at the beginning of the buffer.\<close>

lemma mem_puts_start:
  assumes "n \<le> length b"
  shows "mem (puts cs \<lparr>mem = b, str = 0, lim = n\<rparr>) =
    take n cs @ drop (min n (length cs)) b"
  by (rule nth_equalityI) (use assms in \<open>auto simp: nth_mem_puts nth_append min_def\<close>)

lemma vs_finish_puts:
  assumes "n \<le> length b"
  shows "vs_finish n (puts cs \<lparr>mem = b, str = 0, lim = n\<rparr>) =
    (if n = 0 then b
     else take (n - 1) cs @ NUL # drop (Suc (min (n - 1) (length cs))) b)"
proof (cases n)
  case (Suc m)
  show ?thesis
  proof (cases "length cs < n")
    case True
    with assms have "drop (length cs) b = b ! length cs # drop (Suc (length cs)) b"
      by (simp add: Cons_nth_drop_Suc)
    with True Suc assms show ?thesis
      by (auto simp: vs_finish_def mem_puts_start min_def le_less_Suc_eq)
  next
    case False
    with Suc have "take n cs = take m cs @ [cs ! m]" by (simp add: take_Suc_conv_app_nth)
    with False Suc assms show ?thesis
      by (simp add: vs_finish_def mem_puts_start min_def list_update_append)
  qed
qed (simp add: vs_finish_def mem_puts_start)

section \<open>The loops\<close>

lemma c_int_Some [simp]: "c_int x = Some y \<longleftrightarrow> x = y \<and> INT_MIN \<le> x \<and> x \<le> INT_MAX"
  by (auto simp: c_int_def)

lemma pad_while_eq:
  "pad_while c b w o1 =
     (if w - 1 \<le> INT_MAX \<and> INT_MIN \<le> min w b - 1
      then Some (min w b - 1, puts (replicate (nat (w - b)) c) o1) else None)"
proof (induction c b w o1 rule: pad_while.induct)
  case (1 c b w o1)
  show ?case
  proof (cases "INT_MIN \<le> w - 1 \<and> w - 1 \<le> INT_MAX")
    case False
    then show ?thesis by (auto simp: pad_while.simps [of c b w] c_int_def)
  next
    case True
    then have c: "c_int (w - 1) = Some (w - 1)" by simp
    show ?thesis
    proof (cases "b < w")
      case False
      with True show ?thesis by (simp add: pad_while.simps [of c b w] c_int_def)
    next
      case b: True
      then have "nat (w - b) = Suc (nat (w - 1 - b))" by simp
      with True c b "1.IH" [OF c b] show ?thesis
        by (simp add: pad_while.simps [of c b w] puts_Cons c_int_def)
    qed
  qed
qed

lemma pad_pre_eq_pad_while: "pad_pre c w o1 = pad_while c 1 w o1"
proof (induction c w o1 rule: pad_pre.induct)
  case (1 c w o1)
  then show ?case
    by (auto simp: pad_pre.simps [of c w] pad_while.simps [of c 1 w] c_int_def)
qed

lemma put_back_eq: "i \<le> length tmp \<Longrightarrow> put_back tmp i o1 = puts (rev (take i tmp)) o1"
  by (induction i arbitrary: o1) (simp_all add: take_Suc_conv_app_nth puts_Cons)

text \<open>Line feeds expanded as the flag asks.\<close>

definition crlf :: "u32 \<Rightarrow> char list \<Rightarrow> char list" where
  "crlf flags cs = concat (map (\<lambda>c. if has flags LF_TO_CRLF \<and> c = LF then [CR, LF] else [c]) cs)"

lemma crlf_Nil [simp]: "crlf flags [] = []"
  by (simp add: crlf_def)

lemma crlf_Cons:
  "crlf flags (c # cs) = (if has flags LF_TO_CRLF \<and> c = LF then [CR, LF] else [c]) @ crlf flags cs"
  by (simp add: crlf_def)

lemma crlf_append [simp]: "crlf flags (cs @ ds) = crlf flags cs @ crlf flags ds"
  by (simp add: crlf_def)

lemma crlf_off: "\<not> has flags LF_TO_CRLF \<Longrightarrow> crlf flags cs = cs"
  by (induction cs) (auto simp: crlf_Cons)

lemma put_string_eq: "put_string flags cs o1 = puts (crlf flags cs) o1"
  by (induction flags cs o1 rule: put_string.induct) (auto simp: crlf_Cons puts_Cons)

lemma put_char_eq:
  "put_char c w flags o1 =
     (if w - 1 \<le> INT_MAX \<and> INT_MIN \<le> min w 1 - 1
      then Some (puts (crlf flags [c] @ replicate (nat (w - 1)) (CHR '' '')) o1) else None)"
  by (auto simp: put_char_def pad_pre_eq_pad_while pad_while_eq crlf_Cons PUT_puts Let_def)

section \<open>Operations that append\<close>

text \<open>
  \<open>appends f\<close>: the result of \<open>f\<close>, its failure included, and the characters it writes are the same
  for every destination.
\<close>

definition appends :: "(out \<Rightarrow> ('x \<times> out) option) \<Rightarrow> bool" where
  "appends f \<longleftrightarrow> (\<exists>r. \<forall>o1. f o1 = map_option (\<lambda>(x, cs). (x, puts cs o1)) r)"

lemma appendsI: "(\<And>o1. f o1 = map_option (\<lambda>(x, cs). (x, puts cs o1)) r) \<Longrightarrow> appends f"
  by (auto simp: appends_def)

lemma appendsE:
  assumes "appends f"
  obtains "\<And>o1. f o1 = None"
  | x cs where "\<And>o1. f o1 = Some (x, puts cs o1)"
proof -
  from assms obtain r where r: "\<And>o1. f o1 = map_option (\<lambda>(x, cs). (x, puts cs o1)) r"
    by (auto simp: appends_def)
  show thesis
  proof (cases r)
    case None
    with r that(1) show ?thesis by simp
  next
    case (Some p)
    with r that(2) [of "fst p" "snd p"] show ?thesis by (simp add: case_prod_beta)
  qed
qed

lemma appends_None: "appends (\<lambda>o1. None)"
  by (rule appendsI [where r = None]) simp

lemma appends_puts: "appends (\<lambda>o1. Some (x, puts cs o1))"
  by (rule appendsI [where r = "Some (x, cs)"]) simp

lemma appends_return: "appends (\<lambda>o1. Some (x, o1))"
  by (rule appendsI [where r = "Some (x, [])"]) simp

lemma appends_bind:
  assumes "appends f" and "\<And>x. appends (g x)"
  shows "appends (\<lambda>o1. f o1 \<bind> (\<lambda>(x, o2). g x o2))"
  using assms(1)
proof (cases rule: appendsE)
  case 1
  then show ?thesis by (simp add: appends_None)
next
  case (2 x cs)
  from assms(2) [of x] show ?thesis
  proof (cases rule: appendsE)
    case 1
    with 2 show ?thesis by (simp add: appends_None)
  next
    case (2 y ds)
    with \<open>\<And>o1. f o1 = Some (x, puts cs o1)\<close> show ?thesis by (simp add: appends_puts)
  qed
qed

lemma appends_comp_puts:
  assumes "appends f"
  shows "appends (\<lambda>o1. f (puts cs o1))"
  using appends_bind [OF appends_puts [of "()" cs] assms] by simp

text \<open>The same for operations that return the output only.\<close>

definition appends1 :: "(out \<Rightarrow> out option) \<Rightarrow> bool" where
  "appends1 f \<longleftrightarrow> appends (\<lambda>o1. map_option (Pair ()) (f o1))"

lemma appends1E:
  assumes "appends1 f"
  obtains "\<And>o1. f o1 = None"
  | cs where "\<And>o1. f o1 = Some (puts cs o1)"
  using assms unfolding appends1_def
  by (rule appendsE) (auto intro: that)

lemma appends1_None: "appends1 (\<lambda>o1. None)"
  by (simp add: appends1_def appends_None)

lemma appends1_puts: "appends1 (\<lambda>o1. Some (puts cs o1))"
  by (simp add: appends1_def appends_puts)

lemma appends1_Some: "appends1 Some"
  using appends1_puts [of "[]"] by simp

lemma appends1_bind:
  assumes "appends1 f" and "appends1 g"
  shows "appends1 (\<lambda>o1. f o1 \<bind> g)"
  using assms(1)
proof (cases rule: appends1E)
  case 1
  then show ?thesis by (simp add: appends1_None)
next
  case (2 cs)
  from assms(2) show ?thesis
  proof (cases rule: appends1E)
    case 1
    with 2 show ?thesis by (simp add: appends1_None)
  next
    case (2 ds)
    with \<open>\<And>o1. f o1 = Some (puts cs o1)\<close> show ?thesis by (simp add: appends1_puts)
  qed
qed

lemma appends_bind1:
  assumes "appends1 f" and "appends g"
  shows "appends (\<lambda>o1. f o1 \<bind> g)"
  using assms(1)
proof (cases rule: appends1E)
  case 1
  then show ?thesis by (simp add: appends_None)
next
  case (2 cs)
  with appends_comp_puts [OF assms(2), of cs] show ?thesis by simp
qed

lemma appends1_bind2:
  assumes "appends f" and "\<And>x. appends1 (g x)"
  shows "appends1 (\<lambda>o1. f o1 \<bind> (\<lambda>(x, o2). g x o2))"
  using assms(1)
proof (cases rule: appendsE)
  case 1
  then show ?thesis by (simp add: appends1_None)
next
  case (2 x cs)
  from assms(2) [of x] show ?thesis
  proof (cases rule: appends1E)
    case 1
    with 2 show ?thesis by (simp add: appends1_None)
  next
    case (2 ds)
    with \<open>\<And>o1. f o1 = Some (x, puts cs o1)\<close> show ?thesis by (simp add: appends1_puts)
  qed
qed

lemma appends_if:
  "appends f \<Longrightarrow> appends g \<Longrightarrow> appends (\<lambda>o1. if b then f o1 else g o1)"
  by (cases b) simp_all

lemma appends1_if:
  "appends1 f \<Longrightarrow> appends1 g \<Longrightarrow> appends1 (\<lambda>o1. if b then f o1 else g o1)"
  by (cases b) simp_all

lemma appends_bind_const:
  "(\<And>x. appends (g x)) \<Longrightarrow> appends (\<lambda>o1. c \<bind> (\<lambda>x. g x o1))"
  by (cases c) (simp_all add: appends_None)

lemma appends1_bind_const:
  "(\<And>x. appends1 (g x)) \<Longrightarrow> appends1 (\<lambda>o1. c \<bind> (\<lambda>x. g x o1))"
  by (cases c) (simp_all add: appends1_None)

lemma appends_case_prod_const:
  "(\<And>x y. appends (g x y)) \<Longrightarrow> appends (\<lambda>o1. case p of (x, y) \<Rightarrow> g x y o1)"
  by (cases p) simp

lemma appends1_case_prod_const:
  "(\<And>x y. appends1 (g x y)) \<Longrightarrow> appends1 (\<lambda>o1. case p of (x, y) \<Rightarrow> g x y o1)"
  by (cases p) simp

lemmas appends_intros = appends_None appends1_None appends_puts appends1_puts appends_return
  appends1_Some appends_if appends1_if appends_bind_const appends1_bind_const
  appends_case_prod_const appends1_case_prod_const

lemma appends_pad_while: "appends (pad_while c b w)"
  by (rule appendsI [where r = "if w - 1 \<le> INT_MAX \<and> INT_MIN \<le> min w b - 1
      then Some (min w b - 1, replicate (nat (w - b)) c) else None"]) (simp add: pad_while_eq)

lemma appends_pad_pre: "appends (pad_pre c w)"
  using appends_pad_while [of c 1 w] by (simp add: pad_pre_eq_pad_while [abs_def])

lemma appends1_put_char: "appends1 (put_char c w flags)"
  unfolding put_char_eq [abs_def] by (intro appends_intros)

lemma appends1_comp_puts: "appends1 f \<Longrightarrow> appends1 (\<lambda>o1. f (puts cs o1))"
  using appends1_bind [OF appends1_puts, of f cs] by simp

lemma put_alternate_eq:
  "put_alternate base flags o1 =
     puts (if has flags ALTERNATE then if base = 16 then ''0x'' else if base = 8 then ''0'' else []
           else []) o1"
  by (simp add: put_alternate_def PUT_puts)

lemma put_prefix_eq:
  "(case prefix of None \<Rightarrow> o1 | Some c \<Rightarrow> PUT c o1) =
   puts (case prefix of None \<Rightarrow> [] | Some c \<Rightarrow> [c]) o1"
  by (simp add: PUT_puts split: option.split)

lemma appends1_pad_tail:
  "appends1 (\<lambda>o1. pad_while c b w o1 \<bind> (\<lambda>(x, o2). Some o2))"
  by (intro appends1_bind2 appends_pad_while appends1_Some)

lemma appends1_fmt_number: "appends1 (\<lambda>o1. fmt_number e o1 val base width precision flags)"
  unfolding fmt_number_def Let_def put_alternate_eq put_prefix_eq put_back_eq [OF order_refl]
    puts_puts
  by (intro appends_intros appends1_bind2 appends_pad_while appends1_comp_puts [of "\<lambda>o1. pad_while _ _ _ o1 \<bind> _"]
     appends_comp_puts [OF appends_pad_while] appends_comp_puts [OF appends_return])

lemma appends1_fmt_string: "appends1 (\<lambda>o1. fmt_string o1 val width precision flags)"
  unfolding fmt_string_def Let_def put_string_eq
  by (intro appends_intros appends1_bind2 appends_pad_while
      appends1_comp_puts [of "\<lambda>o1. pad_while _ _ _ o1 \<bind> _"])

lemma put_sep_eq:
  "(case sep of None \<Rightarrow> o1 | Some c \<Rightarrow> PUT c o1) = puts (case sep of None \<Rightarrow> [] | Some c \<Rightarrow> [c]) o1"
  by (rule put_prefix_eq)

lemma appends1_hex_dump: "appends1 (hex_dump e bs sep n)"
proof (induction bs arbitrary: n)
  case Nil
  show ?case by (simp add: appends1_None)
next
  case (Cons b bs)
  show ?case
    unfolding hex_dump.simps [abs_def] put_sep_eq
    by (intro appends1_bind appends1_fmt_number appends1_if appends1_Some
        appends1_comp_puts [OF Cons.IH])
qed

text \<open>The same for one conversion, which also returns the format pointer and the arguments.\<close>

definition appends3 :: "(out \<Rightarrow> ('x \<times> 'y \<times> out) option) \<Rightarrow> bool" where
  "appends3 f \<longleftrightarrow> (\<exists>r. \<forall>o1. f o1 = map_option (\<lambda>(x, y, cs). (x, y, puts cs o1)) r)"

lemma appends3_None: "appends3 (\<lambda>o1. None)"
  unfolding appends3_def by (rule exI [of _ None]) simp

lemma appends3_PUT: "appends3 (\<lambda>o1. Some (x, y, PUT c o1))"
  unfolding appends3_def by (rule exI [of _ "Some (x, y, [c])"]) (simp add: PUT_puts)

lemma appends3_return:
  assumes "appends1 f"
  shows "appends3 (\<lambda>o1. f o1 \<bind> (\<lambda>o2. Some (x, y, o2)))"
  using assms
proof (cases rule: appends1E)
  case 1
  then show ?thesis by (simp add: appends3_None)
next
  case (2 cs)
  then show ?thesis unfolding appends3_def by (intro exI [of _ "Some (x, y, cs)"]) simp
qed

lemma appends3_if:
  "appends3 f \<Longrightarrow> appends3 g \<Longrightarrow> appends3 (\<lambda>o1. if b then f o1 else g o1)"
  by (cases b) simp_all

lemma appends3_bind_const:
  "(\<And>x. appends3 (g x)) \<Longrightarrow> appends3 (\<lambda>o1. c \<bind> (\<lambda>x. g x o1))"
  by (cases c) (simp_all add: appends3_None)

lemma appends3_case_prod_const:
  "(\<And>x y. appends3 (g x y)) \<Longrightarrow> appends3 (\<lambda>o1. case p of (x, y) \<Rightarrow> g x y o1)"
  by (cases p) simp

lemma appends3_bind:
  assumes "appends f" and "\<And>x. appends3 (g x)"
  shows "appends3 (\<lambda>o1. f o1 \<bind> (\<lambda>(x, o2). g x o2))"
  using assms(1)
proof (cases rule: appendsE)
  case 1
  then show ?thesis by (simp add: appends3_None)
next
  case (2 x cs)
  from assms(2) [of x] obtain r
    where r: "\<And>o1. g x o1 = map_option (\<lambda>(x, y, cs). (x, y, puts cs o1)) r"
    by (auto simp: appends3_def)
  with 2 show ?thesis unfolding appends3_def
    by (intro exI [of _ "map_option (\<lambda>(y, z, ds). (y, z, cs @ ds)) r"]) (cases r; auto)
qed

lemmas appends3_intros = appends3_None appends3_PUT appends3_if appends3_bind_const
  appends3_case_prod_const

section \<open>The contract of the pointer hook and its consequences\<close>

text \<open>
  The client, \<open>vsnprintf_internal\<close>, calls the hook for \<open>%p\<close>. What it needs from it is that the
  hook only appends.
\<close>

locale fmt_hook_contract =
  fixes hook :: fmt_hook
  assumes hook_appends:
    "\<exists>r. \<forall>o1. hook o1 fmt arg width precision flags =
       map_option (\<lambda>(handled, cs, k). (handled, puts cs o1, k)) r"
begin

lemma appends1_pointer:
  "\<exists>r. \<forall>o1. pointer hook e o1 fmt arg width precision flags =
     map_option (\<lambda>(cs, k). (puts cs o1, k)) r"
proof (cases "fmt_at fmt 1 = CHR ''h''")
  case True
  show ?thesis
  proof (cases "width \<le> 0")
    case w: True
    with True show ?thesis by (intro exI [of _ "Some ([], 1)"]) (simp add: pointer_def)
  next
    case w: False
    obtain sep k where sk:
      "(if fmt_at fmt 2 = CHR ''C'' then (Some (CHR '':''), 2)
        else if fmt_at fmt 2 = CHR ''D'' then (Some (CHR ''-''), 2)
        else if fmt_at fmt 2 = CHR ''N'' then (None, 2)
        else (Some (CHR '' ''), 1)) = (sep, k :: nat)" by force
    show ?thesis
    proof (cases arg)
      case (VaBuf buf)
      from appends1_hex_dump [of e buf sep "nat (if width > 128 then 128 else width)"]
      show ?thesis
      proof (cases rule: appends1E)
        case 1
        with True w sk VaBuf show ?thesis
          by (intro exI [of _ None]) (simp add: pointer_def Let_def)
      next
        case (2 cs)
        with True w sk VaBuf show ?thesis
          by (intro exI [of _ "Some (cs, k)"]) (simp add: pointer_def Let_def)
      qed
    qed (use True w sk in \<open>simp_all add: pointer_def Let_def exI [of _ None]\<close>)
  qed
next
  case False
  obtain r where r: "\<And>o1. hook o1 fmt arg width precision flags =
      map_option (\<lambda>(handled, cs, k). (handled, puts cs o1, k)) r"
    using hook_appends by blast
  show ?thesis
  proof (cases r)
    case None
    with False r show ?thesis by (intro exI [of _ None]) (simp add: pointer_def)
  next
    case (Some t)
    obtain handled cs k where t: "t = (handled, cs, k)" by (cases t) auto
    show ?thesis
    proof (cases handled)
      case h: True
      with False r Some t show ?thesis
        by (intro exI [of _ "Some (cs, k)"]) (simp add: pointer_def)
    next
      case h: False
      show ?thesis
      proof (cases arg)
        case (VaPtr p)
        obtain w f where wf: "(if width = -1 then (2 * int (BITS_PER_LONG e div 8), flags OR ZERO)
            else (width, flags)) = (w, f)" by force
        from appends1_fmt_number [of e "to_ulong e p" 16 w precision f]
        show ?thesis
        proof (cases rule: appends1E)
          case 1
          with False r Some t h VaPtr wf show ?thesis
            by (intro exI [of _ None]) (simp add: pointer_def Let_def del: BITS_PER_LONG.simps)
        next
          case (2 ds)
          with False r Some t h VaPtr wf show ?thesis
            by (intro exI [of _ "Some (cs @ ds, k)"])
              (simp add: pointer_def Let_def del: BITS_PER_LONG.simps)
        qed
      qed (use False r Some t h in \<open>simp_all add: pointer_def exI [of _ None]\<close>)
    qed
  qed
qed

lemma appends3_vs_spec: "appends3 (vs_spec hook e cf fmt args)"
proof -
  have c: "appends3 (\<lambda>o1. (if \<not> has fl LEFT then pad_pre (CHR '' '') w o1 else Some (w, o1)) \<bind>
      (\<lambda>(w, o1). put_char c w fl o1 \<bind> (\<lambda>o1. Some (f, a, o1))))" for fl w c f a
    by (intro appends3_bind appends_if appends_pad_pre appends_return appends3_return
        appends1_put_char)
  have s: "appends3 (\<lambda>o1. case args of VaStr s # args \<Rightarrow>
        fmt_string o1 s w p fl \<bind> (\<lambda>o1. Some (f, args, o1)) | _ \<Rightarrow> None)" for args w p fl f
  proof (cases args)
    case (Cons a as)
    then show ?thesis
      by (cases a) (auto intro: appends3_None appends3_return appends1_fmt_string)
  qed (simp add: appends3_None)
  have ptr: "appends3 (\<lambda>o1. case args of a # args \<Rightarrow>
        pointer hook e o1 f a w p fl \<bind> (\<lambda>(o1, k). Some (drop k f, args, o1)) | _ \<Rightarrow> None)"
    for args f w p fl
  proof (cases args)
    case (Cons a as)
    obtain r where "\<And>o1. pointer hook e o1 f a w p fl = map_option (\<lambda>(cs, k). (puts cs o1, k)) r"
      using appends1_pointer by blast
    with Cons show ?thesis unfolding appends3_def
      by (intro exI [of _ "map_option (\<lambda>(cs, k). (drop k f, as, cs)) r"])
        (cases r; auto)
  qed (simp add: appends3_None)
  have num: "appends3 (\<lambda>o1. case number_conversion c fl of
        None \<Rightarrow> Some (fmt, args, PUT (CHR ''%'') o1)
      | Some (base, flags) \<Rightarrow> pull_number e m flags args \<bind> (\<lambda>(num, args).
          fmt_number e o1 num base w p flags \<bind> (\<lambda>o1. Some (f, args, o1))))" for c fl args m w p f
    by (cases "number_conversion c fl")
      (auto intro!: appends3_intros appends3_return appends1_fmt_number)
  show ?thesis
    unfolding vs_spec_def [abs_def] Let_def
    by (intro appends3_intros c s ptr num)
qed

lemma vs_loop_appends: "appends1 (vs_loop hook e cf fmt args)"
proof (induction "length fmt" arbitrary: fmt args rule: less_induct)
  case less
  show ?case
  proof (cases fmt)
    case Nil
    then show ?thesis by (simp add: vs_loop.simps [abs_def] appends1_Some)
  next
    case (Cons c rest)
    show ?thesis
    proof (cases "c = CHR ''%''")
      case False
      have "appends1 (\<lambda>o1. put_char c (-1) cf o1 \<bind> vs_loop hook e cf rest args)"
        using Cons by (intro appends1_bind appends1_put_char less) simp
      with Cons False show ?thesis by (simp add: vs_loop.simps [of hook e cf "c # rest" args, abs_def])
    next
      case True
      obtain r where r: "\<And>o1. vs_spec hook e cf fmt args o1 =
          map_option (\<lambda>(x, y, cs). (x, y, puts cs o1)) r"
        using appends3_vs_spec [of e cf fmt args] by (auto simp: appends3_def)
      show ?thesis
      proof (cases r)
        case None
        with Cons True r show ?thesis
          by (simp add: vs_loop.simps [of hook e cf "CHR ''%'' # rest" args, abs_def] appends1_None)
      next
        case (Some t)
        obtain f a cs where t: "t = (f, a, cs)" by (cases t) auto
        have "length (drop 1 f) < length fmt"
          using length_vs_spec [of hook e cf fmt args "\<lparr>mem = [], str = 0, lim = 0\<rparr>" f a] r Some t
            Cons by fastforce
        from appends1_comp_puts [OF less [OF this]] Cons True r Some t show ?thesis
          by (simp add: vs_loop.simps [of hook e cf "CHR ''%'' # rest" args, abs_def])
      qed
    qed
  qed
qed

text \<open>
  The characters a format stands for, independent of the buffer; and the C99 contract of
  \<open>vsnprintf\<close> over them.
\<close>

lemma vsnprintf_internal_contract:
  assumes "vsnprintf_internal hook e buf sz fmt args cf = Some (rc, m)"
  shows "\<exists>cs. rc = length cs \<and>
    (\<forall>buf' sz'. sz' \<le> length buf' \<longrightarrow>
       vsnprintf_internal hook e buf' sz' fmt args cf =
         Some (length cs,
           if sz' = 0 then buf'
           else take (sz' - 1) cs @ NUL # drop (Suc (min (sz' - 1) (length cs))) buf'))"
  using vs_loop_appends [of e cf fmt args]
proof (cases rule: appends1E)
  case 1
  with assms show ?thesis by (simp add: vsnprintf_internal_def)
next
  case (2 cs)
  with assms show ?thesis
    by (intro exI [of _ cs]) (auto simp: vsnprintf_internal_def vs_finish_puts)
qed

end

interpretation weak: fmt_hook_contract weak_arch_fmt_pointer
  by unfold_locales (auto simp: weak_arch_fmt_pointer_def intro: exI [of _ "Some (False, [], 0)"])

end
