(* ===== verification/Console.thy ===== *)
theory Console imports
  Ring
  Report
  Vsnprintf_Correct
begin

text \<open>
  \<open>common/console.c\<close>: the PV console ring, the registered output callbacks, and \<open>vprintk()\<close>. The
  consumer of the ring, \<open>xenconsoled\<close>, is a parameter: a function on the ring that runs at each
  point where the guest notifies it or yields to it. Loops that wait for it have fuel, and \<open>None\<close>
  is a loop that did not end.
\<close>

section \<open>The PV ring\<close>

text \<open>
  \<open>struct xencons_interface\<close> of \<open>include/xen/io/console.h\<close>. The field \<open>consumed\<close> is not in memory:
  it records what the consumer has taken so far.
\<close>

record xencons =
  ring_in :: string
  ring_out :: string
  in_cons :: u32
  in_prod :: u32
  out_cons :: u32
  out_prod :: u32
  consumed :: string

text \<open>
  The loop of \<open>pv_console_write_some\<close> over the rest of the buffer: how much was written, the new
  producer index and the new contents.
\<close>

fun write_out :: "string \<Rightarrow> u32 \<Rightarrow> u32 \<Rightarrow> string \<Rightarrow> nat \<times> u32 \<times> string" where
  "write_out [] cons pr out = (0, pr, out)"
| "write_out (c # cs) cons pr out =
     (if pr - cons < 2048 then
        let (s, pr1, out1) = write_out cs cons (pr + 1) (out[unat (pr AND 2047) := c])
        in (Suc s, pr1, out1)
      else (0, pr, out))"

definition pv_console_write_some :: "string \<Rightarrow> xencons \<Rightarrow> nat \<times> xencons" where
  "pv_console_write_some buf r =
     (let (s, pr, out) = write_out buf (out_cons r) (out_prod r) (ring_out r)
      in (s, r\<lparr>ring_out := out, out_prod := pr\<rparr>))"

text \<open>The loop of \<open>pv_console_read_some\<close>, for \<open>n\<close> more bytes of the buffer.\<close>

fun read_in :: "nat \<Rightarrow> u32 \<Rightarrow> u32 \<Rightarrow> string \<Rightarrow> string \<times> u32" where
  "read_in 0 cons pr inp = ([], cons)"
| "read_in (Suc n) cons pr inp =
     (if 0 < pr - cons then
        let (cs, cons1) = read_in n (cons + 1) pr inp
        in (inp ! unat (cons AND 1023) # cs, cons1)
      else ([], cons))"

text \<open>
  \<open>pv_console_read_some\<close> after its wait: the wait, on the event channel and the indices, is
  \<open>wait_input\<close>, with the pending bit of the channel given as an argument and cleared by the test.
\<close>

fun wait_input :: "nat \<Rightarrow> (bool \<times> xencons \<Rightarrow> bool \<times> xencons) \<Rightarrow> bool \<Rightarrow> xencons \<Rightarrow> (bool \<times> xencons) option" where
  "wait_input 0 peer pending r = None"
| "wait_input (Suc n) peer pending r =
     (if \<not> pending \<or> in_cons r = in_prod r
      then let (pending1, r1) = peer (False, r) in wait_input n peer pending1 r1
      else Some (False, r))"

definition pv_console_read_some ::
  "nat \<Rightarrow> (bool \<times> xencons \<Rightarrow> bool \<times> xencons) \<Rightarrow> bool \<Rightarrow> nat \<Rightarrow> xencons \<Rightarrow> (string \<times> xencons) option" where
  "pv_console_read_some fuel peer pending len r =
     Option.bind (wait_input fuel peer pending r) (\<lambda>(_, r1).
       let (cs, cons1) = read_in len (in_cons r1) (in_prod r1) (ring_in r1)
       in Some (cs, r1\<lparr>in_cons := cons1\<rparr>))"

text \<open>The two waiting loops of \<open>pv_console_write\<close>; each turn yields to the consumer.\<close>

fun wait_space :: "nat \<Rightarrow> (xencons \<Rightarrow> xencons) \<Rightarrow> u32 \<Rightarrow> xencons \<Rightarrow> xencons option" where
  "wait_space 0 peer cons r = None"
| "wait_space (Suc n) peer cons r =
     (if out_cons r = cons then wait_space n peer cons (peer r) else Some r)"

fun wait_drained :: "nat \<Rightarrow> (xencons \<Rightarrow> xencons) \<Rightarrow> xencons \<Rightarrow> xencons option" where
  "wait_drained 0 peer r = None"
| "wait_drained (Suc n) peer r =
     (if out_cons r \<noteq> out_prod r then wait_drained n peer (peer r) else Some r)"

text \<open>The \<open>do .. while\<close> loop: \<open>written\<close> is assigned, not accumulated, and \<open>cons\<close> is read once.\<close>

fun write_loop :: "nat \<Rightarrow> nat \<Rightarrow> (xencons \<Rightarrow> xencons) \<Rightarrow> string \<Rightarrow> u32 \<Rightarrow> nat \<Rightarrow> xencons \<Rightarrow> xencons option" where
  "write_loop fuel 0 peer buf cons written r = None"
| "write_loop fuel (Suc n) peer buf cons written r =
     (let (written1, r1) = pv_console_write_some (drop written buf) r;
          r2 = peer r1
      in if written1 < length buf
         then Option.bind (wait_space fuel peer cons r2) (write_loop fuel n peer buf cons written1)
         else Some r2)"

definition pv_console_write :: "nat \<Rightarrow> (xencons \<Rightarrow> xencons) \<Rightarrow> string \<Rightarrow> xencons \<Rightarrow> xencons option" where
  "pv_console_write fuel peer buf r =
     Option.bind (write_loop fuel fuel peer buf (out_cons r) 0 r) (wait_drained fuel peer)"

section \<open>What the ring holds\<close>

definition out_len :: "xencons \<Rightarrow> nat" where
  "out_len r = ring_len (out_cons r) (out_prod r)"

definition out_pending :: "xencons \<Rightarrow> string" where
  "out_pending r = ring_slice 11 (ring_out r) (out_cons r) (out_len r)"

text \<open>The invariant: the ring is never overfull.\<close>

definition out_ok :: "xencons \<Rightarrow> bool" where
  "out_ok r \<longleftrightarrow> length (ring_out r) = 2048 \<and> out_len r \<le> 2048"

lemma ring_len_less: "p - c < 2048 \<longleftrightarrow> ring_len c p < 2048"
  by (simp add: ring_len_def word_less_nat_alt)

lemma write_out_spec:
  assumes "write_out cs c p out = (s, p1, out1)" "length out = 2048" "ring_len c p \<le> 2048"
  shows "s = min (length cs) (2048 - ring_len c p) \<and> p1 = p + of_nat s \<and> length out1 = 2048 \<and>
    ring_slice 11 out1 c (ring_len c p + s) = ring_slice 11 out c (ring_len c p) @ take s cs"
  using assms
proof (induction cs c p out arbitrary: s p1 out1 rule: write_out.induct)
  case (1 c p out)
  then show ?case by simp
next
  case (2 x xs c p out)
  show ?case
  proof (cases "p - c < 2048")
    case False
    then show ?thesis using 2(2-4) by (auto simp: ring_len_less)
  next
    case True
    let ?out = "out[unat (p AND 2047) := x]"
    obtain s2 where s2: "write_out xs c (p + 1) ?out = (s2, p1, out1)" "s = Suc s2"
      using 2(2) True by (auto split: prod.splits)
    have len: "ring_len c (p + 1) = Suc (ring_len c p)"
      using ring_len_add_prod [of c p 1] True by (simp add: ring_len_less)
    have put: "ring_slice 11 ?out c (Suc (ring_len c p)) = ring_slice 11 out c (ring_len c p) @ [x]"
      using ring_slice_put [of 11 "ring_len c p" out c x] True 2(3) prod_eq [of p c]
      by (simp add: ring_len_less ring_pos_11)
    have c: "length ?out = 2048" "ring_len c (p + 1) \<le> 2048"
      using True len 2(3) by (simp_all add: ring_len_less)
    note ih = 2(1) [OF True s2(1) c, unfolded len]
    have "s = min (length (x # xs)) (2048 - ring_len c p)"
      using ih True s2(2) by (auto simp: ring_len_less)
    moreover have "p1 = p + of_nat s" using conjunct1 [OF conjunct2 [OF ih]] s2(2) by simp
    moreover have "length out1 = 2048" using ih by blast
    moreover have "ring_slice 11 out1 c (ring_len c p + s) =
        ring_slice 11 out c (ring_len c p) @ take s (x # xs)"
      using conjunct2 [OF conjunct2 [OF conjunct2 [OF ih]]] put s2(2) by simp
    ultimately show ?thesis by blast
  qed
qed

lemma write_some_spec:
  assumes "out_ok r" "pv_console_write_some buf r = (s, r1)"
  shows "s = min (length buf) (2048 - out_len r)" "out_ok r1" "out_len r1 = out_len r + s"
    "out_pending r1 = out_pending r @ take s buf" "out_cons r1 = out_cons r" "consumed r1 = consumed r"
proof -
  obtain p out where w: "write_out buf (out_cons r) (out_prod r) (ring_out r) = (s, p, out)"
      and r1: "r1 = r\<lparr>ring_out := out, out_prod := p\<rparr>"
    using assms(2) by (auto simp: pv_console_write_some_def split: prod.splits)
  have spec: "s = min (length buf) (2048 - out_len r)" "p = out_prod r + of_nat s" "length out = 2048"
      "ring_slice 11 out (out_cons r) (out_len r + s) = out_pending r @ take s buf"
    using write_out_spec [OF w] assms(1) by (auto simp: out_ok_def out_len_def out_pending_def)
  show s: "s = min (length buf) (2048 - out_len r)" by (fact spec)
  have "out_len r + s < 2 ^ 32" using s assms(1) by (auto simp: out_ok_def)
  then show len: "out_len r1 = out_len r + s"
    using spec by (simp add: r1 out_len_def ring_len_add_prod)
  show "out_ok r1" using len s spec assms(1) by (auto simp: out_ok_def r1)
  show "out_pending r1 = out_pending r @ take s buf"
    using spec len by (simp add: out_pending_def r1)
  show "out_cons r1 = out_cons r" "consumed r1 = consumed r" by (simp_all add: r1)
qed

text \<open>
  What the guest relies on of the consumer: it takes a prefix of what is in the ring and advances
  \<open>out_cons\<close> by as much, and it takes something when there is something.
\<close>

definition takes :: "nat \<Rightarrow> xencons \<Rightarrow> xencons" where
  "takes k r = r\<lparr>out_cons := out_cons r + of_nat k, consumed := consumed r @ take k (out_pending r)\<rparr>"

definition consumer :: "(xencons \<Rightarrow> xencons) \<Rightarrow> bool" where
  "consumer peer \<longleftrightarrow>
     (\<forall>r. out_ok r \<longrightarrow> (\<exists>k \<le> out_len r. peer r = takes k r \<and> (0 < out_len r \<longrightarrow> 0 < k)))"

lemma takes_spec:
  assumes "out_ok r" "k \<le> out_len r"
  shows "out_ok (takes k r)" "out_len (takes k r) = out_len r - k"
    "consumed (takes k r) @ out_pending (takes k r) = consumed r @ out_pending r"
proof -
  show len: "out_len (takes k r) = out_len r - k"
    using assms by (simp add: takes_def out_len_def ring_len_add_cons)
  then show "out_ok (takes k r)" using assms by (auto simp: out_ok_def takes_def)
  have "out_pending (takes k r) = drop k (out_pending r)"
    using len assms by (simp add: out_pending_def drop_ring_slice) (simp add: takes_def)
  then show "consumed (takes k r) @ out_pending (takes k r) = consumed r @ out_pending r"
    by (simp add: takes_def)
qed

lemma consumer_step:
  assumes "consumer peer" "out_ok r"
  shows "out_ok (peer r)" "consumed (peer r) @ out_pending (peer r) = consumed r @ out_pending r"
    "out_len (peer r) \<le> out_len r - 1"
proof -
  obtain k where k: "k \<le> out_len r" "peer r = takes k r" "0 < out_len r \<longrightarrow> 0 < k"
    using assms by (auto simp: consumer_def)
  show "out_ok (peer r)" "consumed (peer r) @ out_pending (peer r) = consumed r @ out_pending r"
    using takes_spec [OF assms(2) k(1)] k(2) by simp_all
  show "out_len (peer r) \<le> out_len r - 1"
    using takes_spec [OF assms(2) k(1)] k by (cases "out_len r") auto
qed

lemma wait_drained_spec:
  assumes "consumer peer" "out_ok r" "out_len r < n"
  shows "\<exists>r1. wait_drained n peer r = Some r1 \<and> out_ok r1 \<and> out_len r1 = 0
     \<and> consumed r1 = consumed r @ out_pending r"
  using assms(2,3)
proof (induction n arbitrary: r)
  case 0
  then show ?case by simp
next
  case (Suc n)
  show ?case
  proof (cases "out_cons r = out_prod r")
    case True
    then have "out_len r = 0" by (simp add: out_len_def)
    then show ?thesis using True Suc.prems by (simp add: out_pending_def)
  next
    case False
    then have "0 < out_len r" by (simp add: out_len_def ring_len_0 flip: neq0_conv)
    then have "out_len (peer r) < n"
      using consumer_step(3) [OF assms(1) Suc.prems(1)] Suc.prems(2) by linarith
    then obtain r1 where "wait_drained n peer (peer r) = Some r1" "out_ok r1" "out_len r1 = 0"
        "consumed r1 = consumed (peer r) @ out_pending (peer r)"
      using Suc.IH [of "peer r"] consumer_step(1) [OF assms(1) Suc.prems(1)] by blast
    then show ?thesis
      using False consumer_step(2) [OF assms(1) Suc.prems(1)] by simp
  qed
qed

text \<open>A text that fits in the free part of the ring is sent once, in order, and all of it arrives.\<close>

lemma pv_console_write_fits:
  assumes "consumer peer" "out_ok r" "out_len r + length buf \<le> 2048" "2048 < fuel"
  shows "\<exists>r1. pv_console_write fuel peer buf r = Some r1 \<and> out_ok r1 \<and> out_len r1 = 0
     \<and> consumed r1 = consumed r @ out_pending r @ buf"
proof -
  obtain n where n: "fuel = Suc n" using assms(4) by (cases fuel) auto
  obtain s r1 where w: "pv_console_write_some buf r = (s, r1)" by (cases "pv_console_write_some buf r")
  note spec = write_some_spec [OF assms(2) w]
  have s: "s = length buf" using spec(1) assms(3) by simp
  have "out_len (peer r1) < fuel"
    using consumer_step(3) [OF assms(1) spec(2)] spec(3) s assms(3,4) by linarith
  then obtain r2 where "wait_drained fuel peer (peer r1) = Some r2" "out_ok r2" "out_len r2 = 0"
      "consumed r2 = consumed (peer r1) @ out_pending (peer r1)"
    using wait_drained_spec [OF assms(1) consumer_step(1) [OF assms(1) spec(2)]] by blast
  moreover have "write_loop fuel fuel peer buf (out_cons r) 0 r = Some (peer r1)"
    using w s by (simp add: n)
  ultimately show ?thesis
    using consumer_step(2) [OF assms(1) spec(2)] spec(4,6) s
    by (simp add: pv_console_write_def)
qed

section \<open>A text that does not fit\<close>

text \<open>A consumer that takes all there is.\<close>

definition drain :: "xencons \<Rightarrow> xencons" where
  "drain r = takes (out_len r) r"

lemma consumer_drain: "consumer drain"
  by (auto simp: consumer_def drain_def)

lemma drain_len: "out_ok r \<Longrightarrow> out_ok (drain r) \<and> out_len (drain r) = 0"
  using takes_spec [of r "out_len r"] by (simp add: drain_def)

text \<open>
  Once a pass has written some of the text but not all of it, every later pass does the same: the
  loop sends parts of the text for ever.
\<close>

lemma write_loop_stuck:
  assumes "out_ok r" "out_len r = 0" "0 < w" "w < length buf" "length buf \<le> 2048"
  shows "write_loop fuel n drain buf cons w r = None"
  using assms
proof (induction n arbitrary: r w)
  case 0
  then show ?case by simp
next
  case (Suc n)
  obtain s r1 where some: "pv_console_write_some (drop w buf) r = (s, r1)"
    by (cases "pv_console_write_some (drop w buf) r")
  note spec = write_some_spec [OF Suc.prems(1) some]
  have s: "s = length buf - w" using spec(1) Suc.prems by simp
  have dr: "out_ok (drain r1)" "out_len (drain r1) = 0" using drain_len [OF spec(2)] by simp_all
  have stay: "out_ok r3 \<and> out_len r3 = 0" if "wait_space m drain cons r2 = Some r3"
      "out_ok r2" "out_len r2 = 0" for m r2 r3
    using that drain_len by (induction m arbitrary: r2) (auto split: if_splits)
  have "Option.bind (wait_space fuel drain cons (drain r1)) (write_loop fuel n drain buf cons s) = None"
    using stay [OF _ dr] Suc.IH [of _ s] Suc.prems s
    by (cases "wait_space fuel drain cons (drain r1)") auto
  then show ?case using some s Suc.prems by (simp add: Let_def)
qed

section \<open>Reading\<close>

definition in_len :: "xencons \<Rightarrow> nat" where
  "in_len r = ring_len (in_cons r) (in_prod r)"

definition in_pending :: "xencons \<Rightarrow> string" where
  "in_pending r = ring_slice 10 (ring_in r) (in_cons r) (in_len r)"

lemma ring_slice_Cons:
  "0 < n \<Longrightarrow> ring_slice b buf c n = buf ! ring_pos b c # ring_slice b buf (c + 1) (n - 1)"
  using ring_slice_append [of b buf c 1 "n - 1"] by (simp add: ring_slice_Suc)

lemma read_in_spec:
  assumes "read_in n c p inp = (cs, c1)"
  shows "cs = ring_slice 10 inp c (min n (ring_len c p)) \<and> c1 = c + of_nat (length cs)"
  using assms
proof (induction n c p inp arbitrary: cs c1 rule: read_in.induct)
  case (1 c p inp)
  then show ?case by simp
next
  case (2 n c p inp)
  show ?case
  proof (cases "0 < p - c")
    case False
    then have "p = c" by (simp add: word_gt_0)
    then show ?thesis using 2(2) by simp
  next
    case True
    then have pos: "0 < ring_len c p" by (simp add: ring_len_def unat_gt_0 word_gt_0)
    obtain ds where ds: "read_in n (c + 1) p inp = (ds, c1)" "cs = inp ! unat (c AND 1023) # ds"
      using 2(2) True by (auto split: prod.splits)
    have "ring_len (c + 1) p = ring_len c p - 1"
      using ring_len_add_cons [of 1 c p] pos by simp
    then have "ds = ring_slice 10 inp (c + 1) (min n (ring_len c p - 1))"
        "c1 = c + 1 + of_nat (length ds)"
      using 2(1) [OF True ds(1)] by simp_all
    moreover have "min (Suc n) (ring_len c p) - 1 = min n (ring_len c p - 1)"
        "0 < min (Suc n) (ring_len c p)" using pos by auto
    ultimately show ?thesis
      using ds(2) ring_slice_Cons [of "min (Suc n) (ring_len c p)" 10 inp c]
      by (simp add: ring_pos_10)
  qed
qed

section \<open>Output callbacks\<close>

text \<open>The functions that are registered as callbacks, of \<open>arch/x86/setup.c\<close> and of this file.\<close>

datatype cons_output_cb = Qemu_console_write | Xen_console_write | Pv_console_write

record console = report +
  output_fns :: "cons_output_cb list"
  pv_ring :: xencons
  pv_evtchn :: u32
  vprintk_buf :: "char list"

definition register_console_callback :: "cons_output_cb \<Rightarrow> ('z console_scheme, unit) prog" where
  "register_console_callback fn =
     bnd (fetch output_fns) (\<lambda>fns.
     if length fns < 3 then update (\<lambda>s. s\<lparr>output_fns := fns @ [fn]\<rparr>)
     else panic (''Too many console callbacks'' @ [LF]) [])"

text \<open>\<open>evtchn_pending\<close> has one bit per event channel: a square of the bits in a \<open>long\<close>.\<close>

definition NR_EVTCHN :: "env \<Rightarrow> nat" where
  "NR_EVTCHN e = (if CONFIG_64BIT e then 4096 else 1024)"

definition init_pv_console :: "xencons \<Rightarrow> u32 \<Rightarrow> ('z console_scheme, unit) prog" where
  "init_pv_console ring port =
     bnd (config NR_EVTCHN) (\<lambda>n.
     if unat port \<ge> n
     then panic (''evtchn %u out of evtchn_pending[] range'' @ [LF]) [VaInt port]
     else seq (update (\<lambda>s. s\<lparr>pv_ring := ring, pv_evtchn := port\<rparr>))
            (register_console_callback Pv_console_write))"

definition qemu_console_write :: "string \<Rightarrow> ('z console_scheme, unit) prog" where
  "qemu_console_write buf = emit (PortWr 0x12 buf)"

definition xen_console_write :: "string \<Rightarrow> ('z console_scheme, unit) prog" where
  "xen_console_write buf = hypercall_console_write buf"

text \<open>The PV callback on the state: a run that does not end has no outcome but \<open>Stop\<close>.\<close>

definition pv_console_cb ::
  "nat \<Rightarrow> (xencons \<Rightarrow> xencons) \<Rightarrow> string \<Rightarrow> ('z console_scheme, unit) prog" where
  "pv_console_cb fuel peer buf =
     bnd (fetch pv_ring) (\<lambda>r.
     case pv_console_write fuel peer buf r of
       Some r1 \<Rightarrow> update (\<lambda>s. s\<lparr>pv_ring := r1\<rparr>)
     | None \<Rightarrow> halt)"

fun call_output_fn ::
  "nat \<Rightarrow> (xencons \<Rightarrow> xencons) \<Rightarrow> cons_output_cb \<Rightarrow> string \<Rightarrow> ('z console_scheme, unit) prog" where
  "call_output_fn fuel peer Qemu_console_write buf = qemu_console_write buf"
| "call_output_fn fuel peer Xen_console_write buf = xen_console_write buf"
| "call_output_fn fuel peer Pv_console_write buf = pv_console_cb fuel peer buf"

text \<open>
  \<open>vprintk\<close>: format into the static buffer of 2048 bytes, check the length with \<open>>\<close>, and hand the
  first \<open>rc\<close> bytes to each callback. A format with undefined behaviour ends the run.
\<close>

definition vprintk ::
  "nat \<Rightarrow> (xencons \<Rightarrow> xencons) \<Rightarrow> fmt_hook \<Rightarrow> string \<Rightarrow> varg list \<Rightarrow> ('z console_scheme, unit) prog" where
  "vprintk fuel peer hook fmt args =
     bnd (config id) (\<lambda>e.
     bnd (fetch vprintk_buf) (\<lambda>buf0.
     case vsnprintf_internal hook e buf0 2048 fmt args LF_TO_CRLF of
       None \<Rightarrow> halt
     | Some (rc, buf) \<Rightarrow>
         seq (update (\<lambda>s. s\<lparr>vprintk_buf := buf\<rparr>)) (
         if rc > 2048 then panic (''vprintk() buffer overflow'' @ [LF]) []
         else bnd (fetch output_fns) (\<lambda>fns.
              block (map (\<lambda>fn. call_output_fn fuel peer fn (take rc buf)) fns)))))"

section \<open>Every callback gets the same text\<close>

definition console_event :: "string \<Rightarrow> ev" where
  "console_event buf = Hypercall 18 [0, of_nat (length buf)] (map (\<lambda>c. of_int (uchar_of c)) buf)"

fun cb_events :: "string \<Rightarrow> cons_output_cb \<Rightarrow> ev list" where
  "cb_events buf Qemu_console_write = [PortWr 0x12 buf]"
| "cb_events buf Xen_console_write = [console_event buf]"
| "cb_events buf Pv_console_write = []"

fun cb_pv_text :: "string \<Rightarrow> cons_output_cb \<Rightarrow> string" where
  "cb_pv_text buf Pv_console_write = buf"
| "cb_pv_text buf _ = []"

lemma call_output_fn_run:
  assumes "consumer peer" "2048 < fuel" "out_ok (pv_ring s)" "out_len (pv_ring s) = 0"
    "length buf \<le> 2048"
  shows "\<exists>r. call_output_fn fuel peer fn buf h s =
       Done () (s\<lparr>trace := trace s @ cb_events buf fn, pv_ring := r\<rparr>)
     \<and> out_ok r \<and> out_len r = 0 \<and> consumed r = consumed (pv_ring s) @ cb_pv_text buf fn"
proof (cases fn)
  case Pv_console_write
  have "out_pending (pv_ring s) = []" using assms(4) by (simp add: out_pending_def)
  then obtain r where "pv_console_write fuel peer buf (pv_ring s) = Some r" "out_ok r" "out_len r = 0"
      "consumed r = consumed (pv_ring s) @ buf"
    using pv_console_write_fits [OF assms(1,3), of buf fuel] assms by auto
  then show ?thesis
    using Pv_console_write by (cases s) (auto simp: pv_console_cb_def io_simps)
qed (use assms in \<open>(cases s, auto simp: qemu_console_write_def xen_console_write_def io_simps console_event_def
       split: prod.split)+\<close>)

lemma call_output_fns_run:
  assumes "consumer peer" "2048 < fuel" "length buf \<le> 2048"
    and "out_ok (pv_ring s)" "out_len (pv_ring s) = 0"
  shows "\<exists>r. block (map (\<lambda>fn. call_output_fn fuel peer fn buf) fns) h s =
       Done () (s\<lparr>trace := trace s @ concat (map (cb_events buf) fns), pv_ring := r\<rparr>)
     \<and> out_ok r \<and> out_len r = 0
     \<and> consumed r = consumed (pv_ring s) @ concat (map (cb_pv_text buf) fns)"
  using assms(4,5)
proof (induction fns arbitrary: s)
  case Nil
  then show ?case by (cases s) (auto simp: io_simps)
next
  case (Cons fn fns)
  obtain r where r: "call_output_fn fuel peer fn buf h s =
       Done () (s\<lparr>trace := trace s @ cb_events buf fn, pv_ring := r\<rparr>)"
      "out_ok r" "out_len r = 0" "consumed r = consumed (pv_ring s) @ cb_pv_text buf fn"
    using call_output_fn_run [OF assms(1,2) Cons.prems assms(3)] by blast
  let ?s = "s\<lparr>trace := trace s @ cb_events buf fn, pv_ring := r\<rparr>"
  obtain r2 where "block (map (\<lambda>fn. call_output_fn fuel peer fn buf) fns) h ?s =
       Done () (?s\<lparr>trace := trace ?s @ concat (map (cb_events buf) fns), pv_ring := r2\<rparr>)"
      "out_ok r2" "out_len r2 = 0" "consumed r2 = consumed (pv_ring ?s) @ concat (map (cb_pv_text buf) fns)"
    using Cons.IH [of ?s] r by auto
  then show ?case
    using r by (auto simp: seq_run)
qed

context fmt_hook_contract begin

text \<open>The text of a format, and its length: what \<open>vprintk\<close> hands to the callbacks.\<close>

lemma vprintk_buf_text:
  assumes "vsnprintf_internal hook e buf0 2048 fmt args LF_TO_CRLF = Some (rc, buf)"
    "length buf0 = 2048" "rc < 2048"
  obtains cs where "rc = length cs" "take rc buf = cs"
    "\<And>buf' sz. sz \<le> length buf' \<Longrightarrow>
       map_option fst (vsnprintf_internal hook e buf' sz fmt args LF_TO_CRLF) = Some (length cs)"
proof -
  obtain cs where rc: "rc = length cs" and all: "\<And>buf' sz'. sz' \<le> length buf' \<Longrightarrow>
       vsnprintf_internal hook e buf' sz' fmt args LF_TO_CRLF =
         Some (length cs, if sz' = 0 then buf'
           else take (sz' - 1) cs @ NUL # drop (Suc (min (sz' - 1) (length cs))) buf')"
    using vsnprintf_internal_contract [OF assms(1)] by blast
  have "buf = take 2047 cs @ NUL # drop (Suc (min 2047 (length cs))) buf0"
    using all [of 2048 buf0] assms by simp
  then have "take rc buf = cs" using assms(3) rc by simp
  with rc all show ?thesis by (intro that) auto
qed

end

section \<open>A console that is not running\<close>

definition xencons0 :: xencons where [init_states]:
  "xencons0 = \<lparr>ring_in = replicate 1024 NUL, ring_out = replicate 2048 NUL, in_cons = 0, in_prod = 0,
     out_cons = 0, out_prod = 0, consumed = []\<rparr>"

definition console0 :: console where [init_states]:
  "console0 = report.extend report0 (console.fields [] xencons0 0 (replicate 2048 NUL))"

declare console.defs [init_states]



end
