(* ===== verification/Xenstore.thy ===== *)
theory Xenstore imports
  Xenbus
  Console
begin

text \<open>
  The xenstore client on top of the rings: \<open>init_xenbus()\<close>, \<open>xenstore_init()\<close> and \<open>xenstore_read()\<close>
  of \<open>common/xenbus.c\<close>, and \<open>xenstore_get_domid()\<close> of \<open>common/lib.c\<close>.
\<close>

section \<open>The message header\<close>

text \<open>A 32-bit field in memory, little endian.\<close>

definition byte_char :: "u8 \<Rightarrow> char" where
  "byte_char b = char_of (unat b)"

definition char_byte :: "char \<Rightarrow> u8" where
  "char_byte c = of_nat (of_char c)"

definition le32 :: "u32 \<Rightarrow> string" where
  "le32 w = map (\<lambda>i. byte_char (ucast (drop_bit (8 * i) w))) [0..<4]"

fun of_le :: "string \<Rightarrow> u32" where
  "of_le [] = 0"
| "of_le (c # cs) = ucast (char_byte c) OR push_bit 8 (of_le cs)"

text \<open>\<open>struct xenstore_msg_hdr\<close>: type, req_id, tx_id and len.\<close>

definition msg_hdr :: "u32 \<Rightarrow> u32 \<Rightarrow> u32 \<Rightarrow> u32 \<Rightarrow> string" where
  "msg_hdr ty rid tx len = le32 ty @ le32 rid @ le32 tx @ le32 len"

definition hdr_type :: "string \<Rightarrow> u32" where
  "hdr_type hdr = of_le (take 4 hdr)"

definition hdr_len :: "string \<Rightarrow> u32" where
  "hdr_len hdr = of_le (take 4 (drop 12 hdr))"

definition XS_READ :: u32 where "XS_READ = 2"
definition XENSTORE_PAYLOAD_MAX :: nat where "XENSTORE_PAYLOAD_MAX = 4096"

lemma char_byte_byte_char [simp]: "char_byte (byte_char b) = b"
  using unat_u8_less [of b] by (simp add: char_byte_def byte_char_def take_bit_nat_eq_self_iff)

lemma length_le32 [simp]: "length (le32 w) = 4"
  by (simp add: le32_def)

definition byte_of :: "nat \<Rightarrow> u32 \<Rightarrow> u32" where
  "byte_of i w = ucast (ucast (drop_bit (8 * i) w) :: u8)"

lemma join_bytes:
  "byte_of 0 w OR push_bit 8 (byte_of 1 w OR push_bit 8 (byte_of 2 w OR push_bit 8 (byte_of 3 w))) = w"
  (is "?l = w")
proof (rule bit_word_eqI)
  fix n assume n: "n < LENGTH(32)"
  consider "n < 8" | "8 \<le> n" "n < 16" | "16 \<le> n" "n < 24" | "24 \<le> n" by linarith
  then show "bit ?l n \<longleftrightarrow> bit w n"
    using n by cases (auto simp: byte_of_def bit_simps)
qed

lemma of_le_le32 [simp]: "of_le (le32 w) = w"
proof -
  have "[0..<4] = [0, 1, 2, 3 :: nat]" by (simp add: upt_rec)
  then have "of_le (le32 w) = byte_of 0 w OR push_bit 8 (byte_of 1 w OR push_bit 8 (byte_of 2 w
      OR push_bit 8 (byte_of 3 w)))"
    by (simp add: le32_def byte_of_def)
  then show ?thesis by (simp only: join_bytes)
qed

lemma length_msg_hdr [simp]: "length (msg_hdr ty rid tx len) = 16"
  by (simp add: msg_hdr_def)

lemma hdr_type_msg_hdr [simp]: "hdr_type (msg_hdr ty rid tx len) = ty"
  by (simp add: hdr_type_def msg_hdr_def)

lemma hdr_len_msg_hdr [simp]: "hdr_len (msg_hdr ty rid tx len) = len"
  by (simp add: hdr_len_def msg_hdr_def)

section \<open>Reading a key\<close>

text \<open>
  The loop that drains a reply that is too long, in parts of at most 4096 bytes into \<open>payload\<close>.
\<close>

function drain_reply :: "nat \<Rightarrow> (xenbus \<Rightarrow> xenbus) \<Rightarrow> nat \<Rightarrow> string \<times> xenbus \<Rightarrow> (string \<times> xenbus) option" where
  "drain_reply fuel peer len (payload, r) =
     (if len = 0 then Some (payload, r)
      else let part = min len XENSTORE_PAYLOAD_MAX in
        Option.bind (xenbus_read fuel peer part r) (\<lambda>(cs, r1).
          drain_reply fuel peer (len - part) (block_write 0 cs payload, r1)))"
  by pat_completeness auto
termination
  by (relation "measure (\<lambda>(fuel, peer, len, p). len)") (auto simp: XENSTORE_PAYLOAD_MAX_def)

declare drain_reply.simps [simp del]

text \<open>
  The result is the returned pointer, \<open>None\<close> for NULL and otherwise the contents of \<open>payload\<close>, with
  the buffer and the rings after the call. \<open>path\<close> is the string without its terminator.
\<close>

definition xenstore_read ::
  "nat \<Rightarrow> (xenbus \<Rightarrow> xenbus) \<Rightarrow> string \<Rightarrow> string \<Rightarrow> xenbus \<Rightarrow> (string option \<times> string \<times> xenbus) option" where
  "xenstore_read fuel peer path payload r =
     do {
       r1 \<leftarrow> xenbus_write fuel peer (msg_hdr XS_READ 0 0 (of_nat (length path + 1))) r;
       r2 \<leftarrow> xenbus_write fuel peer (path @ [NUL]) r1;
       let r3 = peer r2;
       (hdr, r4) \<leftarrow> xenbus_read fuel peer 16 r3;
       if hdr_type hdr \<noteq> XS_READ then Some (None, payload, r4)
       else if unat (hdr_len hdr) > XENSTORE_PAYLOAD_MAX
       then do {
         (payload1, r5) \<leftarrow> drain_reply fuel peer (unat (hdr_len hdr)) (payload, r4);
         Some (None, payload1, r5)
       }
       else do {
         (cs, r5) \<leftarrow> xenbus_read fuel peer (unat (hdr_len hdr)) r4;
         let payload1 = (block_write 0 cs payload)[unat (hdr_len hdr) := NUL];
         Some (Some payload1, payload1, r5)
       }
     }"

section \<open>The protocol\<close>

definition request :: "string \<Rightarrow> string" where
  "request path = msg_hdr XS_READ 0 0 (of_nat (length path + 1)) @ path @ [NUL]"

text \<open>The bytes that the guest has still to read, those in the ring and those to come.\<close>

definition replies :: "xenbus \<Rightarrow> string" where
  "replies r = rsp_pending r @ to_send r"

text \<open>The request bytes that the guest has written.\<close>

definition requests :: "xenbus \<Rightarrow> string" where
  "requests r = received r @ req_pending r"

lemma xenbus_write_ok:
  assumes "xenstored peer" "xenbus_ok r" "length data < 2 ^ 32" "2 * length data + 1 < fuel"
  obtains r1 where "xenbus_write fuel peer data r = Some r1" "xenbus_ok r1"
    "requests r1 = requests r @ data" "replies r1 = replies r"
proof -
  have "2 * length data + (if req_len r < 1023 then 0 else 1) < fuel" using assms(4) by auto
  then show thesis
    using xenbus_write_spec [OF assms(1-3), of fuel] that by (auto simp: requests_def replies_def)
qed

lemma xenbus_read_ok:
  assumes "xenstored peer" "xenbus_ok r" "len < 2 ^ 32" "len * 1025 + 1024 < fuel"
    "len \<le> length (replies r)"
  obtains r1 where "xenbus_read fuel peer len r = Some (take len (replies r), r1)" "xenbus_ok r1"
    "replies r1 = drop len (replies r)" "requests r1 = requests r"
proof -
  have "read_measure len r < fuel"
    using read_measure_bound [OF assms(2), of len] assms(4) by linarith
  then show thesis
    using xenbus_read_spec [OF assms(1-3), of fuel] assms(5) that
    unfolding replies_def requests_def by blast
qed

lemma peer_ok:
  assumes "xenstored peer" "xenbus_ok r"
  shows "xenbus_ok (peer r)" "requests (peer r) = requests r" "replies (peer r) = replies r"
  using assms unfolding xenstored_def requests_def replies_def by blast+

lemma drain_reply_ok:
  assumes "xenstored peer" "4096 * 1025 + 1024 < fuel"
    and "xenbus_ok r" "len \<le> length (replies r)"
  shows "\<exists>p1 r1. drain_reply fuel peer len (payload, r) = Some (p1, r1) \<and> xenbus_ok r1
     \<and> replies r1 = drop len (replies r) \<and> requests r1 = requests r"
  using assms(3,4)
proof (induction len arbitrary: payload r rule: less_induct)
  case (less len)
  show ?case
  proof (cases "len = 0")
    case True
    then show ?thesis using less.prems by (subst drain_reply.simps) simp
  next
    case False
    let ?part = "min len XENSTORE_PAYLOAD_MAX"
    have part: "0 < ?part" "?part \<le> len" "?part \<le> 4096"
      using False by (simp_all add: XENSTORE_PAYLOAD_MAX_def)
    have "?part * 1025 \<le> 4096 * 1025" using part(3) by (rule mult_le_mono1)
    then have fuel: "?part * 1025 + 1024 < fuel" using assms(2) by linarith
    have bounds: "?part < 2 ^ 32" "?part \<le> length (replies r)"
      using part less.prems(2) by simp_all
    obtain r1 where r1: "xenbus_read fuel peer ?part r = Some (take ?part (replies r), r1)" "xenbus_ok r1"
        "replies r1 = drop ?part (replies r)" "requests r1 = requests r"
      by (rule xenbus_read_ok [OF assms(1) less.prems(1) bounds(1) fuel bounds(2)])
    have "len - ?part < len" "len - ?part \<le> length (replies r1)"
      using part less.prems(2) r1(3) by simp_all
    then obtain p2 r2 where r2: "drain_reply fuel peer (len - ?part)
          (block_write 0 (take ?part (replies r)) payload, r1) = Some (p2, r2)" "xenbus_ok r2"
        "replies r2 = drop (len - ?part) (replies r1)" "requests r2 = requests r1"
      using less.IH [OF _ r1(2)] by blast
    have "drop (len - ?part) (replies r1) = drop len (replies r)"
      using r1(3) part(2) by simp
    then show ?thesis
      using False r1 r2 by (subst drain_reply.simps) (simp add: Let_def)
  qed
qed

text \<open>The exchange up to the header of the reply.\<close>

lemma xenstore_request_ok:
  assumes "xenstored peer" "xenbus_ok r" "length path < 2 ^ 31" "2 * length path + 17424 < fuel"
    and "16 \<le> length (replies r)"
  obtains r1 r2 r4 where
    "xenbus_write fuel peer (msg_hdr XS_READ 0 0 (of_nat (length path + 1))) r = Some r1"
    "xenbus_write fuel peer (path @ [NUL]) r1 = Some r2"
    "xenbus_read fuel peer 16 (peer r2) = Some (take 16 (replies r), r4)"
    "xenbus_ok r4" "requests r4 = requests r @ request path" "replies r4 = drop 16 (replies r)"
proof -
  obtain r1 where r1: "xenbus_write fuel peer (msg_hdr XS_READ 0 0 (of_nat (length path + 1))) r = Some r1"
      "xenbus_ok r1" "requests r1 = requests r @ msg_hdr XS_READ 0 0 (of_nat (length path + 1))"
      "replies r1 = replies r"
    by (rule xenbus_write_ok [OF assms(1,2), of "msg_hdr XS_READ 0 0 (of_nat (length path + 1))" fuel])
      (use assms in auto)
  obtain r2 where r2: "xenbus_write fuel peer (path @ [NUL]) r1 = Some r2"
      "xenbus_ok r2" "requests r2 = requests r1 @ path @ [NUL]" "replies r2 = replies r1"
    by (rule xenbus_write_ok [OF assms(1) r1(2), of "path @ [NUL]" fuel]) (use assms in auto)
  note p = peer_ok [OF assms(1) r2(2)]
  obtain r4 where r4: "xenbus_read fuel peer 16 (peer r2) = Some (take 16 (replies (peer r2)), r4)"
      "xenbus_ok r4" "replies r4 = drop 16 (replies (peer r2))" "requests r4 = requests (peer r2)"
    by (rule xenbus_read_ok [OF assms(1) p(1), of 16 fuel]) (use assms(4,5) p r1 r2 in auto)
  show thesis
    by (rule that [OF r1(1) r2(1), of r4]) (use r1 r2 r4 p in \<open>auto simp: request_def\<close>)
qed

lemma block_write_terminated:
  "length cs < length buf \<Longrightarrow>
   (block_write 0 cs buf)[length cs := NUL] = cs @ NUL # drop (Suc (length cs)) buf"
proof -
  assume "length cs < length buf"
  then have "block_write 0 cs buf = cs @ buf ! length cs # drop (Suc (length cs)) buf"
    by (simp add: block_write_def Cons_nth_drop_Suc)
  then show ?thesis by simp
qed

section \<open>A xenstored\<close>

text \<open>
  A concrete peer, to show that the assumptions can hold: it takes all requests and produces one
  byte at a time.
\<close>

definition one_byte_peer :: "xenbus \<Rightarrow> xenbus" where
  "one_byte_peer r =
     (let r1 = r\<lparr>req_cons := req_prod r, received := received r @ req_pending r\<rparr> in
      if rsp_len r = 0 \<and> to_send r \<noteq> []
      then r1\<lparr>rsp := (rsp r)[ring_pos 10 (rsp_prod r) := hd (to_send r)],
              rsp_prod := rsp_prod r + 1, to_send := tl (to_send r)\<rparr>
      else r1)"

lemma xenstored_one_byte_peer: "xenstored one_byte_peer"
  unfolding xenstored_def
proof (intro allI impI)
  fix r assume ok: "xenbus_ok r"
  let ?r = "one_byte_peer r"
  have req: "req_len ?r = 0" "received ?r @ req_pending ?r = received r @ req_pending r"
    by (simp_all add: one_byte_peer_def Let_def req_len_def req_pending_def)
  have rsp: "rsp_len ?r = (if rsp_len r = 0 \<and> to_send r \<noteq> [] then 1 else rsp_len r)"
    using ring_len_add_prod [of "rsp_cons r" "rsp_prod r" 1]
    by (auto simp: one_byte_peer_def Let_def rsp_len_def)
  have cont: "rsp_pending ?r @ to_send ?r = rsp_pending r @ to_send r"
  proof (cases "rsp_len r = 0 \<and> to_send r \<noteq> []")
    case True
    then have "rsp_prod r = rsp_cons r" by (simp add: rsp_len_def ring_len_0)
    then have "rsp_pending ?r = [hd (to_send r)]"
      using rsp True ok ring_pos_less [of 10 "rsp_cons r"]
      by (simp add: rsp_pending_def one_byte_peer_def Let_def ring_slice_Suc [of _ _ _ 0, simplified]
          xenbus_ok_def)
    then show ?thesis using True by (simp add: one_byte_peer_def Let_def rsp_pending_def)
  next
    case False
    then show ?thesis by (auto simp: one_byte_peer_def Let_def rsp_pending_def rsp_len_def)
  qed
  have "xenbus_ok ?r"
    using ok req(1) rsp by (auto simp: xenbus_ok_def) (auto simp: one_byte_peer_def Let_def)
  then show "xenbus_ok ?r \<and>
        received ?r @ req_pending ?r = received r @ req_pending r \<and>
        rsp_pending ?r @ to_send ?r = rsp_pending r @ to_send r \<and>
        req_len ?r \<le> req_len r \<and> (0 < req_len r \<longrightarrow> req_len ?r < req_len r) \<and>
        rsp_len r \<le> rsp_len ?r \<and>
        (rsp_len r = 0 \<longrightarrow> to_send r \<noteq> [] \<longrightarrow> req_len r = 0 \<longrightarrow> 0 < rsp_len ?r)"
    using req rsp cont by auto
qed

section \<open>The driver's state\<close>

record xenstore = console +
  xb_ring :: xenbus
  xb_port :: u32
  payload :: string

definition init_xenbus :: "(env \<Rightarrow> nat) \<Rightarrow> xenbus \<Rightarrow> u32 \<Rightarrow> ('z xenstore_scheme, unit) prog" where
  "init_xenbus nr_evtchn ring port =
     bnd (config nr_evtchn) (\<lambda>n.
     if unat port \<ge> n
     then panic (''evtchn %u out of evtchn_pending[] range'' @ [LF]) [VaInt port]
     else update (\<lambda>s. s\<lparr>xb_ring := ring, xb_port := port\<rparr>))"

text \<open>\<open>EVTCHN_STATUS_interdomain\<close> is 2; word 2 of the structure is its status.\<close>

definition xenstore_init :: "('z xenstore_scheme, int) prog" where
  "xenstore_init =
     bnd (fetch xb_port) (\<lambda>port.
     if port = 0 then ret (- ENODEV)
     else
       bnd (hypercall_evtchn_status [DOMID_SELF, ucast port, 0, 0, 0]) (\<lambda>(rc, es).
       if rc \<noteq> 0 \<or> es ! 2 \<noteq> 2 then ret (- ENODEV) else ret 0))"

definition xenstore_read_op ::
  "nat \<Rightarrow> (xenbus \<Rightarrow> xenbus) \<Rightarrow> string \<Rightarrow> ('z xenstore_scheme, string option) prog" where
  "xenstore_read_op fuel peer path =
     bnd (fetch payload) (\<lambda>p.
     bnd (fetch xb_ring) (\<lambda>r.
     case xenstore_read fuel peer path p r of
       None \<Rightarrow> halt
     | Some (res, p1, r1) \<Rightarrow> seq (update (\<lambda>s. s\<lparr>payload := p1, xb_ring := r1\<rparr>)) (ret res)))"

section \<open>The domain id from xenstore\<close>

text \<open>The loop over the digits; \<open>domid\<close> is an \<open>unsigned int\<close>.\<close>

fun domid_digits :: "u32 \<Rightarrow> string \<Rightarrow> u32" where
  "domid_digits domid [] = domid"
| "domid_digits domid (c # cs) =
     (if isdigit c then domid_digits (domid * 10 + of_int (schar_of c - 48)) cs else domid)"

definition parse_domid :: "string option \<Rightarrow> int" where
  "parse_domid res =
     (case res of None \<Rightarrow> - 1
      | Some [] \<Rightarrow> - 1
      | Some (c # cs) \<Rightarrow>
          if \<not> isdigit c then - 1
          else let domid = domid_digits 0 (c # cs) in
               if domid \<ge> 0x7ff0 then - 1 else uint domid)"

definition xenstore_get_domid ::
  "nat \<Rightarrow> (xenbus \<Rightarrow> xenbus) \<Rightarrow> ('z xenstore_scheme, int) prog" where
  "xenstore_get_domid fuel peer =
     bnd xenstore_init (\<lambda>rc.
     if rc \<noteq> 0 then ret (- 1)
     else bnd (xenstore_read_op fuel peer ''domid'') (\<lambda>str. ret (parse_domid str)))"

text \<open>The number that a text of decimal digits stands for.\<close>

definition digit_val :: "char \<Rightarrow> nat" where
  "digit_val c = nat (schar_of c - 48)"

definition decimal :: "string \<Rightarrow> nat" where
  "decimal cs = foldl (\<lambda>n c. n * 10 + digit_val c) 0 cs"

lemma digit_val_of_int: "isdigit c \<Longrightarrow> (of_int (schar_of c - 48) :: u32) = of_nat (digit_val c)"
proof -
  assume "isdigit c"
  then have "int (digit_val c) = schar_of c - 48" by (simp add: isdigit_def digit_val_def)
  then show ?thesis by (metis of_int_of_nat_eq)
qed

lemma domid_digits_decimal:
  assumes "list_all isdigit cs" "\<not> isdigit c"
  shows "domid_digits d (cs @ c # rest) = of_nat (foldl (\<lambda>n c. n * 10 + digit_val c) (unat d) cs)"
  using assms(1)
proof (induction cs arbitrary: d)
  case Nil
  then show ?case using assms(2) by simp
next
  case (Cons x xs)
  have "(of_nat (foldl (\<lambda>n c. n * 10 + digit_val c) m xs) :: u32) =
        of_nat (foldl (\<lambda>n c. n * 10 + digit_val c) (unat (of_nat m :: u32)) xs)" for m
  proof (induction xs arbitrary: m)
    case (Cons y ys)
    have eq: "(of_nat (unat (of_nat m :: u32) * 10 + digit_val y) :: u32) = of_nat (m * 10 + digit_val y)"
      by simp
    show ?case
      using Cons.IH [of "m * 10 + digit_val y"] Cons.IH [of "unat (of_nat m :: u32) * 10 + digit_val y"]
      unfolding eq by simp
  qed simp
  from this [of "unat d * 10 + digit_val x"] show ?case
    using Cons by (simp add: digit_val_of_int [simplified])
qed

lemma not_isdigit_NUL: "\<not> isdigit NUL"
  by (simp add: isdigit_def schar_of_def NUL_def)

section \<open>The ring as a pair of byte streams\<close>


definition xenbus0 :: "string \<Rightarrow> xenbus" where
  "xenbus0 answers = \<lparr>req = replicate 1024 NUL, rsp = replicate 1024 NUL, req_cons = 0, req_prod = 0,
     rsp_cons = 0, rsp_prod = 0, evtchn_pending = False, received = [], to_send = answers\<rparr>"

lemma xenbus0_ok: "xenbus_ok (xenbus0 a)"
  by (simp add: xenbus_ok_def xenbus0_def req_len_def rsp_len_def)

lemma xenbus0_traffic: "replies (xenbus0 a) = a" "requests (xenbus0 a) = []"
  by (simp_all add: replies_def requests_def xenbus0_def rsp_pending_def req_pending_def rsp_len_def req_len_def)



section \<open>Reads and domain ids end to end\<close>

definition xenstore0 :: xenstore where [init_states]:
  "xenstore0 = console.extend console0 (xenstore.fields (xenbus0 []) 0 (replicate 4097 NUL))"

declare xenstore.defs [init_states]

text \<open>
  C16: xenstore_read sends one well-formed XS_READ request for the key (header, key, terminating
  NUL) and, when the store answers with a payload that fits the static buffer, returns that payload as a NUL-terminated string, with every byte of the reply consumed.
\<close>

lemma xenstore_read_reply:
  assumes "xenstored peer" "xenbus_ok r" "length path < 2 ^ 31" "length buf = 4097"
    and fuel: "2 * length path + 4200448 < fuel"
    and reply: "replies r = msg_hdr XS_READ rid tx (of_nat (length body)) @ body @ rest"
    and len: "length body \<le> 4096"
  shows "\<exists>r1. xenstore_read fuel peer path buf r =
       Some (Some (body @ NUL # drop (Suc (length body)) buf),
             body @ NUL # drop (Suc (length body)) buf, r1)
     \<and> xenbus_ok r1 \<and> requests r1 = requests r @ request path \<and> replies r1 = rest"
proof -
  have f0: "2 * length path + 17424 < fuel" using fuel by simp
  have r16: "16 \<le> length (replies r)" using reply by simp
  obtain r1 r2 r4 where steps:
      "xenbus_write fuel peer (msg_hdr XS_READ 0 0 (of_nat (length path + 1))) r = Some r1"
      "xenbus_write fuel peer (path @ [NUL]) r1 = Some r2"
      "xenbus_read fuel peer 16 (peer r2) = Some (take 16 (replies r), r4)"
      "xenbus_ok r4" "requests r4 = requests r @ request path" "replies r4 = drop 16 (replies r)"
    by (rule xenstore_request_ok [OF assms(1-3) f0 r16])
  have hdr: "take 16 (replies r) = msg_hdr XS_READ rid tx (of_nat (length body))"
      "replies r4 = body @ rest"
    using reply steps(6) by simp_all
  have n: "unat (of_nat (length body) :: u32) = length body"
    using len by (intro unat_of_nat_less) simp
  have "length body * 1025 \<le> 4096 * 1025" using len by (rule mult_le_mono1)
  then have f: "length body * 1025 + 1024 < fuel" using fuel by linarith
  obtain r5 where r5: "xenbus_read fuel peer (length body) r4 = Some (take (length body) (replies r4), r5)"
      "xenbus_ok r5" "replies r5 = drop (length body) (replies r4)" "requests r5 = requests r4"
    by (rule xenbus_read_ok [OF assms(1) steps(4) _ f]) (use len hdr(2) in auto)
  have "xenstore_read fuel peer path buf r =
      Some (Some ((block_write 0 body buf)[length body := NUL]),
            (block_write 0 body buf)[length body := NUL], r5)"
    using steps(1-3) r5(1) hdr n len
    by (simp add: xenstore_read_def XENSTORE_PAYLOAD_MAX_def Let_def)
  then show ?thesis
    using r5 steps(5) hdr(2) len assms(4) by (simp add: block_write_terminated)
qed

theorem xenstore_read_reply_witness:
  "\<exists>r1. xenstore_read 4300000 one_byte_peer ''domid'' (replicate 4097 NUL) (xenbus0 (msg_hdr XS_READ 0 0 2 @ ''42'')) =
       Some (Some (''42'' @ NUL # drop 3 (replicate 4097 NUL)), ''42'' @ NUL # drop 3 (replicate 4097 NUL), r1)
     \<and> xenbus_ok r1 \<and> requests r1 = request ''domid'' \<and> replies r1 = []"
  using xenstore_read_reply [OF xenstored_one_byte_peer xenbus0_ok, of "''domid''" "replicate 4097 NUL" 4300000 "msg_hdr XS_READ 0 0 2 @ ''42''" 0 0 "''42''" "[]"]
  by (simp add: xenbus0_traffic)

text \<open>
  C17: when the store announces a payload that is longer than the static buffer, xenstore_read
  still drains all of it from the ring and returns no value, so that the next request starts at a
  message boundary.
\<close>

lemma xenstore_read_too_long:
  assumes "xenstored peer" "xenbus_ok r" "length path < 2 ^ 31"
    and fuel: "2 * length path + 4200448 < fuel"
    and reply: "replies r = msg_hdr XS_READ rid tx (of_nat (length body)) @ body @ rest"
    and len: "4096 < length body" "length body < 2 ^ 32"
  shows "\<exists>p1 r1. xenstore_read fuel peer path buf r = Some (None, p1, r1)
     \<and> xenbus_ok r1 \<and> requests r1 = requests r @ request path \<and> replies r1 = rest"
proof -
  have f0: "2 * length path + 17424 < fuel" using fuel by simp
  have r16: "16 \<le> length (replies r)" using reply by simp
  obtain r1 r2 r4 where steps:
      "xenbus_write fuel peer (msg_hdr XS_READ 0 0 (of_nat (length path + 1))) r = Some r1"
      "xenbus_write fuel peer (path @ [NUL]) r1 = Some r2"
      "xenbus_read fuel peer 16 (peer r2) = Some (take 16 (replies r), r4)"
      "xenbus_ok r4" "requests r4 = requests r @ request path" "replies r4 = drop 16 (replies r)"
    by (rule xenstore_request_ok [OF assms(1-3) f0 r16])
  have hdr: "take 16 (replies r) = msg_hdr XS_READ rid tx (of_nat (length body))"
      "replies r4 = body @ rest"
    using reply steps(6) by simp_all
  have n: "unat (of_nat (length body) :: u32) = length body"
    using len by (intro unat_of_nat_less) simp
  have f: "4096 * 1025 + 1024 < fuel" using fuel by linarith
  obtain p5 r5 where r5: "drain_reply fuel peer (length body) (buf, r4) = Some (p5, r5)"
      "xenbus_ok r5" "replies r5 = drop (length body) (replies r4)" "requests r5 = requests r4"
    using drain_reply_ok [OF assms(1) f steps(4), of "length body" buf] hdr(2) by auto
  have "xenstore_read fuel peer path buf r = Some (None, p5, r5)"
    using steps(1-3) r5(1) hdr n len
    by (simp add: xenstore_read_def XENSTORE_PAYLOAD_MAX_def)
  then show ?thesis using r5(2-4) steps(5) hdr(2) by simp
qed

theorem xenstore_read_too_long_witness:
  "\<exists>p1 r1. xenstore_read 4300000 one_byte_peer ''domid'' (replicate 4097 NUL)
       (xenbus0 (msg_hdr XS_READ 0 0 5000 @ replicate 5000 (CHR ''x''))) = Some (None, p1, r1)
     \<and> xenbus_ok r1 \<and> requests r1 = request ''domid'' \<and> replies r1 = []"
  using xenstore_read_too_long [OF xenstored_one_byte_peer xenbus0_ok, of "''domid''" 4300000 "msg_hdr XS_READ 0 0 5000 @ replicate 5000 (CHR ''x'')" 0 0 "replicate 5000 (CHR ''x'')" "[]" "replicate 4097 NUL"]
  by (simp add: xenbus0_traffic)

text \<open>
  Xenstore_get_domid turns the digits of the reply into a domain id, or -1 when the number is
  a reserved id. The digits are accumulated in 32 bits, so it is the number modulo 2^32 that is
  returned and checked: a string such as 4294967297 names domain 1.
\<close>

lemma parse_domid_wraps:
  assumes "cs \<noteq> []" "list_all isdigit cs"
  shows "parse_domid (Some (cs @ NUL # rest)) =
    (if decimal cs mod 2 ^ 32 < 0x7ff0 then int (decimal cs mod 2 ^ 32) else - 1)"
proof -
  obtain x xs where x: "cs = x # xs" using assms(1) by (cases cs) auto
  have d: "domid_digits 0 (cs @ NUL # rest) = of_nat (decimal cs)"
    using domid_digits_decimal [OF assms(2) not_isdigit_NUL, of 0 rest] by (simp add: decimal_def)
  have u: "uint (of_nat (decimal cs) :: u32) = int (decimal cs mod 2 ^ 32)"
    by (simp add: unsigned_of_nat take_bit_eq_mod zmod_int)
  have "(of_nat (decimal cs) :: u32) \<ge> 0x7ff0 \<longleftrightarrow> \<not> decimal cs mod 2 ^ 32 < 0x7ff0"
    unfolding word_le_def u by simp linarith
  moreover have "parse_domid (Some (cs @ NUL # rest)) =
      (if (of_nat (decimal cs) :: u32) \<ge> 0x7ff0 then - 1 else uint (of_nat (decimal cs) :: u32))"
    using assms(2) x by (simp only: parse_domid_def option.case list.case append_Cons
        d [unfolded x append_Cons] list.pred_inject Let_def if_False simp_thms)
  ultimately show ?thesis unfolding u by auto
qed

lemma parse_domid_wraps_witness:
  "parse_domid (Some (''42'' @ NUL # [])) = 42"
proof -
  have "decimal ''42'' = 42" by (simp add: decimal_def digit_val_def isdigit_def schar_of_def)
  then show ?thesis
    by (subst parse_domid_wraps) (simp_all add: isdigit_def schar_of_def)
qed

end
