(* ===== verification/Fmt_Number.thy ===== *)
theory Fmt_Number imports
  Vsnprintf_Correct
begin

text \<open>
  \<open>fmt_number\<close> against a reference: the text of a number is its digits in the base, with the
  sign, the prefix and the padding the C standard gives each flag. The digit loop is shown to
  stay within the 24 bytes of its temporary buffer, and the digits to read back as the number.
\<close>

section \<open>Digits\<close>

text \<open>The digits of \<open>n\<close> in base \<open>b\<close>, the least significant first, and the value they denote.\<close>

fun digit_list :: "nat \<Rightarrow> nat \<Rightarrow> nat list" where
  "digit_list b n = (if n = 0 \<or> b < 2 then [] else (n mod b) # digit_list b (n div b))"

declare digit_list.simps [simp del]

lemma digit_list_0 [simp]: "digit_list b 0 = []"
  by (simp add: digit_list.simps)

lemma digit_list_step: "0 < n \<Longrightarrow> 2 \<le> b \<Longrightarrow> digit_list b n = (n mod b) # digit_list b (n div b)"
  by (subst digit_list.simps) simp

fun value_of :: "nat \<Rightarrow> nat list \<Rightarrow> nat" where
  "value_of b [] = 0"
| "value_of b (d # ds) = d + b * value_of b ds"

lemma value_of_digit_list: "2 \<le> b \<Longrightarrow> value_of b (digit_list b n) = n"
proof (induction b n rule: digit_list.induct)
  case (1 b n)
  then show ?case by (cases "n = 0") (simp_all add: digit_list_step)
qed

lemma digit_list_less: "d \<in> set (digit_list b n) \<Longrightarrow> d < b"
proof (induction b n rule: digit_list.induct)
  case (1 b n)
  then show ?case
    by (cases "n = 0 \<or> b < 2") (auto simp: digit_list.simps [of b n] split: if_splits)
qed

lemma length_digit_list: "2 \<le> b \<Longrightarrow> n < b ^ k \<Longrightarrow> length (digit_list b n) \<le> k"
proof (induction k arbitrary: n)
  case (Suc k)
  show ?case
  proof (cases "n = 0")
    case False
    from Suc.prems have "n div b < b ^ k" by (simp add: less_mult_imp_div_less mult.commute)
    with Suc False show ?thesis by (simp add: digit_list_step)
  qed simp
qed simp

lemma length_digit_list_u64:
  assumes "8 \<le> b"
  shows "length (digit_list b (unat (u :: u64))) \<le> 22"
proof (rule length_digit_list)
  have "unat u < 8 ^ 22" using unat_u64_less [of u] by simp
  also have "(8::nat) ^ 22 \<le> b ^ 22" using assms by (rule power_mono) simp
  finally show "unat u < b ^ 22" .
qed (use assms in simp)

text \<open>No leading zero.\<close>

lemma last_digit_list: "2 \<le> b \<Longrightarrow> 0 < n \<Longrightarrow> last (digit_list b n) \<noteq> 0"
proof (induction b n rule: digit_list.induct)
  case (1 b n)
  show ?case
  proof (cases "n < b")
    case True
    with 1 show ?thesis by (simp add: digit_list_step)
  next
    case False
    with 1 have "0 < n div b" by (simp add: div_greater_zero_iff)
    with 1 show ?thesis by (auto simp: digit_list_step)
  qed
qed

section \<open>The digit loop\<close>

lemma digit_loop_eq:
  assumes "8 \<le> unat base" "length (digit_list (unat base) (unat u)) \<le> room"
  shows "digit_loop e digits base room u tmp =
    Some (tmp @ map ((!) digits) (digit_list (unat base) (unat u)))"
  using assms
proof (induction room arbitrary: u tmp)
  case 0
  then have "digit_list (unat base) (unat u) = []" by simp
  with 0 have "unat u = 0" by (cases "unat u = 0") (auto simp: digit_list_step)
  then have "u = 0" by (simp add: unat_eq_0)
  then show ?case by (simp add: digit_loop.simps)
next
  case (Suc room)
  show ?case
  proof (cases "u = 0")
    case True
    then show ?thesis by (simp add: digit_loop.simps)
  next
    case False
    then have pos: "0 < unat u" by (simp add: unat_gt_0)
    have base: "base \<noteq> 0" using Suc.prems by auto
    define q where "q = (of_nat (unat u div unat base) :: u64)"
    have q: "unat q = unat u div unat base"
      unfolding q_def using unat_u64_div_less [of u] by (intro unat_of_nat_less) simp
    have m: "unat (of_nat (unat u mod unat base) :: u32) = unat u mod unat base"
    proof (rule unat_of_nat_less)
      have "unat u mod unat base < unat base" using Suc.prems by simp
      with unat_u32_less [of base] show "unat u mod unat base < 2 ^ LENGTH(32)"
        by (simp del: mod_less_divisor)
    qed
    from pos Suc.prems have dl:
      "digit_list (unat base) (unat u) = (unat u mod unat base) # digit_list (unat base) (unat q)"
      by (simp add: digit_list_step q)
    with Suc.prems have "length (digit_list (unat base) (unat q)) \<le> room" by simp
    from Suc.IH [OF Suc.prems(1) this] have
      "digit_loop e digits base room q (tmp @ [digits ! (unat u mod unat base)]) =
       Some (tmp @ [digits ! (unat u mod unat base)] @ map ((!) digits) (digit_list (unat base) (unat q)))"
      by simp
    with False show ?thesis
      by (subst digit_loop.simps)
        (simp add: divmod64_unat [OF base] m dl flip: q_def)
  qed
qed

section \<open>Flag tests\<close>

lemma has_push_bit [simp]: "has flags (push_bit k 1) \<longleftrightarrow> bit flags k"
proof
  assume "has flags (push_bit k 1)"
  then obtain n where "bit (flags AND push_bit k 1) n"
    by (auto simp: has_def bit_eq_iff)
  then show "bit flags k" by (auto simp: bit_simps)
next
  assume b: "bit flags k"
  then have "bit (flags AND push_bit k 1) k"
    using bit_imp_le_length [OF b] by (simp add: bit_simps)
  then show "has flags (push_bit k 1)"
    unfolding has_def by (metis bit_0_eq bot_apply bot_bool_def)
qed

lemma has_LEFT: "has f LEFT \<longleftrightarrow> bit f 0" unfolding LEFT_def by (rule has_push_bit)
lemma has_PLUS: "has f PLUS \<longleftrightarrow> bit f 1" unfolding PLUS_def by (rule has_push_bit)
lemma has_SPACE: "has f SPACE \<longleftrightarrow> bit f 2" unfolding SPACE_def by (rule has_push_bit)
lemma has_ALTERNATE: "has f ALTERNATE \<longleftrightarrow> bit f 3" unfolding ALTERNATE_def by (rule has_push_bit)
lemma has_ZERO: "has f ZERO \<longleftrightarrow> bit f 4" unfolding ZERO_def by (rule has_push_bit)
lemma has_UPPER: "has f UPPER \<longleftrightarrow> bit f 5" unfolding UPPER_def by (rule has_push_bit)
lemma has_SIGNED: "has f SIGNED \<longleftrightarrow> bit f 6" unfolding SIGNED_def by (rule has_push_bit)
lemma has_LF_TO_CRLF: "has f LF_TO_CRLF \<longleftrightarrow> bit f 7"
  unfolding LF_TO_CRLF_def by (rule has_push_bit)

lemmas has_flags = has_LEFT has_PLUS has_SPACE has_ALTERNATE has_ZERO has_UPPER has_SIGNED
  has_LF_TO_CRLF

lemma bit_push_bit_1_u32: "k < 32 \<Longrightarrow> bit (push_bit k 1 :: u32) n \<longleftrightarrow> n = k"
  unfolding bit_push_bit_iff by (auto simp: bit_1_iff)

lemma bit_ZERO: "bit ZERO n \<longleftrightarrow> n = 4"
  unfolding ZERO_def by (rule bit_push_bit_1_u32) simp

lemma bit_LEFT: "bit LEFT n \<longleftrightarrow> n = 0"
  unfolding LEFT_def by (rule bit_push_bit_1_u32) simp

lemma bit_SIGNED: "bit SIGNED n \<longleftrightarrow> n = 6"
  unfolding SIGNED_def by (rule bit_push_bit_1_u32) simp

lemma no_left_zero: "flags AND (LEFT OR ZERO) = 0 \<longleftrightarrow> \<not> has flags LEFT \<and> \<not> has flags ZERO"
proof
  assume "flags AND (LEFT OR ZERO) = 0"
  then have *: "\<not> bit (flags AND (LEFT OR ZERO)) n" for n by simp
  from * [of 0] * [of 4] show "\<not> has flags LEFT \<and> \<not> has flags ZERO"
    by (auto simp: has_flags bit_and_iff bit_or_iff bit_LEFT bit_ZERO)
next
  assume no: "\<not> has flags LEFT \<and> \<not> has flags ZERO"
  show "flags AND (LEFT OR ZERO) = 0"
  proof (rule bit_word_eqI)
    fix n
    show "bit (flags AND (LEFT OR ZERO)) n = bit 0 n"
      using no by (cases "n = 0"; cases "n = 4")
        (auto simp: has_flags bit_and_iff bit_or_iff bit_LEFT bit_ZERO)
  qed
qed

lemma bit_and_not_ZERO: "bit (flags AND NOT ZERO) k \<longleftrightarrow> bit flags k \<and> k \<noteq> 4"
  by (auto simp: bit_simps bit_ZERO dest: bit_imp_le_length)

section \<open>The reference text of a number\<close>

definition digit_chars :: "u32 \<Rightarrow> string" where
  "digit_chars flags = (if has flags UPPER then upper_digits else lower_digits)"

definition sign_text :: "u64 \<Rightarrow> u32 \<Rightarrow> string" where
  "sign_text val flags =
     (if \<not> has flags SIGNED then []
      else if sint val < 0 then ''-''
      else if has flags PLUS then ''+''
      else if has flags SPACE then '' '' else [])"

definition magnitude :: "u64 \<Rightarrow> u32 \<Rightarrow> nat" where
  "magnitude val flags = (if has flags SIGNED then nat \<bar>sint val\<bar> else unat val)"

definition alternate_text :: "u32 \<Rightarrow> u32 \<Rightarrow> string" where
  "alternate_text base flags =
     (if \<not> has flags ALTERNATE then [] else if base = 16 then ''0x'' else if base = 8 then ''0'' else [])"

definition number_text :: "nat \<Rightarrow> u32 \<Rightarrow> nat \<Rightarrow> string" where
  "number_text base flags n =
     (if n = 0 then ''0'' else map ((!) (digit_chars flags)) (rev (digit_list base n)))"

definition number_digits :: "u64 \<Rightarrow> u32 \<Rightarrow> u32 \<Rightarrow> string" where
  "number_digits val base flags = number_text (unat base) flags (magnitude val flags)"

text \<open>The digits, zero-extended on the left to the precision.\<close>

definition number_body :: "u64 \<Rightarrow> u32 \<Rightarrow> int \<Rightarrow> u32 \<Rightarrow> string" where
  "number_body val base precision flags =
     replicate (nat precision - length (number_digits val base flags)) (CHR ''0'')
     @ number_digits val base flags"

text \<open>What is left of the field width.\<close>

definition number_pad :: "u64 \<Rightarrow> u32 \<Rightarrow> int \<Rightarrow> int \<Rightarrow> u32 \<Rightarrow> int" where
  "number_pad val base width precision flags =
     width - int (length (sign_text val flags)) - int (length (alternate_text base flags))
       - max (int (length (number_digits val base flags))) precision"

definition number_spec :: "u64 \<Rightarrow> u32 \<Rightarrow> int \<Rightarrow> int \<Rightarrow> u32 \<Rightarrow> string" where
  "number_spec val base width precision flags =
     (let front = sign_text val flags @ alternate_text base flags;
          body = number_body val base precision flags;
          pad = nat (number_pad val base width precision flags)
      in if has flags LEFT then front @ body @ replicate pad (CHR '' '')
         else if has flags ZERO \<and> precision = -1 then front @ replicate pad (CHR ''0'') @ body
         else replicate pad (CHR '' '') @ front @ body)"

text \<open>The arguments for which no \<open>int\<close> computation of \<open>fmt_number\<close> overflows.\<close>

definition number_args_ok :: "u64 \<Rightarrow> int \<Rightarrow> int \<Rightarrow> u32 \<Rightarrow> bool" where
  "number_args_ok val width precision flags \<longleftrightarrow>
     -1 \<le> width \<and> width \<le> INT_MAX \<and> -1 \<le> precision \<and> precision \<le> INT_MAX - 8 \<and>
     (has flags SIGNED \<longrightarrow> sint val \<noteq> - (2 ^ 63))"

lemma INT_limits: "INT_MAX = 2147483647" "INT_MIN = -2147483648"
  by (simp_all add: INT_MAX_def INT_MIN_def)

lemma sint_u64_cases:
  "sint (v :: u64) = (if unat v < 2 ^ 63 then int (unat v) else int (unat v) - 2 ^ 64)"
proof -
  define n where "n = unat v"
  have eq: "sint v = (int n + 2 ^ 63) mod 2 ^ 64 - 2 ^ 63"
    by (simp add: n_def sint_uint signed_take_bit_eq_take_bit_shift take_bit_eq_mod)
  have b: "n < 2 ^ 64" using unat_u64_less [of v] by (simp add: n_def)
  show ?thesis
  proof (cases "n < 2 ^ 63")
    case True
    then have "int n + 2 ^ 63 < 2 ^ 64" by simp
    then have "(int n + 2 ^ 63) mod 2 ^ 64 = int n + 2 ^ 63"
      by (intro mod_pos_pos_trivial) auto
    with True eq show ?thesis by (simp flip: n_def)
  next
    case False
    have "(int n + 2 ^ 63) mod 2 ^ 64 = (int n + 2 ^ 63 - 2 ^ 64) mod 2 ^ 64"
      by (metis minus_mod_self2)
    also have "\<dots> = int n + 2 ^ 63 - 2 ^ 64"
      using False b by (intro mod_pos_pos_trivial) auto
    finally show ?thesis using False eq by (simp flip: n_def)
  qed
qed

lemma unat_neg_u64:
  assumes "unat (v :: u64) \<noteq> 0"
  shows "unat (- v) = 2 ^ 64 - unat v"
proof -
  have "(of_nat (2 ^ 64 - unat v) :: u64) = of_nat (2 ^ 64) - of_nat (unat v)"
    using unat_u64_less [of v] by (intro of_nat_diff) simp
  then have "- v = of_nat (2 ^ 64 - unat v)" by simp
  moreover have "unat (of_nat (2 ^ 64 - unat v) :: u64) = 2 ^ 64 - unat v"
    using assms by (intro unat_of_nat_less) simp
  ultimately show ?thesis by simp
qed

lemma magnitude_eq:
  assumes "has flags SIGNED \<longrightarrow> sint val \<noteq> - (2 ^ 63)"
  shows "magnitude val flags =
    unat (if has flags SIGNED \<and> sint val < 0 then - val else val)"
proof -
  define n where "n = unat val"
  have b: "n < 2 ^ 64" using unat_u64_less [of val] by (simp add: n_def)
  have si: "sint val = (if n < 2 ^ 63 then int n else int n - 2 ^ 64)"
    unfolding n_def by (rule sint_u64_cases)
  show ?thesis
  proof (cases "has flags SIGNED \<and> sint val < 0")
    case True
    then have "n \<noteq> 0" using si by (auto split: if_splits)
    then have "unat (- val) = 2 ^ 64 - n" unfolding n_def by (rule unat_neg_u64)
    with True b si show ?thesis by (auto simp: magnitude_def nat_diff_distrib split: if_splits)
  next
    case False
    with si b show ?thesis by (auto simp: magnitude_def split: if_splits simp flip: n_def)
  qed
qed

lemma sign_prefix_eq:
  assumes "number_args_ok val width precision flags"
  shows "sign_prefix val width flags =
    Some ((case sign_text val flags of [] \<Rightarrow> None | c # _ \<Rightarrow> Some c),
          (if has flags SIGNED \<and> sint val < 0 then - val else val),
          width - int (length (sign_text val flags)))"
  using assms by (auto simp: sign_prefix_def sign_text_def number_args_ok_def c_int_def INT_limits)

lemma alternate_width_eq:
  assumes "-2 \<le> width" "width \<le> INT_MAX"
  shows "alternate_width base width flags =
    Some (width - int (length (alternate_text base flags)))"
  using assms by (auto simp: alternate_width_def alternate_text_def c_int_def INT_limits)

lemma length_sign_text: "length (sign_text val flags) \<le> 1"
  by (simp add: sign_text_def)

lemma length_alternate_text: "length (alternate_text base flags) \<le> 2"
  by (simp add: alternate_text_def)

lemma length_number_text: "8 \<le> b \<Longrightarrow> length (number_text b flags (unat (u :: u64))) \<le> 22"
  using length_digit_list_u64 [of b u] by (simp add: number_text_def)

lemma put_sign_text:
  "(case (case sign_text val flags of [] \<Rightarrow> None | c # _ \<Rightarrow> Some c) of
      None \<Rightarrow> o1 | Some c \<Rightarrow> PUT c o1) = puts (sign_text val flags) o1"
  by (simp add: sign_text_def PUT_puts)

lemma put_alternate_text: "put_alternate base flags o1 = puts (alternate_text base flags) o1"
  by (simp add: put_alternate_eq alternate_text_def)

text \<open>Clearing \<open>ZERO\<close> changes no other test.\<close>

lemma clear_ZERO:
  "has (flags AND NOT ZERO) SIGNED = has flags SIGNED"
  "has (flags AND NOT ZERO) LEFT = has flags LEFT"
  "\<not> has (flags AND NOT ZERO) ZERO"
  "sign_text val (flags AND NOT ZERO) = sign_text val flags"
  "alternate_text base (flags AND NOT ZERO) = alternate_text base flags"
  by (simp_all add: has_flags bit_and_not_ZERO sign_text_def alternate_text_def)

lemma tmp_digits:
  assumes "base = 8 \<or> base = 10 \<or> base = 16" "has flags SIGNED \<longrightarrow> sint val \<noteq> - (2 ^ 63)"
  shows "(if val = 0 then Some ''0''
          else digit_loop e (digit_chars flags) base 24
                 (if has flags SIGNED \<and> sint val < 0 then - val else val) []) =
    Some (rev (number_text (unat base) flags (magnitude val flags)))"
proof -
  let ?u = "if has flags SIGNED \<and> sint val < 0 then - val else val"
  have b: "8 \<le> unat base" using assms(1) by auto
  have "length (digit_list (unat base) (unat ?u)) \<le> 24"
    using length_digit_list_u64 [OF b, of ?u] by linarith
  from digit_loop_eq [OF b this, of e "digit_chars flags" "[]"] magnitude_eq [OF assms(2)]
  show ?thesis by (auto simp: number_text_def unat_eq_0 rev_map)
qed

lemma pad_while_ok:
  "w - 1 \<le> INT_MAX \<Longrightarrow> INT_MIN \<le> min w b - 1 \<Longrightarrow>
   pad_while c b w o1 = Some (min w b - 1, puts (replicate (nat (w - b)) c) o1)"
  by (simp add: pad_while_eq)

lemma length_number_digits:
  assumes "base = 8 \<or> base = 10 \<or> base = 16" "has flags SIGNED \<longrightarrow> sint val \<noteq> - (2 ^ 63)"
  shows "length (number_digits val base flags) \<le> 22"
  using length_number_text [of "unat base" flags
      "if has flags SIGNED \<and> sint val < 0 then - val else val"] assms(1)
  unfolding number_digits_def magnitude_eq [OF assms(2)] by auto

lemma number_pad_range:
  assumes "base = 8 \<or> base = 10 \<or> base = 16" "number_args_ok val width precision flags"
  shows "INT_MIN + 2 \<le> number_pad val base width precision flags"
    "number_pad val base width precision flags \<le> INT_MAX"
  using assms length_sign_text [of val flags] length_alternate_text [of base flags]
    length_number_digits [of base flags val]
  by (auto simp: number_pad_def number_args_ok_def INT_limits max_def)

lemma put_digits:
  assumes "base = 8 \<or> base = 10 \<or> base = 16" "number_args_ok val width precision flags"
  defines "ds \<equiv> number_digits val base flags"
  shows "(do {
      (_, o1) \<leftarrow> pad_while (CHR ''0'') (int (length ds)) (max (int (length ds)) precision) o2;
      pad_while ch 0 w (put_back (rev ds) (length ds) o1) \<bind> g }) =
    pad_while ch 0 w (puts (number_body val base precision flags) o2) \<bind> g"
proof -
  have l: "length ds \<le> 22"
    using assms by (simp add: number_args_ok_def length_number_digits)
  have "nat (max (int (length ds)) precision - int (length ds)) = nat precision - length ds"
    by (auto simp: max_def)
  then have "pad_while (CHR ''0'') (int (length ds)) (max (int (length ds)) precision) o2 =
      Some (int (length ds) - 1, puts (replicate (nat precision - length ds) (CHR ''0'')) o2)"
    using l assms(2) by (subst pad_while_ok) (auto simp: number_args_ok_def INT_limits)
  then show ?thesis
    using put_back_eq [of "length ds" "rev ds"]
    by (simp add: number_body_def flip: ds_def)
qed

text \<open>\<open>fmt_number\<close> with its computations done: what is left are the three padding loops.\<close>

lemma fmt_number_body:
  assumes base: "base = 8 \<or> base = 10 \<or> base = 16"
    and ok: "number_args_ok val width precision flags"
  defines "fl \<equiv> (if has flags LEFT \<or> precision \<noteq> -1 then flags AND NOT ZERO else flags)"
  shows "fmt_number e o1 val base width precision flags =
     do {
       (w, o1) \<leftarrow> (if \<not> has fl LEFT \<and> \<not> has fl ZERO
                   then pad_while (CHR '' '') 0 (number_pad val base width precision flags) o1
                   else Some (number_pad val base width precision flags, o1));
       (w, o1) \<leftarrow> (if has fl ZERO
                   then pad_while (CHR ''0'') 0 w
                          (puts (alternate_text base flags) (puts (sign_text val flags) o1))
                   else Some (w, puts (alternate_text base flags) (puts (sign_text val flags) o1)));
       (_, o1) \<leftarrow> pad_while (CHR '' '') 0 w (puts (number_body val base precision flags) o1);
       Some o1
     }"
proof -
  have fl: "has fl SIGNED = has flags SIGNED" "sign_text val fl = sign_text val flags"
      "alternate_text base fl = alternate_text base flags"
    by (auto simp: fl_def clear_ZERO)
  have "number_args_ok val width precision fl"
    using ok by (simp add: number_args_ok_def fl)
  note sp = sign_prefix_eq [OF this, unfolded fl]
  have aw: "alternate_width base (width - int (length (sign_text val flags))) fl =
      Some (width - int (length (sign_text val flags)) - int (length (alternate_text base flags)))"
    using ok length_sign_text [of val flags]
    by (subst alternate_width_eq) (auto simp: fl number_args_ok_def INT_limits)
  have td: "(if val = 0 then Some ''0''
      else digit_loop e (digit_chars flags) base 24
             (if has flags SIGNED \<and> sint val < 0 then - val else val) []) =
      Some (rev (number_digits val base flags))"
    using tmp_digits [OF base, of flags val e] ok by (simp add: number_args_ok_def number_digits_def)
  have mx: "(if i > precision then i else precision) = max i precision" for i :: int
    by (simp add: max_def)
  have c: "c_int (number_pad val base width precision flags) =
      Some (number_pad val base width precision flags)"
    using number_pad_range [OF base ok] by (auto simp: c_int_def INT_limits)
  show ?thesis
    unfolding fmt_number_def Let_def fl_def [symmetric] digit_chars_def [symmetric]
    by (simp only: base simp_thms if_False sp bind.bind_lunit prod.case aw td
        put_sign_text fl put_alternate_text no_left_zero length_rev mx
        number_pad_def [symmetric] c put_digits [OF base ok])
qed

text \<open>
  \<open>fmt_number\<close> writes what the printf conventions ask for: for every base, width, precision and
  flags that keep the C arithmetic defined, the digits, sign, prefix and padding that it stores
  one character at a time are those of the declarative description number_spec, truncated at the
  end of the buffer like any output.
\<close>

lemma fmt_number_text:
  assumes base: "base = 8 \<or> base = 10 \<or> base = 16"
    and ok: "number_args_ok val width precision flags"
  shows "fmt_number e o1 val base width precision flags =
    Some (puts (number_spec val base width precision flags) o1)"
proof -
  define w where "w = number_pad val base width precision flags"
  define body where "body = number_body val base precision flags"
  have rng: "INT_MIN + 2 \<le> w" "w \<le> INT_MAX"
    unfolding w_def by (rule number_pad_range [OF base ok])+
  have pad: "pad_while ch 0 w o2 = Some (min w 0 - 1, puts (replicate (nat w) ch) o2)" for ch o2
    using rng by (subst pad_while_ok) (auto simp: INT_limits)
  have pad_end: "pad_while ch 0 (min w 0 - 1) o2 = Some (min w 0 - 2, o2)" for ch o2
    using rng by (subst pad_while_ok) (auto simp: INT_limits)
  show ?thesis
    unfolding fmt_number_body [OF base ok] number_spec_def Let_def w_def [symmetric]
      body_def [symmetric]
    by (cases "has flags LEFT"; cases "has flags ZERO"; cases "precision = -1")
      (simp_all add: clear_ZERO pad pad_end)
qed

lemma fmt_number_sample:
  "fmt_number HVM64 \<lparr>mem = replicate 8 NUL, str = 0, lim = 8\<rparr> 255 16 6 (-1) ALTERNATE =
     Some (puts (number_spec 255 16 6 (-1) ALTERNATE) \<lparr>mem = replicate 8 NUL, str = 0, lim = 8\<rparr>)
   \<and> number_spec 255 16 6 (-1) ALTERNATE = ''  0xff''"
proof
  show "number_spec 255 16 6 (-1) ALTERNATE = ''  0xff''" by code_simp
  show "fmt_number HVM64 \<lparr>mem = replicate 8 NUL, str = 0, lim = 8\<rparr> 255 16 6 (-1) ALTERNATE =
     Some (puts (number_spec 255 16 6 (-1) ALTERNATE) \<lparr>mem = replicate 8 NUL, str = 0, lim = 8\<rparr>)"
    by (rule fmt_number_text) (code_simp+)
qed

end
