(* ===== verification/Heapsort.thy ===== *)
theory Heapsort imports
  Prelude
begin

text \<open>
  \<open>common/heapsort.c\<close>: sorting through a base pointer, an element size in bytes, and two callbacks.
  The memory is a value of any type; \<open>compar\<close> and \<open>swap\<close> take the byte offsets from \<open>base\<close> of the
  two elements. The loops of the C code need not end, so they are partial functions and \<open>None\<close>
  is a run that never returns. The locale \<open>sortable\<close> states what the code relies on: the callbacks
  compare and exchange the elements of an array. Under it the sort ends, sorts, and permutes.
\<close>

section \<open>The code\<close>

type_synonym 'm compar_fn = "int \<Rightarrow> int \<Rightarrow> 'm \<Rightarrow> int"
type_synonym 'm swap_fn = "int \<Rightarrow> int \<Rightarrow> 'm \<Rightarrow> 'm"

text \<open>The loop of \<open>siftdown\<close>, from \<open>root\<close>.\<close>

partial_function (option) siftdown ::
  "'m compar_fn \<Rightarrow> 'm swap_fn \<Rightarrow> int \<Rightarrow> int \<Rightarrow> int \<Rightarrow> 'm \<Rightarrow> 'm option" where
  "siftdown compar swap sz root stop m =
     (if root * 2 + sz < stop then
        let child0 = root * 2 + sz;
            child = (if child0 + sz < stop \<and> compar child0 (child0 + sz) m < 0
                     then child0 + sz else child0)
        in if compar root child m \<ge> 0 then Some m
           else siftdown compar swap sz child stop (swap root child m)
      else Some m)"

text \<open>The first loop of \<open>heapsort\<close>, from \<open>idx\<close> downwards.\<close>

partial_function (option) heapify_from ::
  "'m compar_fn \<Rightarrow> 'm swap_fn \<Rightarrow> int \<Rightarrow> int \<Rightarrow> int \<Rightarrow> 'm \<Rightarrow> 'm option" where
  "heapify_from compar swap sz tot idx m =
     (if idx \<ge> 0 then
        Option.bind (siftdown compar swap sz idx tot m)
          (\<lambda>m1. heapify_from compar swap sz tot (idx - sz) m1)
      else Some m)"

text \<open>The second loop.\<close>

partial_function (option) extract_from ::
  "'m compar_fn \<Rightarrow> 'm swap_fn \<Rightarrow> int \<Rightarrow> int \<Rightarrow> 'm \<Rightarrow> 'm option" where
  "extract_from compar swap sz idx m =
     (if idx > 0 then
        Option.bind (siftdown compar swap sz 0 idx (swap 0 idx m))
          (\<lambda>m1. extract_from compar swap sz (idx - sz) m1)
      else Some m)"

text \<open>
  With \<open>nmemb < 2\<close> the unsigned \<open>nmemb/2 - 1\<close> wraps, and times \<open>size\<close> it is \<open>-size\<close> as a \<open>long\<close>.
\<close>

definition heapsort :: "nat \<Rightarrow> int \<Rightarrow> 'm compar_fn \<Rightarrow> 'm swap_fn \<Rightarrow> 'm \<Rightarrow> 'm option" where
  "heapsort nmemb sz compar swap m =
     (let tot = sz * int nmemb in
      Option.bind (heapify_from compar swap sz tot ((int (nmemb div 2) - 1) * sz) m)
        (\<lambda>m1. extract_from compar swap sz (tot - sz) m1))"

section \<open>The same algorithm on a list of elements\<close>

text \<open>\<open>key\<close> is what the comparison compares; \<open>n\<close> is the size of the heap.\<close>

definition exchange :: "nat \<Rightarrow> nat \<Rightarrow> 'a list \<Rightarrow> 'a list" where
  "exchange i j xs = xs[i := xs ! j, j := xs ! i]"

definition larger_child :: "('a \<Rightarrow> 'k::linorder) \<Rightarrow> nat \<Rightarrow> nat \<Rightarrow> 'a list \<Rightarrow> nat" where
  "larger_child key n r xs =
     (if 2 * r + 2 < n \<and> key (xs ! (2 * r + 1)) < key (xs ! (2 * r + 2)) then 2 * r + 2 else 2 * r + 1)"

lemma larger_child_bounds:
  "2 * r + 1 < n \<Longrightarrow> r < larger_child key n r xs \<and> larger_child key n r xs < n"
  by (auto simp: larger_child_def)

function sift :: "('a \<Rightarrow> 'k::linorder) \<Rightarrow> nat \<Rightarrow> nat \<Rightarrow> 'a list \<Rightarrow> 'a list" where
  "sift key n r xs =
     (if 2 * r + 1 < n then
        let c = larger_child key n r xs in
        if key (xs ! c) \<le> key (xs ! r) then xs else sift key n c (exchange r c xs)
      else xs)"
  by pat_completeness auto
termination
  by (relation "measure (\<lambda>(key, n, r, xs). n - r)")
    (auto simp: larger_child_bounds intro!: diff_less_mono2)

declare sift.simps [simp del]

fun heapify :: "('a \<Rightarrow> 'k::linorder) \<Rightarrow> nat \<Rightarrow> nat \<Rightarrow> 'a list \<Rightarrow> 'a list" where
  "heapify key n 0 xs = xs"
| "heapify key n (Suc i) xs = heapify key n i (sift key n i xs)"

fun extract_max :: "('a \<Rightarrow> 'k::linorder) \<Rightarrow> nat \<Rightarrow> 'a list \<Rightarrow> 'a list" where
  "extract_max key 0 xs = xs"
| "extract_max key (Suc n) xs = extract_max key n (sift key (Suc n) 0 (exchange 0 (Suc n) xs))"

definition heap_sort :: "('a \<Rightarrow> 'k::linorder) \<Rightarrow> 'a list \<Rightarrow> 'a list" where
  "heap_sort key xs = extract_max key (length xs - 1) (heapify key (length xs) (length xs div 2) xs)"

section \<open>It sorts\<close>

lemma length_exchange [simp]: "length (exchange i j xs) = length xs"
  by (simp add: exchange_def)

lemma nth_exchange:
  "i < length xs \<Longrightarrow> j < length xs \<Longrightarrow>
   exchange i j xs ! k = (if k = j then xs ! i else if k = i then xs ! j else xs ! k)"
  by (auto simp: exchange_def nth_list_update)

lemma mset_exchange [simp]:
  "i < length xs \<Longrightarrow> j < length xs \<Longrightarrow> mset (exchange i j xs) = mset xs"
  by (simp add: exchange_def mset_swap)

lemma drop_exchange: "i < n \<Longrightarrow> j < n \<Longrightarrow> drop n (exchange i j xs) = drop n xs"
  by (simp add: exchange_def)

text \<open>\<open>heap lo n xs\<close>: from index \<open>lo\<close> on, no parent below \<open>n\<close> has a larger child.\<close>

definition child_of :: "nat \<Rightarrow> nat \<Rightarrow> bool" where
  "child_of c i \<longleftrightarrow> c = 2 * i + 1 \<or> c = 2 * i + 2"

definition heap :: "('a \<Rightarrow> 'k::linorder) \<Rightarrow> nat \<Rightarrow> nat \<Rightarrow> 'a list \<Rightarrow> bool" where
  "heap key lo n xs \<longleftrightarrow> (\<forall>i c. lo \<le> i \<longrightarrow> child_of c i \<longrightarrow> c < n \<longrightarrow> key (xs ! c) \<le> key (xs ! i))"

text \<open>A heap but for the element at \<open>r\<close>, whose children are at most its parent.\<close>

definition almost_heap :: "('a \<Rightarrow> 'k::linorder) \<Rightarrow> nat \<Rightarrow> nat \<Rightarrow> nat \<Rightarrow> 'a list \<Rightarrow> bool" where
  "almost_heap key lo r n xs \<longleftrightarrow>
     (\<forall>i c. lo \<le> i \<longrightarrow> i \<noteq> r \<longrightarrow> child_of c i \<longrightarrow> c < n \<longrightarrow> key (xs ! c) \<le> key (xs ! i)) \<and>
     (\<forall>p c. lo \<le> p \<longrightarrow> child_of r p \<longrightarrow> child_of c r \<longrightarrow> c < n \<longrightarrow> key (xs ! c) \<le> key (xs ! p))"

lemma larger_child_ge:
  "2 * r + 1 < n \<Longrightarrow> child_of c r \<Longrightarrow> c < n \<Longrightarrow> key (xs ! c) \<le> key (xs ! larger_child key n r xs)"
  by (auto simp: child_of_def larger_child_def not_less)

lemma larger_child_child: "child_of (larger_child key n r xs) r"
  by (simp add: child_of_def larger_child_def)

lemma child_of_unique: "child_of c i \<Longrightarrow> child_of c j \<Longrightarrow> i = j"
  unfolding child_of_def by arith

lemma child_of_less: "child_of c i \<Longrightarrow> i < c"
  by (auto simp: child_of_def)

lemma almost_heap_step:
  assumes "almost_heap key lo r n xs" "lo \<le> r" "n \<le> length xs" "2 * r + 1 < n"
    and c: "c = larger_child key n r xs" and lt: "key (xs ! r) < key (xs ! c)"
  shows "almost_heap key lo c n (exchange r c xs)"
proof -
  have bounds: "r < c" "c < n" "c < length xs" "r < length xs" and cc: "child_of c r"
    using larger_child_bounds [of r n key xs] larger_child_child [of key n r xs] assms by auto
  have nth: "exchange r c xs ! k = (if k = c then xs ! r else if k = r then xs ! c else xs ! k)" for k
    using bounds by (simp add: nth_exchange)
  have "key (exchange r c xs ! d) \<le> key (exchange r c xs ! i)"
    if i: "lo \<le> i" "i \<noteq> c" "child_of d i" "d < n" for i d
  proof (cases "i = r")
    case True
    then show ?thesis
      using larger_child_ge [of r n d key xs] i lt assms(4) child_of_less [of d i] nth
      by (auto simp: c [symmetric])
  next
    case False
    show ?thesis
    proof (cases "d = r")
      case True
      have "key (xs ! c) \<le> key (xs ! i)"
        using assms(1) i cc bounds True by (auto simp: almost_heap_def)
      then show ?thesis using True False i bounds by (simp add: nth)
    next
      case dr: False
      have "d \<noteq> c" using child_of_unique [OF cc] i False by blast
      then show ?thesis
        using dr i False assms(1) by (auto simp: nth almost_heap_def)
    qed
  qed
  moreover have "key (exchange r c xs ! d) \<le> key (exchange r c xs ! p)"
    if "lo \<le> p" "child_of c p" "child_of d c" "d < n" for p d
  proof -
    have "p = r" using child_of_unique [OF cc] that by blast
    moreover have "d \<noteq> c" "d \<noteq> r" using that child_of_less bounds by fastforce+
    moreover have "key (xs ! d) \<le> key (xs ! c)"
      using assms(1,2) that bounds child_of_less [of d c] by (auto simp: almost_heap_def)
    ultimately show ?thesis by (simp add: nth)
  qed
  ultimately show ?thesis by (auto simp: almost_heap_def)
qed

lemma almost_heap_done:
  assumes "almost_heap key lo r n xs"
    and "\<And>c. child_of c r \<Longrightarrow> c < n \<Longrightarrow> key (xs ! c) \<le> key (xs ! r)"
  shows "heap key lo n xs"
  using assms unfolding heap_def almost_heap_def by metis

lemma length_sift [simp]: "length (sift key n r xs) = length xs"
  by (induction key n r xs rule: sift.induct) (subst sift.simps, simp add: Let_def)

lemma sift_perm:
  assumes "n \<le> length xs"
  shows "mset (sift key n r xs) = mset xs \<and> drop n (sift key n r xs) = drop n xs"
  using assms
proof (induction key n r xs rule: sift.induct)
  case (1 key n r xs)
  show ?case
  proof (cases "2 * r + 1 < n \<and> \<not> key (xs ! larger_child key n r xs) \<le> key (xs ! r)")
    case True
    then have b: "r < larger_child key n r xs" "larger_child key n r xs < n"
      using larger_child_bounds by blast+
    let ?ys = "exchange r (larger_child key n r xs) xs"
    have "mset (sift key n (larger_child key n r xs) ?ys) = mset ?ys
        \<and> drop n (sift key n (larger_child key n r xs) ?ys) = drop n ?ys"
      using True 1 by simp
    moreover have "mset ?ys = mset xs" "drop n ?ys = drop n xs"
      using b 1(2) by (auto intro: drop_exchange)
    ultimately show ?thesis
      using True by (subst (1 2) sift.simps) (simp add: Let_def)
  next
    case False
    then show ?thesis by (subst (1 2) sift.simps) (auto simp: Let_def)
  qed
qed

lemma sift_heap:
  assumes "almost_heap key lo r n xs" "lo \<le> r" "n \<le> length xs"
  shows "heap key lo n (sift key n r xs)"
  using assms
proof (induction key n r xs rule: sift.induct)
  case (1 key n r xs)
  let ?c = "larger_child key n r xs"
  consider (leaf) "\<not> 2 * r + 1 < n" | (stay) "2 * r + 1 < n" "key (xs ! ?c) \<le> key (xs ! r)"
    | (down) "2 * r + 1 < n" "key (xs ! r) < key (xs ! ?c)"
    by fastforce
  then show ?case
  proof cases
    case leaf
    have "heap key lo n xs"
      using leaf by (intro almost_heap_done [OF 1(2)]) (auto simp: child_of_def)
    then show ?thesis using leaf by (subst sift.simps) simp
  next
    case stay
    have "heap key lo n xs"
      using stay larger_child_ge [of r n _ key xs]
      by (intro almost_heap_done [OF 1(2)]) (blast intro: order_trans)
    then show ?thesis using stay by (subst sift.simps) (simp add: Let_def)
  next
    case down
    have "heap key lo n (sift key n ?c (exchange r ?c xs))"
      using down 1 almost_heap_step [OF 1(2,3,4) down(1) refl down(2)]
        larger_child_bounds [of r n key xs] by (intro 1(1)) auto
    then show ?thesis using down by (subst sift.simps) (auto simp: Let_def)
  qed
qed

lemma heapify_perm: "n \<le> length xs \<Longrightarrow> mset (heapify key n i xs) = mset xs \<and> length (heapify key n i xs) = length xs"
  by (induction i arbitrary: xs) (auto simp: sift_perm)

lemma heap_almost: "heap key (Suc i) n xs \<Longrightarrow> almost_heap key i i n xs"
  unfolding heap_def almost_heap_def by (auto dest: child_of_less)

lemma heapify_heap:
  "heap key i n xs \<Longrightarrow> n \<le> length xs \<Longrightarrow> heap key 0 n (heapify key n i xs)"
  by (induction i arbitrary: xs) (simp_all add: sift_heap heap_almost)

lemma heap_half: "heap key (n div 2) n xs"
  by (auto simp: heap_def child_of_def)

lemma heap_root:
  "heap key 0 n xs \<Longrightarrow> i < n \<Longrightarrow> key (xs ! i) \<le> key (xs ! 0)"
proof (induction i rule: less_induct)
  case (less i)
  show ?case
  proof (cases "i = 0")
    case False
    let ?p = "(i - 1) div 2"
    have "child_of i ?p" "?p < i" using False unfolding child_of_def by arith+
    then have "key (xs ! i) \<le> key (xs ! ?p)" "key (xs ! ?p) \<le> key (xs ! 0)"
      using less by (auto simp: heap_def)
    then show ?thesis by (rule order_trans)
  qed simp
qed

lemma heap_extract:
  assumes "heap key 0 (Suc n) xs" "Suc n \<le> length xs" "0 < n"
  shows "almost_heap key 0 0 n (exchange 0 n xs)"
proof -
  have nth: "exchange 0 n xs ! k = (if k = n then xs ! 0 else if k = 0 then xs ! n else xs ! k)" for k
    using assms by (intro nth_exchange) linarith+
  show ?thesis
    using assms unfolding almost_heap_def heap_def by (auto simp: nth child_of_def)
qed

text \<open>The invariant of the second loop, with \<open>Suc n\<close> elements left in the heap.\<close>

definition extract_inv :: "('a \<Rightarrow> 'k::linorder) \<Rightarrow> nat \<Rightarrow> 'a list \<Rightarrow> bool" where
  "extract_inv key n xs \<longleftrightarrow>
     n < length xs \<and> heap key 0 (Suc n) xs \<and> sorted (map key (drop (Suc n) xs)) \<and>
     (\<forall>x \<in> set (take (Suc n) xs). \<forall>y \<in> set (drop (Suc n) xs). key x \<le> key y)"

lemma sift_take: "n \<le> length xs \<Longrightarrow> set (take n (sift key n r xs)) = set (take n xs)"
proof -
  assume n: "n \<le> length xs"
  let ?ys = "sift key n r xs"
  have "mset (take n ?ys) + mset (drop n ?ys) = mset (take n xs) + mset (drop n xs)"
    using sift_perm [OF n, of key r] by (metis append_take_drop_id mset_append)
  then have "mset (take n ?ys) = mset (take n xs)"
    using sift_perm [OF n, of key r] by simp
  then show ?thesis by (rule mset_eq_setD)
qed

lemma take_exchange:
  "n < length xs \<Longrightarrow> set (take n (exchange 0 n xs)) \<subseteq> set (take (Suc n) xs)"
proof
  fix x
  assume n: "n < length xs" and "x \<in> set (take n (exchange 0 n xs))"
  then obtain i where i: "i < n" "x = exchange 0 n xs ! i"
    by (auto simp: in_set_conv_nth)
  moreover have "exchange 0 n xs ! i = (if i = n then xs ! 0 else if i = 0 then xs ! n else xs ! i)"
    using n by (intro nth_exchange) linarith+
  ultimately have "x = xs ! (if i = 0 then n else i)" by simp
  moreover have "(if i = 0 then n else i) < Suc n" using i by simp
  ultimately show "x \<in> set (take (Suc n) xs)"
    using n by (auto simp: in_set_conv_nth simp del: take_Suc intro!: exI [of _ "if i = 0 then n else i"])
qed

lemma extract_inv_step:
  assumes "extract_inv key (Suc n) xs"
  shows "extract_inv key n (sift key (Suc n) 0 (exchange 0 (Suc n) xs))"
proof -
  let ?ys = "exchange 0 (Suc n) xs"
  let ?zs = "sift key (Suc n) 0 ?ys"
  have len: "Suc n < length xs" and heap: "heap key 0 (Suc (Suc n)) xs"
    and sorted: "sorted (map key (drop (Suc (Suc n)) xs))"
    and below: "\<And>x y. x \<in> set (take (Suc (Suc n)) xs) \<Longrightarrow> y \<in> set (drop (Suc (Suc n)) xs) \<Longrightarrow> key x \<le> key y"
    using assms by (auto simp: extract_inv_def)
  have h: "heap key 0 (Suc n) ?zs"
    using len by (intro sift_heap heap_extract [OF heap]) auto
  have "drop (Suc n) ?ys = (xs ! 0) # drop (Suc (Suc n)) xs"
  proof -
    have "drop (Suc n) ?ys = (?ys ! Suc n) # drop (Suc (Suc n)) ?ys"
      using len by (simp add: Cons_nth_drop_Suc)
    moreover have "?ys ! Suc n = xs ! 0"
      using len by (subst nth_exchange) auto
    moreover have "drop (Suc (Suc n)) ?ys = drop (Suc (Suc n)) xs"
      by (rule drop_exchange) auto
    ultimately show ?thesis by simp
  qed
  moreover have "drop (Suc n) ?zs = drop (Suc n) ?ys"
    using sift_perm [of "Suc n" ?ys key 0] len by simp
  ultimately have drop: "drop (Suc n) ?zs = (xs ! 0) # drop (Suc (Suc n)) xs" by simp
  have x0: "xs ! 0 \<in> set (take (Suc (Suc n)) xs)"
    using len by (auto simp: in_set_conv_nth intro!: exI [of _ 0])
  have take: "set (take (Suc n) ?zs) \<subseteq> set (take (Suc (Suc n)) xs)"
    using sift_take [of "Suc n" ?ys key 0] take_exchange [of "Suc n" xs] len by simp
  have root: "key x \<le> key (xs ! 0)" if "x \<in> set (take (Suc (Suc n)) xs)" for x
    using that heap_root [OF heap] len by (auto simp: in_set_conv_nth)
  show ?thesis
    unfolding extract_inv_def drop
    using h len sorted below root take x0 by auto
qed

lemma extract_perm:
  "n < length xs \<Longrightarrow> mset (extract_max key n xs) = mset xs \<and> length (extract_max key n xs) = length xs"
proof (induction n arbitrary: xs)
  case (Suc n)
  moreover from Suc.prems have "mset (exchange 0 (Suc n) xs) = mset xs"
    by (intro mset_exchange) linarith+
  ultimately show ?case by (simp add: sift_perm)
qed simp

lemma extract_sorted:
  "extract_inv key n xs \<Longrightarrow> sorted (map key (extract_max key n xs))"
proof (induction n arbitrary: xs)
  case 0
  then obtain x ys where "xs = x # ys" by (cases xs) (auto simp: extract_inv_def)
  with 0 show ?case by (auto simp: extract_inv_def)
next
  case (Suc n)
  then show ?case by (simp add: extract_inv_step)
qed

theorem heap_sort_sorts:
  "sorted (map key (heap_sort key xs)) \<and> mset (heap_sort key xs) = mset xs"
proof (cases "xs = []")
  case True
  then show ?thesis by (simp add: heap_sort_def)
next
  case False
  let ?ys = "heapify key (length xs) (length xs div 2) xs"
  have len: "length ?ys = length xs" and perm: "mset ?ys = mset xs"
    using heapify_perm [of "length xs" xs] by auto
  have "extract_inv key (length xs - 1) ?ys"
    using False heapify_heap [OF heap_half, of "length xs" xs key] len
    by (simp add: extract_inv_def)
  then show ?thesis
    using extract_sorted extract_perm [of "length xs - 1" ?ys key] False perm len
    by (auto simp: heap_sort_def)
qed

section \<open>The interface of the callbacks\<close>

locale sortable =
  fixes compar :: "'m compar_fn" and swap :: "'m swap_fn" and sz :: int
    and elems :: "'m \<Rightarrow> 'a list" and key :: "'a \<Rightarrow> 'k::linorder" and ok :: "'m \<Rightarrow> bool"
  assumes sz_pos: "0 < sz"
    and compar_less: "ok m \<Longrightarrow> i < length (elems m) \<Longrightarrow> j < length (elems m) \<Longrightarrow>
      (compar (int i * sz) (int j * sz) m < 0) = (key (elems m ! i) < key (elems m ! j))"
    and elems_swap: "ok m \<Longrightarrow> i < length (elems m) \<Longrightarrow> j < length (elems m) \<Longrightarrow>
      elems (swap (int i * sz) (int j * sz) m) = exchange i j (elems m)"
    and ok_swap: "ok m \<Longrightarrow> i < length (elems m) \<Longrightarrow> j < length (elems m) \<Longrightarrow>
      ok (swap (int i * sz) (int j * sz) m)"
begin

lemma offset_less: "int i * sz < int j * sz \<longleftrightarrow> i < j"
  using sz_pos by simp

lemma child_offset: "int r * sz * 2 + sz = int (2 * r + 1) * sz"
  by (simp add: algebra_simps)

lemma next_offset: "int r * sz + sz = int (Suc r) * sz"
  by (simp add: algebra_simps)

lemma siftdown_sift:
  assumes "n \<le> length (elems m)" "ok m"
  shows "\<exists>m1. siftdown compar swap sz (int r * sz) (int n * sz) m = Some m1
            \<and> elems m1 = sift key n r (elems m) \<and> ok m1"
  using assms
proof (induction "n - r" arbitrary: r m rule: less_induct)
  case less
  let ?xs = "elems m"
  let ?c = "larger_child key n r ?xs"
  show ?case
  proof (cases "2 * r + 1 < n")
    case False
    then have "\<not> int (2 * r + 1) * sz < int n * sz" by (subst offset_less)
    then show ?thesis
      using False by (subst siftdown.simps, subst sift.simps) (simp add: child_offset less.prems)
  next
    case True
    have c: "r < ?c" "?c < n" using larger_child_bounds [OF True] by blast+
    have lt: "int (2 * r + 1) * sz < int n * sz" using True by (simp only: offset_less)
    have child: "(if int (2 * r + 1) * sz + sz < int n * sz
          \<and> compar (int (2 * r + 1) * sz) (int (2 * r + 1) * sz + sz) m < 0
        then int (2 * r + 1) * sz + sz else int (2 * r + 1) * sz) = int ?c * sz"
      using less.prems True compar_less [of m "2 * r + 1" "Suc (2 * r + 1)"]
      unfolding next_offset offset_less larger_child_def
      by (auto simp del: of_nat_Suc of_nat_add of_nat_mult)
    have cmp: "compar (int r * sz) (int ?c * sz) m \<ge> 0 \<longleftrightarrow> key (?xs ! ?c) \<le> key (?xs ! r)"
      using compar_less [of m r ?c] c less.prems by (simp add: not_less [symmetric])
    have unfold: "siftdown compar swap sz (int r * sz) (int n * sz) m =
        (if key (?xs ! ?c) \<le> key (?xs ! r) then Some m
         else siftdown compar swap sz (int ?c * sz) (int n * sz) (swap (int r * sz) (int ?c * sz) m))"
      by (subst siftdown.simps) (simp only: child_offset lt if_True Let_def child cmp)
    show ?thesis
    proof (cases "key (?xs ! ?c) \<le> key (?xs ! r)")
      case stay: True
      then show ?thesis
        using True less.prems by (subst unfold, subst sift.simps) (simp add: Let_def)
    next
      case False
      let ?m = "swap (int r * sz) (int ?c * sz) m"
      have e: "elems ?m = exchange r ?c ?xs"
        using c less.prems by (intro elems_swap) simp_all
      have k: "ok ?m" using c less.prems by (intro ok_swap) simp_all
      obtain m1 where "siftdown compar swap sz (int ?c * sz) (int n * sz) ?m = Some m1"
          "elems m1 = sift key n ?c (elems ?m)" "ok m1"
        using less.hyps [OF diff_less_mono2 [OF c(1) order_less_trans [OF c]], of ?m] less.prems e k
        by auto
      then show ?thesis
        using False True by (subst unfold, subst sift.simps) (simp add: Let_def e)
    qed
  qed
qed

lemma heapify_from_heapify:
  assumes "n \<le> length (elems m)" "ok m"
  shows "\<exists>m1. heapify_from compar swap sz (int n * sz) (int i * sz - sz) m = Some m1
            \<and> elems m1 = heapify key n i (elems m) \<and> ok m1"
  using assms
proof (induction i arbitrary: m)
  case 0
  then show ?case using sz_pos by (subst heapify_from.simps) simp
next
  case (Suc i)
  obtain m1 where m1: "siftdown compar swap sz (int i * sz) (int n * sz) m = Some m1"
      "elems m1 = sift key n i (elems m)" "ok m1"
    using siftdown_sift Suc.prems by blast
  moreover obtain m2 where "heapify_from compar swap sz (int n * sz) (int i * sz - sz) m1 = Some m2"
      "elems m2 = heapify key n i (elems m1)" "ok m2"
    using Suc.IH [of m1] Suc.prems m1 by auto
  moreover have "int (Suc i) * sz - sz = int i * sz" "int i * sz \<ge> 0"
    using sz_pos by (simp_all add: algebra_simps)
  ultimately show ?case
    by (subst heapify_from.simps) (simp del: of_nat_Suc)
qed

lemma extract_from_extract:
  assumes "n < length (elems m)" "ok m"
  shows "\<exists>m1. extract_from compar swap sz (int n * sz) m = Some m1
            \<and> elems m1 = extract_max key n (elems m) \<and> ok m1"
  using assms
proof (induction n arbitrary: m)
  case 0
  then show ?case by (subst extract_from.simps) simp
next
  case (Suc n)
  let ?m = "swap 0 (int (Suc n) * sz) m"
  have e: "elems ?m = exchange 0 (Suc n) (elems m)"
    using elems_swap [of m 0 "Suc n"] Suc.prems by (cases "elems m") (simp_all del: of_nat_Suc)
  have k: "ok ?m"
    using ok_swap [of m 0 "Suc n"] Suc.prems by (cases "elems m") (simp_all del: of_nat_Suc)
  obtain m1 where m1: "siftdown compar swap sz 0 (int (Suc n) * sz) ?m = Some m1"
      "elems m1 = sift key (Suc n) 0 (elems ?m)" "ok m1"
    using siftdown_sift [of "Suc n" ?m 0] Suc.prems e k by auto
  moreover obtain m2 where "extract_from compar swap sz (int n * sz) m1 = Some m2"
      "elems m2 = extract_max key n (elems m1)" "ok m2"
    using Suc.IH [of m1] Suc.prems m1 e by auto
  moreover have "int (Suc n) * sz - sz = int n * sz" by (simp add: algebra_simps)
  moreover have "int (Suc n) * sz > 0" using sz_pos by (intro mult_pos_pos) simp_all
  ultimately show ?case
    using e by (subst extract_from.simps) (simp del: of_nat_Suc)
qed

lemma heapsort_heap_sort:
  assumes "ok m"
  shows "\<exists>m1. heapsort (length (elems m)) sz compar swap m = Some m1 \<and> elems m1 = heap_sort key (elems m) \<and> ok m1"
proof -
  let ?n = "length (elems m)"
  have idx: "(int (?n div 2) - 1) * sz = int (?n div 2) * sz - sz" by (simp add: algebra_simps)
  obtain m1 where m1: "heapify_from compar swap sz (int ?n * sz) (int (?n div 2) * sz - sz) m = Some m1"
      "elems m1 = heapify key ?n (?n div 2) (elems m)" "ok m1"
    using heapify_from_heapify [of ?n m "?n div 2"] assms by auto
  then have len: "length (elems m1) = ?n" using heapify_perm by auto
  show ?thesis
  proof (cases "?n = 0")
    case True
    then show ?thesis
      using m1 sz_pos by (simp add: heapsort_def heap_sort_def idx mult.commute extract_from.simps)
  next
    case False
    then have tot: "sz * int ?n - sz = int (?n - 1) * sz"
      by (cases ?n) (simp_all add: algebra_simps)
    obtain m2 where "extract_from compar swap sz (int (?n - 1) * sz) m1 = Some m2"
        "elems m2 = extract_max key (?n - 1) (elems m1)" "ok m2"
      using extract_from_extract [of "?n - 1" m1] len False m1 by auto
    then show ?thesis
      using m1 unfolding heapsort_def Let_def idx tot
      by (auto simp: heap_sort_def mult.commute [of sz])
  qed
qed

lemma heapsort_correct:
  assumes "ok m"
  shows "\<exists>m1. heapsort (length (elems m)) sz compar swap m = Some m1
      \<and> sorted (map key (elems m1)) \<and> mset (elems m1) = mset (elems m)"
  using heapsort_heap_sort [OF assms] heap_sort_sorts by metis

end

section \<open>A size of zero\<close>

text \<open>With \<open>size == 0\<close> the index of the first loop never becomes negative.\<close>

lemma heapify_from_zero_aux:
  assumes "heapify_from compar swap sz tot idx m = Some y"
  shows "sz = 0 \<longrightarrow> idx < 0"
proof (rule heapify_from.raw_induct
    [where P = "\<lambda>compar swap sz tot idx m y. sz = 0 \<longrightarrow> idx < 0", OF _ assms])
  fix rec compar swap sz tot idx m y
  assume rec: "\<And>compar swap sz tot idx m y.
      rec compar swap sz tot idx m = Some y \<Longrightarrow> sz = 0 \<longrightarrow> idx < (0 :: int)"
    and step: "(if 0 \<le> idx then Option.bind (siftdown compar swap sz idx tot m)
        (rec compar swap sz tot (idx - sz)) else Some m) = Some y"
  show "sz = 0 \<longrightarrow> idx < 0"
  proof (intro impI, rule ccontr)
    assume sz: "sz = 0" and "\<not> idx < 0"
    then obtain m1 where "rec compar swap sz tot (idx - sz) m1 = Some y"
      using step by (auto split: bind_splits)
    then have "idx - sz < 0" using rec sz by blast
    then show False using \<open>\<not> idx < 0\<close> sz by simp
  qed
qed

text \<open>
  heapsort with an element size of 0 and at least two elements never returns: the index of the
  first loop is 0 and stays 0.
\<close>

lemma heapsort_zero_size:
  assumes "2 \<le> nmemb"
  shows "heapsort nmemb 0 compar swap m = None"
proof -
  have "heapify_from compar swap 0 0 0 m = None"
    using heapify_from_zero_aux [of compar swap 0 0 0 m] by (cases "heapify_from compar swap 0 0 0 m") auto
  then show ?thesis by (simp add: heapsort_def)
qed

end
