(* ===== verification/Extable.thy ===== *)
theory Extable imports
  Heapsort
begin

text \<open>
  \<open>common/extable.c\<close>: the exception table, sorted once by \<open>sort_extable()\<close> and searched by bisection
  on every exception. A pointer into the table is an index; a read outside the table is \<open>None\<close>.
  \<open>sort_extable\<close> is \<open>heapsort\<close> on the table, by an interpretation of \<open>sortable\<close>.
\<close>

section \<open>The table\<close>

text \<open>\<open>struct extable_entry\<close>; \<open>handler\<close> is \<open>None\<close> for a null pointer.\<close>

record 'h extable_entry =
  fault :: u64
  fixup :: u64
  handler :: "'h option"

text \<open>\<open>mid->fault\<close> for the entry \<open>mid\<close> places from \<open>__start_ex_table\<close>.\<close>

definition entry_at :: "'h extable_entry list \<Rightarrow> int \<Rightarrow> 'h extable_entry option" where
  "entry_at tbl i = (if 0 \<le> i \<and> i < int (length tbl) then Some (tbl ! nat i) else None)"

text \<open>
  The loop of \<open>search_extable\<close>: the entry found, \<open>Some None\<close> for the null pointer that is returned
  when there is none, \<open>None\<close> when it reads outside the table.
\<close>

function search_from ::
  "'h extable_entry list \<Rightarrow> u64 \<Rightarrow> int \<Rightarrow> int \<Rightarrow> 'h extable_entry option option" where
  "search_from tbl addr start stop =
     (if start \<le> stop then
        let mid = start + (stop - start) div 2 in
        Option.bind (entry_at tbl mid) (\<lambda>ex.
          if addr = fault ex then Some (Some ex)
          else if addr > fault ex then search_from tbl addr (mid + 1) stop
          else search_from tbl addr start (mid - 1))
      else Some None)"
  by pat_completeness auto
termination
  by (relation "measure (\<lambda>(tbl, addr, start, stop). nat (stop - start + 1))")
    (auto simp: pos_imp_zdiv_nonneg_iff)

declare search_from.simps [simp del]

definition search_extable :: "'h extable_entry list \<Rightarrow> u64 \<Rightarrow> 'h extable_entry option option" where
  "search_extable tbl addr = search_from tbl addr 0 (int (length tbl))"

section \<open>Sorting it\<close>

text \<open>\<open>sizeof(struct extable_entry)\<close>: three pointers.\<close>

definition sizeof_extable_entry :: "env \<Rightarrow> int" where
  "sizeof_extable_entry e = (if CONFIG_64BIT e then 24 else 12)"

definition compare_extable_entry :: "'h extable_entry \<Rightarrow> 'h extable_entry \<Rightarrow> int" where
  "compare_extable_entry l r =
     (if fault l = fault r then 0 else if fault l > fault r then 1 else - 1)"

text \<open>The entry at a byte offset from the start of the table.\<close>

definition at_offset :: "int \<Rightarrow> int \<Rightarrow> nat" where
  "at_offset sz off = nat (off div sz)"

definition compar_offsets :: "int \<Rightarrow> 'h extable_entry list compar_fn" where
  "compar_offsets sz l r tbl =
     compare_extable_entry (tbl ! at_offset sz l) (tbl ! at_offset sz r)"

definition swap_extable_entry :: "int \<Rightarrow> 'h extable_entry list swap_fn" where
  "swap_extable_entry sz l r tbl =
     (let i = at_offset sz l; j = at_offset sz r; tmp = tbl ! i
      in tbl[i := tbl ! j, j := tmp])"

definition sort_extable :: "env \<Rightarrow> 'h extable_entry list \<Rightarrow> 'h extable_entry list option" where
  "sort_extable e tbl =
     (let sz = sizeof_extable_entry e in
      heapsort (length tbl) sz (compar_offsets sz) (swap_extable_entry sz) tbl)"

lemma at_offset_mult: "0 < sz \<Longrightarrow> at_offset sz (int i * sz) = i"
  by (simp add: at_offset_def)

lemma sizeof_extable_entry_pos: "0 < sizeof_extable_entry e"
  by (simp add: sizeof_extable_entry_def)

lemma sortable_entries:
  assumes "0 < sz"
  shows "sortable (compar_offsets sz) (swap_extable_entry sz) sz id fault (\<lambda>_. True)"
proof
  show "0 < sz" by fact
qed (use assms in \<open>auto simp: compar_offsets_def swap_extable_entry_def compare_extable_entry_def
       at_offset_mult exchange_def Let_def\<close>)

interpretation ex64: sortable "compar_offsets 24" "swap_extable_entry 24" 24 id fault "\<lambda>_. True"
  by (rule sortable_entries) simp

interpretation ex32: sortable "compar_offsets 12" "swap_extable_entry 12" 12 id fault "\<lambda>_. True"
  by (rule sortable_entries) simp

lemma sort_extable_sorts:
  "\<exists>tbl1. sort_extable e tbl = Some tbl1 \<and> sorted (map fault tbl1) \<and> mset tbl1 = mset tbl"
  using ex64.heapsort_correct [of tbl] ex32.heapsort_correct [of tbl]
  by (simp add: sort_extable_def sizeof_extable_entry_def)

section \<open>Searching it\<close>

lemma entry_at_nth [simp]: "i < length tbl \<Longrightarrow> entry_at tbl (int i) = Some (tbl ! i)"
  by (simp add: entry_at_def)

lemma sorted_fault_nth:
  "sorted (map fault tbl) \<Longrightarrow> i \<le> j \<Longrightarrow> j < length tbl \<Longrightarrow> fault (tbl ! i) \<le> fault (tbl ! j)"
  using sorted_nth_mono [of "map fault tbl" i j] by simp

text \<open>
  The invariant of the bisection: entries below \<open>start\<close> are smaller than \<open>addr\<close>, entries above
  \<open>stop\<close> are larger.
\<close>

definition bisect_inv :: "'h extable_entry list \<Rightarrow> u64 \<Rightarrow> int \<Rightarrow> int \<Rightarrow> bool" where
  "bisect_inv tbl addr start stop \<longleftrightarrow>
     0 \<le> start \<and> start \<le> int (length tbl) \<and> stop \<le> int (length tbl) \<and>
     (\<forall>i < length tbl. int i < start \<longrightarrow> fault (tbl ! i) < addr) \<and>
     (\<forall>i < length tbl. stop < int i \<longrightarrow> addr < fault (tbl ! i))"

text \<open>What a search in a sorted table returns when it stays inside the table.\<close>

definition search_result :: "'h extable_entry list \<Rightarrow> u64 \<Rightarrow> 'h extable_entry option \<Rightarrow> bool" where
  "search_result tbl addr r \<longleftrightarrow>
     (case r of Some ex \<Rightarrow> ex \<in> set tbl \<and> fault ex = addr
      | None \<Rightarrow> (\<forall>ex \<in> set tbl. fault ex \<noteq> addr))"

lemma search_from_correct:
  assumes "sorted (map fault tbl)" "bisect_inv tbl addr start stop"
    and "\<exists>ex \<in> set tbl. addr \<le> fault ex"
  shows "\<exists>r. search_from tbl addr start stop = Some r \<and> search_result tbl addr r"
  using assms
proof (induction tbl addr start stop rule: search_from.induct)
  case (1 tbl addr start stop)
  define mid where "mid = start + (stop - start) div 2"
  show ?case
  proof (cases "start \<le> stop")
    case False
    have "fault ex \<noteq> addr" if ex: "ex \<in> set tbl" for ex
    proof -
      obtain i where "i < length tbl" "ex = tbl ! i" using ex by (auto simp: in_set_conv_nth)
      moreover have "int i < start \<or> stop < int i" using False by linarith
      ultimately show ?thesis using 1(4) by (auto simp: bisect_inv_def)
    qed
    then show ?thesis
      using False by (subst search_from.simps) (auto simp: search_result_def)
  next
    case True
    have mid: "start \<le> mid" "mid \<le> stop" using True by (auto simp: mid_def)
    obtain k where k: "k < length tbl" "addr \<le> fault (tbl ! k)"
      using 1(5) by (auto simp: in_set_conv_nth)
    have "mid < int (length tbl)"
    proof (rule ccontr)
      assume "\<not> ?thesis"
      then have "start = int (length tbl)"
        using mid 1(4) by (auto simp: mid_def bisect_inv_def)
      then show False using k 1(4) by (auto simp: bisect_inv_def not_less [symmetric])
    qed
    then obtain m where m: "mid = int m" "m < length tbl"
      using mid 1(4) by (metis bisect_inv_def nat_0_le of_nat_less_iff order_trans)
    have step: "search_from tbl addr start stop =
        (if addr = fault (tbl ! m) then Some (Some (tbl ! m))
         else if addr > fault (tbl ! m) then search_from tbl addr (mid + 1) stop
         else search_from tbl addr start (mid - 1))"
      using True m by (subst search_from.simps) (simp add: mid_def [symmetric])
    consider (eq) "addr = fault (tbl ! m)" | (gt) "addr > fault (tbl ! m)" | (lt) "addr < fault (tbl ! m)"
      by (rule linorder_cases)
    then show ?thesis
    proof cases
      case eq
      then show ?thesis using m step by (auto simp: search_result_def)
    next
      case gt
      have "bisect_inv tbl addr (mid + 1) stop"
        using 1(4) gt m sorted_fault_nth [OF 1(3), of _ m]
        by (auto simp: bisect_inv_def intro: le_less_trans)
      then show ?thesis
        using gt step 1(1) [OF True mid_def, of "tbl ! m"] 1(3,5) m by auto
    next
      case lt
      have "bisect_inv tbl addr start (mid - 1)"
        using 1(4) lt m sorted_fault_nth [OF 1(3), of m]
        by (auto simp: bisect_inv_def intro: less_le_trans)
      then show ?thesis
        using lt step 1(2) [OF True mid_def, of "tbl ! m"] 1(3,5) m by auto
    qed
  qed
qed

lemma search_from_outside:
  assumes "\<forall>ex \<in> set tbl. fault ex < addr" "0 \<le> start" "start \<le> int (length tbl)"
    "stop = int (length tbl)"
  shows "search_from tbl addr start stop = None"
  using assms
proof (induction tbl addr start stop rule: search_from.induct)
  case (1 tbl addr start stop)
  define mid where "mid = start + (stop - start) div 2"
  have le: "start \<le> stop" and mid: "start \<le> mid" "mid \<le> stop"
    using 1(4-6) by (auto simp: mid_def)
  show ?case
  proof (cases "mid < int (length tbl)")
    case False
    then show ?thesis
      using le by (subst search_from.simps) (simp add: mid_def [symmetric] entry_at_def)
  next
    case True
    then obtain m where m: "mid = int m" "m < length tbl"
      using mid 1(4) by (metis nat_0_le of_nat_less_iff order_trans)
    then have gt: "fault (tbl ! m) < addr" "addr \<noteq> fault (tbl ! m)" using 1(3) by force+
    then have "search_from tbl addr start stop = search_from tbl addr (mid + 1) stop"
      using le m by (subst search_from.simps) (auto simp: mid_def [symmetric] Let_def)
    also have "\<dots> = None"
      using 1(1) [OF le mid_def, of "tbl ! m"] gt m 1(3,4,6) mid True by auto
    finally show ?thesis .
  qed
qed

lemma bisect_inv_start: "bisect_inv tbl addr 0 (int (length tbl))"
  by (auto simp: bisect_inv_def)

lemma search_extable_inside:
  "sorted (map fault tbl) \<Longrightarrow> \<exists>ex \<in> set tbl. addr \<le> fault ex \<Longrightarrow>
   \<exists>r. search_extable tbl addr = Some r \<and> search_result tbl addr r"
  unfolding search_extable_def by (rule search_from_correct [OF _ bisect_inv_start])

lemma search_extable_outside:
  "\<forall>ex \<in> set tbl. fault ex < addr \<Longrightarrow> search_extable tbl addr = None"
  unfolding search_extable_def by (rule search_from_outside) auto

section \<open>Sorting, then searching\<close>

lemma find_fault:
  "distinct (map fault tbl) \<Longrightarrow> ex \<in> set tbl \<Longrightarrow> find (\<lambda>x. fault x = fault ex) tbl = Some ex"
  by (induction tbl) auto

text \<open>
  C4: sort_extable followed by search_extable is a look-up of the fault address. With distinct
  fault addresses, sorting ends with the same entries in another order, and a search returns the
  entry of that address, or nothing when there is none, for every address up to the largest fault
  address; for a larger address, or with an empty table, the inclusive bisection reads one entry
  past the end of the table.
\<close>

theorem sorted_table_search:
  assumes "distinct (map fault tbl)"
  shows "\<exists>tbl1. sort_extable e tbl = Some tbl1 \<and> mset tbl1 = mset tbl \<and>
     (\<forall>addr. search_extable tbl1 addr =
        (if \<exists>ex \<in> set tbl. addr \<le> fault ex then Some (find (\<lambda>ex. fault ex = addr) tbl) else None))"
proof -
  obtain tbl1 where tbl1: "sort_extable e tbl = Some tbl1" "sorted (map fault tbl1)" "mset tbl1 = mset tbl"
    using sort_extable_sorts by blast
  have same: "set tbl1 = set tbl" using tbl1(3) by (metis mset_eq_setD)
  have "search_extable tbl1 addr = Some (find (\<lambda>ex. fault ex = addr) tbl)" if le: "\<exists>ex \<in> set tbl. addr \<le> fault ex" for addr
  proof -
    obtain r where r: "search_extable tbl1 addr = Some r" "search_result tbl1 addr r"
      using search_extable_inside [OF tbl1(2)] le [folded same] by blast
    have "r = find (\<lambda>ex. fault ex = addr) tbl"
    proof (cases r)
      case None
      have "find (\<lambda>ex. fault ex = addr) tbl = None"
        using r(2) None same by (simp add: search_result_def find_None_iff)
      then show ?thesis using None by simp
    next
      case (Some ex)
      then show ?thesis using r(2) same find_fault [OF assms, of ex] by (auto simp: search_result_def)
    qed
    then show ?thesis using r by simp
  qed
  moreover have "search_extable tbl1 addr = None" if "\<not> (\<exists>ex \<in> set tbl. addr \<le> fault ex)" for addr
    using that same by (intro search_extable_outside) (auto simp: not_le)
  ultimately show ?thesis using tbl1 by auto
qed

theorem sorted_table_search_witness:
  "\<exists>tbl1. sort_extable HVM64 [\<lparr>fault = 9, fixup = 1, handler = None :: unit option\<rparr>, \<lparr>fault = 4, fixup = 2, handler = None\<rparr>] = Some tbl1
     \<and> search_extable tbl1 4 = Some (Some \<lparr>fault = 4, fixup = 2, handler = None\<rparr>)
     \<and> search_extable tbl1 5 = Some None \<and> search_extable tbl1 10 = None"
proof -
  let ?tbl = "[\<lparr>fault = 9, fixup = 1, handler = None :: unit option\<rparr>, \<lparr>fault = 4, fixup = 2, handler = None\<rparr>]"
  have "distinct (map fault ?tbl)" by simp
  from sorted_table_search [OF this, of HVM64] obtain tbl1 where
    "sort_extable HVM64 ?tbl = Some tbl1"
    "\<And>addr. search_extable tbl1 addr =
        (if \<exists>ex \<in> set ?tbl. addr \<le> fault ex then Some (find (\<lambda>ex. fault ex = addr) ?tbl) else None)"
    by blast
  then show ?thesis by simp
qed

end
