(* ===== verification/X86_Decode.thy ===== *)
theory X86_Decode imports
  Framework
  Fmt_Number
  Extable
begin

text \<open>
  Exceptions as data: \<open>arch/x86/include/arch/exinfo.h\<close>, the decoding to text of \<open>arch/x86/decode.c\<close>
  with the hook for \<open>%pe\<close>, the saved registers of \<open>arch/x86/include/arch/regs.h\<close>, the table handlers
  of \<open>arch/x86/extable.c\<close> and the guarded MSR accesses of \<open>arch/x86/include/arch/msr.h\<close>.
\<close>

section \<open>exinfo\<close>

definition EXINFO :: "u32 \<Rightarrow> u32 \<Rightarrow> u32" where
  "EXINFO vec ec = push_bit 31 1 OR push_bit 16 (vec AND 0xff) OR (ec AND 0xffff)"

definition exinfo_vec :: "u32 \<Rightarrow> u32" where
  "exinfo_vec info = drop_bit 16 info AND 0xff"

definition exinfo_ec :: "u32 \<Rightarrow> u32" where
  "exinfo_ec info = info AND 0xffff"

lemma exinfo_masks: "(0xff :: u32) = mask 8" "(0xffff :: u32) = mask 16"
  by (simp_all add: mask_eq_exp_minus_1)

lemma bit_EXINFO:
  "bit (EXINFO vec ec) n \<longleftrightarrow>
     n = 31 \<or> (16 \<le> n \<and> n < 24 \<and> bit vec (n - 16)) \<or> (n < 16 \<and> bit ec n)"
proof -
  have 31: "bit (push_bit 31 1 :: u32) n \<longleftrightarrow> n = 31" by (rule bit_push_bit_1_u32) simp
  show ?thesis
    unfolding EXINFO_def exinfo_masks bit_or_iff 31 by (auto simp: bit_simps)
qed

lemma exinfo_vec_EXINFO: "exinfo_vec (EXINFO vec ec) = vec AND 0xff"
proof (rule bit_word_eqI)
  fix n assume "n < LENGTH(32)"
  then show "bit (exinfo_vec (EXINFO vec ec)) n = bit (vec AND 0xff) n"
    unfolding exinfo_vec_def exinfo_masks by (auto simp: bit_simps bit_EXINFO)
qed

lemma exinfo_ec_EXINFO: "exinfo_ec (EXINFO vec ec) = ec AND 0xffff"
proof (rule bit_word_eqI)
  fix n assume "n < LENGTH(32)"
  then show "bit (exinfo_ec (EXINFO vec ec)) n = bit (ec AND 0xffff) n"
    unfolding exinfo_ec_def exinfo_masks by (auto simp: bit_simps bit_EXINFO)
qed

lemma EXINFO_nonzero: "EXINFO vec ec \<noteq> 0"
proof
  assume "EXINFO vec ec = 0"
  then have "\<not> bit (EXINFO vec ec) 31" by simp
  then show False by (simp add: bit_EXINFO)
qed

section \<open>Names\<close>

datatype x86_vendor = X86_VENDOR_UNKNOWN | X86_VENDOR_INTEL | X86_VENDOR_AMD

definition x86_vendor_name :: "x86_vendor \<Rightarrow> string" where
  "x86_vendor_name v =
     (case v of X86_VENDOR_INTEL \<Rightarrow> ''Intel'' | X86_VENDOR_AMD \<Rightarrow> ''AMD'' | _ \<Rightarrow> ''Unknown'')"

definition exc_names :: "string list" where
  "exc_names =
     [''#DE'', ''#DB'', ''#NMI'', ''#BP'', ''#OF'', ''#BR'', ''#UD'', ''#NM'', ''#DF'', ''#CSO'', ''#TS'',
      ''#NP'', ''#SS'', ''#GP'', ''#PF'', ''#SPV'', ''#MF'', ''#AC'', ''#MC'', ''#XM'', ''#VE'']"

definition x86_exc_short_name :: "u32 \<Rightarrow> string" where
  "x86_exc_short_name exc = (if unat exc < length exc_names then exc_names ! unat exc else ''??'')"

text \<open>\<open>X86_EXC_HAVE_EC\<close>: the vectors 8, 10, 11, 12, 13, 14 and 17.\<close>

definition X86_EXC_HAVE_EC :: u32 where
  "X86_EXC_HAVE_EC =
     push_bit 8 1 OR push_bit 10 1 OR push_bit 11 1 OR push_bit 12 1 OR push_bit 13 1
     OR push_bit 14 1 OR push_bit 17 1"

section \<open>Decoding to text\<close>

text \<open>
  The formats here have no \<open>%p\<close>, so the hook of these calls of \<open>snprintf\<close> is never reached. The
  local arrays start with arbitrary contents, which \<open>snprintf\<close> overwrites.
\<close>

definition decode_snprintf :: "env \<Rightarrow> char list \<Rightarrow> nat \<Rightarrow> string \<Rightarrow> varg list \<Rightarrow> (nat \<times> char list) option" where
  "decode_snprintf e buf bufsz fmt args = snprintf weak_arch_fmt_pointer e buf bufsz fmt args"

definition chr_arg :: "char \<Rightarrow> varg" where
  "chr_arg c = VaInt (of_int (schar_of c))"

definition x86_exc_decode_ec :: "env \<Rightarrow> char list \<Rightarrow> nat \<Rightarrow> u32 \<Rightarrow> u32 \<Rightarrow> (nat \<times> char list) option" where
  "x86_exc_decode_ec e buf bufsz ev ec =
     (if ev = 14 then
        decode_snprintf e buf bufsz ''%c%c%c%c%c%c''
          [chr_arg (if bit ec 5 then CHR ''K'' else CHR ''-''),
           chr_arg (if bit ec 4 then CHR ''I'' else CHR ''d''),
           chr_arg (if bit ec 3 then CHR ''R'' else CHR ''-''),
           chr_arg (if bit ec 2 then CHR ''U'' else CHR ''s''),
           chr_arg (if bit ec 1 then CHR ''W'' else CHR ''r''),
           chr_arg (if bit ec 0 then CHR ''P'' else CHR ''-'')]
      else if ev \<in> {10, 11, 12, 13, 17} \<and> ec \<noteq> 0 then
        decode_snprintf e buf bufsz ''%cDT[%u]%s''
          [chr_arg (if bit ec 1 then CHR ''I'' else if bit ec 2 then CHR ''L'' else CHR ''G''),
           VaInt (drop_bit 3 ec),
           VaStr (Some ((if bit ec 0 then '',EXT'' else '''') @ [NUL]))]
      else decode_snprintf e buf bufsz ''%04x'' [VaInt ec])"

definition x86_decode_exinfo :: "env \<Rightarrow> char list \<Rightarrow> nat \<Rightarrow> u32 \<Rightarrow> (nat \<times> char list) option" where
  "x86_decode_exinfo e buf bufsz info =
     (if info = 0 then decode_snprintf e buf bufsz ''nothing'' []
      else
        let vec = exinfo_vec info; ec = exinfo_ec info in
        if ec \<noteq> 0 \<or> (vec < 32 \<and> bit X86_EXC_HAVE_EC (unat vec))
        then do {
          (_, ecstr) \<leftarrow> x86_exc_decode_ec e (replicate 16 NUL) 16 vec ec;
          decode_snprintf e buf bufsz ''%s[%s]''
            [VaStr (Some (x86_exc_short_name vec @ [NUL])), VaStr (Some ecstr)]
        }
        else decode_snprintf e buf bufsz ''%s'' [VaStr (Some (x86_exc_short_name vec @ [NUL]))])"

text \<open>
  The hook: \<open>%pe\<close> shows an \<open>exinfo_t\<close> through a buffer of 16 bytes, and the format pointer advances
  by one. The argument is a pointer whose value is the \<open>exinfo_t\<close>.
\<close>

definition arch_fmt_pointer :: "env \<Rightarrow> fmt_hook" where
  "arch_fmt_pointer e o1 fmt arg width precision flags =
     (if fmt_at fmt 1 = CHR ''e''
      then case arg of
        VaPtr p \<Rightarrow> do {
          (_, buf) \<leftarrow> x86_decode_exinfo e (replicate 16 NUL) 16 (ucast p);
          o1 \<leftarrow> fmt_string o1 (Some buf) width precision flags;
          Some (True, o1, 1)
        }
      | _ \<Rightarrow> None
      else Some (False, o1, 0))"

interpretation x86: fmt_hook_contract "arch_fmt_pointer e" for e
proof
  fix fmt arg width precision flags
  show "\<exists>r. \<forall>o1. arch_fmt_pointer e o1 fmt arg width precision flags =
     map_option (\<lambda>(handled, cs, k). (handled, puts cs o1, k)) r"
  proof (cases "fmt_at fmt 1 = CHR ''e'' \<and> (\<exists>p. arg = VaPtr p)")
    case False
    then show ?thesis
      by (cases "fmt_at fmt 1 = CHR ''e''"; cases arg)
        (auto simp: arch_fmt_pointer_def intro: exI [of _ None] exI [of _ "Some (False, [], 0)"])
  next
    case True
    then obtain p where p: "arg = VaPtr p" and e: "fmt_at fmt 1 = CHR ''e''" by blast
    show ?thesis
    proof (cases "x86_decode_exinfo e (replicate 16 NUL) 16 (ucast p)")
      case None
      then show ?thesis by (intro exI [of _ None]) (simp add: arch_fmt_pointer_def p e del: One_nat_def)
    next
      case (Some r)
      obtain n buf where r: "r = (n, buf)" by (cases r)
      from appends1_fmt_string [of "Some buf" width precision flags] show ?thesis
      proof (cases rule: appends1E)
        case 1
        then show ?thesis
          using Some r by (intro exI [of _ None]) (simp add: arch_fmt_pointer_def p e del: One_nat_def)
      next
        case (2 cs)
        then show ?thesis
          using Some r by (intro exI [of _ "Some (True, cs, 1)"]) (simp add: arch_fmt_pointer_def p e del: One_nat_def)
      qed
    qed
  qed
qed

section \<open>Saved registers and table handlers\<close>

text \<open>\<open>struct cpu_regs\<close>; \<open>r8\<close> to \<open>r15\<close> exist in 64-bit builds, the saved data selectors in 32-bit ones.\<close>

record cpu_regs =
  regs_ax :: u64
  regs_bx :: u64
  regs_cx :: u64
  regs_dx :: u64
  regs_si :: u64
  regs_di :: u64
  regs_bp :: u64
  regs_r8_r15 :: "u64 list"
  regs_ds :: u16
  regs_es :: u16
  entry_vector :: u32
  error_code :: u32
  regs_ip :: u64
  regs_cs :: u16
  regs_flags :: u64
  regs_sp :: u64
  regs_ss :: u16

text \<open>A handler gets the registers and the \<open>fixup\<close> of its entry, all it reads of the entry.\<close>

type_synonym ex_handler = "cpu_regs \<Rightarrow> u64 \<Rightarrow> bool \<times> cpu_regs"

definition ex_record_fault_eax :: ex_handler where
  "ex_record_fault_eax regs fix_ip =
     (True, regs\<lparr>regs_ax := ucast (EXINFO (entry_vector regs) (error_code regs)), regs_ip := fix_ip\<rparr>)"

definition ex_record_fault_edi :: ex_handler where
  "ex_record_fault_edi regs fix_ip =
     (True, regs\<lparr>regs_di := ucast (EXINFO (entry_vector regs) (error_code regs)), regs_ip := fix_ip\<rparr>)"

definition ex_rdmsr_safe :: ex_handler where
  "ex_rdmsr_safe regs fix_ip =
     (True, regs\<lparr>regs_ax := 0, regs_dx := 0, regs_cx := 0xffffffff, regs_ip := fix_ip\<rparr>)"

definition ex_wrmsr_safe :: ex_handler where
  "ex_wrmsr_safe regs fix_ip = (True, regs\<lparr>regs_cx := 0xffffffff, regs_ip := fix_ip\<rparr>)"

section \<open>Guarded MSR accesses\<close>

text \<open>The registers at the guarded instruction; only the operands matter.\<close>

definition msr_regs :: "u32 \<Rightarrow> u64 \<Rightarrow> cpu_regs" where
  "msr_regs idx val =
     \<lparr>regs_ax = take_bit 32 val, regs_bx = 0, regs_cx = ucast idx, regs_dx = drop_bit 32 val,
      regs_si = 0, regs_di = 0, regs_bp = 0, regs_r8_r15 = [], regs_ds = 0, regs_es = 0,
      entry_vector = 13, error_code = 0, regs_ip = 0, regs_cs = 0, regs_flags = 0, regs_sp = 0,
      regs_ss = 0\<rparr>"

text \<open>
  \<open>rdmsr_safe(idx, &val)\<close>: on \<open>#GP\<close> the table entry runs \<open>ex_rdmsr_safe\<close>, and the code decides from
  the new value of \<open>ecx\<close>. The result is whether it faulted, and \<open>val\<close> when it was stored.
\<close>

definition rdmsr_safe :: "u32 \<Rightarrow> ('z machine_scheme, bool \<times> u64 option) prog" where
  "rdmsr_safe idx =
     (\<lambda>h s. let s1 = s\<lparr>trace := trace s @ [Rdmsr idx]\<rparr>;
                regs = (case hw_rdmsr h (trace s) idx of
                          Some v \<Rightarrow> (msr_regs idx v)
                        | None \<Rightarrow> snd (ex_rdmsr_safe (msr_regs idx 0) 0));
                new_idx = ucast (regs_cx regs) :: u32;
                is_fault = (idx \<noteq> new_idx)
            in Done (is_fault, if \<not> is_fault then Some (push_bit 32 (regs_dx regs) OR regs_ax regs) else None) s1)"

definition wrmsr_safe :: "u32 \<Rightarrow> u64 \<Rightarrow> ('z machine_scheme, bool) prog" where
  "wrmsr_safe idx val =
     (\<lambda>h s. let s1 = s\<lparr>trace := trace s @ [Wrmsr idx val]\<rparr>;
                regs = (if hw_wrmsr h (trace s) idx val then msr_regs idx val
                        else snd (ex_wrmsr_safe (msr_regs idx val) 0));
                new_idx = ucast (regs_cx regs) :: u32
            in Done (idx \<noteq> new_idx) s1)"

lemma ucast_u32_u64 [simp]: "ucast (ucast (x :: u32) :: u64) = x"
  by (simp add: ucast_up_ucast_id is_up)

lemma join_edx_eax: "push_bit 32 (drop_bit 32 v) OR take_bit 32 v = (v :: u64)"
proof (rule bit_word_eqI)
  fix n assume "n < LENGTH(64)"
  then show "bit (push_bit 32 (drop_bit 32 v) OR take_bit 32 v) n = bit v n"
    by (auto simp: bit_simps)
qed

lemma rdmsr_safe_run:
  "idx \<noteq> 0xffffffff \<Longrightarrow>
   rdmsr_safe idx h s =
     Done (hw_rdmsr h (trace s) idx = None, hw_rdmsr h (trace s) idx) (s\<lparr>trace := trace s @ [Rdmsr idx]\<rparr>)"
  by (cases "hw_rdmsr h (trace s) idx")
    (simp_all add: rdmsr_safe_def Let_def msr_regs_def ex_rdmsr_safe_def join_edx_eax)

lemma wrmsr_safe_run:
  "idx \<noteq> 0xffffffff \<Longrightarrow>
   wrmsr_safe idx val h s =
     Done (\<not> hw_wrmsr h (trace s) idx val) (s\<lparr>trace := trace s @ [Wrmsr idx val]\<rparr>)"
  by (simp add: wrmsr_safe_def Let_def msr_regs_def ex_wrmsr_safe_def)

lemma rdmsr_safe_misses_fault:
  "hw_rdmsr h (trace s) 0xffffffff = None \<Longrightarrow>
   rdmsr_safe 0xffffffff h s = Done (False, Some 0) (s\<lparr>trace := trace s @ [Rdmsr 0xffffffff]\<rparr>)"
  by (simp add: rdmsr_safe_def Let_def msr_regs_def ex_rdmsr_safe_def)

section \<open>The contract of snprintf\<close>



text \<open>
  The exception information that the test framework passes around in one word keeps its parts:
  exinfo_vec and exinfo_ec read back the vector and the error code that EXINFO was given
  (truncated to their fields), and no EXINFO value is 0, the code for no exception.
\<close>

lemma exinfo_roundtrip:
  "exinfo_vec (EXINFO vec ec) = vec AND 0xff \<and> exinfo_ec (EXINFO vec ec) = ec AND 0xffff \<and> EXINFO vec ec \<noteq> 0"
  by (simp add: exinfo_vec_EXINFO exinfo_ec_EXINFO EXINFO_nonzero)

text \<open>
  \<open>rdmsr_safe\<close> reports a fault of the RDMSR instruction through its exception fixup, for every
  index but one: the fixup marks the fault in the register that holds the index by setting it to
  0xffffffff, so that for this very index a fault and a success cannot be told apart and no fault
  is reported.
\<close>

lemma rdmsr_safe_detects:
  "rdmsr_safe idx h s =
     Done (if idx = 0xffffffff then (False, Some (case hw_rdmsr h (trace s) idx of Some v \<Rightarrow> v | None \<Rightarrow> 0))
           else (hw_rdmsr h (trace s) idx = None, hw_rdmsr h (trace s) idx))
       (s\<lparr>trace := trace s @ [Rdmsr idx]\<rparr>)"
proof (cases "idx = 0xffffffff")
  case False
  then show ?thesis by (simp add: rdmsr_safe_run)
next
  case True
  then show ?thesis
    by (cases "hw_rdmsr h (trace s) 0xffffffff")
      (simp_all add: rdmsr_safe_def Let_def msr_regs_def ex_rdmsr_safe_def join_edx_eax)
qed

end
