(* ===== verification/X86_Cpuid.thy ===== *)
theory X86_Cpuid imports
  Xenstore
  X86_Decode
begin

text \<open>
  What the processor is: the state and \<open>collect_cpuid()\<close> and \<open>find_xen_leaves()\<close> of
  \<open>arch/x86/setup.c\<close>, and the feature tests of \<open>arch/x86/include/arch/cpuid.h\<close>. The two feature
  flags of the framework for tests, \<open>xtf_has_fep\<close> and \<open>test_needs_fep\<close>, are in the same state.
\<close>

section \<open>State\<close>

record cpu = xenstore +
  x86_features :: "u32 list"
  cpu_vendor :: x86_vendor
  max_leaf :: u32
  max_extd_leaf :: u32
  x86_family :: u32
  x86_model :: u32
  x86_stepping :: u32
  maxphysaddr :: u32
  maxvirtaddr :: u32
  xen_leaves :: u32
  xtf_has_fep :: bool
  test_needs_fep :: bool

text \<open>The words of the feature set, from the numbering of \<open>cpufeatureset.h\<close>.\<close>

definition FEATURESET_1d :: nat where [xtf_consts]: "FEATURESET_1d = 0"
definition FEATURESET_1c :: nat where [xtf_consts]: "FEATURESET_1c = 1"
definition FEATURESET_e1d :: nat where [xtf_consts]: "FEATURESET_e1d = 2"
definition FEATURESET_e1c :: nat where [xtf_consts]: "FEATURESET_e1c = 3"
definition FEATURESET_Da1 :: nat where [xtf_consts]: "FEATURESET_Da1 = 4"
definition FEATURESET_7b0 :: nat where [xtf_consts]: "FEATURESET_7b0 = 5"
definition FEATURESET_7c0 :: nat where [xtf_consts]: "FEATURESET_7c0 = 6"
definition FEATURESET_e7d :: nat where [xtf_consts]: "FEATURESET_e7d = 7"
definition FEATURESET_e8b :: nat where [xtf_consts]: "FEATURESET_e8b = 8"
definition FEATURESET_7d0 :: nat where [xtf_consts]: "FEATURESET_7d0 = 9"
definition FSCAPINTS :: nat where [xtf_consts]: "FSCAPINTS = 10"

definition X86_FEATURE_X2APIC :: nat where [xtf_consts]: "X86_FEATURE_X2APIC = 1 * 32 + 21"
definition X86_FEATURE_UMIP :: nat where [xtf_consts]: "X86_FEATURE_UMIP = 6 * 32 + 2"

definition cpu_has :: "nat \<Rightarrow> 'z cpu_scheme \<Rightarrow> bool" where
  "cpu_has feature s \<longleftrightarrow> bit (x86_features s ! (feature div 32)) (feature mod 32)"

definition set_features :: "(nat \<times> u32) list \<Rightarrow> ('z cpu_scheme, unit) prog" where
  "set_features ws =
     update (\<lambda>s. s\<lparr>x86_features := foldl (\<lambda>fs (i, w). fs[i := w]) (x86_features s) ws\<rparr>)"

section \<open>collect_cpuid\<close>

definition vendor_of :: "u32 \<Rightarrow> u32 \<Rightarrow> u32 \<Rightarrow> x86_vendor" where
  "vendor_of ebx ecx edx =
     (if ebx = 0x756e6547 \<and> ecx = 0x6c65746e \<and> edx = 0x49656e69 then X86_VENDOR_INTEL
      else if ebx = 0x68747541 \<and> ecx = 0x444d4163 \<and> edx = 0x69746e65 then X86_VENDOR_AMD
      else X86_VENDOR_UNKNOWN)"

text \<open>Stepping, model and family out of leaf 1's \<open>eax\<close>.\<close>

definition stepping_of :: "u32 \<Rightarrow> u32" where
  "stepping_of eax = drop_bit 0 eax AND 0xf"

definition family_of :: "u32 \<Rightarrow> u32" where
  "family_of eax =
     (let family = drop_bit 8 eax AND 0xf
      in if family = 0xf then family + (drop_bit 20 eax AND 0xff) else family)"

definition model_of :: "x86_vendor \<Rightarrow> u32 \<Rightarrow> u32" where
  "model_of vendor eax =
     (let family = drop_bit 8 eax AND 0xf; model = drop_bit 4 eax AND 0xf
      in if family = 0xf \<or> (vendor = X86_VENDOR_INTEL \<and> family = 0x6)
         then model OR push_bit 4 (drop_bit 16 eax AND 0xf) else model)"

text \<open>GNU \<open>a ?: b\<close>.\<close>

definition or_else :: "u32 \<Rightarrow> u32 \<Rightarrow> u32" where
  "or_else a b = (if a \<noteq> 0 then a else b)"

type_synonym 'z cpuid_fn = "u32 \<Rightarrow> u32 \<Rightarrow> ('z cpu_scheme, u32 \<times> u32 \<times> u32 \<times> u32) prog"

definition collect_basic :: "'z cpuid_fn \<Rightarrow> ('z cpu_scheme, unit) prog" where
  "collect_basic cpuid_fn =
     bnd (cpuid_fn 0 0) (\<lambda>(leaf0, ebx, ecx, edx).
     seq (update (\<lambda>s. s\<lparr>max_leaf := leaf0, cpu_vendor := vendor_of ebx ecx edx\<rparr>)) (
     seq (when1 (leaf0 \<ge> 1)
           (bnd (cpuid_fn 1 0) (\<lambda>(eax, _, c, d).
            seq (set_features [(FEATURESET_1c, c), (FEATURESET_1d, d)])
              (update (\<lambda>s. s\<lparr>x86_stepping := stepping_of eax,
                             x86_model := model_of (cpu_vendor s) eax,
                             x86_family := family_of eax\<rparr>))))) (
     seq (when1 (leaf0 \<ge> 7)
           (bnd (cpuid_fn 7 0) (\<lambda>(_, b, c, d).
            set_features [(FEATURESET_7b0, b), (FEATURESET_7c0, c), (FEATURESET_7d0, d)])))
     (when1 (leaf0 \<ge> 0xd)
           (bnd (cpuid_fn 0xd 0) (\<lambda>(a, _, _, _). set_features [(FEATURESET_Da1, a)]))))))"

text \<open>The extended leaves; the result is \<open>addr\<close>.\<close>

definition collect_extd :: "'z cpuid_fn \<Rightarrow> ('z cpu_scheme, u32) prog" where
  "collect_extd cpuid_fn =
     bnd (cpuid_fn 0x80000000 0) (\<lambda>(extd, _, _, _).
     seq (update (\<lambda>s. s\<lparr>max_extd_leaf := extd\<rparr>)) (
     if drop_bit 16 extd = 0x8000 then
       seq (when1 (extd \<ge> 0x80000001)
             (bnd (cpuid_fn 0x80000001 0) (\<lambda>(_, _, c, d).
              set_features [(FEATURESET_e1c, c), (FEATURESET_e1d, d)]))) (
       seq (when1 (extd \<ge> 0x80000007)
             (bnd (cpuid_fn 0x80000007 0) (\<lambda>(_, _, _, d). set_features [(FEATURESET_e7d, d)])))
       (if extd \<ge> 0x80000008
        then bnd (cpuid_fn 0x80000008 0) (\<lambda>(addr, b, _, _).
               seq (set_features [(FEATURESET_e8b, b)]) (ret addr))
        else ret 0))
     else ret 0))"

definition collect_cpuid :: "'z cpuid_fn \<Rightarrow> ('z cpu_scheme, unit) prog" where
  "collect_cpuid cpuid_fn =
     seq (collect_basic cpuid_fn) (
     bnd (collect_extd cpuid_fn) (\<lambda>addr.
     update (\<lambda>s. s\<lparr>maxphysaddr := or_else (addr AND 0xff) 36,
                    maxvirtaddr := or_else (drop_bit 8 addr AND 0xff) 32\<rparr>)))"

section \<open>find_xen_leaves\<close>

definition XEN_CPUID_FIRST_LEAF :: u32 where [xtf_consts]: "XEN_CPUID_FIRST_LEAF = 0x40000000"

definition is_xen_leaf :: "u32 \<Rightarrow> u32 \<times> u32 \<times> u32 \<times> u32 \<Rightarrow> bool" where
  "is_xen_leaf l = (\<lambda>(eax, ebx, ecx, edx).
     ebx = 0x566e6558 \<and> ecx = 0x65584d4d \<and> edx = 0x4d4d566e \<and> eax - l \<ge> 2)"

text \<open>The loop over \<open>l\<close>, of \<open>n\<close> more steps of \<open>0x100\<close>; in the code there are \<open>0x10000 / 0x100\<close>.\<close>

fun find_xen_from :: "nat \<Rightarrow> u32 \<Rightarrow> ('z cpu_scheme, u32) prog" where
  "find_xen_from 0 l = panic (''Unable to locate Xen CPUID leaves'' @ [LF]) []"
| "find_xen_from (Suc n) l =
     bnd (cpuid l) (\<lambda>r.
     if is_xen_leaf l r then seq (update (\<lambda>s. s\<lparr>xen_leaves := l\<rparr>)) (ret l)
     else find_xen_from n (l + 0x100))"

definition find_xen_leaves :: "('z cpu_scheme, u32) prog" where
  "find_xen_leaves =
     bnd (fetch xen_leaves) (\<lambda>leaves.
     if leaves \<noteq> 0 then ret leaves else find_xen_from 256 XEN_CPUID_FIRST_LEAF)"

section \<open>What they do\<close>

text \<open>A leaf of the processor, when \<open>cpuid\<close> is a function of the leaf only.\<close>

definition leaf_of :: "hw \<Rightarrow> u32 \<Rightarrow> u32 \<times> u32 \<times> u32 \<times> u32" where
  "leaf_of h l = hw_cpuid h [] l 0"

definition stable_cpuid :: "hw \<Rightarrow> bool" where
  "stable_cpuid h \<longleftrightarrow> (\<forall>t l. hw_cpuid h t l 0 = leaf_of h l)"

lemma find_xen_from_found:
  fixes s :: "'z cpu_scheme"
  assumes "stable_cpuid h" "k < n" "is_xen_leaf (l + of_nat k * 0x100) (leaf_of h (l + of_nat k * 0x100))"
    and "\<And>j. j < k \<Longrightarrow> \<not> is_xen_leaf (l + of_nat j * 0x100) (leaf_of h (l + of_nat j * 0x100))"
  shows "\<exists>t. find_xen_from n l h s =
    Done (l + of_nat k * 0x100) (s\<lparr>trace := trace s @ t, xen_leaves := l + of_nat k * 0x100\<rparr>)"
  using assms(2-4)
proof (induction n arbitrary: k l s)
  case 0
  then show ?case by simp
next
  case (Suc n)
  have cp: "hw_cpuid h (trace s) l 0 = leaf_of h l" using assms(1) by (simp add: stable_cpuid_def)
  show ?case
  proof (cases k)
    case 0
    then show ?thesis
      using Suc.prems(2) cp by (auto simp: io_simps intro!: exI [of _ "[Cpuid l 0]"])
  next
    case (Suc m)
    have no: "\<not> is_xen_leaf l (leaf_of h l)" using Suc.prems(3) [of 0] Suc by simp
    have step: "l + of_nat (Suc j) * 0x100 = (l + 0x100) + of_nat j * 0x100" for j
      by (simp add: algebra_simps)
    let ?s = "s\<lparr>trace := trace s @ [Cpuid l 0]\<rparr>"
    obtain t where "find_xen_from n (l + 0x100) h ?s =
        Done (l + 0x100 + of_nat m * 0x100)
          (?s\<lparr>trace := trace ?s @ t, xen_leaves := l + 0x100 + of_nat m * 0x100\<rparr>)"
      using Suc.IH [of m "l + 0x100" ?s] Suc.prems Suc step [of m] Suc.prems(3) [of "Suc _"] step
      by (auto simp del: of_nat_Suc)
    then show ?thesis
      using no cp by (auto simp: io_simps Suc step [of m] simp del: of_nat_Suc
          intro!: exI [of _ "Cpuid l 0 # t"])
  qed
qed

lemma find_xen_from_none:
  fixes s :: "'z cpu_scheme"
  assumes "stable_cpuid h"
    and "\<And>j. j < n \<Longrightarrow> \<not> is_xen_leaf (l + of_nat j * 0x100) (leaf_of h (l + of_nat j * 0x100))"
  shows "returned (find_xen_from n l h s) = None"
  using assms(2)
proof (induction n arbitrary: l s)
  case 0
  then show ?case by (simp add: io_simps)
next
  case (Suc n)
  have cp: "hw_cpuid h (trace s) l 0 = leaf_of h l" using assms(1) by (simp add: stable_cpuid_def)
  have "l + of_nat (Suc j) * 0x100 = (l + 0x100) + of_nat j * 0x100" for j
    by (simp add: algebra_simps)
  then have "returned (find_xen_from n (l + 0x100) h s1) = None" for s1 :: "'z cpu_scheme"
    using Suc.prems [of "Suc _"] by (intro Suc.IH) (metis Suc_less_eq)
  then show ?case
    using Suc.prems [of 0] cp by (simp add: io_simps)
qed

text \<open>
  The leaves that \<open>collect_cpuid\<close> asks for: besides 0 and 0x80000000, none above the maxima that
  these two report.
\<close>

definition leaf_allowed :: "hw \<Rightarrow> ev \<Rightarrow> bool" where
  "leaf_allowed h e \<longleftrightarrow>
     (case e of
        Cpuid l c \<Rightarrow> c = 0 \<and>
          (l = 0 \<or> l = 0x80000000 \<or> (l < 0x80000000 \<and> l \<le> fst (leaf_of h 0))
           \<or> (0x80000000 < l \<and> l \<le> fst (leaf_of h 0x80000000)))
      | _ \<Rightarrow> False)"

lemma set_features_run [io_simps]:
  "set_features ws h s =
     Done () (s\<lparr>x86_features := foldl (\<lambda>fs (i, w). fs[i := w]) (x86_features s) ws\<rparr>)"
  by (simp add: set_features_def update_run)

lemma collect_basic_run:
  assumes "stable_cpuid h"
  shows "\<exists>s1 t. collect_basic cpuid_count h s = Done () s1 \<and> trace s1 = trace s @ t
     \<and> list_all (leaf_allowed h) t \<and> max_leaf s1 = fst (leaf_of h 0)
     \<and> cpu_vendor s1 = (case leaf_of h 0 of (_, b, c, d) \<Rightarrow> vendor_of b c d)"
proof -
  obtain a0 b0 c0 d0 where l0: "leaf_of h 0 = (a0, b0, c0, d0)" by (cases "leaf_of h 0")
  obtain a1 b1 c1 d1 where l1: "leaf_of h 1 = (a1, b1, c1, d1)" by (cases "leaf_of h 1")
  obtain a7 b7 c7 d7 where l7: "leaf_of h 7 = (a7, b7, c7, d7)" by (cases "leaf_of h 7")
  obtain aD bD cD dD where lD: "leaf_of h 0xd = (aD, bD, cD, dD)" by (cases "leaf_of h 0xd")
  have cp: "hw_cpuid h t l 0 = leaf_of h l" for t l using assms by (simp add: stable_cpuid_def)
  have le: "(1 :: u32) < 0x80000000" "(7 :: u32) < 0x80000000" "(0xd :: u32) < 0x80000000" by simp_all
  show ?thesis
    by (cases "a0 \<ge> 1"; cases "a0 \<ge> 7"; cases "a0 \<ge> 0xd")
      (simp_all add: collect_basic_def io_simps cp l0 l1 l7 lD leaf_allowed_def)
qed

lemma collect_extd_run:
  assumes "stable_cpuid h"
  shows "\<exists>s1 t. collect_extd cpuid_count h s =
       Done (case leaf_of h 0x80000000 of (a, _) \<Rightarrow>
               if drop_bit 16 a = 0x8000 \<and> a \<ge> 0x80000008 then fst (leaf_of h 0x80000008) else 0) s1
     \<and> trace s1 = trace s @ t \<and> list_all (leaf_allowed h) t
     \<and> max_leaf s1 = max_leaf s \<and> cpu_vendor s1 = cpu_vendor s"
proof -
  obtain a0 b0 c0 d0 where l0: "leaf_of h 0x80000000 = (a0, b0, c0, d0)" by (cases "leaf_of h 0x80000000")
  obtain a1 b1 c1 d1 where l1: "leaf_of h 0x80000001 = (a1, b1, c1, d1)" by (cases "leaf_of h 0x80000001")
  obtain a7 b7 c7 d7 where l7: "leaf_of h 0x80000007 = (a7, b7, c7, d7)" by (cases "leaf_of h 0x80000007")
  obtain a8 b8 c8 d8 where l8: "leaf_of h 0x80000008 = (a8, b8, c8, d8)" by (cases "leaf_of h 0x80000008")
  have cp: "hw_cpuid h t l 0 = leaf_of h l" for t l using assms by (simp add: stable_cpuid_def)
  show ?thesis
    by (cases "drop_bit 16 a0 = 0x8000"; cases "a0 \<ge> 0x80000001"; cases "a0 \<ge> 0x80000007"; cases "a0 \<ge> 0x80000008")
      (simp_all add: collect_extd_def io_simps cp l0 l1 l7 l8 leaf_allowed_def)
qed

section \<open>Probing a machine\<close>

definition cpu0 :: cpu where [init_states]:
  "cpu0 = xenstore.extend xenstore0 (cpu.fields (replicate FSCAPINTS 0) X86_VENDOR_UNKNOWN 0 0 0 0 0 0 0 0 False False)"

declare cpu.defs [init_states]



text \<open>
  C34: find_xen_leaves finds the hypervisor leaves wherever they are: on a machine with a stable
  CPUID it returns the first of the 256 candidate bases from 0x40000000 that carries the Xen
  signature with at least two leaves, and nothing when none does.
\<close>

theorem find_xen_leaves_finds:
  fixes s :: "'z cpu_scheme"
  assumes "stable_cpuid h" "xen_leaves s = 0"
    and "\<And>j. j < k \<Longrightarrow> \<not> is_xen_leaf (0x40000000 + of_nat j * 0x100) (leaf_of h (0x40000000 + of_nat j * 0x100))"
    and "k < 256 \<Longrightarrow> is_xen_leaf (0x40000000 + of_nat k * 0x100) (leaf_of h (0x40000000 + of_nat k * 0x100))" "k \<le> 256"
  shows "returned (find_xen_leaves h s) = (if k < 256 then Some (0x40000000 + of_nat k * 0x100) else None)"
proof (cases "k < 256")
  case True
  then show ?thesis
    using find_xen_from_found [where n = "256" and l = "0x40000000" and k = k and h = h and s = s] assms
    by (auto simp: find_xen_leaves_def io_simps XEN_CPUID_FIRST_LEAF_def)
next
  case False
  then show ?thesis
    using find_xen_from_none [where n = "256" and l = "0x40000000" and h = h and s = s] assms
    by (auto simp: find_xen_leaves_def io_simps XEN_CPUID_FIRST_LEAF_def)
qed

theorem find_xen_leaves_finds_witness:
  "returned (find_xen_leaves (accept_hw HVM64\<lparr>hw_cpuid := \<lambda>t l c.
       if l = 0x40000100 then (0x40000104, 0x566e6558, 0x65584d4d, 0x4d4d566e) else (0, 0, 0, 0)\<rparr>) cpu0)
     = Some 0x40000100"
proof -
  let ?h = "accept_hw HVM64\<lparr>hw_cpuid := \<lambda>t l c.
       if l = 0x40000100 then (0x40000104, 0x566e6558, 0x65584d4d, 0x4d4d566e) else (0, 0, 0, 0)\<rparr>"
  show ?thesis
    using find_xen_leaves_finds [where h = ?h and k = 1 and s = cpu0]
    by (simp add: stable_cpuid_def leaf_of_def is_xen_leaf_def init_states)
qed

end
