(* ===== verification/X86_Page.thy ===== *)
theory X86_Page imports
  Machine
begin

text \<open>
  Page tables and address conversions: \<open>arch/x86/include/arch/page.h\<close>, \<open>page-pae.h\<close>, \<open>page-pse.h\<close>,
  \<open>pagetable.h\<close> and \<open>mm.h\<close>. Addresses and entries are 64-bit words; \<open>unsigned long\<close> values of a
  32-bit build are below \<open>2^32\<close>, and a PSE entry is a 32-bit word.
\<close>

section \<open>Constants\<close>

definition PAGE_SHIFT :: nat where [xtf_consts]: "PAGE_SHIFT = 12"
definition PAGE_SIZE :: u64 where [xtf_consts]: "PAGE_SIZE = push_bit 12 1"
definition PAGE_MASK :: u64 where [xtf_consts]: "PAGE_MASK = NOT (push_bit 12 1 - 1)"
definition PADDR_MASK :: u64 where [xtf_consts]: "PADDR_MASK = push_bit 52 1 - 1"

definition PAGE_PRESENT :: u64 where [xtf_consts]: "PAGE_PRESENT = 0x0001"
definition PAGE_RW :: u64 where [xtf_consts]: "PAGE_RW = 0x0002"
definition PAGE_USER :: u64 where [xtf_consts]: "PAGE_USER = 0x0004"
definition PAGE_AD :: u64 where [xtf_consts]: "PAGE_AD = 0x0020 OR 0x0040"

section \<open>Table offsets\<close>

definition pae_l1_table_offset :: "u64 \<Rightarrow> u32" where
  "pae_l1_table_offset linear = ucast (drop_bit 12 linear AND (512 - 1))"

definition pae_l2_table_offset :: "u64 \<Rightarrow> u32" where
  "pae_l2_table_offset linear = ucast (drop_bit 21 linear AND (512 - 1))"

definition pae_l3_table_offset :: "u64 \<Rightarrow> u32" where
  "pae_l3_table_offset linear = ucast (drop_bit 30 linear AND (512 - 1))"

definition pae_l4_table_offset :: "u64 \<Rightarrow> u32" where
  "pae_l4_table_offset linear = ucast (drop_bit 39 linear AND (512 - 1))"

definition pse_l1_table_offset :: "u64 \<Rightarrow> u32" where
  "pse_l1_table_offset linear = ucast (drop_bit 12 linear AND (1024 - 1))"

definition pse_l2_table_offset :: "u64 \<Rightarrow> u32" where
  "pse_l2_table_offset linear = ucast (drop_bit 22 linear AND (1024 - 1))"

definition l1_table_offset :: "env \<Rightarrow> u64 \<Rightarrow> u32" where
  "l1_table_offset e linear =
     (if CONFIG_PAGING_LEVELS e = 2 then pse_l1_table_offset linear else pae_l1_table_offset linear)"

definition l2_table_offset :: "env \<Rightarrow> u64 \<Rightarrow> u32" where
  "l2_table_offset e linear =
     (if CONFIG_PAGING_LEVELS e = 2 then pse_l2_table_offset linear else pae_l2_table_offset linear)"

definition L1_PT_ENTRIES :: "env \<Rightarrow> nat" where
  "L1_PT_ENTRIES e = (if CONFIG_PAGING_LEVELS e = 2 then 1024 else 512)"

lemma offset_mask: "(511 :: u64) = mask 9" "(1023 :: u64) = mask 10"
  by (simp_all add: mask_eq_exp_minus_1)

lemma unat_table_offset:
  "b \<le> 32 \<Longrightarrow> unat (ucast (drop_bit k (x :: u64) AND mask b) :: u32) = unat x div 2 ^ k mod 2 ^ b"
proof -
  assume b: "b \<le> 32"
  have "unat (drop_bit k x AND mask b) = unat x div 2 ^ k mod 2 ^ b"
    using unat_u64_less [of x]
    by (simp only: unat_and_mask unsigned_drop_bit_eq) (simp add: drop_bit_eq_div take_bit_nat_eq_self)
  moreover have "unat x div 2 ^ k mod 2 ^ b < 2 ^ 32"
  proof -
    have "unat x div 2 ^ k mod 2 ^ b < 2 ^ b" by simp
    also have "(2 :: nat) ^ b \<le> 2 ^ 32" using b by (rule power_increasing) simp
    finally show ?thesis .
  qed
  ultimately show ?thesis
    by (simp add: unsigned_ucast_eq take_bit_nat_eq_self)
qed

lemma table_offsets_unat:
  "unat (pae_l1_table_offset x) = unat x div 2 ^ 12 mod 512"
  "unat (pae_l2_table_offset x) = unat x div 2 ^ 21 mod 512"
  "unat (pae_l3_table_offset x) = unat x div 2 ^ 30 mod 512"
  "unat (pae_l4_table_offset x) = unat x div 2 ^ 39 mod 512"
  "unat (pse_l1_table_offset x) = unat x div 2 ^ 12 mod 1024"
  "unat (pse_l2_table_offset x) = unat x div 2 ^ 22 mod 1024"
  using unat_table_offset [of 9 12 x] unat_table_offset [of 9 21 x] unat_table_offset [of 9 30 x]
    unat_table_offset [of 9 39 x] unat_table_offset [of 10 12 x] unat_table_offset [of 10 22 x]
  by (simp_all add: pae_l1_table_offset_def pae_l2_table_offset_def pae_l3_table_offset_def
      pae_l4_table_offset_def pse_l1_table_offset_def pse_l2_table_offset_def offset_mask)

text \<open>One level of a walk: a number is its low digit and the rest.\<close>

lemma walk_level: "(n :: nat) div 2 ^ k = (n div 2 ^ k mod 2 ^ b) + 2 ^ b * (n div 2 ^ (k + b))"
  by (metis add.commute div_mult2_eq mult_div_mod_eq power_add)

lemma walk_numerals:
  "(2 :: nat) ^ 12 = 4096" "(2 :: nat) ^ 21 = 2097152" "(2 :: nat) ^ 22 = 4194304"
  "(2 :: nat) ^ 30 = 1073741824" "(2 :: nat) ^ 32 = 4294967296" "(2 :: nat) ^ 39 = 549755813888"
  by simp_all

lemma pae_walk_nat:
  "(n :: nat) = 2 ^ 39 * (n div 2 ^ 39) + 2 ^ 30 * (n div 2 ^ 30 mod 512) + 2 ^ 21 * (n div 2 ^ 21 mod 512)
       + 2 ^ 12 * (n div 2 ^ 12 mod 512) + n mod 2 ^ 12"
proof -
  have "n = 2 ^ 12 * (n div 2 ^ 12) + n mod 2 ^ 12" by (metis mult_div_mod_eq)
  moreover have "n div 2 ^ 12 = (n div 2 ^ 12 mod 512) + 512 * (n div 2 ^ 21)"
    using walk_level [of n 12 9] by simp
  moreover have "n div 2 ^ 21 = (n div 2 ^ 21 mod 512) + 512 * (n div 2 ^ 30)"
    using walk_level [of n 21 9] by simp
  moreover have "n div 2 ^ 30 = (n div 2 ^ 30 mod 512) + 512 * (n div 2 ^ 39)"
    using walk_level [of n 30 9] by simp
  ultimately show ?thesis unfolding walk_numerals by linarith
qed

lemma pse_walk_nat:
  "(n :: nat) = 2 ^ 32 * (n div 2 ^ 32) + 2 ^ 22 * (n div 2 ^ 22 mod 1024) + 2 ^ 12 * (n div 2 ^ 12 mod 1024) + n mod 2 ^ 12"
proof -
  have "n = 2 ^ 12 * (n div 2 ^ 12) + n mod 2 ^ 12" by (metis mult_div_mod_eq)
  moreover have "n div 2 ^ 12 = (n div 2 ^ 12 mod 1024) + 1024 * (n div 2 ^ 22)"
    using walk_level [of n 12 10] by simp
  moreover have "n div 2 ^ 22 = (n div 2 ^ 22 mod 1024) + 1024 * (n div 2 ^ 32)"
    using walk_level [of n 22 10] by simp
  ultimately show ?thesis unfolding walk_numerals by linarith
qed

section \<open>PSE-36 entries\<close>

definition fold_pse36 :: "u64 \<Rightarrow> u32" where
  "fold_pse36 val =
     ucast ((val AND NOT (push_bit 13 0x1ff)) OR drop_bit (32 - 13) (val AND push_bit 32 0x1ff))"

definition unfold_pse36 :: "u32 \<Rightarrow> u64" where
  "unfold_pse36 val =
     (ucast val AND NOT (push_bit 13 0x1ff)) OR push_bit (32 - 13) (ucast val AND push_bit 13 0x1ff)"

lemma mask_9: "(0x1ff :: u64) = mask 9"
  by (simp add: mask_eq_exp_minus_1)

lemma bit_unfold_pse36:
  "bit (unfold_pse36 v) n \<longleftrightarrow>
     n < 64 \<and> (if n < 32 then bit v n \<and> \<not> (13 \<le> n \<and> n < 22) else n < 41 \<and> bit v (n - 19))"
  unfolding unfold_pse36_def mask_9
  by (auto simp: bit_simps dest: bit_imp_le_length)

lemma bit_fold_pse36:
  "bit (fold_pse36 w) n \<longleftrightarrow>
     n < 32 \<and> (if 13 \<le> n \<and> n < 22 then bit w (19 + n) else bit w n)"
  unfolding fold_pse36_def mask_9
  by (auto simp: bit_simps add.commute)

lemma fold_unfold_pse36: "fold_pse36 (unfold_pse36 v) = v"
proof (rule bit_word_eqI)
  fix n assume "n < LENGTH(32)"
  then show "bit (fold_pse36 (unfold_pse36 v)) n = bit v n"
    by (simp add: bit_fold_pse36 bit_unfold_pse36)
qed

lemma unfold_fold_pse36:
  assumes "w AND NOT (push_bit 32 (mask 9) OR mask 13 OR push_bit 22 (mask 10)) = 0"
  shows "unfold_pse36 (fold_pse36 w) = w"
proof (rule bit_word_eqI)
  fix n assume n: "n < LENGTH(64)"
  have "\<not> (bit w n \<and> \<not> (32 \<le> n \<and> n < 41) \<and> \<not> n < 13 \<and> \<not> (22 \<le> n \<and> n < 32))"
  proof -
    have "\<not> bit (w AND NOT (push_bit 32 (mask 9) OR mask 13 OR push_bit 22 (mask 10))) n"
      unfolding assms by simp
    then show ?thesis using n by (auto simp: bit_simps)
  qed
  then show "bit (unfold_pse36 (fold_pse36 w)) n = bit w n"
    using n by (auto simp: bit_fold_pse36 bit_unfold_pse36)
qed

section \<open>Page table entries\<close>

text \<open>The width of \<open>intpte_t\<close>.\<close>

definition intpte_bits :: "env \<Rightarrow> nat" where
  "intpte_bits e = (if CONFIG_PAGING_LEVELS e = 2 then 32 else 64)"

definition pte_to_paddr :: "u64 \<Rightarrow> u64" where
  "pte_to_paddr pte = pte AND PADDR_MASK AND PAGE_MASK"

definition pte_from_paddr :: "env \<Rightarrow> u64 \<Rightarrow> u64 \<Rightarrow> u64" where
  "pte_from_paddr e paddr flags =
     take_bit (intpte_bits e)
       ((paddr AND (PADDR_MASK AND PAGE_MASK)) OR (flags AND NOT (PADDR_MASK AND PAGE_MASK)))"

definition pte_from_gfn :: "env \<Rightarrow> u64 \<Rightarrow> u64 \<Rightarrow> u64" where
  "pte_from_gfn e gfn flags = pte_from_paddr e (push_bit PAGE_SHIFT gfn) flags"

lemma frame_mask: "PADDR_MASK AND PAGE_MASK = push_bit 12 (mask 40)"
  by (simp add: PADDR_MASK_def PAGE_MASK_def mask_eq_exp_minus_1 push_bit_eq_mult)

lemma bit_PADDR_MASK: "bit PADDR_MASK n \<longleftrightarrow> n < 52"
proof -
  have eq: "PADDR_MASK = mask 52" by (simp add: PADDR_MASK_def mask_eq_exp_minus_1 push_bit_eq_mult)
  show ?thesis unfolding eq by (auto simp: bit_simps)
qed

lemma bit_PAGE_MASK: "bit PAGE_MASK n \<longleftrightarrow> 12 \<le> n \<and> n < 64"
proof -
  have eq: "PAGE_MASK = NOT (mask 12)" by (simp add: PAGE_MASK_def mask_eq_exp_minus_1 push_bit_eq_mult)
  show ?thesis unfolding eq by (auto simp: bit_simps)
qed

lemmas bit_frame_mask = bit_PADDR_MASK bit_PAGE_MASK

lemma pte_to_paddr_frame: "pte_to_paddr pte = pte AND (PADDR_MASK AND PAGE_MASK)"
  by (simp add: pte_to_paddr_def and.assoc)

lemma pte_roundtrip_bits:
  "bit (pte_to_paddr (pte_from_paddr e paddr flags)) n \<longleftrightarrow>
     n < intpte_bits e \<and> 12 \<le> n \<and> n < 52 \<and> bit paddr n"
  unfolding pte_to_paddr_frame pte_from_paddr_def
  by (auto simp: bit_and_iff bit_or_iff bit_not_iff bit_take_bit_iff bit_frame_mask)

lemma pte_flags_bits:
  "bit (pte_from_paddr e paddr flags) n \<longleftrightarrow>
     n < intpte_bits e \<and> n < 64 \<and> (if 12 \<le> n \<and> n < 52 then bit paddr n else bit flags n)"
  unfolding pte_from_paddr_def
  by (auto simp: bit_and_iff bit_or_iff bit_not_iff bit_take_bit_iff bit_frame_mask dest: bit_imp_le_length)

section \<open>Address conversions\<close>

text \<open>
  The machine-to-physical table and the physical-to-machine list of a PV guest are memory that
  Xen and the domain builder fill: they are parameters.
\<close>

definition pfn_to_virt :: "env \<Rightarrow> u64 \<Rightarrow> u64" where
  "pfn_to_virt e pfn = to_ulong e (push_bit PAGE_SHIFT pfn)"

definition virt_to_pfn :: "u64 \<Rightarrow> u64" where
  "virt_to_pfn va = drop_bit PAGE_SHIFT va"

definition mfn_to_virt :: "env \<Rightarrow> (u64 \<Rightarrow> u64) \<Rightarrow> u64 \<Rightarrow> u64" where
  "mfn_to_virt e m2p mfn = pfn_to_virt e (m2p mfn)"

definition maddr_to_virt :: "env \<Rightarrow> (u64 \<Rightarrow> u64) \<Rightarrow> u64 \<Rightarrow> u64" where
  "maddr_to_virt e m2p maddr =
     to_ulong e (mfn_to_virt e m2p (to_ulong e (drop_bit PAGE_SHIFT maddr)) + (maddr AND NOT PAGE_MASK))"

definition pfn_to_mfn :: "(u64 \<Rightarrow> u64) \<Rightarrow> u64 \<Rightarrow> u64" where
  "pfn_to_mfn p2m pfn = p2m pfn"

definition virt_to_mfn :: "(u64 \<Rightarrow> u64) \<Rightarrow> u64 \<Rightarrow> u64" where
  "virt_to_mfn p2m va = pfn_to_mfn p2m (virt_to_pfn va)"

definition virt_to_maddr :: "(u64 \<Rightarrow> u64) \<Rightarrow> u64 \<Rightarrow> u64" where
  "virt_to_maddr p2m va = push_bit PAGE_SHIFT (virt_to_mfn p2m va) + (va AND NOT PAGE_MASK)"

definition gfn_to_virt :: "env \<Rightarrow> (u64 \<Rightarrow> u64) \<Rightarrow> u64 \<Rightarrow> u64" where
  "gfn_to_virt e m2p gfn = (if CONFIG_PV e then mfn_to_virt e m2p gfn else pfn_to_virt e gfn)"

definition virt_to_gfn :: "env \<Rightarrow> (u64 \<Rightarrow> u64) \<Rightarrow> u64 \<Rightarrow> u64" where
  "virt_to_gfn e p2m va = (if CONFIG_PV e then virt_to_mfn p2m va else virt_to_pfn va)"

definition pte_from_virt :: "env \<Rightarrow> (u64 \<Rightarrow> u64) \<Rightarrow> u64 \<Rightarrow> u64 \<Rightarrow> u64" where
  "pte_from_virt e p2m va flags = pte_from_paddr e (push_bit PAGE_SHIFT (virt_to_gfn e p2m va)) flags"

lemma not_PAGE_MASK: "NOT PAGE_MASK = mask 12"
  by (simp add: PAGE_MASK_def mask_eq_exp_minus_1 push_bit_eq_mult)

lemma page_split: "push_bit 12 (drop_bit 12 va) + (va AND mask 12) = (va :: u64)"
proof -
  have "push_bit 12 (drop_bit 12 va) + (va AND mask 12) = push_bit 12 (drop_bit 12 va) OR (va AND mask 12)"
    by (rule disjunctive_add) (simp add: bit_simps)
  also have "\<dots> = va"
  proof (rule bit_word_eqI)
    fix n assume "n < LENGTH(64)"
    then show "bit (push_bit 12 (drop_bit 12 va) OR va AND mask 12) n = bit va n"
      by (auto simp: bit_simps)
  qed
  finally show ?thesis .
qed

lemma page_frame_offset:
  assumes "unat f < 2 ^ 52"
  shows "drop_bit 12 (push_bit 12 f + (va AND mask 12)) = (f :: u64)"
    "(push_bit 12 f + (va AND mask 12)) AND mask 12 = va AND mask 12"
proof -
  have eq: "push_bit 12 f + (va AND mask 12) = push_bit 12 f OR (va AND mask 12)"
    by (rule disjunctive_add) (simp add: bit_simps)
  have f: "take_bit 52 f = f"
    using assms by (simp add: word_unat_eq_iff unsigned_take_bit_eq take_bit_nat_eq_self)
  have high: "n < 52" if "bit f n" for n
    using f that by (metis bit_take_bit_iff)
  show "drop_bit 12 (push_bit 12 f + (va AND mask 12)) = f"
  proof (rule bit_word_eqI)
    fix n assume "n < LENGTH(64)"
    then show "bit (drop_bit 12 (push_bit 12 f + (va AND mask 12))) n = bit f n"
      unfolding eq using high [of n] by (auto simp: bit_simps)
  qed
  show "(push_bit 12 f + (va AND mask 12)) AND mask 12 = va AND mask 12"
  proof (rule bit_word_eqI)
    fix n assume "n < LENGTH(64)"
    then show "bit ((push_bit 12 f + (va AND mask 12)) AND mask 12) n = bit (va AND mask 12) n"
      unfolding eq by (auto simp: bit_simps)
  qed
qed

text \<open>With the two tables inverse to each other, a machine address leads back to its virtual one.\<close>

lemma maddr_to_virt_to_maddr:
  assumes inv: "m2p (p2m (virt_to_pfn va)) = virt_to_pfn va"
    and va: "to_ulong e va = va"
    and mfn: "to_ulong e (p2m (virt_to_pfn va)) = p2m (virt_to_pfn va)" "unat (p2m (virt_to_pfn va)) < 2 ^ 52"
  shows "maddr_to_virt e m2p (virt_to_maddr p2m va) = va"
proof -
  let ?f = "p2m (drop_bit 12 va)"
  have "drop_bit 12 (virt_to_maddr p2m va) = ?f" "virt_to_maddr p2m va AND mask 12 = va AND mask 12"
    using page_frame_offset [of ?f va] mfn(2)
    by (simp_all add: virt_to_maddr_def virt_to_mfn_def pfn_to_mfn_def virt_to_pfn_def not_PAGE_MASK
        PAGE_SHIFT_def)
  moreover have "to_ulong e (push_bit 12 (drop_bit 12 va)) = push_bit 12 (drop_bit 12 va)"
    using va by (auto simp: to_ulong_def bit_eq_iff bit_simps dest: bit_imp_le_length)
  ultimately show ?thesis
    using inv va mfn(1) page_split [of va]
    by (simp add: maddr_to_virt_def mfn_to_virt_def pfn_to_virt_def virt_to_pfn_def not_PAGE_MASK
        PAGE_SHIFT_def)
qed

section \<open>Walks and round trips\<close>

text \<open>
  The table offsets of a virtual address decompose it: the four PAE offsets and the page
  offset give back its low 48 bits, and the two PSE offsets and the page offset its low 32 bits,
  so that no two addresses of a walk share all their indices.
\<close>

lemma table_walk:
  "unat va mod 2 ^ 48 = 2 ^ 39 * unat (pae_l4_table_offset va) + 2 ^ 30 * unat (pae_l3_table_offset va)
     + 2 ^ 21 * unat (pae_l2_table_offset va) + 2 ^ 12 * unat (pae_l1_table_offset va) + unat va mod 2 ^ 12
   \<and> unat va mod 2 ^ 32 = 2 ^ 22 * unat (pse_l2_table_offset va) + 2 ^ 12 * unat (pse_l1_table_offset va)
     + unat va mod 2 ^ 12"
proof
  let ?n = "unat va"
  have "?n mod 2 ^ 48 = 2 ^ 39 * (?n div 2 ^ 39 mod 512) + ?n mod 2 ^ 39"
    using mod_mult2_eq [of ?n "2 ^ 39" 512] by simp
  moreover have "?n mod 2 ^ 39 = 2 ^ 30 * (?n div 2 ^ 30 mod 512) + ?n mod 2 ^ 30"
    using mod_mult2_eq [of ?n "2 ^ 30" 512] by simp
  moreover have "?n mod 2 ^ 30 = 2 ^ 21 * (?n div 2 ^ 21 mod 512) + ?n mod 2 ^ 21"
    using mod_mult2_eq [of ?n "2 ^ 21" 512] by simp
  moreover have "?n mod 2 ^ 21 = 2 ^ 12 * (?n div 2 ^ 12 mod 512) + ?n mod 2 ^ 12"
    using mod_mult2_eq [of ?n "2 ^ 12" 512] by simp
  ultimately show "?n mod 2 ^ 48 = 2 ^ 39 * unat (pae_l4_table_offset va) + 2 ^ 30 * unat (pae_l3_table_offset va)
     + 2 ^ 21 * unat (pae_l2_table_offset va) + 2 ^ 12 * unat (pae_l1_table_offset va) + ?n mod 2 ^ 12"
    by (simp only: table_offsets_unat)
  have "?n mod 2 ^ 32 = 2 ^ 22 * (?n div 2 ^ 22 mod 1024) + ?n mod 2 ^ 22"
    using mod_mult2_eq [of ?n "2 ^ 22" 1024] by simp
  moreover have "?n mod 2 ^ 22 = 2 ^ 12 * (?n div 2 ^ 12 mod 1024) + ?n mod 2 ^ 12"
    using mod_mult2_eq [of ?n "2 ^ 12" 1024] by simp
  ultimately show "?n mod 2 ^ 32 = 2 ^ 22 * unat (pse_l2_table_offset va) + 2 ^ 12 * unat (pse_l1_table_offset va)
     + ?n mod 2 ^ 12"
    by (simp only: table_offsets_unat)
qed

text \<open>
  Folding and unfolding a PSE36 superpage entry are inverse to each other: fold_pse36 undoes
  unfold_pse36 on every value, and the other way round on every value whose set bits lie in the
  fields that PSE36 can hold.
\<close>

lemma pse36_roundtrips:
  "fold_pse36 (unfold_pse36 v) = v
   \<and> unfold_pse36 (fold_pse36 (w AND (push_bit 32 (mask 9) OR mask 13 OR push_bit 22 (mask 10))))
     = w AND (push_bit 32 (mask 9) OR mask 13 OR push_bit 22 (mask 10))"
proof
  show "fold_pse36 (unfold_pse36 v) = v" by (rule fold_unfold_pse36)
  show "unfold_pse36 (fold_pse36 (w AND (push_bit 32 (mask 9) OR mask 13 OR push_bit 22 (mask 10))))
     = w AND (push_bit 32 (mask 9) OR mask 13 OR push_bit 22 (mask 10))"
  proof (rule unfold_fold_pse36)
    have "(w AND m) AND NOT m = 0" for m :: u64
      by (rule bit_word_eqI) (simp add: bit_and_iff bit_not_iff)
    then show "(w AND (push_bit 32 (mask 9) OR mask 13 OR push_bit 22 (mask 10)))
      AND NOT (push_bit 32 (mask 9) OR mask 13 OR push_bit 22 (mask 10)) = 0" .
  qed
qed

end
