(* ===== verification/X86_Devices.thy ===== *)
theory X86_Devices imports
  X86_Cpuid
  X86_Page
begin

text \<open>
  The drivers of the interrupt and timer hardware: \<open>arch/x86/apic.c\<close>, \<open>arch/x86/hpet.c\<close> and
  \<open>arch/x86/io-apic.c\<close>, with their headers. The devices answer through \<open>hw\<close>; what is proved is
  which accesses the drivers make, in which order.
\<close>

section \<open>State\<close>

datatype apic_mode = APIC_MODE_UNKNOWN | APIC_MODE_NONE | APIC_MODE_DISABLED | APIC_MODE_XAPIC | APIC_MODE_X2APIC

record devices = cpu +
  cur_apic_mode :: apic_mode
  hpet_nr_timers :: u32
  nr_entries :: u32

section \<open>Local APIC\<close>

definition MSR_APICBASE :: u32 where [xtf_consts]: "MSR_APICBASE = 0x1b"
definition APICBASE_EXTD :: u64 where [xtf_consts]: "APICBASE_EXTD = push_bit 10 1"
definition APICBASE_ENABLE :: u64 where [xtf_consts]: "APICBASE_ENABLE = push_bit 11 1"
definition APIC_DEFAULT_BASE :: u64 where [xtf_consts]: "APIC_DEFAULT_BASE = 0xfee00000"
definition MSR_X2APIC_REGS :: u32 where [xtf_consts]: "MSR_X2APIC_REGS = 0x800"
definition APIC_SPIV :: u32 where [xtf_consts]: "APIC_SPIV = 0x0f0"
definition APIC_SPIV_APIC_ENABLED :: u32 where [xtf_consts]: "APIC_SPIV_APIC_ENABLED = 0x100"
definition APIC_ICR :: u32 where [xtf_consts]: "APIC_ICR = 0x300"
definition APIC_ICR2 :: u32 where [xtf_consts]: "APIC_ICR2 = 0x310"

definition apicbase_to_mode :: "u64 \<Rightarrow> apic_mode" where
  "apicbase_to_mode apicbase =
     (if apicbase AND (APICBASE_EXTD OR APICBASE_ENABLE) = 0 then APIC_MODE_DISABLED
      else if apicbase AND (APICBASE_EXTD OR APICBASE_ENABLE) = APICBASE_ENABLE then APIC_MODE_XAPIC
      else if apicbase AND (APICBASE_EXTD OR APICBASE_ENABLE) = APICBASE_EXTD OR APICBASE_ENABLE
      then APIC_MODE_X2APIC
      else APIC_MODE_NONE)"

definition apic_mmio_read :: "u32 \<Rightarrow> ('z devices_scheme, u32) prog" where
  "apic_mmio_read reg = bnd (mmio_read 32 (APIC_DEFAULT_BASE + ucast reg)) (\<lambda>v. ret (ucast v))"

definition apic_mmio_write :: "u32 \<Rightarrow> u32 \<Rightarrow> ('z devices_scheme, unit) prog" where
  "apic_mmio_write reg val = mmio_write 32 (APIC_DEFAULT_BASE + ucast reg) (ucast val)"

definition apic_mmio_icr_write :: "u64 \<Rightarrow> ('z devices_scheme, unit) prog" where
  "apic_mmio_icr_write val =
     seq (apic_mmio_write APIC_ICR2 (ucast (drop_bit 32 val))) (apic_mmio_write APIC_ICR (ucast val))"

definition apic_msr_read :: "u32 \<Rightarrow> ('z devices_scheme, u32) prog" where
  "apic_msr_read reg = bnd (rdmsr (MSR_X2APIC_REGS + drop_bit 4 reg)) (\<lambda>v. ret (ucast v))"

definition apic_msr_write :: "u32 \<Rightarrow> u32 \<Rightarrow> ('z devices_scheme, unit) prog" where
  "apic_msr_write reg val = wrmsr (MSR_X2APIC_REGS + drop_bit 4 reg) (ucast val)"

definition apic_msr_icr_write :: "u64 \<Rightarrow> ('z devices_scheme, unit) prog" where
  "apic_msr_icr_write val = wrmsr (MSR_X2APIC_REGS + drop_bit 4 APIC_ICR) val"

text \<open>\<open>CUR_APIC_MODE\<close> is \<open>cur_apic_mode\<close> unless a test fixes the mode at build time.\<close>

definition apic_read :: "u32 \<Rightarrow> ('z devices_scheme, u32) prog" where
  "apic_read reg =
     bnd (fetch cur_apic_mode) (\<lambda>m.
     if m = APIC_MODE_XAPIC then apic_mmio_read reg else apic_msr_read reg)"

definition apic_write :: "u32 \<Rightarrow> u32 \<Rightarrow> ('z devices_scheme, unit) prog" where
  "apic_write reg val =
     bnd (fetch cur_apic_mode) (\<lambda>m.
     if m = APIC_MODE_XAPIC then apic_mmio_write reg val else apic_msr_write reg val)"

definition apic_icr_write :: "u64 \<Rightarrow> ('z devices_scheme, unit) prog" where
  "apic_icr_write val =
     bnd (fetch cur_apic_mode) (\<lambda>m.
     if m = APIC_MODE_XAPIC then apic_mmio_icr_write val else apic_msr_icr_write val)"

definition set_apic_mode :: "apic_mode \<Rightarrow> ('z devices_scheme, unit) prog" where
  "set_apic_mode m = update (\<lambda>s. s\<lparr>cur_apic_mode := m\<rparr>)"

text \<open>The first pass of \<open>apic_init\<close>: what is there, and the base put back to its default.\<close>

definition apic_probe :: "('z devices_scheme, unit) prog" where
  "apic_probe =
     bnd (rdmsr_safe MSR_APICBASE) (\<lambda>(is_fault, msrval).
     case (is_fault, msrval) of
       (False, Some v) \<Rightarrow>
         seq (set_apic_mode (apicbase_to_mode v))
         (if v AND PAGE_MASK \<noteq> APIC_DEFAULT_BASE
          then wrmsr MSR_APICBASE ((v AND NOT PAGE_MASK) OR APIC_DEFAULT_BASE)
          else ret ())
     | _ \<Rightarrow> set_apic_mode APIC_MODE_NONE)"

text \<open>The switch of modes, always through the disabled mode.\<close>

definition apic_switch :: "apic_mode \<Rightarrow> ('z devices_scheme, unit) prog" where
  "apic_switch mode =
     bnd (rdmsr MSR_APICBASE) (\<lambda>v.
     let msrval = v AND NOT (APICBASE_EXTD OR APICBASE_ENABLE) in
     seq (wrmsr MSR_APICBASE msrval) (
     seq (when1 (mode = APIC_MODE_XAPIC \<or> mode = APIC_MODE_X2APIC)
            (wrmsr MSR_APICBASE (msrval OR APICBASE_ENABLE))) (
     seq (when1 (mode = APIC_MODE_X2APIC)
            (wrmsr MSR_APICBASE (msrval OR APICBASE_ENABLE OR APICBASE_EXTD)))
     (set_apic_mode mode))))"

definition apic_init :: "apic_mode \<Rightarrow> ('z devices_scheme, int) prog" where
  "apic_init mode =
     seq (ASSERT (mode \<noteq> APIC_MODE_UNKNOWN \<and> mode \<noteq> APIC_MODE_NONE)
            ''mode > APIC_MODE_NONE'' ''arch/x86/apic.c'' 37) (
     bnd (fetch cur_apic_mode) (\<lambda>m0.
     seq (when1 (m0 = APIC_MODE_UNKNOWN) apic_probe) (
     bnd (fetch cur_apic_mode) (\<lambda>m1.
     bnd (fetch (cpu_has X86_FEATURE_X2APIC)) (\<lambda>x2.
     if m1 = APIC_MODE_NONE \<or> (mode = APIC_MODE_X2APIC \<and> \<not> x2) then ret (- ENODEV)
     else
       seq (when1 (mode \<noteq> m1) (apic_switch mode)) (
       seq (apic_write APIC_SPIV (APIC_SPIV_APIC_ENABLED OR 0xff))
       (ret 0)))))))"

section \<open>HPET\<close>

definition HPET_DEFAULT_BASE :: u64 where [xtf_consts]: "HPET_DEFAULT_BASE = 0xfed00000"
definition HPET_ID :: u32 where [xtf_consts]: "HPET_ID = 0"
definition HPET_ID_MAX_PERIOD :: u32 where [xtf_consts]: "HPET_ID_MAX_PERIOD = 0x05f5e100"
definition HPET_ID_NUMBER_MASK :: u64 where [xtf_consts]: "HPET_ID_NUMBER_MASK = 0x1f00"
definition HPET_CFG :: u32 where [xtf_consts]: "HPET_CFG = 0x10"
definition HPET_CFG_ENABLE :: u64 where [xtf_consts]: "HPET_CFG_ENABLE = 1"
definition HPET_COUNTER :: u32 where [xtf_consts]: "HPET_COUNTER = 0xf0"
definition HPET_Tn_CFG :: "u32 \<Rightarrow> u32" where "HPET_Tn_CFG n = 0x100 + n * 0x20"
definition HPET_Tn_CMP :: "u32 \<Rightarrow> u32" where "HPET_Tn_CMP n = 0x108 + n * 0x20"

definition hpet_read32 :: "u32 \<Rightarrow> ('z devices_scheme, u32) prog" where
  "hpet_read32 reg = bnd (mmio_read 32 (HPET_DEFAULT_BASE + ucast reg)) (\<lambda>v. ret (ucast v))"

definition hpet_read64 :: "u32 \<Rightarrow> ('z devices_scheme, u64) prog" where
  "hpet_read64 reg = mmio_read 64 (HPET_DEFAULT_BASE + ucast reg)"

definition hpet_write32 :: "u32 \<Rightarrow> u32 \<Rightarrow> ('z devices_scheme, unit) prog" where
  "hpet_write32 reg val = mmio_write 32 (HPET_DEFAULT_BASE + ucast reg) (ucast val)"

definition hpet_write64 :: "u32 \<Rightarrow> u64 \<Rightarrow> ('z devices_scheme, unit) prog" where
  "hpet_write64 reg val = mmio_write 64 (HPET_DEFAULT_BASE + ucast reg) val"

text \<open>The loop of \<open>hpet_read_counter\<close> in 32-bit builds, with fuel; without fuel it has not returned.\<close>

fun hpet_counter_loop :: "nat \<Rightarrow> ('z devices_scheme, u64) prog" where
  "hpet_counter_loop 0 = halt"
| "hpet_counter_loop (Suc n) =
     bnd (hpet_read32 (HPET_COUNTER + 4)) (\<lambda>hi.
     bnd (hpet_read32 HPET_COUNTER) (\<lambda>lo.
     bnd (hpet_read32 (HPET_COUNTER + 4)) (\<lambda>hi2.
     if hi \<noteq> hi2 then hpet_counter_loop n
     else ret (push_bit 32 (ucast hi) OR ucast lo))))"

definition hpet_read_counter :: "nat \<Rightarrow> ('z devices_scheme, u64) prog" where
  "hpet_read_counter fuel =
     bnd (config CONFIG_64BIT) (\<lambda>is64.
     if is64 then hpet_read64 HPET_COUNTER else hpet_counter_loop fuel)"

definition hpet_init :: "('z devices_scheme, int) prog" where
  "hpet_init =
     bnd (hpet_read64 HPET_ID) (\<lambda>idr.
     if idr = - 1 then ret (- ENODEV)
     else
       let period = ucast (drop_bit 32 idr) :: u32 in
       if period = 0 \<or> period > HPET_ID_MAX_PERIOD then ret (- ENODEV)
       else
         seq (update (\<lambda>s. s\<lparr>hpet_nr_timers := ucast (MASK_EXTR idr HPET_ID_NUMBER_MASK + 1)\<rparr>))
         (ret 0))"

text \<open>\<open>union hpet_timer\<close>: the bits of \<open>raw\<close>; \<open>irq\<close> is a field of five bits.\<close>

definition hpet_timer_raw :: "bool \<Rightarrow> bool \<Rightarrow> bool \<Rightarrow> bool \<Rightarrow> 5 word \<Rightarrow> u32" where
  "hpet_timer_raw level enabled periodic mode_32bit irq =
     push_bit 1 (of_bool level) OR push_bit 2 (of_bool enabled) OR push_bit 3 (of_bool periodic)
     OR push_bit 8 (of_bool mode_32bit) OR push_bit 9 (ucast irq)"

definition hpet_init_timer :: "u32 \<Rightarrow> u32 \<Rightarrow> u64 \<Rightarrow> bool \<Rightarrow> bool \<Rightarrow> bool \<Rightarrow> ('z devices_scheme, unit) prog" where
  "hpet_init_timer nr irq ticks level periodic mode32bit =
     (let raw = hpet_timer_raw level True periodic mode32bit (ucast irq) in
      bnd (hpet_read64 HPET_CFG) (\<lambda>cfg.
      block [hpet_write64 HPET_CFG (cfg AND NOT HPET_CFG_ENABLE),
             hpet_write64 HPET_COUNTER 0,
             hpet_write32 (HPET_Tn_CFG nr) raw,
             hpet_write64 (HPET_Tn_CMP nr) ticks,
             hpet_write64 HPET_CFG (cfg OR HPET_CFG_ENABLE)]))"

section \<open>IO-APIC\<close>

definition IOAPIC_DEFAULT_BASE :: u64 where [xtf_consts]: "IOAPIC_DEFAULT_BASE = 0xfec00000"
definition IOAPIC_REGSEL :: u64 where [xtf_consts]: "IOAPIC_REGSEL = 0x00"
definition IOAPIC_IOWIN :: u64 where [xtf_consts]: "IOAPIC_IOWIN = 0x10"
definition IOAPIC_ID :: u32 where [xtf_consts]: "IOAPIC_ID = 0"
definition IOAPIC_VERSION :: u32 where [xtf_consts]: "IOAPIC_VERSION = 1"
definition IOAPIC_MAXREDIR_MASK :: u32 where [xtf_consts]: "IOAPIC_MAXREDIR_MASK = 0xff0000"
definition IOAPIC_REDIR_ENTRY :: "u32 \<Rightarrow> u32" where "IOAPIC_REDIR_ENTRY n = 0x10 + n * 2"

definition ioapic_read32 :: "u32 \<Rightarrow> ('z devices_scheme, u32) prog" where
  "ioapic_read32 reg =
     seq (mmio_write 32 (IOAPIC_DEFAULT_BASE + IOAPIC_REGSEL) (ucast reg))
     (bnd (mmio_read 32 (IOAPIC_DEFAULT_BASE + IOAPIC_IOWIN)) (\<lambda>v. ret (ucast v)))"

definition ioapic_write32 :: "u32 \<Rightarrow> u32 \<Rightarrow> ('z devices_scheme, unit) prog" where
  "ioapic_write32 reg val =
     seq (mmio_write 32 (IOAPIC_DEFAULT_BASE + IOAPIC_REGSEL) (ucast reg))
     (mmio_write 32 (IOAPIC_DEFAULT_BASE + IOAPIC_IOWIN) (ucast val))"

definition ioapic_read64 :: "u32 \<Rightarrow> ('z devices_scheme, u64) prog" where
  "ioapic_read64 reg =
     bnd (ioapic_read32 reg) (\<lambda>lo.
     bnd (ioapic_read32 (reg + 1)) (\<lambda>hi. ret (ucast lo OR push_bit 32 (ucast hi))))"

definition ioapic_write64 :: "u32 \<Rightarrow> u64 \<Rightarrow> ('z devices_scheme, unit) prog" where
  "ioapic_write64 reg val =
     seq (ioapic_write32 reg (ucast val)) (ioapic_write32 (reg + 1) (ucast (drop_bit 32 val)))"

definition ioapic_init :: "('z devices_scheme, int) prog" where
  "ioapic_init =
     bnd (ioapic_read32 IOAPIC_ID) (\<lambda>idr.
     if idr = - 1 then ret (- ENODEV)
     else
       bnd (ioapic_read32 IOAPIC_VERSION) (\<lambda>v.
       seq (update (\<lambda>s. s\<lparr>nr_entries := MASK_EXTR v IOAPIC_MAXREDIR_MASK + 1\<rparr>)) (ret 0)))"

definition ioapic_set_mask :: "u32 \<Rightarrow> bool \<Rightarrow> ('z devices_scheme, int) prog" where
  "ioapic_set_mask entry msk =
     bnd (fetch nr_entries) (\<lambda>n.
     if entry \<ge> n then ret (- EINVAL)
     else
       bnd (ioapic_read32 (IOAPIC_REDIR_ENTRY entry)) (\<lambda>redir.
       let redir = redir AND NOT (push_bit 16 1);
           redir = (if msk then redir OR push_bit 16 1 else redir)
       in seq (ioapic_write32 (IOAPIC_REDIR_ENTRY entry) redir) (ret 0)))"

section \<open>The modes of the APIC\<close>

text \<open>
  The transitions of the base MSR that the architecture allows: x2APIC mode is only entered from
  xAPIC mode, and left only to the disabled state.
\<close>

inductive apic_step :: "apic_mode \<Rightarrow> apic_mode \<Rightarrow> bool" where
  disable: "m \<in> {APIC_MODE_DISABLED, APIC_MODE_XAPIC, APIC_MODE_X2APIC} \<Longrightarrow> apic_step m APIC_MODE_DISABLED"
| enable: "m \<in> {APIC_MODE_DISABLED, APIC_MODE_XAPIC} \<Longrightarrow> apic_step m APIC_MODE_XAPIC"
| extend: "m \<in> {APIC_MODE_XAPIC, APIC_MODE_X2APIC} \<Longrightarrow> apic_step m APIC_MODE_X2APIC"

code_pred apic_step .

inductive_simps apic_step_simps: "apic_step m m'"

fun apic_path :: "apic_mode \<Rightarrow> apic_mode list \<Rightarrow> bool" where
  "apic_path m [] = True"
| "apic_path m (x # xs) = (apic_step m x \<and> apic_path x xs)"

text \<open>The modes that the writes of a trace to the base MSR select.\<close>

fun apicbase_writes :: "ev list \<Rightarrow> apic_mode list" where
  "apicbase_writes [] = []"
| "apicbase_writes (Wrmsr i v # t) =
     (if i = MSR_APICBASE then apicbase_to_mode v # apicbase_writes t else apicbase_writes t)"
| "apicbase_writes (_ # t) = apicbase_writes t"

lemma mode_bits:
  "bit APICBASE_EXTD n \<longleftrightarrow> n = 10" "bit APICBASE_ENABLE n \<longleftrightarrow> n = 11"
  unfolding APICBASE_EXTD_def APICBASE_ENABLE_def bit_push_bit_iff by (auto simp: bit_1_iff)

lemma u64_eq_bits: "(x :: u64) = y \<longleftrightarrow> (\<forall>n < 64. bit x n = bit y n)"
  by (auto intro: bit_word_eqI)

lemma apicbase_to_mode_bits:
  "apicbase_to_mode v =
     (if bit v 11 then if bit v 10 then APIC_MODE_X2APIC else APIC_MODE_XAPIC
      else if bit v 10 then APIC_MODE_NONE else APIC_MODE_DISABLED)"
proof -
  have sel: "(\<forall>n<64. (bit v n \<and> (n = 10 \<or> n = 11)) = ((n = 10 \<and> a) \<or> (n = 11 \<and> b))) \<longleftrightarrow> bit v 10 = a \<and> bit v 11 = b"
    for a b
  proof
    assume *: "\<forall>n<64. (bit v n \<and> (n = 10 \<or> n = 11)) = ((n = 10 \<and> a) \<or> (n = 11 \<and> b))"
    show "bit v 10 = a \<and> bit v 11 = b"
      using * [rule_format, of 10] * [rule_format, of 11] by simp
  qed auto
  have "(v AND (APICBASE_EXTD OR APICBASE_ENABLE) = 0) = (\<not> bit v 10 \<and> \<not> bit v 11)"
    "(v AND (APICBASE_EXTD OR APICBASE_ENABLE) = APICBASE_ENABLE) = (\<not> bit v 10 \<and> bit v 11)"
    "(v AND (APICBASE_EXTD OR APICBASE_ENABLE) = APICBASE_EXTD OR APICBASE_ENABLE) = (bit v 10 \<and> bit v 11)"
    unfolding u64_eq_bits bit_and_iff bit_or_iff mode_bits
    using sel [of False False] sel [of False True] sel [of True True] by simp_all
  then show ?thesis by (auto simp: apicbase_to_mode_def)
qed

lemma bit_PAGE_MASK_10_11: "\<not> bit PAGE_MASK 10" "\<not> bit PAGE_MASK 11"
  by (simp_all add: bit_PAGE_MASK)

lemma bit_DEFAULT_BASE_10_11: "\<not> bit APIC_DEFAULT_BASE 10" "\<not> bit APIC_DEFAULT_BASE 11"
  by (simp_all add: APIC_DEFAULT_BASE_def)

lemma rebase_mode:
  "apicbase_to_mode ((v AND NOT PAGE_MASK) OR APIC_DEFAULT_BASE) = apicbase_to_mode v"
  by (simp add: apicbase_to_mode_bits bit_and_iff bit_or_iff bit_not_iff bit_PAGE_MASK_10_11
      bit_DEFAULT_BASE_10_11)

lemma switch_modes:
  "apicbase_to_mode (v AND NOT (APICBASE_EXTD OR APICBASE_ENABLE)) = APIC_MODE_DISABLED"
  "apicbase_to_mode (v AND NOT (APICBASE_EXTD OR APICBASE_ENABLE) OR APICBASE_ENABLE) = APIC_MODE_XAPIC"
  "apicbase_to_mode (v AND NOT (APICBASE_EXTD OR APICBASE_ENABLE) OR APICBASE_ENABLE OR APICBASE_EXTD)
     = APIC_MODE_X2APIC"
  by (simp_all add: apicbase_to_mode_bits bit_and_iff bit_or_iff bit_not_iff mode_bits)

lemma apicbase_writes_append: "apicbase_writes (t @ u) = apicbase_writes t @ apicbase_writes u"
  by (induction t rule: apicbase_writes.induct) auto

lemma MSR_APICBASE_valid: "MSR_APICBASE \<noteq> 0xffffffff"
  by (simp add: MSR_APICBASE_def)

text \<open>The switch: whatever the MSR held, the writes are a legal path to the requested mode.\<close>

lemma apic_switch_run:
  assumes "mode \<in> {APIC_MODE_DISABLED, APIC_MODE_XAPIC, APIC_MODE_X2APIC}"
    "apic_switch mode h s = Done () s1"
  obtains t where "trace s1 = trace s @ t" "cur_apic_mode s1 = mode"
    "apicbase_writes t = APIC_MODE_DISABLED #
       (if mode = APIC_MODE_DISABLED then [] else APIC_MODE_XAPIC # (if mode = APIC_MODE_XAPIC then [] else [mode]))"
proof -
  define off where "off v = v AND NOT (APICBASE_EXTD OR APICBASE_ENABLE)" for v
  note modes = switch_modes [folded off_def]
  obtain v where v: "hw_rdmsr h (trace s) MSR_APICBASE = Some v"
    using assms(2) by (auto simp: apic_switch_def io_simps split: option.splits)
  let ?t = "[Rdmsr MSR_APICBASE, Wrmsr MSR_APICBASE (off v)]"
  let ?x = "Wrmsr MSR_APICBASE (off v OR APICBASE_ENABLE)"
  let ?y = "Wrmsr MSR_APICBASE (off v OR APICBASE_ENABLE OR APICBASE_EXTD)"
  have run: "trace s1 = trace s @ ?t @ (if mode = APIC_MODE_DISABLED then []
      else if mode = APIC_MODE_XAPIC then [?x] else [?x, ?y])" "cur_apic_mode s1 = mode"
    using assms v unfolding apic_switch_def off_def [symmetric] Let_def
    by (auto simp: io_simps set_apic_mode_def split: if_splits)
  show thesis
    by (rule that [OF run]) (use assms(1) in \<open>auto simp: modes\<close>)
qed

lemma apic_switch_path:
  assumes "apic_switch mode h s = Done () s1" "mode \<in> {APIC_MODE_DISABLED, APIC_MODE_XAPIC, APIC_MODE_X2APIC}"
    "m \<in> {APIC_MODE_DISABLED, APIC_MODE_XAPIC, APIC_MODE_X2APIC}"
  shows "\<exists>t. trace s1 = trace s @ t \<and> apic_path m (apicbase_writes t) \<and> last (m # apicbase_writes t) = mode
     \<and> cur_apic_mode s1 = mode"
  by (rule apic_switch_run [OF assms(2,1)])
    (use assms(2,3) in \<open>auto simp: apic_step_simps\<close>)

lemma apic_write_trace:
  assumes "apic_write reg val h s = Done () s1"
  shows "\<exists>t. trace s1 = trace s @ t \<and> cur_apic_mode s1 = cur_apic_mode s
     \<and> (MSR_X2APIC_REGS + drop_bit 4 reg \<noteq> MSR_APICBASE \<longrightarrow> apicbase_writes t = [])"
  using assms
  by (auto simp: apic_write_def apic_mmio_write_def apic_msr_write_def io_simps split: if_splits)

lemma SPIV_msr: "MSR_X2APIC_REGS + drop_bit 4 APIC_SPIV \<noteq> MSR_APICBASE"
  by (simp add: xtf_consts)

section \<open>The HPET\<close>

lemma bit_hpet_timer_raw:
  "bit (hpet_timer_raw level enabled periodic mode_32bit irq) n \<longleftrightarrow>
     (n = 1 \<and> level) \<or> (n = 2 \<and> enabled) \<or> (n = 3 \<and> periodic) \<or> (n = 8 \<and> mode_32bit)
     \<or> (9 \<le> n \<and> n < 14 \<and> bit irq (n - 9))"
proof -
  have flag: "bit (push_bit m (of_bool b) :: u32) n \<longleftrightarrow> n = m \<and> b" if "m < 32" for m b
    using that by (cases b; cases "n = m") (simp_all only: of_bool_eq bit_push_bit_iff bit_1_iff bit_0_eq
        possible_bit_word, auto)
  have irq: "bit (push_bit 9 (ucast irq) :: u32) n \<longleftrightarrow> 9 \<le> n \<and> n < 14 \<and> bit irq (n - 9)"
    unfolding bit_push_bit_iff bit_ucast_iff possible_bit_word
    using bit_imp_le_length [of irq "n - 9"] by auto
  show ?thesis
    unfolding hpet_timer_raw_def bit_or_iff irq by (simp only: flag)
qed

section \<open>The IO-APIC\<close>

lemma redir_mask_bit:
  "x AND NOT (push_bit 16 1) OR push_bit 16 1 = set_bit 16 (x :: u32)"
  "x AND NOT (push_bit 16 1) = unset_bit 16 (x :: u32)"
proof -
  have b: "bit (push_bit 16 1 :: u32) n \<longleftrightarrow> n = 16" for n by (rule bit_push_bit_1_u32) simp
  show "x AND NOT (push_bit 16 1) OR push_bit 16 1 = set_bit 16 x"
    by (rule bit_word_eqI) (auto simp only: bit_and_iff bit_or_iff bit_not_iff b bit_set_bit_iff possible_bit_word)
  show "x AND NOT (push_bit 16 1) = unset_bit 16 x"
    by (rule bit_word_eqI) (auto simp only: bit_and_iff bit_not_iff b bit_unset_bit_iff possible_bit_word)
qed

lemma ioapic_set_mask_alt:
  "ioapic_set_mask entry msk =
     bnd (fetch nr_entries) (\<lambda>n.
     if entry \<ge> n then ret (- EINVAL)
     else
       bnd (ioapic_read32 (IOAPIC_REDIR_ENTRY entry)) (\<lambda>redir.
       seq (ioapic_write32 (IOAPIC_REDIR_ENTRY entry) (if msk then set_bit 16 redir else unset_bit 16 redir))
       (ret 0)))"
  unfolding ioapic_set_mask_def Let_def redir_mask_bit(1) [unfolded redir_mask_bit(2)] redir_mask_bit(2) ..

section \<open>Properties of the drivers\<close>

definition devices0 :: devices where [init_states]:
  "devices0 = cpu.extend cpu0 (devices.fields APIC_MODE_UNKNOWN 0 0)"

declare devices.defs [init_states]

text \<open>
  C30: a successful apic_init from a known mode drives MSR_APIC_BASE only along transitions that
  the architecture allows (disabled, xAPIC and x2APIC, never x2APIC straight to xAPIC nor disabled
  straight to x2APIC), and ends in the mode that was asked for.
\<close>

lemma apic_init_known:
  assumes "apic_init mode h s = Done 0 s1" "cur_apic_mode s \<in> {APIC_MODE_DISABLED, APIC_MODE_XAPIC, APIC_MODE_X2APIC}"
  shows "\<exists>t. trace s1 = trace s @ t \<and> cur_apic_mode s1 = mode
     \<and> apic_path (cur_apic_mode s) (apicbase_writes t)
     \<and> last (cur_apic_mode s # apicbase_writes t) = mode"
proof -
  let ?m = "cur_apic_mode s"
  have mode: "mode \<in> {APIC_MODE_DISABLED, APIC_MODE_XAPIC, APIC_MODE_X2APIC}"
    using assms(1) by (cases mode) (auto simp: apic_init_def io_simps ASSERT_def)
  have m: "?m \<noteq> APIC_MODE_UNKNOWN" "?m \<noteq> APIC_MODE_NONE" using assms(2) by auto
  define u where "u = (if mode \<noteq> ?m then apic_switch mode h s else Done () s)"
  have run: "apic_init mode h s =
      (if mode = APIC_MODE_X2APIC \<and> \<not> cpu_has X86_FEATURE_X2APIC s then Done (- ENODEV) s
       else case u of Done _ s2 \<Rightarrow>
              (case apic_write APIC_SPIV (APIC_SPIV_APIC_ENABLED OR 0xff) h s2 of
                 Done _ s3 \<Rightarrow> Done 0 s3 | Stop s3 \<Rightarrow> Stop s3)
            | Stop s2 \<Rightarrow> Stop s2)"
  proof -
    have ok: "(mode \<noteq> APIC_MODE_UNKNOWN \<and> mode \<noteq> APIC_MODE_NONE) = True" using mode by auto
    show ?thesis
      using m unfolding apic_init_def ok u_def
      by (cases "mode = ?m"; cases "mode = APIC_MODE_X2APIC") (simp_all add: io_simps split: outcome.split)
  qed
  obtain s2 where s2: "u = Done () s2"
      "apic_write APIC_SPIV (APIC_SPIV_APIC_ENABLED OR 0xff) h s2 = Done () s1"
    using assms(1) unfolding run by (auto simp: ENODEV_def split: if_splits outcome.splits)
  have "\<exists>t. trace s2 = trace s @ t \<and> apic_path ?m (apicbase_writes t) \<and> last (?m # apicbase_writes t) = mode
     \<and> cur_apic_mode s2 = mode"
  proof (cases "mode = ?m")
    case True
    then show ?thesis using s2(1) by (auto simp: u_def)
  next
    case False
    then show ?thesis using apic_switch_path [of mode h s s2 ?m] s2(1) mode assms(2) by (simp add: u_def)
  qed
  then obtain t where t: "trace s2 = trace s @ t" "apic_path ?m (apicbase_writes t)"
      "last (?m # apicbase_writes t) = mode" "cur_apic_mode s2 = mode" by blast
  obtain t2 where "trace s1 = trace s2 @ t2" "cur_apic_mode s1 = cur_apic_mode s2" "apicbase_writes t2 = []"
    using apic_write_trace [OF s2(2)] SPIV_msr by blast
  then show ?thesis
    using t by (intro exI [of _ "t @ t2"]) (simp add: apicbase_writes_append)
qed

theorem apic_init_known_witness:
  "\<exists>s1 t. apic_init APIC_MODE_XAPIC (accept_hw HVM64) (devices0\<lparr>cur_apic_mode := APIC_MODE_DISABLED\<rparr>) = Done 0 s1
     \<and> trace s1 = trace devices0 @ t \<and> apic_path APIC_MODE_DISABLED (apicbase_writes t)
     \<and> last (APIC_MODE_DISABLED # apicbase_writes t) = APIC_MODE_XAPIC"
proof -
  let ?s = "devices0\<lparr>cur_apic_mode := APIC_MODE_DISABLED\<rparr>"
  obtain s1 where run: "apic_init APIC_MODE_XAPIC (accept_hw HVM64) ?s = Done 0 s1"
    by (simp add: apic_init_def apic_switch_def apic_write_def apic_mmio_write_def set_apic_mode_def io_simps Let_def)
  obtain t where "trace s1 = trace ?s @ t" "apic_path (cur_apic_mode ?s) (apicbase_writes t)"
      "last (cur_apic_mode ?s # apicbase_writes t) = APIC_MODE_XAPIC"
    using apic_init_known [OF run] by auto
  then show ?thesis using run by (intro exI [of _ s1] exI [of _ t]) simp
qed

text \<open>
  \<open>apic_init\<close> accepts the mode disabled, and then, having disabled the APIC, still writes the
  spurious vector register through the x2APIC MSR 0x80f, an access that faults on a processor
  whose APIC is disabled.
\<close>

lemma apic_init_disabled_writes_msr:
  assumes "apic_init APIC_MODE_DISABLED h s = Done 0 s1"
    "cur_apic_mode s \<in> {APIC_MODE_DISABLED, APIC_MODE_XAPIC, APIC_MODE_X2APIC}"
  shows "last (trace s1) = Wrmsr 0x80f 0x1ff"
  using assms
  by (auto simp: apic_init_def apic_switch_def apic_write_def apic_msr_write_def io_simps Let_def
      set_apic_mode_def ENODEV_def APIC_SPIV_def APIC_SPIV_APIC_ENABLED_def MSR_X2APIC_REGS_def
      split: if_splits option.splits)

lemma apic_init_disabled_writes_msr_witness:
  "\<exists>s1. apic_init APIC_MODE_DISABLED (accept_hw HVM64) (devices0\<lparr>cur_apic_mode := APIC_MODE_DISABLED\<rparr>) = Done 0 s1
     \<and> last (trace s1) = Wrmsr 0x80f 0x1ff"
proof -
  let ?s = "devices0\<lparr>cur_apic_mode := APIC_MODE_DISABLED\<rparr>"
  obtain s1 where run: "apic_init APIC_MODE_DISABLED (accept_hw HVM64) ?s = Done 0 s1"
    by (simp add: apic_init_def apic_switch_def apic_write_def apic_msr_write_def set_apic_mode_def io_simps Let_def)
  from apic_init_disabled_writes_msr [OF run] show ?thesis using run by auto
qed

text \<open>
  Hpet_init_timer programs a timer while the counter is stopped: it reads the configuration,
  clears the enable bit, resets the counter, writes the timer's configuration and comparator, and
  only then sets the enable bit again, and it changes no other bit of the configuration.
\<close>

lemma hpet_init_timer_run:
  "hpet_init_timer nr irq ticks level periodic mode32bit h s =
     (let cfg = hw_mmio h (trace s) 64 0xfed00010 in
      Done () (s\<lparr>trace := trace s @
        [MmioRd 64 0xfed00010, MmioWr 64 0xfed00010 (cfg AND NOT 1), MmioWr 64 0xfed000f0 0,
         MmioWr 32 (0xfed00000 + ucast (0x100 + nr * 0x20))
           (ucast (hpet_timer_raw level True periodic mode32bit (ucast irq))),
         MmioWr 64 (0xfed00000 + ucast (0x108 + nr * 0x20)) ticks,
         MmioWr 64 0xfed00010 (cfg OR 1)]\<rparr>))"
proof -
  have "take_bit 64 (x :: u64) = x" for x by (rule bit_word_eqI) (simp add: bit_take_bit_iff)
  then show ?thesis
    by (simp add: hpet_init_timer_def hpet_read64_def hpet_write64_def hpet_write32_def io_simps xtf_consts
        HPET_Tn_CFG_def HPET_Tn_CMP_def Let_def)
qed

text \<open>
  Ioapic_set_mask changes only the mask bit of the redirection entry it is given, and refuses
  an entry beyond the ones the device reported with -EINVAL before touching the device.
\<close>

lemma ioapic_set_mask_run:
  "ioapic_set_mask entry msk h s =
     (if entry \<ge> nr_entries s then Done (- EINVAL) s
      else
        let t1 = trace s @ [MmioWr 32 0xfec00000 (ucast (0x10 + entry * 2))];
            redir = ucast (hw_mmio h t1 32 0xfec00010) :: u32;
            redir1 = (if msk then set_bit 16 redir else unset_bit 16 redir)
        in Done 0 (s\<lparr>trace := t1 @ [MmioRd 32 0xfec00010, MmioWr 32 0xfec00000 (ucast (0x10 + entry * 2)),
                                     MmioWr 32 0xfec00010 (ucast redir1)]\<rparr>))"
proof -
  have tb: "ucast (take_bit 32 (x :: u64)) = (ucast x :: u32)" for x
    by (rule bit_word_eqI) (simp add: bit_simps)
  show ?thesis
    unfolding ioapic_set_mask_alt ioapic_read32_def ioapic_write32_def
    by (simp add: io_simps tb Let_def IOAPIC_REDIR_ENTRY_def IOAPIC_DEFAULT_BASE_def
        IOAPIC_REGSEL_def IOAPIC_IOWIN_def del: set_bit_eq unset_bit_eq)
qed

end
