(* ===== verification/X86_Traps.thy ===== *)
theory X86_Traps imports
  X86_Tss
  X86_Devices
begin

text \<open>
  Exceptions: \<open>do_exception()\<close> of \<open>arch/x86/traps.c\<close>, the tables that route them there, set up by
  \<open>arch/x86/hvm/traps.c\<close> (the processor's tables) and \<open>arch/x86/pv/traps.c\<close> (hypercalls to Xen).
  The theorems: what happens to an exception, and that both environments route alike.
\<close>

section \<open>State\<close>

text \<open>
  \<open>ex_table\<close> is the memory between \<open>__start_ex_table\<close> and \<open>__stop_ex_table\<close>; \<open>idt\<close> and \<open>gdt\<close> are the
  tables in memory, \<open>l1_identmap\<close> the page table of the low memory of an HVM guest.
\<close>

record kernel = devices +
  ex_table :: "ex_handler extable_entry list"
  idt :: "env_gate list"
  gdt :: "user_desc list"
  l1_identmap :: "u64 list"
  exec_user_efl_and_mask :: u64
  exec_user_efl_or_mask :: u64

text \<open>The initial value: PV guests see the real interrupt flag, so it is masked.\<close>

definition X86_EFLAGS_IF :: u64 where [xtf_consts]: "X86_EFLAGS_IF = 0x200"

definition init_efl_and_mask :: "env \<Rightarrow> u64" where
  "init_efl_and_mask e = to_ulong e (NOT (if CONFIG_PV e then X86_EFLAGS_IF else 0))"

section \<open>The entry point for exceptions\<close>

definition X86_EXC_DE :: u32 where [xtf_consts]: "X86_EXC_DE = 0"
definition X86_EXC_DB :: u32 where [xtf_consts]: "X86_EXC_DB = 1"
definition X86_EXC_NMI :: u32 where [xtf_consts]: "X86_EXC_NMI = 2"
definition X86_EXC_BP :: u32 where [xtf_consts]: "X86_EXC_BP = 3"
definition X86_EXC_OF :: u32 where [xtf_consts]: "X86_EXC_OF = 4"
definition X86_EXC_BR :: u32 where [xtf_consts]: "X86_EXC_BR = 5"
definition X86_EXC_UD :: u32 where [xtf_consts]: "X86_EXC_UD = 6"
definition X86_EXC_NM :: u32 where [xtf_consts]: "X86_EXC_NM = 7"
definition X86_EXC_DF :: u32 where [xtf_consts]: "X86_EXC_DF = 8"
definition X86_EXC_TS :: u32 where [xtf_consts]: "X86_EXC_TS = 10"
definition X86_EXC_NP :: u32 where [xtf_consts]: "X86_EXC_NP = 11"
definition X86_EXC_SS :: u32 where [xtf_consts]: "X86_EXC_SS = 12"
definition X86_EXC_GP :: u32 where [xtf_consts]: "X86_EXC_GP = 13"
definition X86_EXC_PF :: u32 where [xtf_consts]: "X86_EXC_PF = 14"
definition X86_EXC_MF :: u32 where [xtf_consts]: "X86_EXC_MF = 16"
definition X86_EXC_AC :: u32 where [xtf_consts]: "X86_EXC_AC = 17"
definition X86_EXC_MC :: u32 where [xtf_consts]: "X86_EXC_MC = 18"
definition X86_EXC_XM :: u32 where [xtf_consts]: "X86_EXC_XM = 19"
definition X86_EXC_VE :: u32 where [xtf_consts]: "X86_EXC_VE = 20"
definition X86_VEC_RET2KERN :: u32 where [xtf_consts]: "X86_VEC_RET2KERN = 0x20"

text \<open>A test may replace \<open>do_unhandled_exception\<close>, which may also change the registers.\<close>

type_synonym 's exception_hook = "cpu_regs \<Rightarrow> ('s, bool \<times> cpu_regs) prog"

definition do_unhandled_exception :: "'s exception_hook" where
  "do_unhandled_exception regs = ret (False, regs)"

definition UNHANDLED_FMT :: string where
  "UNHANDLED_FMT = ''Unhandled exception at %04x:%p'' @ [LF] @ ''Vec %u %pe''"

text \<open>
  \<open>do_exception\<close>, which returns the registers it leaves. The search of the table reads one entry
  past its end for an address above every entry; \<open>stray\<close> is what the search then makes of the
  memory found there.
\<close>

definition do_exception ::
  "ex_handler extable_entry option \<Rightarrow> 'z kernel_scheme exception_hook \<Rightarrow> cpu_regs \<Rightarrow>
   ('z kernel_scheme, cpu_regs) prog" where
  "do_exception stray hook regs =
     bnd (fetch ex_table) (\<lambda>tbl.
     let found = (case search_extable tbl (regs_ip regs) of Some r \<Rightarrow> r | None \<Rightarrow> stray);
         (safe, regs) = (case found of
            None \<Rightarrow> (False, regs)
          | Some ex \<Rightarrow> (case handler ex of
              Some hnd \<Rightarrow> hnd regs (fixup ex)
            | None \<Rightarrow> (True, regs\<lparr>regs_ip := fixup ex\<rparr>)))
     in bnd (if \<not> safe then hook regs else ret (safe, regs)) (\<lambda>(safe, regs).
     if safe then ret regs
     else
       let exc = ucast (EXINFO (entry_vector regs) (error_code regs)) in
       if entry_vector regs = X86_EXC_PF then
         bnd (insn ''mov cr2'' []) (\<lambda>cr2.
         panic (UNHANDLED_FMT @ '' %%cr2 %p'' @ [LF])
           [VaInt (ucast (regs_cs regs)), VaPtr (regs_ip regs), VaInt (entry_vector regs),
            VaPtr exc, VaPtr (cr2 ! 0)])
       else
         panic (UNHANDLED_FMT @ [LF])
           [VaInt (ucast (regs_cs regs)), VaPtr (regs_ip regs), VaInt (entry_vector regs), VaPtr exc]))"

text \<open>The default entry points for system calls and event-channel upcalls.\<close>

definition do_syscall :: "cpu_regs \<Rightarrow> ('z machine_scheme, unit) prog" where
  "do_syscall regs = panic (''Unhandled syscall'' @ [LF]) []"

definition do_sysenter :: "cpu_regs \<Rightarrow> ('z machine_scheme, unit) prog" where
  "do_sysenter regs = panic (''Unhandled sysenter'' @ [LF]) []"

definition do_evtchn :: "cpu_regs \<Rightarrow> ('z machine_scheme, unit) prog" where
  "do_evtchn regs = panic (''Unhandled evtchn upcall'' @ [LF]) []"

section \<open>Traps of an HVM guest\<close>

record xtf_idte =
  idte_addr :: u64
  idte_cs :: u32
  idte_dpl :: u32

text \<open>A store to a table in memory; outside the table the run is undefined and ends here.\<close>

definition set_idt :: "u32 \<Rightarrow> env_gate \<Rightarrow> ('z kernel_scheme, unit) prog" where
  "set_idt vec g =
     bnd (fetch (\<lambda>s. length (idt s))) (\<lambda>n.
     if unat vec < n then update (\<lambda>s. s\<lparr>idt := (idt s)[unat vec := g]\<rparr>) else halt)"

definition idt_intr_gate :: "u32 \<Rightarrow> u32 \<Rightarrow> u64 \<Rightarrow> u32 \<Rightarrow> u32 \<Rightarrow> ('z kernel_scheme, unit) prog" where
  "idt_intr_gate vec sel offset dpl other =
     bnd (config id) (\<lambda>e. set_idt vec (pack_intr_gate e sel offset dpl other))"

definition hvm_set_idte :: "u32 \<Rightarrow> xtf_idte \<Rightarrow> ('z kernel_scheme, int) prog" where
  "hvm_set_idte vec idte =
     seq (idt_intr_gate vec (idte_cs idte) (idte_addr idte) (idte_dpl idte) 0) (ret 0)"

text \<open>\<open>pack_tss_desc(&gdt[n], t)\<close>, which fills the slot after it too in 64-bit builds.\<close>

definition gdt_tss_desc :: "nat \<Rightarrow> u64 \<Rightarrow> ('z kernel_scheme, unit) prog" where
  "gdt_tss_desc n t =
     bnd (config id) (\<lambda>e.
     update (\<lambda>s. let (d0, d1) = pack_tss_desc e t (gdt s ! Suc n)
                  in s\<lparr>gdt := (gdt s)[n := d0, Suc n := d1]\<rparr>))"

function remap_user :: "nat \<Rightarrow> nat \<Rightarrow> ('z kernel_scheme, unit) prog" where
  "remap_user start_gfn end_gfn =
     (if start_gfn < end_gfn then
        bnd (fetch (\<lambda>s. length (l1_identmap s))) (\<lambda>n.
        if start_gfn < n then
          seq (update (\<lambda>s. s\<lparr>l1_identmap := (l1_identmap s)[start_gfn := l1_identmap s ! start_gfn OR PAGE_USER]\<rparr>))
          (remap_user (Suc start_gfn) end_gfn)
        else halt)
      else ret ())"
  by pat_completeness auto
termination
  by (relation "measure (\<lambda>(a, b). b - a)") auto

declare remap_user.simps [simp del]

text \<open>The gates, in the order in which \<open>arch_init_traps\<close> packs them: vector, entry point, privilege.\<close>

definition trap_gates :: "(u32 \<times> string \<times> u32) list" where
  "trap_gates =
     [(X86_EXC_DE, ''entry_DE'', 0), (X86_EXC_DB, ''entry_DB'', 0), (X86_EXC_NMI, ''entry_NMI'', 0),
      (X86_EXC_BP, ''entry_BP'', 3), (X86_EXC_OF, ''entry_OF'', 3), (X86_EXC_BR, ''entry_BR'', 0),
      (X86_EXC_UD, ''entry_UD'', 0), (X86_EXC_NM, ''entry_NM'', 0), (X86_EXC_TS, ''entry_TS'', 0),
      (X86_EXC_NP, ''entry_NP'', 0), (X86_EXC_SS, ''entry_SS'', 0), (X86_EXC_GP, ''entry_GP'', 0),
      (X86_EXC_PF, ''entry_PF'', 0), (X86_EXC_MF, ''entry_MF'', 0), (X86_EXC_AC, ''entry_AC'', 0),
      (X86_EXC_MC, ''entry_MC'', 0), (X86_EXC_XM, ''entry_XM'', 0), (X86_EXC_VE, ''entry_VE'', 0)]"

definition hvm_remap_range :: "linkage \<Rightarrow> string \<Rightarrow> string \<Rightarrow> ('z kernel_scheme, unit) prog" where
  "hvm_remap_range lnk a b =
     remap_user (unat (ucast (virt_to_pfn (lnk a)) :: u32)) (unat (ucast (virt_to_pfn (lnk b)) :: u32))"

definition hvm_init_traps :: "linkage \<Rightarrow> ('z kernel_scheme, unit) prog" where
  "hvm_init_traps lnk =
     bnd (config id) (\<lambda>e.
     block
       (map (\<lambda>(vec, entry, dpl). idt_intr_gate vec (KERN_CS e) (lnk entry) dpl 0) trap_gates @
        [if \<not> CONFIG_64BIT e
         then seq (gdt_tss_desc GDTE_TSS_DF (lnk ''tss_DF''))
                  (set_idt X86_EXC_DF (pack_task_gate e (of_nat GDTE_TSS_DF * 8)))
         else idt_intr_gate X86_EXC_DF (KERN_CS e) (lnk ''entry_DF'') 0 1,
         idt_intr_gate X86_VEC_RET2KERN (KERN_CS e) (lnk ''entry_ret_to_kernel'') 3 0,
         emit (Insn ''lidt'' [256 * (if CONFIG_64BIT e then 16 else 8) - 1, lnk ''idt'']),
         gdt_tss_desc GDTE_TSS (lnk ''tss''),
         emit (Insn ''ltr'' [of_nat GDTE_TSS * 8]),
         hvm_remap_range lnk ''__start_user_text'' ''__end_user_text'',
         hvm_remap_range lnk ''__start_user_data'' ''__end_user_data'',
         hvm_remap_range lnk ''__start_user_bss'' ''__end_user_bss'']))"

section \<open>Traps of a PV guest\<close>

text \<open>\<open>struct xen_trap_info\<close>: vector, flags, cs, address.\<close>

type_synonym trap_info = "u8 \<times> u8 \<times> u16 \<times> u64"

definition pv_default_trap_info :: "env \<Rightarrow> linkage \<Rightarrow> trap_info list" where
  "pv_default_trap_info e lnk =
     (let cs = ucast (KERN_CS e) in
      [(ucast X86_EXC_DE, 0 OR 4, cs, lnk ''entry_DE''), (ucast X86_EXC_DB, 0 OR 4, cs, lnk ''entry_DB''),
       (ucast X86_EXC_NMI, 0 OR 4, cs, lnk ''entry_NMI''), (ucast X86_EXC_BP, 3 OR 4, cs, lnk ''entry_BP''),
       (ucast X86_EXC_OF, 3 OR 4, cs, lnk ''entry_OF''), (ucast X86_EXC_BR, 0 OR 4, cs, lnk ''entry_BR''),
       (ucast X86_EXC_UD, 0 OR 4, cs, lnk ''entry_UD''), (ucast X86_EXC_NM, 0 OR 4, cs, lnk ''entry_NM''),
       (ucast X86_EXC_DF, 0 OR 4, cs, lnk ''entry_DF''), (ucast X86_EXC_TS, 0 OR 4, cs, lnk ''entry_TS''),
       (ucast X86_EXC_NP, 0 OR 4, cs, lnk ''entry_NP''), (ucast X86_EXC_SS, 0 OR 4, cs, lnk ''entry_SS''),
       (ucast X86_EXC_GP, 0 OR 4, cs, lnk ''entry_GP''), (ucast X86_EXC_PF, 0 OR 4, cs, lnk ''entry_PF''),
       (ucast X86_EXC_MF, 0 OR 4, cs, lnk ''entry_MF''), (ucast X86_EXC_AC, 0 OR 4, cs, lnk ''entry_AC''),
       (ucast X86_EXC_MC, 0 OR 4, cs, lnk ''entry_MC''), (ucast X86_EXC_XM, 0 OR 4, cs, lnk ''entry_XM''),
       (ucast X86_EXC_VE, 0 OR 4, cs, lnk ''entry_VE''),
       (ucast X86_VEC_RET2KERN, 3 OR 4, cs, lnk ''entry_ret_to_kernel''),
       (0, 0, 0, 0)])"

definition trap_info_words :: "trap_info list \<Rightarrow> u64 list" where
  "trap_info_words ti = concat (map (\<lambda>(vec, flags, cs, addr). [ucast vec, ucast flags, ucast cs, addr]) ti)"

definition pv_set_idte :: "u32 \<Rightarrow> xtf_idte \<Rightarrow> ('z kernel_scheme, int) prog" where
  "pv_set_idte vec idte =
     hypercall_set_trap_table
       (trap_info_words [(ucast vec, ucast (idte_dpl idte OR 4), ucast (idte_cs idte), idte_addr idte), (0, 0, 0, 0)])"

definition xtf_set_idte :: "u32 \<Rightarrow> xtf_idte \<Rightarrow> ('z kernel_scheme, int) prog" where
  "xtf_set_idte vec idte =
     bnd (config CONFIG_PV) (\<lambda>pv. if pv then pv_set_idte vec idte else hvm_set_idte vec idte)"

definition UVMF_INVLPG :: u64 where [xtf_consts]: "UVMF_INVLPG = 2"

text \<open>\<open>p2m\<close> is the physical-to-machine list, memory that the domain builder fills.\<close>

definition remap_linear :: "(u64 \<Rightarrow> u64) \<Rightarrow> u64 \<Rightarrow> u64 \<Rightarrow> ('z kernel_scheme, int) prog" where
  "remap_linear p2m linear flags =
     bnd (config id) (\<lambda>e.
     hypercall_update_va_mapping e linear (pte_from_virt e p2m linear flags) UVMF_INVLPG)"

text \<open>The loop of \<open>remap_linear_range\<close>, with fuel for the pages: without fuel it has not returned.\<close>

fun remap_linear_range ::
  "nat \<Rightarrow> (u64 \<Rightarrow> u64) \<Rightarrow> u64 \<Rightarrow> u64 \<Rightarrow> u64 \<Rightarrow> int \<Rightarrow> ('z kernel_scheme, int) prog" where
  "remap_linear_range 0 p2m start stop flags rc = (if \<not> (rc = 0 \<and> start < stop) then ret rc else halt)"
| "remap_linear_range (Suc fuel) p2m start stop flags rc =
     (if \<not> (rc = 0 \<and> start < stop) then ret rc
      else bnd (remap_linear p2m start flags) (\<lambda>rc.
           remap_linear_range fuel p2m (start + PAGE_SIZE) stop flags rc))"

text \<open>\<open>xen_callback_register_t\<close>: type, flags, and the address (in 32-bit builds cs and eip).\<close>

definition xen_callback :: "env \<Rightarrow> u64 \<Rightarrow> u64 \<Rightarrow> u64 \<Rightarrow> u64 list" where
  "xen_callback e ty flags addr =
     (if CONFIG_64BIT e then [ty, flags, addr] else [ty, flags, ucast (KERN_CS e), addr])"

definition pv_callbacks :: "env \<Rightarrow> linkage \<Rightarrow> u64 list list" where
  "pv_callbacks e lnk =
     [xen_callback e 0 0 (lnk ''entry_EVTCHN'')] @
     (if CONFIG_64BIT e then [xen_callback e 2 1 (lnk ''entry_SYSCALL'')] else []) @
     [xen_callback e 7 1 (lnk ''entry_SYSCALL''), xen_callback e 5 1 (lnk ''entry_SYSENTER'')]"

fun register_callbacks :: "u32 \<Rightarrow> u64 list list \<Rightarrow> ('z kernel_scheme, unit) prog" where
  "register_callbacks i [] = ret ()"
| "register_callbacks i (cb # cbs) =
     bnd (hypercall_register_callback cb) (\<lambda>rc.
     if rc \<noteq> 0 then panic (''Failed to register callback[%u]: %d'' @ [LF]) [VaInt i, VaInt (of_int rc)]
     else register_callbacks (i + 1) cbs)"

definition init_callbacks :: "linkage \<Rightarrow> ('z kernel_scheme, unit) prog" where
  "init_callbacks lnk =
     bnd (config id) (\<lambda>e.
     bnd (hypercall_set_trap_table (trap_info_words (pv_default_trap_info e lnk))) (\<lambda>rc.
     seq (when1 (rc \<noteq> 0) (panic (''Failed to set trap table: %d'' @ [LF]) [VaInt (of_int rc)]))
     (register_callbacks 0 (pv_callbacks e lnk))))"

text \<open>The \<open>rc = ...; if ( rc ) panic(...)\<close> of the set-up code.\<close>

definition or_panic :: "string \<Rightarrow> ('z machine_scheme, int) prog \<Rightarrow> ('z machine_scheme, unit) prog" where
  "or_panic fmt call = bnd call (\<lambda>rc. when1 (rc \<noteq> 0) (panic (fmt @ [LF]) [VaInt (of_int rc)]))"

definition pv_init_traps :: "nat \<Rightarrow> linkage \<Rightarrow> (u64 \<Rightarrow> u64) \<Rightarrow> ('z kernel_scheme, unit) prog" where
  "pv_init_traps fuel lnk p2m =
     seq (init_callbacks lnk) (
     bnd (config id) (\<lambda>e.
     bnd (remap_linear p2m (lnk ''gdt'') (PAGE_AD OR PAGE_PRESENT)) (\<lambda>rc.
     seq (when1 (rc \<noteq> 0) (panic (''Unable to remap gdt[] as read-only'' @ [LF]) [])) (
     seq (or_panic ''Failed to set gdt: %d''
            (hypercall_set_gdt [virt_to_mfn p2m (lnk ''gdt'')] (of_nat NR_GDT_ENTRIES))) (
     seq (or_panic ''Failed to set kernel stack: %d''
            (hypercall_stack_switch (ucast (KERN_DS e)) (lnk ''boot_stack'' + 2 * PAGE_SIZE))) (
     seq (block (map (\<lambda>r. emit (Insn r [ucast (USER_DS e)])) [''mov ds'', ''mov es'', ''mov fs'', ''mov gs''])) (
     seq (if CONFIG_64BIT e
          then bnd (insn ''mov cr3'' []) (\<lambda>cr3.
               or_panic ''Failed to set user %%cr3: %d''
                 (hypercall_mmuext_op [15, drop_bit PAGE_SHIFT (cr3 ! 0)] 1 DOMID_SELF))
          else block (map (\<lambda>(a, b).
                 void (remap_linear_range fuel p2m (lnk a) (lnk b) (PAGE_AD OR PAGE_USER OR PAGE_RW OR PAGE_PRESENT) 0))
                 [(''__start_user_text'', ''__end_user_text''), (''__start_user_data'', ''__end_user_data''),
                  (''__start_user_bss'', ''__end_user_bss'')]))
     (or_panic ''Failed to unmap page at NULL: %d'' (hypercall_update_va_mapping e 0 0 UVMF_INVLPG)))))))))"

definition arch_init_traps :: "nat \<Rightarrow> linkage \<Rightarrow> (u64 \<Rightarrow> u64) \<Rightarrow> ('z kernel_scheme, unit) prog" where
  "arch_init_traps fuel lnk p2m =
     bnd (config CONFIG_PV) (\<lambda>pv. if pv then pv_init_traps fuel lnk p2m else hvm_init_traps lnk)"

section \<open>What happens to an exception\<close>

lemma search_extable_entry:
  assumes "sorted (map fault tbl)" "distinct (map fault tbl)" "ex \<in> set tbl"
  shows "search_extable tbl (fault ex) = Some (Some ex)"
proof -
  obtain r where r: "search_extable tbl (fault ex) = Some r" "search_result tbl (fault ex) r"
    using search_extable_inside [OF assms(1), of "fault ex"] assms(3) by blast
  have "inj_on fault (set tbl)" using assms(2) by (simp add: distinct_map)
  then show ?thesis
    using r assms(3) by (auto simp: search_result_def inj_on_eq_iff split: option.splits)
qed

lemma search_extable_absent:
  assumes "sorted (map fault tbl)" "\<forall>ex \<in> set tbl. fault ex \<noteq> addr"
  shows "search_extable tbl addr \<in> {None, Some None}"
proof (cases "\<exists>ex \<in> set tbl. addr \<le> fault ex")
  case True
  then obtain r where "search_extable tbl addr = Some r" "search_result tbl addr r"
    using search_extable_inside [OF assms(1) True] by blast
  then show ?thesis using assms(2) by (auto simp: search_result_def split: option.splits)
next
  case False
  then have "\<forall>ex \<in> set tbl. fault ex < addr" by (auto simp: not_le)
  then show ?thesis by (simp add: search_extable_outside)
qed

lemma do_exception_fixup:
  assumes "sorted (map fault (ex_table s))" "distinct (map fault (ex_table s))"
    and "ex \<in> set (ex_table s)" "fault ex = regs_ip regs" "handler ex = None"
  shows "do_exception stray hook regs h s = Done (regs\<lparr>regs_ip := fixup ex\<rparr>) s"
  using search_extable_entry [OF assms(1-3)] assms(4,5)
  by (simp add: do_exception_def io_simps Let_def)

lemma do_exception_handler:
  assumes "sorted (map fault (ex_table s))" "distinct (map fault (ex_table s))"
    and "ex \<in> set (ex_table s)" "fault ex = regs_ip regs" "handler ex = Some hnd"
    and "hnd regs (fixup ex) = (True, regs1)"
  shows "do_exception stray hook regs h s = Done regs1 s"
  using search_extable_entry [OF assms(1-3)] assms(4-)
  by (simp add: do_exception_def io_simps Let_def)

text \<open>A faulting guarded \<open>rdmsr\<close> resumes at its fixup, with the register set that \<open>rdmsr_safe\<close> decides from.\<close>

lemma do_exception_rdmsr:
  assumes "sorted (map fault (ex_table s))" "distinct (map fault (ex_table s))"
    and "ex \<in> set (ex_table s)" "fault ex = regs_ip regs" "handler ex = Some ex_rdmsr_safe"
  shows "\<exists>regs1. do_exception stray hook regs h s = Done regs1 s
     \<and> regs_ip regs1 = fixup ex \<and> ucast (regs_cx regs1) = (0xffffffff :: u32)
     \<and> regs_ax regs1 = 0 \<and> regs_dx regs1 = 0"
  using do_exception_handler [OF assms, of _ stray hook h] by (simp add: ex_rdmsr_safe_def)

lemma do_exception_unhandled:
  assumes "sorted (map fault (ex_table s))" "\<forall>ex \<in> set (ex_table s). fault ex \<noteq> regs_ip regs"
    and "entry_vector regs \<noteq> X86_EXC_PF"
  shows "do_exception None do_unhandled_exception regs h s =
     Stop (s\<lparr>trace := trace s @ panic_events (hw_env h) (UNHANDLED_FMT @ [LF])
       [VaInt (ucast (regs_cs regs)), VaPtr (regs_ip regs), VaInt (entry_vector regs),
        VaPtr (ucast (EXINFO (entry_vector regs) (error_code regs)))]\<rparr>)"
  using search_extable_absent [OF assms(1,2)] assms(3)
  by (auto simp: do_exception_def io_simps Let_def do_unhandled_exception_def)

lemma do_exception_unhandled_PF:
  assumes "sorted (map fault (ex_table s))" "\<forall>ex \<in> set (ex_table s). fault ex \<noteq> regs_ip regs"
    and "entry_vector regs = X86_EXC_PF" "hw_insn h (trace s) ''mov cr2'' [] = Some [cr2]"
  shows "do_exception None do_unhandled_exception regs h s =
     Stop (s\<lparr>trace := trace s @ [Insn ''mov cr2'' []] @
       panic_events (hw_env h) (UNHANDLED_FMT @ '' %%cr2 %p'' @ [LF])
       [VaInt (ucast (regs_cs regs)), VaPtr (regs_ip regs), VaInt (entry_vector regs),
        VaPtr (ucast (EXINFO (entry_vector regs) (error_code regs))), VaPtr cr2]\<rparr>)"
  using search_extable_absent [OF assms(1,2)] assms(3,4)
  by (auto simp: do_exception_def io_simps Let_def do_unhandled_exception_def)

lemma do_exception_hook:
  assumes "sorted (map fault (ex_table s))" "\<forall>ex \<in> set (ex_table s). fault ex \<noteq> regs_ip regs"
    and "hook regs h s = Done (True, regs1) s1"
  shows "do_exception None hook regs h s = Done regs1 s1"
  using search_extable_absent [OF assms(1,2)] assms(3)
  by (auto simp: do_exception_def io_simps Let_def)

section \<open>The tables of an HVM guest\<close>

lemma set_idt_run:
  "unat vec < length (idt s) \<Longrightarrow> set_idt vec g h s = Done () (s\<lparr>idt := (idt s)[unat vec := g]\<rparr>)"
  by (simp add: set_idt_def io_simps)

lemma idt_intr_gate_run:
  "unat vec < length (idt s) \<Longrightarrow>
   idt_intr_gate vec sel offset dpl other h s =
     Done () (s\<lparr>idt := (idt s)[unat vec := pack_intr_gate (hw_env h) sel offset dpl other]\<rparr>)"
  by (simp add: idt_intr_gate_def io_simps set_idt_run)

definition pack_gates :: "env \<Rightarrow> linkage \<Rightarrow> (u32 \<times> string \<times> u32) list \<Rightarrow> env_gate list \<Rightarrow> env_gate list" where
  "pack_gates e lnk gates tbl =
     foldl (\<lambda>tbl (vec, entry, dpl). tbl[unat vec := pack_intr_gate e (KERN_CS e) (lnk entry) dpl 0]) tbl gates"

lemma length_pack_gates [simp]: "length (pack_gates e lnk gates tbl) = length tbl"
  unfolding pack_gates_def by (induction gates arbitrary: tbl) (auto split: prod.split)

lemma idt_gates_run:
  fixes s :: "'z kernel_scheme"
  assumes "\<forall>(vec, entry, dpl) \<in> set gates. unat vec < length (idt s)" "e = hw_env h"
  shows "block (map (\<lambda>(vec, entry, dpl). idt_intr_gate vec (KERN_CS e) (lnk entry) dpl 0) gates) h s =
     Done () (s\<lparr>idt := pack_gates e lnk gates (idt s)\<rparr>)"
  using assms
proof (induction gates arbitrary: s)
  case Nil
  show ?case by (cases s) (simp add: io_simps pack_gates_def)
next
  case (Cons g gates)
  obtain vec entry dpl where g: "g = (vec, entry, dpl)" by (cases g)
  let ?s = "s\<lparr>idt := (idt s)[unat vec := pack_intr_gate e (KERN_CS e) (lnk entry) dpl 0]\<rparr>"
  have "block (map (\<lambda>(vec, entry, dpl). idt_intr_gate vec (KERN_CS e) (lnk entry) dpl 0) gates) h ?s =
      Done () (?s\<lparr>idt := pack_gates e lnk gates (idt ?s)\<rparr>)"
    by (rule Cons.IH) (use Cons.prems in auto)
  then show ?case
    using Cons.prems by (simp add: g io_simps idt_intr_gate_run pack_gates_def)
qed

lemma pack_gates_nth:
  assumes "distinct (map (unat \<circ> fst) gates)" "(vec, entry, dpl) \<in> set gates" "unat vec < length tbl"
  shows "pack_gates e lnk gates tbl ! unat vec = pack_intr_gate e (KERN_CS e) (lnk entry) dpl 0"
  using assms
proof (induction gates rule: rev_induct)
  case (snoc g gates)
  obtain v en d where g: "g = (v, en, d)" by (cases g)
  have len: "length (pack_gates e lnk gates tbl) = length tbl" by simp
  show ?case
  proof (cases "(vec, entry, dpl) = g")
    case True
    then show ?thesis using snoc.prems(3) len by (simp add: pack_gates_def g)
  next
    case False
    then have mem: "(vec, entry, dpl) \<in> set gates" using snoc.prems(2) by auto
    then have "unat v \<noteq> unat vec" using snoc.prems(1) g by (force simp: image_iff)
    then show ?thesis
      using snoc.IH snoc.prems mem by (simp add: pack_gates_def g)
  qed
qed simp

lemma pack_gates_other:
  "i \<notin> (unat \<circ> fst) ` set gates \<Longrightarrow> pack_gates e lnk gates tbl ! i = tbl ! i"
  unfolding pack_gates_def by (induction gates arbitrary: tbl) (auto split: prod.split)

definition mark_user :: "nat \<Rightarrow> nat \<Rightarrow> u64 list \<Rightarrow> u64 list" where
  "mark_user a b ptes = map (\<lambda>i. if a \<le> i \<and> i < b then ptes ! i OR PAGE_USER else ptes ! i) [0..<length ptes]"

lemma length_mark_user [simp]: "length (mark_user a b ptes) = length ptes"
  by (simp add: mark_user_def)

lemma nth_mark_user:
  "i < length ptes \<Longrightarrow> mark_user a b ptes ! i = (if a \<le> i \<and> i < b then ptes ! i OR PAGE_USER else ptes ! i)"
  by (simp add: mark_user_def)

lemma mark_user_step:
  "a < b \<Longrightarrow> a < length ptes \<Longrightarrow>
   mark_user (Suc a) b (ptes[a := ptes ! a OR PAGE_USER]) = mark_user a b ptes"
  by (rule nth_equalityI) (auto simp: nth_mark_user nth_list_update)

lemma remap_user_run:
  fixes s :: "'z kernel_scheme"
  assumes "b \<le> length (l1_identmap s)"
  shows "remap_user a b h s = Done () (s\<lparr>l1_identmap := mark_user a b (l1_identmap s)\<rparr>)"
  using assms
proof (induction a b arbitrary: s rule: remap_user.induct)
  case (1 a b)
  show ?case
  proof (cases "a < b")
    case False
    have "mark_user a b (l1_identmap s) = l1_identmap s"
      using False by (intro nth_equalityI) (auto simp: nth_mark_user)
    then show ?thesis using False by (subst remap_user.simps) (simp add: io_simps)
  next
    case True
    have lt: "a < length (l1_identmap s)" using True 1(2) by linarith
    let ?s = "s\<lparr>l1_identmap := (l1_identmap s)[a := l1_identmap s ! a OR PAGE_USER]\<rparr>"
    have "remap_user (Suc a) b h ?s = Done () (?s\<lparr>l1_identmap := mark_user (Suc a) b (l1_identmap ?s)\<rparr>)"
      by (rule 1(1) [OF True lt]) (use 1(2) in simp)
    then show ?thesis
      using True lt by (subst remap_user.simps) (simp add: io_simps mark_user_step)
  qed
qed

text \<open>The tables that \<open>arch_init_traps\<close> leaves.\<close>

definition hvm_idt :: "env \<Rightarrow> linkage \<Rightarrow> env_gate list \<Rightarrow> env_gate list" where
  "hvm_idt e lnk tbl =
     (pack_gates e lnk trap_gates tbl)
       [unat X86_EXC_DF := (if \<not> CONFIG_64BIT e then pack_task_gate e (of_nat GDTE_TSS_DF * 8)
                            else pack_intr_gate e (KERN_CS e) (lnk ''entry_DF'') 0 1),
        unat X86_VEC_RET2KERN := pack_intr_gate e (KERN_CS e) (lnk ''entry_ret_to_kernel'') 3 0]"

definition put_tss :: "env \<Rightarrow> nat \<Rightarrow> u64 \<Rightarrow> user_desc list \<Rightarrow> user_desc list" where
  "put_tss e n t tbl = (let (d0, d1) = pack_tss_desc e t (tbl ! Suc n) in tbl[n := d0, Suc n := d1])"

definition hvm_gdt :: "env \<Rightarrow> linkage \<Rightarrow> user_desc list \<Rightarrow> user_desc list" where
  "hvm_gdt e lnk tbl =
     put_tss e GDTE_TSS (lnk ''tss'')
       (if \<not> CONFIG_64BIT e then put_tss e GDTE_TSS_DF (lnk ''tss_DF'') tbl else tbl)"

definition page_of :: "linkage \<Rightarrow> string \<Rightarrow> nat" where
  "page_of lnk a = unat (ucast (virt_to_pfn (lnk a)) :: u32)"

definition user_sections :: "(string \<times> string) list" where
  "user_sections =
     [(''__start_user_text'', ''__end_user_text''), (''__start_user_data'', ''__end_user_data''),
      (''__start_user_bss'', ''__end_user_bss'')]"

definition hvm_l1 :: "linkage \<Rightarrow> u64 list \<Rightarrow> u64 list" where
  "hvm_l1 lnk ptes = foldl (\<lambda>ptes (a, b). mark_user (page_of lnk a) (page_of lnk b) ptes) ptes user_sections"

lemma gdt_tss_desc_run:
  "gdt_tss_desc n t h s = Done () (s\<lparr>gdt := put_tss (hw_env h) n t (gdt s)\<rparr>)"
  by (simp add: gdt_tss_desc_def io_simps put_tss_def Let_def split: prod.split)

lemma trap_gates_vectors: "map (unat \<circ> fst) trap_gates = [0..<8] @ [10..<15] @ [16..<21]"
  by (simp add: trap_gates_def xtf_consts upt_rec)

lemma trap_gates_below: "length tbl = 256 \<Longrightarrow> \<forall>(vec, entry, dpl) \<in> set trap_gates. unat vec < length tbl"
  by (simp add: trap_gates_def xtf_consts)

lemma hvm_init_traps_run:
  assumes "length (idt s) = 256" "\<forall>(a, b) \<in> set user_sections. page_of lnk b \<le> length (l1_identmap s)"
    and e: "e = hw_env h"
  shows "hvm_init_traps lnk h s =
     Done () (s\<lparr>idt := hvm_idt e lnk (idt s), gdt := hvm_gdt e lnk (gdt s),
                l1_identmap := hvm_l1 lnk (l1_identmap s),
                trace := trace s @ [Insn ''lidt'' [256 * (if CONFIG_64BIT e then 16 else 8) - 1, lnk ''idt''],
                                    Insn ''ltr'' [of_nat GDTE_TSS * 8]]\<rparr>)"
proof -
  let ?s = "s\<lparr>idt := pack_gates e lnk trap_gates (idt s)\<rparr>"
  have gates: "block (map (\<lambda>(vec, entry, dpl). idt_intr_gate vec (KERN_CS e) (lnk entry) dpl 0) trap_gates) h s =
      Done () ?s"
    by (rule idt_gates_run [OF trap_gates_below [OF assms(1)] e])
  have vecs: "unat X86_EXC_DF < 256" "unat X86_VEC_RET2KERN < 256" by (simp_all add: xtf_consts)
  have ends: "page_of lnk ''__end_user_text'' \<le> length (l1_identmap s)"
    "page_of lnk ''__end_user_data'' \<le> length (l1_identmap s)"
    "page_of lnk ''__end_user_bss'' \<le> length (l1_identmap s)"
    using assms(2) by (simp_all add: user_sections_def)
  have range: "hvm_remap_range lnk a b h r = Done () (r\<lparr>l1_identmap := mark_user (page_of lnk a) (page_of lnk b) (l1_identmap r)\<rparr>)"
    if "page_of lnk b \<le> length (l1_identmap r)" for a b and r :: "'a kernel_scheme"
    using remap_user_run [of "page_of lnk b" r "page_of lnk a" h] that by (simp add: hvm_remap_range_def page_of_def)
  show ?thesis
    using assms(1) vecs ends unfolding hvm_init_traps_def
    by (cases "CONFIG_64BIT e")
      (simp_all add: io_simps block_append e [symmetric] gates set_idt_run idt_intr_gate_run gdt_tss_desc_run
        range hvm_idt_def hvm_gdt_def hvm_l1_def user_sections_def del: CONFIG_64BIT.simps)
qed

lemma hvm_idt_vector:
  assumes "length tbl = 256" "(vec, entry, dpl) \<in> set trap_gates"
  shows "hvm_idt e lnk tbl ! unat vec = pack_intr_gate e (KERN_CS e) (lnk entry) dpl 0"
proof -
  have "distinct (map (unat \<circ> fst) trap_gates)" unfolding trap_gates_vectors by simp
  moreover have "unat vec < 256" "unat vec \<noteq> unat X86_EXC_DF" "unat vec \<noteq> unat X86_VEC_RET2KERN"
    using assms(2) by (auto simp: trap_gates_def xtf_consts)
  ultimately show ?thesis
    using assms pack_gates_nth [of trap_gates vec entry dpl tbl e lnk] by (simp add: hvm_idt_def)
qed

text \<open>What an interrupt through the table does: entry point, selector, privilege and stack switch.\<close>

lemma intr_gate_fields:
  assumes "unat dpl < 4" "unat ist < 8"
  shows "gate_target (pack_intr_gate e sel offset dpl ist) = to_ulong e offset"
    "gate_selector (pack_intr_gate e sel offset dpl ist) = ucast sel"
    "gate_type (pack_intr_gate e sel offset dpl ist) = 14"
    "gate_dpl (pack_intr_gate e sel offset dpl ist) = unat dpl"
    "gate_present (pack_intr_gate e sel offset dpl ist)"
    "gate_ist (pack_intr_gate e sel offset dpl ist) = (if CONFIG_64BIT e then unat ist else 0)"
  using pack_gate_fields [of 14 dpl ist e sel offset] assms unfolding pack_intr_gate_def by simp_all

lemma hvm_idt_routes:
  assumes "length tbl = 256" "(vec, entry, dpl) \<in> set trap_gates"
  shows "let g = hvm_idt e lnk tbl ! unat vec in
     gate_present g \<and> gate_type g = 14 \<and> gate_target g = to_ulong e (lnk entry)
     \<and> gate_selector g = ucast (KERN_CS e) \<and> gate_dpl g = unat dpl \<and> gate_ist g = 0"
proof -
  have dpl: "unat dpl < 4" using assms(2) by (auto simp: trap_gates_def)
  show ?thesis
    unfolding hvm_idt_vector [OF assms] Let_def using intr_gate_fields [OF dpl, of 0] by simp
qed

lemma hvm_idt_DF:
  assumes "length tbl = 256"
  shows "let g = hvm_idt e lnk tbl ! 8 in
     gate_present g \<and>
     (if CONFIG_64BIT e then gate_type g = 14 \<and> gate_target g = to_ulong e (lnk ''entry_DF'') \<and> gate_ist g = 1
      else gate_type g = 5 \<and> gate_selector g = 64)"
proof -
  have "hvm_idt e lnk tbl ! 8 = (if \<not> CONFIG_64BIT e then pack_task_gate e (of_nat GDTE_TSS_DF * 8)
                            else pack_intr_gate e (KERN_CS e) (lnk ''entry_DF'') 0 1)"
    using assms by (simp add: hvm_idt_def xtf_consts del: CONFIG_64BIT.simps)
  then show ?thesis
    using intr_gate_fields [of 0 1 e "KERN_CS e" "lnk ''entry_DF''"]
      pack_gate_fields [of 5 0 0 e "of_nat GDTE_TSS_DF * 8" 0]
    by (simp add: Let_def pack_task_gate_def xtf_consts del: CONFIG_64BIT.simps)
qed

lemma hvm_idt_ret_to_kernel:
  assumes "length tbl = 256"
  shows "let g = hvm_idt e lnk tbl ! 0x20 in
     gate_present g \<and> gate_type g = 14 \<and> gate_target g = to_ulong e (lnk ''entry_ret_to_kernel'') \<and> gate_dpl g = 3"
  using assms intr_gate_fields [of 3 0 e "KERN_CS e" "lnk ''entry_ret_to_kernel''"]
  by (simp add: hvm_idt_def xtf_consts Let_def)

lemma hvm_l1_user:
  assumes "i < length ptes"
  shows "hvm_l1 lnk ptes ! i =
     (if \<exists>(a, b) \<in> set user_sections. page_of lnk a \<le> i \<and> i < page_of lnk b then ptes ! i OR PAGE_USER else ptes ! i)"
  using assms by (simp add: hvm_l1_def user_sections_def nth_mark_user or.assoc)

section \<open>A PV guest\<close>

text \<open>The records before the sentinel, as vector, privilege and address.\<close>

definition pv_routes :: "env \<Rightarrow> linkage \<Rightarrow> (u64 \<times> nat \<times> u64) list" where
  "pv_routes e lnk =
     map (\<lambda>(vec, flags, cs, addr). (ucast vec, unat (flags AND 3), addr)) (butlast (pv_default_trap_info e lnk))"

text \<open>The routes of an HVM guest: the gates, the double fault and the return to the kernel.\<close>

definition hvm_routes :: "linkage \<Rightarrow> (u64 \<times> nat \<times> u64) list" where
  "hvm_routes lnk =
     map (\<lambda>(vec, entry, dpl). (ucast vec, unat dpl, lnk entry)) trap_gates @
     [(8, 0, lnk ''entry_DF''), (0x20, 3, lnk ''entry_ret_to_kernel'')]"

text \<open>Xen reads records up to the one whose address is 0, the sentinel when no entry point is at 0.\<close>

fun until_sentinel :: "u64 list \<Rightarrow> u64 list list" where
  "until_sentinel (vec # flags # cs # addr # ws) =
     (if addr = 0 then [] else [vec, flags, cs, addr] # until_sentinel ws)"
| "until_sentinel _ = []"

lemma until_sentinel_words:
  "\<forall>(vec, flags, cs, addr) \<in> set ti. addr \<noteq> 0 \<Longrightarrow>
   until_sentinel (trap_info_words (ti @ [(0, 0, 0, 0)])) =
     map (\<lambda>(vec, flags, cs, addr). [ucast vec, ucast flags, ucast cs, addr]) ti"
  by (induction ti) (auto simp: trap_info_words_def)

lemma pv_trap_info_read:
  assumes "\<forall>entry. lnk entry \<noteq> 0"
  shows "length (until_sentinel (trap_info_words (pv_default_trap_info e lnk))) = 20"
proof -
  let ?ti = "butlast (pv_default_trap_info e lnk)"
  have "pv_default_trap_info e lnk = ?ti @ [(0, 0, 0, 0)]"
    by (simp add: pv_default_trap_info_def Let_def)
  moreover have "\<forall>(vec, flags, cs, addr) \<in> set ?ti. addr \<noteq> 0"
    using assms by (simp add: pv_default_trap_info_def Let_def)
  moreover have "length ?ti = 20" by (simp add: pv_default_trap_info_def Let_def)
  ultimately show ?thesis by (metis until_sentinel_words length_map)
qed

text \<open>A hypervisor that accepts every call of the set-up.\<close>

definition accepting :: "hw \<Rightarrow> bool" where
  "accepting h \<longleftrightarrow> (\<forall>t nr args ws. fst (hw_hypercall h t nr args ws) = 0)"

lemma accepting_call: "accepting h \<Longrightarrow> hw_hypercall h t nr args ws = (rc, r) \<Longrightarrow> rc = 0"
  unfolding accepting_def by (metis fst_conv)

lemma register_callbacks_run:
  assumes "accepting h"
  shows "register_callbacks i cbs h s = Done () (s\<lparr>trace := trace s @ map (Hypercall 30 [0]) cbs\<rparr>)"
  using assms
proof (induction cbs arbitrary: i s)
  case Nil
  show ?case by (cases s) (simp add: io_simps)
next
  case (Cons cb cbs)
  then show ?case
    by (simp add: io_simps split: prod.split) (auto dest: accepting_call)
qed

lemma register_callbacks_refused:
  assumes "fst (hw_hypercall h (trace s) 30 [0] cb) = rc" "rc \<noteq> 0"
  shows "register_callbacks i (cb # cbs) h s =
     Stop (s\<lparr>trace := trace s @ Hypercall 30 [0] cb #
       panic_events (hw_env h) (''Failed to register callback[%u]: %d'' @ [LF]) [VaInt i, VaInt (of_int rc)]\<rparr>)"
  using assms by (cases "hw_hypercall h (trace s) 30 [0] cb") (simp add: io_simps)

lemma or_panic_run:
  "or_panic fmt call h s = (case call h s of
     Done rc s1 \<Rightarrow> if rc = 0 then Done () s1
                   else Stop (s1\<lparr>trace := trace s1 @ panic_events (hw_env h) (fmt @ [LF]) [VaInt (of_int rc)]\<rparr>)
   | Stop s1 \<Rightarrow> Stop s1)"
  by (simp add: or_panic_def io_simps split: outcome.split)

text \<open>The call that maps the page at \<open>linear\<close> with the given flags.\<close>

definition remap_call :: "env \<Rightarrow> (u64 \<Rightarrow> u64) \<Rightarrow> u64 \<Rightarrow> u64 \<Rightarrow> ev" where
  "remap_call e p2m flags linear =
     (let pte = pte_from_virt e p2m linear flags in
      Hypercall 14 (if CONFIG_64BIT e then [linear, pte, 2]
                    else [linear, take_bit 32 pte, drop_bit 32 pte, 2]) [])"

lemma remap_linear_run:
  "accepting h \<Longrightarrow>
   remap_linear p2m linear flags h s = Done 0 (s\<lparr>trace := trace s @ [remap_call (hw_env h) p2m flags linear]\<rparr>)"
  by (simp add: remap_linear_def io_simps remap_call_def UVMF_INVLPG_def Let_def split: prod.split)
    (auto dest: accepting_call)

definition pages_from :: "u64 \<Rightarrow> nat \<Rightarrow> u64 list" where
  "pages_from start n = map (\<lambda>i. start + of_nat i * PAGE_SIZE) [0..<n]"

lemma pages_from_Suc: "pages_from start (Suc n) = start # pages_from (start + PAGE_SIZE) n"
proof -
  have "map (\<lambda>i. start + of_nat i * PAGE_SIZE) [0..<Suc n] =
      start # map (\<lambda>i. start + of_nat (Suc i) * PAGE_SIZE) [0..<n]"
    by (simp add: upt_conv_Cons del: upt_Suc flip: map_Suc_upt)
  then show ?thesis by (simp add: pages_from_def algebra_simps)
qed

text \<open>One call for each page of a range of \<open>n\<close> pages (the last may be partial) below the top of memory.\<close>

definition pv_trap_calls :: "env \<Rightarrow> linkage \<Rightarrow> (u64 \<Rightarrow> u64) \<Rightarrow> ev list" where
  "pv_trap_calls e lnk p2m =
     [Hypercall 0 [] (trap_info_words (pv_default_trap_info e lnk))] @
     map (Hypercall 30 [0]) (pv_callbacks e lnk) @
     [remap_call e p2m (PAGE_AD OR PAGE_PRESENT) (lnk ''gdt''),
      Hypercall 2 [of_nat NR_GDT_ENTRIES] [virt_to_mfn p2m (lnk ''gdt'')],
      Hypercall 3 [ucast (KERN_DS e), lnk ''boot_stack'' + 2 * PAGE_SIZE] [],
      Insn ''mov ds'' [ucast (USER_DS e)], Insn ''mov es'' [ucast (USER_DS e)],
      Insn ''mov fs'' [ucast (USER_DS e)], Insn ''mov gs'' [ucast (USER_DS e)]]"

lemma init_callbacks_run:
  assumes "accepting h" "e = hw_env h"
  shows "init_callbacks lnk h s =
     Done () (s\<lparr>trace := trace s @ Hypercall 0 [] (trap_info_words (pv_default_trap_info e lnk)) #
       map (Hypercall 30 [0]) (pv_callbacks e lnk)\<rparr>)"
proof -
  obtain r where "hw_hypercall h (trace s) 0 [] (trap_info_words (pv_default_trap_info e lnk)) = (0, r)"
    using accepting_call [OF assms(1)] by (metis surj_pair)
  then show ?thesis
    by (simp add: init_callbacks_def io_simps assms(2) [symmetric] register_callbacks_run [OF assms(1)])
qed

lemma accepting_wrappers:
  assumes "accepting h"
  shows "hypercall_set_gdt fr n h s = Done 0 (s\<lparr>trace := trace s @ [Hypercall 2 [n] fr]\<rparr>)"
    "hypercall_stack_switch a b h s = Done 0 (s\<lparr>trace := trace s @ [Hypercall 3 [a, b] []]\<rparr>)"
    "hypercall_mmuext_op ops m d h s = Done 0 (s\<lparr>trace := trace s @ [Hypercall 26 [m, d] ops]\<rparr>)"
    "hypercall_update_va_mapping e l p f h s = Done 0 (s\<lparr>trace := trace s @
       [Hypercall 14 (if CONFIG_64BIT e then [l, p, f] else [l, take_bit 32 p, drop_bit 32 p, f]) []]\<rparr>)"
  by (auto simp: io_simps split: prod.split dest: accepting_call [OF assms])

lemma pv_init_traps_run64:
  fixes s :: "'z kernel_scheme"
  assumes "accepting h" "hw_env h = PV64" "\<And>t. hw_insn h t ''mov cr3'' [] = Some (cr3 # regs)"
  shows "pv_init_traps fuel lnk p2m h s =
     Done () (s\<lparr>trace := trace s @ pv_trap_calls PV64 lnk p2m @
       [Insn ''mov cr3'' [], Hypercall 26 [1, DOMID_SELF] [15, drop_bit PAGE_SHIFT cr3],
        Hypercall 14 [0, 0, 2] []]\<rparr>)"
  using assms(2)
  by (simp add: pv_init_traps_def bnd_run seq_run when1_run config_run ret_run insn_run block.simps emit_run
      init_callbacks_run [OF assms(1)] remap_linear_run [OF assms(1)] or_panic_run
      accepting_wrappers [OF assms(1)] assms(3) pv_trap_calls_def UVMF_INVLPG_def)

section \<open>Properties\<close>

lemma accepting_accept_hw: "accepting (accept_hw e)"
  by (simp add: accepting_def)

definition kernel0 :: "env \<Rightarrow> kernel" where [init_states]:
  "kernel0 e = devices.extend devices0
     (kernel.fields [] (replicate 256 (pack_intr_gate e 0 0 0 0)) (init_gdt e) (replicate 512 0) (init_efl_and_mask e) 0)"

declare kernel.defs [init_states]

definition regs0 :: cpu_regs where
  "regs0 = \<lparr>regs_ax = 0, regs_bx = 0, regs_cx = 0, regs_dx = 0, regs_si = 0, regs_di = 0, regs_bp = 0,
     regs_r8_r15 = replicate 8 0, regs_ds = 0, regs_es = 0, entry_vector = 13, error_code = 0, regs_ip = 0x1000,
     regs_cs = 8, regs_flags = 2, regs_sp = 0, regs_ss = 0\<rparr>"






text \<open>
  On a 64-bit paravirtual guest with an accepting hypervisor, pv_init_traps registers the trap
  table and the callbacks, remaps the user stub, makes the current page table root also the user
  root and enables user access, in that order, and changes nothing else.
\<close>

lemma pv_init_traps_on_PV64:
  fixes s :: "'z kernel_scheme"
  assumes "accepting h" "hw_env h = PV64" "\<And>t. hw_insn h t ''mov cr3'' [] = Some (cr3 # regs)"
  shows "pv_init_traps fuel lnk p2m h s =
     Done () (s\<lparr>trace := trace s @ pv_trap_calls PV64 lnk p2m @
       [Insn ''mov cr3'' [], Hypercall 26 [1, DOMID_SELF] [15, drop_bit PAGE_SHIFT cr3],
        Hypercall 14 [0, 0, 2] []]\<rparr>)"
  using assms by (rule pv_init_traps_run64)

lemma pv_init_traps_on_PV64_witness:
  "pv_init_traps 0 (\<lambda>n. 0x1000) id (accept_hw PV64) (kernel0 PV64) =
     Done () ((kernel0 PV64)\<lparr>trace := pv_trap_calls PV64 (\<lambda>n. 0x1000) id @
       [Insn ''mov cr3'' [], Hypercall 26 [1, DOMID_SELF] [15, drop_bit PAGE_SHIFT 0], Hypercall 14 [0, 0, 2] []]\<rparr>)"
  using pv_init_traps_on_PV64 [OF accepting_accept_hw, of PV64 0 "[0, 0, 0]" 0 "\<lambda>n. 0x1000" id "kernel0 PV64"]
  by (simp add: init_states)

text \<open>
  Remap_linear_range remaps each page of the range once, in ascending order, with the flags it
  is given, and ends: a partial last page counts, and pages outside the range are not touched.
\<close>

lemma remap_linear_range_run:
  fixes s :: "'z kernel_scheme"
  assumes "accepting h" "unat start + n * 4096 < 2 ^ 64"
    and "n * 4096 < unat stop - unat start + 4096" "unat stop \<le> unat start + n * 4096" "n \<le> fuel"
  shows "remap_linear_range fuel p2m start stop flags 0 h s =
     Done 0 (s\<lparr>trace := trace s @ map (remap_call (hw_env h) p2m flags) (pages_from start n)\<rparr>)"
  using assms(2-)
proof (induction n arbitrary: fuel start s)
  case 0
  then have "\<not> start < stop" by (simp add: word_less_nat_alt)
  then show ?case by (cases fuel; cases s) (simp_all add: io_simps pages_from_def)
next
  case (Suc n)
  then obtain k where k: "fuel = Suc k" by (cases fuel) auto
  have size: "unat PAGE_SIZE = 4096" by (simp add: PAGE_SIZE_def)
  have next_page: "unat (start + PAGE_SIZE) = unat start + 4096"
    using Suc.prems(1) size by (subst unat_add_lem [THEN iffD1]) simp_all
  have less: "start < stop" using Suc.prems(2) by (simp add: word_less_nat_alt)
  let ?s = "s\<lparr>trace := trace s @ [remap_call (hw_env h) p2m flags start]\<rparr>"
  have "remap_linear_range k p2m (start + PAGE_SIZE) stop flags 0 h ?s =
      Done 0 (?s\<lparr>trace := trace ?s @ map (remap_call (hw_env h) p2m flags) (pages_from (start + PAGE_SIZE) n)\<rparr>)"
    by (rule Suc.IH) (use Suc.prems next_page k in auto)
  then show ?case
    using less by (simp add: k io_simps remap_linear_run [OF assms(1)] pages_from_Suc)
qed

lemma remap_linear_range_run_witness:
  "remap_linear_range 2 id 0x3000 0x4800 7 0 (accept_hw PV32PAE) (kernel0 PV32PAE) =
     Done 0 ((kernel0 PV32PAE)\<lparr>trace := map (remap_call PV32PAE id 7) [0x3000, 0x4000]\<rparr>)"
  using remap_linear_range_run [where h = "accept_hw PV32PAE" and start = "0x3000" and n = 2 and stop = "0x4800" and fuel = 2
      and p2m = id and flags = 7 and s = "kernel0 PV32PAE", OF accepting_accept_hw]
  by (simp add: init_states pages_from_def PAGE_SIZE_def upt_rec)

end
