(* ===== verification/Grant_Table.thy ===== *)
theory Grant_Table imports
  X86_Traps
begin

text \<open>
  The grant table: \<open>common/grant_table.c\<close> and \<open>arch/x86/grant_table.c\<close>. The two static flags of
  \<open>xtf_init_grant_table\<close> are state; the theorems say when the table ends up mapped, and that
  every failure leaves it unmapped and can be retried.
\<close>

section \<open>State and constants\<close>

record gnttab = kernel +
  set_version_unavailable :: bool
  gnttab_mapped :: bool

definition GNTTABOP_error_msgs :: "string list" where
  "GNTTABOP_error_msgs =
     [''okay'', ''undefined error'', ''unrecognised domain id'', ''invalid grant reference'',
      ''invalid mapping handle'', ''invalid virtual address'', ''invalid device address'',
      ''no spare translation slot in the I/O MMU'', ''permission denied'', ''bad page'',
      ''copy arguments cross page boundary'', ''page address size too large'',
      ''operation not done; try again'']"

text \<open>The index is \<open>-err\<close> converted to \<open>unsigned int\<close>, so that a positive \<open>err\<close> is out of range too.\<close>

definition gntst_strerror :: "int \<Rightarrow> string" where
  "gntst_strerror err =
     (let idx = of_int (- err) :: u32 in
      if unat idx < length GNTTABOP_error_msgs then GNTTABOP_error_msgs ! unat idx else ''unknown'')"

definition GNTTABOP_setup_table :: u64 where [xtf_consts]: "GNTTABOP_setup_table = 2"
definition GNTTABOP_set_version :: u64 where [xtf_consts]: "GNTTABOP_set_version = 8"
definition XENMEM_add_to_physmap :: u64 where [xtf_consts]: "XENMEM_add_to_physmap = 7"
definition XENMAPSPACE_shared_info :: u64 where [xtf_consts]: "XENMAPSPACE_shared_info = 0"
definition XENMAPSPACE_grant_table :: u64 where [xtf_consts]: "XENMAPSPACE_grant_table = 1"

text \<open>\<open>sizeof(gnttab_raw) / PAGE_SIZE\<close>.\<close>

definition GNTTAB_FRAMES :: nat where [xtf_consts]: "GNTTAB_FRAMES = 1"

section \<open>Mapping the table\<close>

text \<open>
  The loop over the frames, with the value of \<open>rc\<close>; it returns the \<open>i\<close> and \<open>rc\<close> that the code looks
  at afterwards. \<open>n\<close> is the number of frames left.
\<close>

fun gnttab_loop :: "nat \<Rightarrow> nat \<Rightarrow> (nat \<Rightarrow> ('z machine_scheme, int) prog) \<Rightarrow> ('z machine_scheme, nat \<times> int) prog" where
  "gnttab_loop 0 i body = ret (i, 0)"
| "gnttab_loop (Suc n) i body =
     bnd (body i) (\<lambda>rc. if rc \<noteq> 0 then ret (Suc i, rc) else gnttab_loop n (Suc i) body)"

text \<open>\<open>struct gnttab_setup_table\<close>: dom, nr_frames, status and the frame list. The status is an \<open>int16_t\<close>.\<close>

definition gnttab_status :: "u64 list \<Rightarrow> int" where
  "gnttab_status setup = sint (ucast (setup ! 2) :: u16)"

definition pv_map_frame :: "linkage \<Rightarrow> u64 list \<Rightarrow> nat \<Rightarrow> ('z machine_scheme, int) prog" where
  "pv_map_frame lnk gfns i =
     bnd (config id) (\<lambda>e.
     hypercall_update_va_mapping e (lnk ''gnttab_raw'' + of_nat i * PAGE_SIZE)
       (pte_from_gfn e (gfns ! i) (PAGE_AD OR PAGE_RW OR PAGE_PRESENT)) UVMF_INVLPG)"

text \<open>\<open>struct xen_add_to_physmap\<close>: domid, size, space, idx, gfn.\<close>

definition hvm_map_frame :: "linkage \<Rightarrow> nat \<Rightarrow> ('z machine_scheme, int) prog" where
  "hvm_map_frame lnk i =
     bnd (hypercall_memory_op XENMEM_add_to_physmap
            [DOMID_SELF, 0, XENMAPSPACE_grant_table, of_nat i,
             virt_to_pfn (lnk ''gnttab_raw'') + of_nat i]) (\<lambda>(rc, _). ret rc)"

definition gnttab_report :: "nat \<times> int \<Rightarrow> ('z machine_scheme, int) prog" where
  "gnttab_report r =
     (case r of (i, rc) \<Rightarrow>
        if rc \<noteq> 0 then
          seq (printk (''%s() Failed to map gnttab[%u]: %d'' @ [LF])
                 [VaStr (Some (''arch_map_gnttab'' @ [NUL])), VaInt (of_nat i), VaInt (of_int rc)])
              (ret (- EIO))
        else ret 0)"

definition arch_map_gnttab :: "linkage \<Rightarrow> ('z machine_scheme, int) prog" where
  "arch_map_gnttab lnk =
     bnd (config CONFIG_PV) (\<lambda>pv.
     if pv then
       bnd (hypercall_grant_table_op GNTTABOP_setup_table
              ([DOMID_SELF, of_nat GNTTAB_FRAMES, 0] @ replicate GNTTAB_FRAMES 0) 1) (\<lambda>(rc, setup).
       if rc \<noteq> 0 \<or> gnttab_status setup \<noteq> 0 then
         seq (printk (''%s() GNTTABOP_setup_table failed: rc %d, status %d: %s'' @ [LF])
                [VaStr (Some (''arch_map_gnttab'' @ [NUL])), VaInt (of_int rc),
                 VaInt (of_int (gnttab_status setup)),
                 VaStr (Some (gntst_strerror (gnttab_status setup) @ [NUL]))])
             (ret (- EIO))
       else bnd (gnttab_loop GNTTAB_FRAMES 0 (pv_map_frame lnk (drop 3 setup))) gnttab_report)
     else bnd (gnttab_loop GNTTAB_FRAMES 0 (hvm_map_frame lnk)) gnttab_report)"

definition xtf_init_grant_table :: "linkage \<Rightarrow> u32 \<Rightarrow> ('z gnttab_scheme, int) prog" where
  "xtf_init_grant_table lnk version =
     bnd (fetch set_version_unavailable) (\<lambda>unavail.
     bnd (if \<not> unavail then
            bnd (hypercall_grant_table_op GNTTABOP_set_version [ucast version] 1) (\<lambda>(rc, _).
            if rc = - ENOSYS then
              seq (update (\<lambda>s. s\<lparr>set_version_unavailable := True\<rparr>)) (ret (Inr rc))
            else if rc \<noteq> 0 then
              seq (printk (''%s() GNTTABOP_set_version failed: rc %d'' @ [LF])
                     [VaStr (Some (''xtf_init_grant_table'' @ [NUL])), VaInt (of_int rc)])
                  (ret (Inl (- EIO)))
            else ret (Inr rc))
          else ret (Inr 0)) (\<lambda>r.
     case r of
       Inl err \<Rightarrow> ret err
     | Inr rc \<Rightarrow>
         bnd (fetch set_version_unavailable) (\<lambda>unavail.
         if unavail \<and> version \<noteq> 1 then ret (- ENODEV)
         else
           bnd (fetch gnttab_mapped) (\<lambda>mapped.
           if \<not> mapped then
             bnd (arch_map_gnttab lnk) (\<lambda>rc.
             seq (when1 (rc = 0) (update (\<lambda>s. s\<lparr>gnttab_mapped := True\<rparr>))) (ret rc))
           else ret rc))))"

section \<open>Properties\<close>

lemma unat_of_int_u32: "0 \<le> x \<Longrightarrow> x < 2 ^ 32 \<Longrightarrow> unat (of_int x :: u32) = nat x"
  unfolding unat_eq_nat_uint uint_word_of_int_eq by (simp add: take_bit_int_eq_self)

lemma length_error_msgs: "length GNTTABOP_error_msgs = 13"
  by (simp add: GNTTABOP_error_msgs_def)

lemma gnttab_loop_run:
  fixes s :: "'z machine_scheme"
  assumes "\<And>k s. i \<le> k \<Longrightarrow> k < i + n \<Longrightarrow> body k h s = Done 0 (s\<lparr>trace := trace s @ ev k\<rparr>)"
  shows "gnttab_loop n i body h s = Done (i + n, 0) (s\<lparr>trace := trace s @ concat (map ev [i..<i + n])\<rparr>)"
  using assms
proof (induction n arbitrary: i s)
  case 0
  show ?case by (cases s) (simp add: io_simps)
next
  case (Suc n)
  have "gnttab_loop n (Suc i) body h (s\<lparr>trace := trace s @ ev i\<rparr>) =
      Done (Suc i + n, 0) (s\<lparr>trace := (trace s @ ev i) @ concat (map ev [Suc i..<Suc i + n])\<rparr>)"
    by (subst Suc.IH) (use Suc.prems in auto)
  moreover have "[i..<i + Suc n] = i # [Suc i..<Suc i + n]"
    by (simp add: upt_conv_Cons del: upt_Suc)
  ultimately show ?case
    using Suc.prems [of i s] by (simp add: io_simps del: upt_Suc)
qed

text \<open>A run of the mapping that reports success has made the calls of every frame, in order.\<close>

definition hvm_frame_call :: "linkage \<Rightarrow> nat \<Rightarrow> ev" where
  "hvm_frame_call lnk i =
     Hypercall 12 [7] [DOMID_SELF, 0, 1, of_nat i, virt_to_pfn (lnk ''gnttab_raw'') + of_nat i]"

lemma arch_map_gnttab_hvm:
  assumes "CONFIG_HVM (hw_env h)" "accepting h"
  shows "arch_map_gnttab lnk h s =
     Done 0 (s\<lparr>trace := trace s @ map (hvm_frame_call lnk) [0..<GNTTAB_FRAMES]\<rparr>)"
proof -
  have frame: "hvm_map_frame lnk k h s = Done 0 (s\<lparr>trace := trace s @ [hvm_frame_call lnk k]\<rparr>)" for k s
    by (auto simp: hvm_map_frame_def io_simps hvm_frame_call_def XENMEM_add_to_physmap_def
        XENMAPSPACE_grant_table_def split: prod.split dest: accepting_call [OF assms(2)])
  have "gnttab_loop GNTTAB_FRAMES 0 (hvm_map_frame lnk) h s =
      Done (0 + GNTTAB_FRAMES, 0) (s\<lparr>trace := trace s @ concat (map (\<lambda>k. [hvm_frame_call lnk k]) [0..<0 + GNTTAB_FRAMES])\<rparr>)"
    by (rule gnttab_loop_run) (rule frame)
  then show ?thesis
    using assms(1) by (simp add: arch_map_gnttab_def io_simps gnttab_report_def)
qed

lemma arch_map_gnttab_result:
  "arch_map_gnttab lnk h s = Done rc s1 \<Longrightarrow> rc = 0 \<or> rc = - EIO"
  by (auto simp: arch_map_gnttab_def io_simps gnttab_report_def split: if_splits outcome.splits prod.splits)

lemma arch_map_gnttab_flags:
  assumes "arch_map_gnttab lnk h s = Done rc s1"
  shows "gnttab_mapped s1 = gnttab_mapped s \<and> set_version_unavailable s1 = set_version_unavailable s"
  using assms
  by (auto simp: arch_map_gnttab_def io_simps gnttab_report_def GNTTAB_FRAMES_def pv_map_frame_def hvm_map_frame_def
      split: if_splits outcome.splits prod.splits)

section \<open>Properties\<close>

definition gnttab0 :: "env \<Rightarrow> gnttab" where [init_states]:
  "gnttab0 e = kernel.extend (kernel0 e) (gnttab.fields False False)"

declare gnttab.defs [init_states]

text \<open>
  C39: xtf_init_grant_table remembers that the table is mapped exactly when a call succeeded: after
  it returns, the flag is set if and only if it was set before or the call returned 0, so that a
  failed initialisation is tried again by the next call.
\<close>

lemma xtf_init_grant_table_mapped:
  assumes "xtf_init_grant_table lnk version h s = Done rc s1"
  shows "gnttab_mapped s1 \<longleftrightarrow> gnttab_mapped s \<or> rc = 0"
  using assms arch_map_gnttab_flags [of lnk h]
  by (auto simp: xtf_init_grant_table_def io_simps EIO_def ENODEV_def ENOSYS_def
      split: if_splits outcome.splits prod.splits)

theorem xtf_init_grant_table_mapped_witness:
  "\<exists>s1. xtf_init_grant_table (\<lambda>n. 0x1000) 1 (accept_hw HVM64) (gnttab0 HVM64) = Done 0 s1 \<and> gnttab_mapped s1"
proof -
  have map: "arch_map_gnttab (\<lambda>n. 0x1000) (accept_hw HVM64) s = Done 0 (s\<lparr>trace := trace s @ map (hvm_frame_call (\<lambda>n. 0x1000)) [0..<GNTTAB_FRAMES]\<rparr>)"
    for s :: gnttab by (rule arch_map_gnttab_hvm) (simp_all add: accepting_accept_hw)
  have "\<not> set_version_unavailable (gnttab0 HVM64)" "\<not> gnttab_mapped (gnttab0 HVM64)" by (simp_all add: init_states)
  then obtain s1 where run: "xtf_init_grant_table (\<lambda>n. 0x1000) 1 (accept_hw HVM64) (gnttab0 HVM64) = Done 0 s1"
    by (simp add: xtf_init_grant_table_def hypercall_grant_table_op_def io_simps ENOSYS_def map)
  show ?thesis using run xtf_init_grant_table_mapped [OF run] by auto
qed

lemma gntst_strerror_known:
  assumes "- 12 \<le> err" "err \<le> 0"
  shows "gntst_strerror err = GNTTABOP_error_msgs ! nat (- err)"
proof -
  have idx: "unat (of_int (- err) :: u32) = nat (- err)"
    by (rule unat_of_int_u32) (use assms in simp_all)
  have "nat (- err) < 13" using assms by simp
  then show ?thesis
    unfolding gntst_strerror_def length_error_msgs Let_def idx by simp
qed

lemma gntst_strerror_unknown:
  assumes "- (2 ^ 31) \<le> err" "err < 2 ^ 31" "err < - 12 \<or> 0 < err"
  shows "gntst_strerror err = ''unknown''"
proof -
  have "13 \<le> unat (of_int (- err) :: u32)"
  proof (cases "0 < err")
    case True
    have eq: "(of_int (- err) :: u32) = of_int (2 ^ 32 - err)" by simp
    have "unat (of_int (2 ^ 32 - err) :: u32) = nat (2 ^ 32 - err)"
      by (rule unat_of_int_u32) (use True assms(2) in simp_all)
    then show ?thesis using assms(2) unfolding eq by simp
  next
    case False
    have "unat (of_int (- err) :: u32) = nat (- err)"
      by (rule unat_of_int_u32) (use False assms(1) in simp_all)
    then show ?thesis using assms(3) False by simp
  qed
  then show ?thesis unfolding gntst_strerror_def length_error_msgs Let_def by simp
qed

end
