(* ===== verification/Setup.thy ===== *)
theory Setup imports
  Frame
  Grant_Table
begin

text \<open>
  Bringing the guest up and running a test: \<open>arch/x86/setup.c\<close> (less \<open>collect_cpuid\<close> and
  \<open>find_xen_leaves\<close>, in \<open>X86_Cpuid\<close>), \<open>common/setup.c\<close>, \<open>xtf_get_domid()\<close> of \<open>common/lib.c\<close> and the
  default functions of \<open>common/weak-defaults.c\<close>.
\<close>

section \<open>What the guest is started with\<close>

text \<open>The fields of \<open>xen_pv_start_info_t\<close> that the code reads.\<close>

record pv_start_info =
  si_flags :: u32
  si_shared_info :: u64
  si_store_mfn :: u64
  si_store_evtchn :: u32
  si_console_mfn :: u64
  si_console_evtchn :: u32

text \<open>
  The memory that the domain builder and Xen fill, and the symbols of the image: the start-info
  page of a PV guest, the flags of that of an HVM guest (\<open>None\<close> when not started through the PVH
  entry point), the two tables of frame numbers, the first byte of the hypercall page after some
  requests, and the shared rings as pages at virtual addresses.
\<close>

record boot =
  bt_sym :: linkage
  bt_pv :: pv_start_info
  bt_pvh :: "u32 option"
  bt_p2m :: "u64 \<Rightarrow> u64"
  bt_m2p :: "u64 \<Rightarrow> u64"
  bt_hypercall_byte :: "ev list \<Rightarrow> u8"
  bt_cons_page :: "u64 \<Rightarrow> xencons"
  bt_xenbus_page :: "u64 \<Rightarrow> xenbus"
  bt_description :: string
  bt_title :: string

definition SIF_INITDOMAIN :: u32 where [xtf_consts]: "SIF_INITDOMAIN = 2"
definition HVM_PARAM_STORE_PFN :: u64 where [xtf_consts]: "HVM_PARAM_STORE_PFN = 1"
definition HVM_PARAM_STORE_EVTCHN :: u64 where [xtf_consts]: "HVM_PARAM_STORE_EVTCHN = 2"
definition HVM_PARAM_CONSOLE_PFN :: u64 where [xtf_consts]: "HVM_PARAM_CONSOLE_PFN = 17"
definition HVM_PARAM_CONSOLE_EVTCHN :: u64 where [xtf_consts]: "HVM_PARAM_CONSOLE_EVTCHN = 18"

section \<open>arch_setup\<close>

text \<open>\<open>pv_cpuid_count\<close>: the instruction under the forced-emulation prefix, which Xen emulates.\<close>

definition pv_cpuid_count :: "u32 \<Rightarrow> u32 \<Rightarrow> ('z machine_scheme, u32 \<times> u32 \<times> u32 \<times> u32) prog" where
  "pv_cpuid_count leaf subleaf =
     bnd (insn ''fep cpuid'' [ucast leaf, ucast subleaf]) (\<lambda>r.
     ret (ucast (r ! 0), ucast (r ! 1), ucast (r ! 2), ucast (r ! 3)))"

definition init_hypercalls :: "boot \<Rightarrow> ('z kernel_scheme, unit) prog" where
  "init_hypercalls b =
     bnd (config CONFIG_HVM) (\<lambda>hvm.
     seq (when1 hvm
            (bnd find_xen_leaves (\<lambda>base.
             bnd (cpuid (base + 2)) (\<lambda>(eax, ebx, ecx, edx).
             wrmsr ebx (bt_sym b ''hypercall_page''))))) (
     bnd (fetch trace) (\<lambda>t.
     when1 (bt_hypercall_byte b t = 0xc3)
       (panic (''Hypercall page not initialised correctly'' @ [LF]) []))))"

definition is_initdomain :: "boot \<Rightarrow> ('z machine_scheme, bool) prog" where
  "is_initdomain b =
     bnd (config CONFIG_PV) (\<lambda>pv.
     ret (if pv then si_flags (bt_pv b) AND SIF_INITDOMAIN \<noteq> 0
          else case bt_pvh b of None \<Rightarrow> False | Some flags \<Rightarrow> flags AND SIF_INITDOMAIN \<noteq> 0))"

definition setup_pv_console :: "boot \<Rightarrow> ('z console_scheme, unit) prog" where
  "setup_pv_console b =
     bnd (config id) (\<lambda>e.
     if CONFIG_PV e
     then init_pv_console (bt_cons_page b (mfn_to_virt e (bt_m2p b) (si_console_mfn (bt_pv b))))
            (si_console_evtchn (bt_pv b))
     else
       bnd (hvm_get_param HVM_PARAM_CONSOLE_PFN) (\<lambda>(rc, raw_pfn).
       if rc \<noteq> 0 then ret ()
       else
         bnd (hvm_get_param HVM_PARAM_CONSOLE_EVTCHN) (\<lambda>(rc, raw_evtchn).
         if rc \<noteq> 0 then ret ()
         else init_pv_console (bt_cons_page b (pfn_to_virt e (the raw_pfn))) (ucast (the raw_evtchn)))))"

definition setup_xenbus :: "boot \<Rightarrow> ('z xenstore_scheme, unit) prog" where
  "setup_xenbus b =
     bnd (config id) (\<lambda>e.
     if CONFIG_PV e
     then init_xenbus NR_EVTCHN (bt_xenbus_page b (mfn_to_virt e (bt_m2p b) (si_store_mfn (bt_pv b))))
            (si_store_evtchn (bt_pv b))
     else
       bnd (hvm_get_param HVM_PARAM_STORE_PFN) (\<lambda>(rc, raw_pfn).
       seq (when1 (rc \<noteq> 0) (panic (''Failed to get XenStore PFN: %d'' @ [LF]) [VaInt (of_int rc)])) (
       bnd (hvm_get_param HVM_PARAM_STORE_EVTCHN) (\<lambda>(rc, raw_evtchn).
       seq (when1 (rc \<noteq> 0) (panic (''Failed to get XenStore evtchn: %d'' @ [LF]) [VaInt (of_int rc)]))
       (init_xenbus NR_EVTCHN (bt_xenbus_page b (pfn_to_virt e (the raw_pfn))) (ucast (the raw_evtchn)))))))"

definition map_shared_info :: "boot \<Rightarrow> ('z machine_scheme, unit) prog" where
  "map_shared_info b =
     bnd (config id) (\<lambda>e.
     bnd (if CONFIG_HVM e
          then bnd (hypercall_memory_op XENMEM_add_to_physmap
                 [DOMID_SELF, 0, XENMAPSPACE_shared_info, 0, virt_to_gfn e (bt_p2m b) (bt_sym b ''shared_info'')])
                 (\<lambda>(rc, _). ret rc)
          else hypercall_update_va_mapping e (bt_sym b ''shared_info'')
                 (si_shared_info (bt_pv b) OR (PAGE_RW OR PAGE_PRESENT)) UVMF_INVLPG) (\<lambda>rc.
     when1 (rc \<noteq> 0) (panic (''Failed to map shared_info: %d'' @ [LF]) [VaInt (of_int rc)])))"

text \<open>\<open>sort_extable\<close> on the table in memory; a sort that does not end has no outcome but \<open>Stop\<close>.\<close>

definition sort_extable_op :: "('z kernel_scheme, unit) prog" where
  "sort_extable_op =
     bnd (config id) (\<lambda>e.
     bnd (fetch ex_table) (\<lambda>tbl.
     case sort_extable e tbl of
       None \<Rightarrow> halt
     | Some tbl \<Rightarrow> update (\<lambda>s. s\<lparr>ex_table := tbl\<rparr>)))"

definition arch_setup :: "nat \<Rightarrow> boot \<Rightarrow> ('z kernel_scheme, unit) prog" where
  "arch_setup fuel b =
     bnd (config id) (\<lambda>e.
     seq (when1 (CONFIG_HVM e \<and> bt_pvh b = None) (register_console_callback Qemu_console_write)) (
     seq (register_console_callback Xen_console_write) (
     seq (collect_cpuid (if CONFIG_PV e then pv_cpuid_count else cpuid_count)) (
     seq sort_extable_op (
     seq (arch_init_traps fuel (bt_sym b) (bt_p2m b)) (
     seq (init_hypercalls b) (
     bnd (is_initdomain b) (\<lambda>initdom.
     seq (when1 (\<not> initdom) (seq (setup_pv_console b) (setup_xenbus b)))
     (map_shared_info b)))))))))"

section \<open>Domain id\<close>

text \<open>\<open>XEN_HVM_CPUID_DOMID_PRESENT\<close> is bit 4; the domain id comes back as a signed \<open>int\<close>.\<close>

definition arch_get_domid :: "('z cpu_scheme, int) prog" where
  "arch_get_domid =
     bnd (config CONFIG_HVM) (\<lambda>hvm.
     if hvm then
       bnd find_xen_leaves (\<lambda>base.
       bnd (cpuid_count (base + 4) 0) (\<lambda>(eax, ebx, ecx, edx).
       if bit eax 4 then ret (sint ecx) else ret (- 1)))
     else ret (- 1))"

definition xtf_get_domid :: "nat \<Rightarrow> (xenbus \<Rightarrow> xenbus) \<Rightarrow> ('z cpu_scheme, int) prog" where
  "xtf_get_domid fuel peer =
     bnd arch_get_domid (\<lambda>rc.
     if rc \<ge> 0 then ret rc
     else
       bnd evtchn_get_domid (\<lambda>rc.
       if rc \<ge> 0 then ret rc
       else
         bnd (xenstore_get_domid fuel peer) (\<lambda>rc.
         if rc \<ge> 0 then ret rc else ret (- 1))))"

section \<open>Running the test\<close>

text \<open>
  \<open>test_setup\<close>: a move of 1 under the forced-emulation prefix; where the prefix is not available the
  exception table skips it, and the register keeps its 0.
\<close>

definition test_setup :: "('z cpu_scheme, unit) prog" where
  "test_setup =
     bnd (insn_safe ''fep mov'' [1]) (\<lambda>r.
     let fep = (r \<noteq> None) in
     seq (update (\<lambda>s. s\<lparr>xtf_has_fep := fep\<rparr>)) (
     bnd (fetch test_needs_fep) (\<lambda>needs.
     if needs \<and> \<not> fep then
       seq (printk (''FEP unavailable, but needed by test. (Is Xen support'' @ [LF]) [])
           (xtf_skip (Some (''compiled in, and booted with 'hvm_fep'?)'' @ [LF])) [])
     else ret ())))"

definition xtf_main :: "nat \<Rightarrow> boot \<Rightarrow> ('z kernel_scheme, unit) prog \<Rightarrow> ('z kernel_scheme, 'a) prog" where
  "xtf_main fuel b test_main =
     seq (arch_setup fuel b) (
     seq (printk (''--- Xen Test Framework ---'' @ [LF]) []) (
     seq (printk (''Environment: %s'' @ [LF]) [VaStr (Some (bt_description b @ [NUL]))]) (
     seq (printk (''%s'' @ [LF]) [VaStr (Some (bt_title b @ [NUL]))]) (
     seq test_setup (
     bnd xtf_status_reported (\<lambda>reported.
     seq (when1 (\<not> reported) test_main)
     xtf_exit))))))"

section \<open>Default functions\<close>

text \<open>
  \<open>common/weak-defaults.c\<close>: what the common code calls where an environment defines nothing. The
  default \<open>arch_crash_hard\<close> is an endless loop.
\<close>

definition weak_environment_description :: string where
  "weak_environment_description = ''Unknown''"

definition weak_arch_setup :: "('z machine_scheme, unit) prog" where
  "weak_arch_setup = ret ()"

definition weak_test_setup :: "('z machine_scheme, unit) prog" where
  "weak_test_setup = ret ()"

definition weak_arch_crash_hard :: "('z machine_scheme, 'a) prog" where
  "weak_arch_crash_hard = halt"

section \<open>What set-up leaves\<close>

lemma off_traces:
  "off_trace (ex_table :: 'z kernel_scheme \<Rightarrow> _)" "off_trace (output_fns :: 'y console_scheme \<Rightarrow> _)"
  "off_trace (status :: 'x report_scheme \<Rightarrow> _)"
  by (simp_all add: off_trace_def)

lemma sort_extable_op_run:
  "\<exists>tbl. sort_extable_op h s = Done () (s\<lparr>ex_table := tbl\<rparr>)
     \<and> sorted (map fault tbl) \<and> mset tbl = mset (ex_table s)"
  using sort_extable_sorts [of "hw_env h" "ex_table s"] by (auto simp: sort_extable_op_def io_simps)

lemmas ex_table_rules = keeps_rules keeps_requests [OF off_traces(1)]

lemma keeps_find_xen [keeps_rules]:
  assumes "\<And>s t. f (s\<lparr>trace := t\<rparr>) = f s" "\<And>s v. f (s\<lparr>xen_leaves := v\<rparr>) = f s"
  shows "keeps f find_xen_leaves"
proof -
  have off: "off_trace f" using assms(1) by (simp add: off_trace_def)
  have "keeps f (find_xen_from n l)" for n l
    by (induction n arbitrary: l) (auto intro!: keeps_rules keeps_requests [OF off] assms)
  then show ?thesis
    unfolding find_xen_leaves_def by (intro keeps_rules)
qed

lemma keeps_register [keeps_rules]:
  assumes "\<And>s t. f (s\<lparr>trace := t\<rparr>) = f s" "\<And>s v. f (s\<lparr>output_fns := v\<rparr>) = f s"
  shows "keeps f (register_console_callback fn)"
  unfolding register_console_callback_def
  by (intro keeps_rules keeps_requests assms) (simp add: off_trace_def assms)

lemma keeps_hypercalls [keeps_rules]:
  assumes "off_trace f"
  shows "keeps f (hypercall_set_trap_table ti)" "keeps f (hypercall_register_callback cb)"
    "keeps f (hypercall_set_gdt fr n)" "keeps f (hypercall_stack_switch a b)"
    "keeps f (hypercall_mmuext_op ops m d)" "keeps f (hypercall_update_va_mapping e l p fl)"
    "keeps f (hypercall_memory_op c a2)" "keeps f (hvm_get_param i)" "keeps f (hvm_set_param i v)"
    "keeps f (hypercall_sched_op c a3)" "keeps f (hypercall_event_channel_op c a4)"
    "keeps f (hypercall_grant_table_op c a5 m5)"
  unfolding hypercall_defs by (intro keeps_rules assms)+

lemma keeps_or_panic [keeps_rules]: "off_trace f \<Longrightarrow> keeps f p \<Longrightarrow> keeps f (or_panic fmt p)"
  unfolding or_panic_def by (intro keeps_rules)

lemma keeps_remap_range:
  "off_trace f \<Longrightarrow> keeps f (remap_linear_range fuel p2m start stop flags rc)"
  by (induction fuel arbitrary: start rc) (auto intro!: keeps_rules simp: remap_linear_def)

lemma keeps_callbacks: "off_trace f \<Longrightarrow> keeps f (register_callbacks i cbs)"
  by (induction cbs arbitrary: i) (auto intro!: keeps_rules)

lemma keeps_pv_init_traps: "off_trace f \<Longrightarrow> keeps f (pv_init_traps fuel lnk p2m)"
  unfolding pv_init_traps_def init_callbacks_def remap_linear_def
  by (intro keeps_rules keeps_callbacks) (auto intro!: keeps_rules keeps_remap_range)

text \<open>The tables that set-up writes: everything else is kept.\<close>

lemma keeps_remap_user:
  "(\<And>s v. f (s\<lparr>l1_identmap := v\<rparr>) = f s) \<Longrightarrow> keeps f (remap_user a b)"
proof (induction a b rule: remap_user.induct)
  case (1 a b)
  show ?case by (subst remap_user.simps) (auto intro!: keeps_rules 1)
qed

lemma keeps_hvm_init_traps:
  assumes "off_trace f" "\<And>s v. f (s\<lparr>idt := v\<rparr>) = f s" "\<And>s v. f (s\<lparr>gdt := v\<rparr>) = f s"
    "\<And>s v. f (s\<lparr>l1_identmap := v\<rparr>) = f s"
  shows "keeps f (hvm_init_traps lnk)"
  unfolding hvm_init_traps_def gdt_tss_desc_def hvm_remap_range_def
  by (auto intro!: keeps_rules keeps_remap_user assms simp: idt_intr_gate_def set_idt_def Let_def split: prod.split)

lemma keeps_arch_init_traps:
  assumes "off_trace f" "\<And>s v. f (s\<lparr>idt := v\<rparr>) = f s" "\<And>s v. f (s\<lparr>gdt := v\<rparr>) = f s"
    "\<And>s v. f (s\<lparr>l1_identmap := v\<rparr>) = f s"
  shows "keeps f (arch_init_traps fuel lnk p2m)"
  unfolding arch_init_traps_def
  by (intro keeps_rules keeps_pv_init_traps keeps_hvm_init_traps assms)

lemma keeps_collect_cpuid:
  assumes "\<And>l c. keeps f (fn l c)" "\<And>s v. f (s\<lparr>max_leaf := v\<rparr>) = f s" "\<And>s v. f (s\<lparr>cpu_vendor := v\<rparr>) = f s"
    "\<And>s v. f (s\<lparr>x86_features := v\<rparr>) = f s" "\<And>s v. f (s\<lparr>x86_stepping := v\<rparr>) = f s"
    "\<And>s v. f (s\<lparr>x86_model := v\<rparr>) = f s" "\<And>s v. f (s\<lparr>x86_family := v\<rparr>) = f s"
    "\<And>s v. f (s\<lparr>max_extd_leaf := v\<rparr>) = f s" "\<And>s v. f (s\<lparr>maxphysaddr := v\<rparr>) = f s"
    "\<And>s v. f (s\<lparr>maxvirtaddr := v\<rparr>) = f s"
  shows "keeps f (collect_cpuid fn)"
  unfolding collect_cpuid_def collect_basic_def collect_extd_def set_features_def
  by (intro keeps_rules assms(1)) (simp_all add: assms(2-))

text \<open>The rest of set-up, after the table is sorted and before.\<close>

lemma keeps_init_hypercalls:
  assumes "off_trace f" "\<And>s v. f (s\<lparr>xen_leaves := v\<rparr>) = f s"
  shows "keeps f (init_hypercalls b)"
  unfolding init_hypercalls_def
  using assms by (intro keeps_rules) (simp_all add: off_trace_def)

lemma keeps_setup_rings:
  assumes "off_trace f" "\<And>s v. f (s\<lparr>output_fns := v\<rparr>) = f s"
    "\<And>s v. f (s\<lparr>pv_ring := v\<rparr>) = f s" "\<And>s v. f (s\<lparr>pv_evtchn := v\<rparr>) = f s"
  shows "keeps f (setup_pv_console b)"
  unfolding setup_pv_console_def init_pv_console_def
  using assms by (intro keeps_rules) (simp_all add: off_trace_def)

lemma keeps_setup_xenbus:
  assumes "off_trace f" "\<And>s v. f (s\<lparr>xb_ring := v\<rparr>) = f s" "\<And>s v. f (s\<lparr>xb_port := v\<rparr>) = f s"
  shows "keeps f (setup_xenbus b)"
  unfolding setup_xenbus_def init_xenbus_def
  using assms by (intro keeps_rules) (simp_all add: off_trace_def)

lemma keeps_map_shared_info: "off_trace f \<Longrightarrow> keeps f (map_shared_info b)"
  unfolding map_shared_info_def by (intro keeps_rules)

lemma keeps_is_initdomain: "keeps f (is_initdomain b)"
  unfolding is_initdomain_def by (intro keeps_rules)

lemma keeps_pv_cpuid: "off_trace f \<Longrightarrow> keeps f (pv_cpuid_count l c)"
  unfolding pv_cpuid_count_def by (intro keeps_rules)

text \<open>\<open>arch_setup\<close> up to the sort, and from there on.\<close>

definition setup_early :: "env \<Rightarrow> boot \<Rightarrow> ('z kernel_scheme, unit) prog" where
  "setup_early e b =
     seq (when1 (CONFIG_HVM e \<and> bt_pvh b = None) (register_console_callback Qemu_console_write)) (
     seq (register_console_callback Xen_console_write)
     (collect_cpuid (if CONFIG_PV e then pv_cpuid_count else cpuid_count)))"

definition setup_late :: "nat \<Rightarrow> boot \<Rightarrow> ('z kernel_scheme, unit) prog" where
  "setup_late fuel b =
     seq (arch_init_traps fuel (bt_sym b) (bt_p2m b)) (
     seq (init_hypercalls b) (
     bnd (is_initdomain b) (\<lambda>initdom.
     seq (when1 (\<not> initdom) (seq (setup_pv_console b) (setup_xenbus b)))
     (map_shared_info b))))"

lemma arch_setup_parts:
  "arch_setup fuel b h s = seq (setup_early (hw_env h) b) (seq sort_extable_op (setup_late fuel b)) h s"
  unfolding arch_setup_def setup_early_def setup_late_def seq_seq by (simp add: bnd_run config_run)

lemma keeps_ex_table_early: "keeps ex_table (setup_early e b)"
  unfolding setup_early_def
  by (intro keeps_rules keeps_collect_cpuid) (auto intro: keeps_pv_cpuid keeps_requests simp: off_trace_def)

lemma keeps_ex_table_late: "keeps ex_table (setup_late fuel b)"
  unfolding setup_late_def
  by (intro keeps_rules keeps_arch_init_traps keeps_init_hypercalls keeps_setup_rings keeps_setup_xenbus
      keeps_map_shared_info keeps_is_initdomain) (simp_all add: off_trace_def)

lemma arch_setup_sorts:
  assumes "arch_setup fuel b h s = Done () s1"
  shows "sorted (map fault (ex_table s1)) \<and> mset (ex_table s1) = mset (ex_table s)"
proof -
  obtain s2 where early: "setup_early (hw_env h) b h s = Done () s2"
    using assms unfolding arch_setup_parts by (auto simp: seq_run split: outcome.splits)
  obtain tbl where sort: "sort_extable_op h s2 = Done () (s2\<lparr>ex_table := tbl\<rparr>)"
      "sorted (map fault tbl)" "mset tbl = mset (ex_table s2)"
    using sort_extable_op_run [of h s2] by blast
  have "setup_late fuel b h (s2\<lparr>ex_table := tbl\<rparr>) = Done () s1"
    using assms early sort(1) unfolding arch_setup_parts by (simp add: seq_run)
  then have "ex_table s1 = tbl"
    using keeps_Done [OF keeps_ex_table_late] by fastforce
  then show ?thesis
    using sort keeps_Done [OF keeps_ex_table_early early] by simp
qed

text \<open>The guarded instructions of the image work from then on.\<close>

text \<open>The console callbacks: the debug port first, then Xen's console, then the ring; never too many.\<close>

lemma keeps_output_early:
  "keeps (output_fns :: 'z kernel_scheme \<Rightarrow> _) (collect_cpuid (if CONFIG_PV e then pv_cpuid_count else cpuid_count))"
  by (intro keeps_collect_cpuid) (auto intro: keeps_pv_cpuid keeps_requests simp: off_trace_def)

definition early_callbacks :: "env \<Rightarrow> boot \<Rightarrow> cons_output_cb list" where
  "early_callbacks e b = (if CONFIG_HVM e \<and> bt_pvh b = None then [Qemu_console_write] else []) @ [Xen_console_write]"

lemma register_run:
  "length (output_fns s) < 3 \<Longrightarrow>
   register_console_callback fn h s = Done () (s\<lparr>output_fns := output_fns s @ [fn]\<rparr>)"
  by (simp add: register_console_callback_def io_simps)

lemma setup_early_callbacks:
  assumes "output_fns s = []" "setup_early e b h s = Done () s1"
  shows "output_fns s1 = early_callbacks e b"
  using assms keeps_Done [OF keeps_output_early, of e h _ "()" s1]
  by (fastforce simp: setup_early_def io_simps register_run early_callbacks_def simp del: CONFIG_HVM.simps CONFIG_PV.simps
      split: if_splits)

lemma off_trace_outputs: "off_trace (output_fns :: 'z kernel_scheme \<Rightarrow> _)"
  by (simp add: off_trace_def)

lemma setup_pv_console_callbacks:
  fixes s :: "'z kernel_scheme"
  assumes "setup_pv_console b h s = Done () s1"
  shows "output_fns s1 = output_fns s \<or> output_fns s1 = output_fns s @ [Pv_console_write]"
  using assms
  by (auto simp: setup_pv_console_def init_pv_console_def register_console_callback_def io_simps
      split: if_splits prod.splits)

section \<open>The run as a whole\<close>

lemma xtf_main_never_returns: "returned (xtf_main fuel b test_main h s) = None"
  by (simp add: xtf_main_def io_simps xtf_status_reported_def split: outcome.split)

definition banner :: "boot \<Rightarrow> ev list" where
  "banner b =
     [Printk (''--- Xen Test Framework ---'' @ [LF]) [],
      Printk (''Environment: %s'' @ [LF]) [VaStr (Some (bt_description b @ [NUL]))],
      Printk (''%s'' @ [LF]) [VaStr (Some (bt_title b @ [NUL]))]]"

definition exit_events :: "env \<Rightarrow> test_status \<Rightarrow> bool \<Rightarrow> ev list" where
  "exit_events e st w =
     no_status_line st @ [result_line (exit_status st) w, Hypercall 29 [2] [0]]
     @ panic_events e (''xtf_exit(): hypercall_shutdown(SHUTDOWN_poweroff) returned'' @ [LF]) []"

text \<open>The state in which \<open>test_main\<close> starts.\<close>

definition test_start :: "hw \<Rightarrow> boot \<Rightarrow> 'z kernel_scheme \<Rightarrow> 'z kernel_scheme" where
  "test_start h b s1 =
     s1\<lparr>trace := trace s1 @ banner b @ [Insn ''fep mov'' [1]],
        xtf_has_fep := hw_insn h (trace s1 @ banner b) ''fep mov'' [1] \<noteq> None\<rparr>"

section \<open>The domain id\<close>

lemma arch_get_domid_pv: "CONFIG_PV (hw_env h) \<Longrightarrow> arch_get_domid h s = Done (- 1) s"
  by (simp add: arch_get_domid_def io_simps)

text \<open>The three sources are asked in turn, and the first that knows the domain id decides.\<close>

section \<open>Properties of a whole run\<close>

definition boot0 :: boot where
  "boot0 = \<lparr>bt_sym = (\<lambda>n. 0x1000),
     bt_pv = \<lparr>si_flags = 0, si_shared_info = 0, si_store_mfn = 0, si_store_evtchn = 1, si_console_mfn = 0, si_console_evtchn = 2\<rparr>,
     bt_pvh = None, bt_p2m = id, bt_m2p = id, bt_hypercall_byte = (\<lambda>t. 0xb8), bt_cons_page = (\<lambda>a. xencons0),
     bt_xenbus_page = (\<lambda>a. xenbus0 []), bt_description = ''PV 64bit'', bt_title = ''Test''\<rparr>"

text \<open>
  A paravirtual machine that accepts every request and on which set-up ends; \<open>fep\<close> says whether the
  forced emulation prefix is there.
\<close>

definition pv_hw :: "bool \<Rightarrow> hw" where
  "pv_hw fep = (accept_hw PV64)\<lparr>hw_insn := \<lambda>t n ops. if n = ''fep mov'' \<and> \<not> fep then None else Some [0, 0, 0, 0]\<rparr>"

lemma pv_hw_simps [simp]:
  "hw_env (pv_hw fep) = PV64" "hw_hypercall (pv_hw fep) t nr args ws = (0, ws)"
  "hw_cpuid (pv_hw fep) t l c = (0, 0, 0, 0)" "hw_insn (pv_hw True) t n ops = Some [0, 0, 0, 0]"
  "hw_insn (pv_hw False) t ''fep mov'' ops = None" "n \<noteq> ''fep mov'' \<Longrightarrow> hw_insn (pv_hw fep) t n ops = Some [0, 0, 0, 0]"
  by (simp_all add: pv_hw_def)

lemma collect_pv_hw:
  "\<exists>s1. collect_cpuid pv_cpuid_count (pv_hw fep) s = Done () s1
     \<and> output_fns s1 = output_fns s \<and> status s1 = status s \<and> test_needs_fep s1 = test_needs_fep (s :: kernel)"
  by (simp add: collect_cpuid_def collect_basic_def collect_extd_def pv_cpuid_count_def io_simps or_else_def)

lemma arch_setup_pv_hw:
  assumes s: "output_fns (s :: kernel) = []" "status s = STATUS_RUNNING"
  obtains s1 where "arch_setup 5 boot0 (pv_hw fep) s = Done () s1"
    "status s1 = STATUS_RUNNING" "test_needs_fep s1 = test_needs_fep s"
proof -
  let ?h = "pv_hw fep"
  obtain s1 where s1: "collect_cpuid pv_cpuid_count ?h (s\<lparr>output_fns := [Xen_console_write]\<rparr>) = Done () s1"
      "output_fns s1 = [Xen_console_write]" "status s1 = STATUS_RUNNING" "test_needs_fep s1 = test_needs_fep s"
    using collect_pv_hw [of fep "s\<lparr>output_fns := [Xen_console_write]\<rparr>"] s by auto
  obtain tbl1 where sort: "sort_extable PV64 (ex_table s1) = Some tbl1" using sort_extable_sorts by blast
  have acc: "accepting ?h" by (simp add: accepting_def)
  have traps: "arch_init_traps 5 lnk p2m ?h r = Done () (r\<lparr>trace := trace r @ pv_trap_calls PV64 lnk p2m @
       [Insn ''mov cr3'' [], Hypercall 26 [1, DOMID_SELF] [15, drop_bit PAGE_SHIFT 0], Hypercall 14 [0, 0, 2] []]\<rparr>)"
    for lnk p2m and r :: kernel
    using pv_init_traps_run64 [OF acc, of 0 "[0, 0, 0]" 5 lnk p2m r]
    by (simp add: arch_init_traps_def io_simps)
  have rest: "\<exists>t. seq (init_hypercalls boot0) (bnd (is_initdomain boot0) (\<lambda>initdom.
        seq (when1 (\<not> initdom) (seq (setup_pv_console boot0) (setup_xenbus boot0))) (map_shared_info boot0))) ?h r =
      Done () (r\<lparr>pv_ring := xencons0, pv_evtchn := 2, output_fns := [Xen_console_write, Pv_console_write],
         xb_ring := xenbus0 [], xb_port := 1, trace := t\<rparr>)"
    if "output_fns r = [Xen_console_write]" for r :: kernel
    using that by (simp add: init_hypercalls_def is_initdomain_def setup_pv_console_def setup_xenbus_def map_shared_info_def
        init_pv_console_def init_xenbus_def register_run io_simps boot0_def NR_EVTCHN_def) blast
  let ?r = "s1\<lparr>ex_table := tbl1, trace := trace s1 @ pv_trap_calls PV64 (bt_sym boot0) (bt_p2m boot0) @
       [Insn ''mov cr3'' [], Hypercall 26 [1, DOMID_SELF] [15, drop_bit PAGE_SHIFT 0], Hypercall 14 [0, 0, 2] []]\<rparr>"
  have "output_fns ?r = [Xen_console_write]" using s1 by simp
  from rest [OF this] obtain t where "arch_setup 5 boot0 ?h s =
      Done () (?r\<lparr>pv_ring := xencons0, pv_evtchn := 2, output_fns := [Xen_console_write, Pv_console_write],
         xb_ring := xenbus0 [], xb_port := 1, trace := t\<rparr>)"
    using s s1 sort
    by (auto simp: arch_setup_def io_simps register_run [of s, simplified s] sort_extable_op_def traps)
  then show ?thesis by (rule that) (simp_all add: s1)
qed

lemma kernel0_start: "output_fns (kernel0 e) = []" "status (kernel0 e) = STATUS_RUNNING" "trace (kernel0 e) = []"
  by (simp_all add: init_states)

text \<open>
  C5: after arch_setup the exception table is searchable, and a later exception at an address that
  a table entry without a handler names is fixed up: do_exception returns with only the
  instruction pointer changed, to the fixup address, and changes nothing else of the machine.
\<close>

lemma arch_setup_then_exception:
  assumes "arch_setup fuel b h s = Done () s1" "distinct (map fault (ex_table s))"
    and "ex \<in> set (ex_table s)" "fault ex = regs_ip regs" "handler ex = None"
  shows "do_exception stray hook regs h s1 = Done (regs\<lparr>regs_ip := fixup ex\<rparr>) s1"
proof (rule do_exception_fixup)
  have perm: "mset (ex_table s1) = mset (ex_table s)" using arch_setup_sorts [OF assms(1)] by simp
  show "sorted (map fault (ex_table s1))" using arch_setup_sorts [OF assms(1)] by simp
  have "mset (map fault (ex_table s1)) = mset (map fault (ex_table s))" using perm by simp
  then show "distinct (map fault (ex_table s1))" using assms(2) by (metis mset_eq_imp_distinct_iff)
  show "ex \<in> set (ex_table s1)" using assms(3) perm by (metis mset_eq_setD)
qed fact+

theorem arch_setup_then_exception_witness:
  "\<exists>s1. arch_setup 5 boot0 (pv_hw True) ((kernel0 PV64)\<lparr>ex_table := [\<lparr>fault = 0x1000, fixup = 0x1008, handler = None\<rparr>]\<rparr>) = Done () s1
     \<and> do_exception None do_unhandled_exception regs0 (pv_hw True) s1 = Done (regs0\<lparr>regs_ip := 0x1008\<rparr>) s1"
proof -
  let ?ex = "\<lparr>fault = 0x1000, fixup = 0x1008, handler = None\<rparr> :: ex_handler extable_entry"
  let ?s = "(kernel0 PV64)\<lparr>ex_table := [?ex]\<rparr>"
  obtain s1 where s1: "arch_setup 5 boot0 (pv_hw True) ?s = Done () s1"
    by (rule arch_setup_pv_hw [of ?s True]) (simp_all add: kernel0_start)
  then show ?thesis
    using arch_setup_then_exception [OF s1, of ?ex regs0] by (simp add: regs0_def)
qed



text \<open>
  C22: a complete run of a test reports and ends: when set-up ends without a report and the forced
  emulation prefix is there if the test needs it, xtf_main prints the banner, runs the test,
  prints the closing report for the final status and stops the guest; a test that reported nothing
  ends as an error.
\<close>

lemma xtf_main_runs_test:
  fixes s :: "'z kernel_scheme"
  assumes "arch_setup fuel b h s = Done () s1" "status s1 = STATUS_RUNNING"
    and "test_needs_fep s1 \<Longrightarrow> hw_insn h (trace s1 @ banner b) ''fep mov'' [1] \<noteq> None"
    and "test_main h (test_start h b s1) = Done () s2"
  shows "xtf_main fuel b test_main h s =
     Stop (s2\<lparr>status := exit_status (status s2),
              trace := trace s2 @ exit_events (hw_env h) (status s2) (warnings s2)\<rparr>)"
  using assms
  by (cases "hw_insn h (trace s1 @ banner b) ''fep mov'' [1] = None"; cases "test_needs_fep s1")
    (simp_all add: xtf_main_def io_simps test_setup_def xtf_status_reported_def banner_def test_start_def
      exit_events_def Let_def max_def status_order del: not_None_eq)

theorem xtf_main_runs_test_witness:
  "\<exists>s1. xtf_main 5 boot0 (xtf_success None []) (pv_hw True) (kernel0 PV64) = Stop s1 \<and> status s1 = STATUS_SUCCESS"
proof -
  obtain s1 where s1: "arch_setup 5 boot0 (pv_hw True) (kernel0 PV64) = Done () s1" "status s1 = STATUS_RUNNING"
    by (rule arch_setup_pv_hw [OF kernel0_start(1,2)])
  obtain s2 where s2: "xtf_success None [] (pv_hw True) (test_start (pv_hw True) boot0 s1) = Done () s2"
      "status s2 = STATUS_SUCCESS"
    using s1(2) by (simp add: io_simps test_start_def max_def status_order)
  show ?thesis
    by (subst xtf_main_runs_test [where test_main = "xtf_success None []", OF s1(1,2) _ s2(1)])
      (simp_all add: s2(2) exit_status_def)
qed

text \<open>
  A test that needs the forced emulation prefix is skipped on a machine without it: xtf_main
  prints why, does not run the test body, reports the status skip and stops the guest.
\<close>

lemma xtf_main_skips_test:
  fixes s :: "'z kernel_scheme"
  assumes "arch_setup fuel b h s = Done () s1" "status s1 = STATUS_RUNNING"
    and "test_needs_fep s1" "hw_insn h (trace s1 @ banner b) ''fep mov'' [1] = None"
  shows "\<exists>s2. xtf_main fuel b test_main h s = Stop s2 \<and> status s2 = STATUS_SKIP \<and>
     trace s2 = trace s1 @ banner b @ [Insn ''fep mov'' [1],
       Printk (''FEP unavailable, but needed by test. (Is Xen support'' @ [LF]) [],
       Printk (''compiled in, and booted with 'hvm_fep'?)'' @ [LF]) []]
       @ exit_events (hw_env h) STATUS_SKIP (warnings s1)"
  using assms
  by (simp add: xtf_main_def io_simps test_setup_def xtf_status_reported_def banner_def
      exit_events_def Let_def text_events_def max_def status_order exit_status_def no_status_line_def)

lemma xtf_main_skips_test_witness:
  "\<exists>s2. xtf_main 5 boot0 (ret ()) (pv_hw False) ((kernel0 PV64)\<lparr>test_needs_fep := True\<rparr>) = Stop s2
     \<and> status s2 = STATUS_SKIP"
proof -
  let ?s = "(kernel0 PV64)\<lparr>test_needs_fep := True\<rparr>"
  obtain s1 where s1: "arch_setup 5 boot0 (pv_hw False) ?s = Done () s1" "status s1 = STATUS_RUNNING" "test_needs_fep s1"
    by (rule arch_setup_pv_hw [of ?s False]) (simp_all add: kernel0_start)
  from xtf_main_skips_test [OF this, of "ret ()"] show ?thesis by auto
qed

lemma xtf_get_domid_chain:
  assumes "arch_get_domid h s = Done r1 s1" "evtchn_get_domid h s1 = Done r2 s2"
    "xenstore_get_domid fuel peer h s2 = Done r3 s3"
  shows "xtf_get_domid fuel peer h s =
     (if r1 \<ge> 0 then Done r1 s1 else if r2 \<ge> 0 then Done r2 s2
      else Done (max r3 (- 1)) s3)"
  using assms by (auto simp: xtf_get_domid_def io_simps max_def)

end
