(* ===== verification/X86_Msr.thy ===== *)
theory X86_Msr imports
  X86_Cpuid
begin

text \<open>
  \<open>arch/x86/msr.c\<close>: the consistency test of a read/write MSR, which mixes direct accesses with
  accesses that Xen emulates (the forced-emulation prefix). Its verdict is characterised exactly:
  \<open>FAILURE\<close> if and only if some read of the run did not return the value last written.
\<close>

section \<open>The test\<close>

text \<open>\<open>_ASM_XEN_FEP "rdmsr"\<close>: index in, \<open>eax\<close> and \<open>edx\<close> out; \<open>"wrmsr"\<close>: index, \<open>eax\<close>, \<open>edx\<close> in.\<close>

definition force_rdmsr :: "u32 \<Rightarrow> ('z machine_scheme, u64) prog" where
  "force_rdmsr idx =
     bnd (insn ''fep rdmsr'' [ucast idx]) (\<lambda>r.
     let lo = ucast (r ! 0) :: u32; hi = ucast (r ! 1) :: u32
     in ret (push_bit 32 (ucast hi) OR ucast lo))"

definition force_wrmsr :: "u32 \<Rightarrow> u64 \<Rightarrow> ('z machine_scheme, unit) prog" where
  "force_wrmsr idx val =
     void (insn ''fep wrmsr'' [ucast idx, ucast (ucast val :: u32), ucast (ucast (drop_bit 32 val) :: u32)])"

record msr_test_vals =
  test_val :: u64
  test_pred :: bool

record msr_test_data =
  test_msr :: u32
  test_vals :: "msr_test_vals list"

definition msr_fail_text :: "env \<Rightarrow> string \<Rightarrow> string" where
  "msr_fail_text e how =
     ''Fail: MSR %08x, '' @ how @ [LF] @ ''  Got %016'' @ PRIx64 e @ '', Expected %016'' @ PRIx64 e @ [LF]"

definition msr_check :: "string \<Rightarrow> u32 \<Rightarrow> u64 \<Rightarrow> u64 \<Rightarrow> ('z report_scheme, unit) prog" where
  "msr_check how idx val expected =
     bnd (config id) (\<lambda>e.
     when1 (val \<noteq> expected)
       (xtf_failure (Some (msr_fail_text e how)) [VaInt idx, va_u64 e val, va_u64 e expected]))"

definition real_write_round :: "u32 \<Rightarrow> msr_test_vals \<Rightarrow> ('z cpu_scheme, unit) prog" where
  "real_write_round idx t =
     (if \<not> test_pred t then ret ()
      else
        seq (wrmsr idx (test_val t)) (
        bnd (rdmsr idx) (\<lambda>val.
        seq (msr_check ''real write, real read'' idx val (test_val t)) (
        bnd (fetch xtf_has_fep) (\<lambda>fep.
        if \<not> fep then ret ()
        else
          bnd (force_rdmsr idx) (\<lambda>val.
          msr_check ''real write, emul read'' idx val (test_val t)))))))"

definition emul_write_round :: "u32 \<Rightarrow> msr_test_vals \<Rightarrow> ('z cpu_scheme, unit) prog" where
  "emul_write_round idx t =
     (if \<not> test_pred t then ret ()
      else
        seq (force_wrmsr idx (test_val t)) (
        bnd (rdmsr idx) (\<lambda>val.
        seq (msr_check ''emul write, real read'' idx val (test_val t)) (
        bnd (force_rdmsr idx) (\<lambda>val.
        msr_check ''emul write, emul read'' idx val (test_val t))))))"

definition xtf_msr_consistency_test :: "msr_test_data \<Rightarrow> ('z cpu_scheme, unit) prog" where
  "xtf_msr_consistency_test t =
     seq (block (map (real_write_round (test_msr t)) (test_vals t))) (
     bnd (fetch xtf_has_fep) (\<lambda>fep.
     if \<not> fep then ret ()
     else block (map (emul_write_round (test_msr t)) (test_vals t))))"

section \<open>What a trace says about an MSR\<close>

definition join_msr :: "u64 \<Rightarrow> u64 \<Rightarrow> u64" where
  "join_msr lo hi = push_bit 32 (ucast (ucast hi :: u32)) OR ucast (ucast lo :: u32)"

text \<open>The value an event writes to the MSR, by either mechanism.\<close>

fun written_by :: "u32 \<Rightarrow> ev \<Rightarrow> u64 option" where
  "written_by idx (Wrmsr i v) = (if i = idx then Some v else None)"
| "written_by idx (Insn n [i, lo, hi]) = (if n = ''fep wrmsr'' \<and> i = ucast idx then Some (join_msr lo hi) else None)"
| "written_by idx _ = None"

text \<open>The value an event reads from the MSR, as the hardware answers it after the events \<open>t\<close>.\<close>

fun read_by :: "hw \<Rightarrow> ev list \<Rightarrow> u32 \<Rightarrow> ev \<Rightarrow> u64 option" where
  "read_by h t idx (Rdmsr i) = (if i = idx then hw_rdmsr h t idx else None)"
| "read_by h t idx (Insn n [i]) =
     (if n = ''fep rdmsr'' \<and> i = ucast idx
      then map_option (\<lambda>r. join_msr (r ! 0) (r ! 1)) (hw_insn h t n [i]) else None)"
| "read_by h t idx _ = None"

text \<open>Every read of the events \<open>us\<close>, which follow \<open>t\<close>, returns the value written last.\<close>

fun reads_back :: "hw \<Rightarrow> u32 \<Rightarrow> ev list \<Rightarrow> u64 option \<Rightarrow> ev list \<Rightarrow> bool" where
  "reads_back h idx t cur [] = True"
| "reads_back h idx t cur (u # us) =
     ((case read_by h t idx u of Some v \<Rightarrow> cur = Some v | None \<Rightarrow> True) \<and>
      reads_back h idx (t @ [u]) (case written_by idx u of Some v \<Rightarrow> Some v | None \<Rightarrow> cur) us)"

definition msr_writes :: "u32 \<Rightarrow> ev list \<Rightarrow> u64 list" where
  "msr_writes idx us = List.map_filter (written_by idx) us"

fun last_write :: "u32 \<Rightarrow> u64 option \<Rightarrow> ev list \<Rightarrow> u64 option" where
  "last_write idx cur [] = cur"
| "last_write idx cur (u # us) =
     last_write idx (case written_by idx u of Some v \<Rightarrow> Some v | None \<Rightarrow> cur) us"

lemma reads_back_append:
  "reads_back h idx t cur (us @ vs) \<longleftrightarrow>
     reads_back h idx t cur us \<and> reads_back h idx (t @ us) (last_write idx cur us) vs"
  by (induction us arbitrary: t cur) auto

lemma msr_writes_simps [simp]:
  "msr_writes idx [] = []"
  "msr_writes idx (u # us) = (case written_by idx u of Some v \<Rightarrow> v # msr_writes idx us | None \<Rightarrow> msr_writes idx us)"
  "msr_writes idx (us @ vs) = msr_writes idx us @ msr_writes idx vs"
  by (simp_all add: msr_writes_def List.map_filter_def split: option.split)

lemma join_split_msr [simp]: "join_msr (ucast (ucast v :: u32)) (ucast (ucast (drop_bit 32 v) :: u32)) = v"
  unfolding join_msr_def by (rule bit_word_eqI) (auto simp: bit_simps)

section \<open>The verdict\<close>

text \<open>
  A stretch of the test whose effect on the status is exactly that of the reads in it, and which
  writes the values \<open>ws\<close>. Such stretches compose.
\<close>

definition judges :: "hw \<Rightarrow> u32 \<Rightarrow> ('z cpu_scheme, unit) prog \<Rightarrow> (bool \<Rightarrow> u64 list) \<Rightarrow> bool" where
  "judges h idx p ws \<longleftrightarrow>
     (\<forall>s s1. p h s = Done () s1 \<longrightarrow> xtf_has_fep s1 = xtf_has_fep s \<and>
       (\<exists>us. trace s1 = trace s @ us \<and> msr_writes idx us = ws (xtf_has_fep s) \<and>
         (\<forall>cur. status s1 = (if reads_back h idx (trace s) cur us then status s else STATUS_FAILURE))))"

lemma max_FAILURE [simp]: "max st STATUS_FAILURE = STATUS_FAILURE"
  by (cases st) (simp_all add: max_def status_order)

lemma judges_ret: "judges h idx (ret ()) (\<lambda>_. [])"
  by (auto simp: judges_def io_simps)

lemma judges_seq:
  assumes "judges h idx p ws" "judges h idx q vs"
  shows "judges h idx (seq p q) (\<lambda>f. ws f @ vs f)"
  unfolding judges_def
proof (intro allI impI)
  fix s s1
  assume run: "seq p q h s = Done () s1"
  obtain s2 where s2: "p h s = Done () s2" "q h s2 = Done () s1"
    using run by (auto simp: seq_run split: outcome.splits)
  obtain us where us: "xtf_has_fep s2 = xtf_has_fep s" "trace s2 = trace s @ us" "msr_writes idx us = ws (xtf_has_fep s)"
      "\<And>cur. status s2 = (if reads_back h idx (trace s) cur us then status s else STATUS_FAILURE)"
    using assms(1) s2(1) unfolding judges_def by blast
  obtain vs' where vs: "xtf_has_fep s1 = xtf_has_fep s2" "trace s1 = trace s2 @ vs'" "msr_writes idx vs' = vs (xtf_has_fep s2)"
      "\<And>cur. status s1 = (if reads_back h idx (trace s2) cur vs' then status s2 else STATUS_FAILURE)"
    using assms(2) s2(2) unfolding judges_def by blast
  show "xtf_has_fep s1 = xtf_has_fep s \<and>
       (\<exists>us. trace s1 = trace s @ us \<and> msr_writes idx us = ws (xtf_has_fep s) @ vs (xtf_has_fep s) \<and>
         (\<forall>cur. status s1 = (if reads_back h idx (trace s) cur us then status s else STATUS_FAILURE)))"
  proof (intro conjI exI [of _ "us @ vs'"] allI)
    fix cur
    show "status s1 = (if reads_back h idx (trace s) cur (us @ vs') then status s else STATUS_FAILURE)"
      using us(4) [of cur] vs(4) [of "last_write idx cur us"] us(2)
      by (auto simp: reads_back_append split: if_splits)
  qed (simp_all add: us vs)
qed

lemma judges_block:
  assumes "\<And>x. x \<in> set xs \<Longrightarrow> judges h idx (p x) (w x)"
  shows "judges h idx (block (map p xs)) (\<lambda>f. concat (map (\<lambda>x. w x f) xs))"
  using assms by (induction xs) (simp_all add: judges_ret judges_seq)

lemma judges_real_write_round:
  "judges h idx (real_write_round idx t) (\<lambda>_. if test_pred t then [test_val t] else [])"
  unfolding judges_def
proof (intro allI impI)
  fix s s1 :: "'a cpu_scheme"
  assume run: "real_write_round idx t h s = Done () s1"
  let ?v = "test_val t"
  show "xtf_has_fep s1 = xtf_has_fep s \<and>
       (\<exists>us. trace s1 = trace s @ us \<and> msr_writes idx us = (if test_pred t then [?v] else []) \<and>
         (\<forall>cur. status s1 = (if reads_back h idx (trace s) cur us then status s else STATUS_FAILURE)))"
  proof (cases "test_pred t")
    case True
    let ?t1 = "trace s @ [Wrmsr idx ?v]"
    obtain r where r: "hw_rdmsr h ?t1 idx = Some r"
      using run True by (auto simp: real_write_round_def io_simps split: if_splits option.splits)
    show ?thesis
      using run True r
      by (auto simp: real_write_round_def io_simps msr_check_def force_rdmsr_def Let_def text_events_def
          join_msr_def split: if_splits option.splits)
  qed (use run in \<open>auto simp: real_write_round_def io_simps\<close>)
qed

lemma judges_emul_write_round:
  "judges h idx (emul_write_round idx t) (\<lambda>_. if test_pred t then [test_val t] else [])"
  unfolding judges_def
proof (intro allI impI)
  fix s s1 :: "'a cpu_scheme"
  assume run: "emul_write_round idx t h s = Done () s1"
  let ?v = "test_val t"
  show "xtf_has_fep s1 = xtf_has_fep s \<and>
       (\<exists>us. trace s1 = trace s @ us \<and> msr_writes idx us = (if test_pred t then [?v] else []) \<and>
         (\<forall>cur. status s1 = (if reads_back h idx (trace s) cur us then status s else STATUS_FAILURE)))"
  proof (cases "test_pred t")
    case True
    let ?t1 = "trace s @ [Insn ''fep wrmsr'' [ucast idx, ucast (ucast ?v :: u32), ucast (ucast (drop_bit 32 ?v) :: u32)]]"
    obtain r where r: "hw_rdmsr h ?t1 idx = Some r"
      using run True by (auto simp: emul_write_round_def force_wrmsr_def io_simps split: if_splits option.splits)
    show ?thesis
      using run True r
      by (auto simp: emul_write_round_def io_simps msr_check_def force_rdmsr_def force_wrmsr_def Let_def
          text_events_def join_msr_def [symmetric] split: if_splits option.splits)
  qed (use run in \<open>auto simp: emul_write_round_def io_simps\<close>)
qed

definition tested_vals :: "msr_test_data \<Rightarrow> u64 list" where
  "tested_vals t = map test_val (filter test_pred (test_vals t))"

lemma concat_tested:
  "concat (map (\<lambda>x. if test_pred x then [test_val x] else []) xs) = map test_val (filter test_pred xs)"
  by (induction xs) simp_all

lemma judges_with_fep:
  assumes "judges h idx p ws"
  shows "judges h idx (bnd (fetch xtf_has_fep) (\<lambda>fep. if \<not> fep then ret () else p))
     (\<lambda>fep. if fep then ws fep else [])"
  unfolding judges_def
proof (intro allI impI)
  fix s s1
  assume "bnd (fetch xtf_has_fep) (\<lambda>fep. if \<not> fep then ret () else p) h s = Done () s1"
  then show "xtf_has_fep s1 = xtf_has_fep s \<and>
       (\<exists>us. trace s1 = trace s @ us \<and> msr_writes idx us = (if xtf_has_fep s then ws (xtf_has_fep s) else []) \<and>
         (\<forall>cur. status s1 = (if reads_back h idx (trace s) cur us then status s else STATUS_FAILURE)))"
    using assms [unfolded judges_def, rule_format, of s s1]
    by (cases "xtf_has_fep s") (simp_all add: io_simps)
qed

lemma judges_rounds:
  "judges h idx (block (map (real_write_round idx) ts)) (\<lambda>_. map test_val (filter test_pred ts))"
  "judges h idx (block (map (emul_write_round idx) ts)) (\<lambda>_. map test_val (filter test_pred ts))"
  unfolding concat_tested [symmetric]
  by (intro judges_block judges_real_write_round judges_emul_write_round)+

lemma judges_consistency_test:
  "judges h (test_msr t) (xtf_msr_consistency_test t)
     (\<lambda>fep. tested_vals t @ (if fep then tested_vals t else []))"
  unfolding xtf_msr_consistency_test_def tested_vals_def
  by (intro judges_seq judges_with_fep judges_rounds)

text \<open>
  A machine that keeps the two mechanisms in step: both accept the values of the test, and either
  kind of read returns what was written last by either kind of write.
\<close>

definition msr_after :: "u32 \<Rightarrow> ev list \<Rightarrow> u64 option" where
  "msr_after idx t = last_write idx None t"

definition msr_coherent :: "hw \<Rightarrow> u32 \<Rightarrow> u64 set \<Rightarrow> bool" where
  "msr_coherent h idx vs \<longleftrightarrow>
     (\<forall>t. \<forall>v \<in> vs. hw_wrmsr h t idx v \<and>
        hw_insn h t ''fep wrmsr'' [ucast idx, ucast (ucast v :: u32), ucast (ucast (drop_bit 32 v) :: u32)] \<noteq> None) \<and>
     (\<forall>t v. msr_after idx t = Some v \<longrightarrow> hw_rdmsr h t idx = Some v \<and>
        hw_insn h t ''fep rdmsr'' [ucast idx] = Some [take_bit 32 v, drop_bit 32 v])"

lemma last_write_append: "last_write idx cur (us @ vs) = last_write idx (last_write idx cur us) vs"
  by (induction us arbitrary: cur) simp_all

lemma msr_after_append: "msr_after idx (t @ us) = last_write idx (msr_after idx t) us"
  by (simp add: msr_after_def last_write_append)

lemma join_split_msr_u64 [simp]: "join_msr (take_bit 32 v) (drop_bit 32 v) = v"
  unfolding join_msr_def by (rule bit_word_eqI) (auto simp: bit_simps)

lemma coherent_reads:
  assumes "msr_coherent h idx vs" "msr_after idx t \<noteq> None"
  shows "hw_rdmsr h t idx = msr_after idx t"
    "hw_insn h t ''fep rdmsr'' [ucast idx] = map_option (\<lambda>v. [take_bit 32 v, drop_bit 32 v]) (msr_after idx t)"
  using assms unfolding msr_coherent_def by auto

lemma coherent_writes:
  assumes "msr_coherent h idx vs" "v \<in> vs"
  shows "hw_wrmsr h t idx v"
    "hw_insn h t ''fep wrmsr'' [ucast idx, ucast (ucast v :: u32), ucast (ucast (drop_bit 32 v) :: u32)] \<noteq> None"
  using assms unfolding msr_coherent_def by blast+

lemma coherent_rounds:
  assumes "msr_coherent h idx vs" "test_pred t \<Longrightarrow> test_val t \<in> vs"
  shows "\<exists>us. real_write_round idx t h s = Done () (s\<lparr>trace := trace s @ us\<rparr>)"
    "\<exists>us. emul_write_round idx t h s = Done () (s\<lparr>trace := trace s @ us\<rparr>)"
proof -
  note rd = coherent_reads [OF assms(1)]
  note wr = coherent_writes [OF assms(1) assms(2)]
  note j = join_split_msr_u64 [unfolded join_msr_def] join_split_msr [unfolded join_msr_def]
  show "\<exists>us. real_write_round idx t h s = Done () (s\<lparr>trace := trace s @ us\<rparr>)"
  proof (cases "test_pred t")
    case True
    then show ?thesis
      using wr(1) [OF True]
      by (cases s) (auto simp: real_write_round_def io_simps rd msr_after_append
          msr_check_def force_rdmsr_def Let_def j)
  qed (auto simp: real_write_round_def io_simps intro: exI [of _ "[]"])
  show "\<exists>us. emul_write_round idx t h s = Done () (s\<lparr>trace := trace s @ us\<rparr>)"
  proof (cases "test_pred t")
    case True
    obtain x where "hw_insn h (trace s) ''fep wrmsr''
        [ucast idx, ucast (ucast (test_val t) :: u32), ucast (ucast (drop_bit 32 (test_val t)) :: u32)] = Some x"
      using wr(2) [OF True] by blast
    then show ?thesis
      using True
      by (cases s) (auto simp: emul_write_round_def io_simps rd msr_after_append
          msr_check_def force_rdmsr_def force_wrmsr_def Let_def join_msr_def [symmetric])
  qed (auto simp: emul_write_round_def io_simps intro: exI [of _ "[]"])
qed

lemma block_extends:
  fixes s :: "'z machine_scheme"
  assumes "\<And>x s. x \<in> set xs \<Longrightarrow> \<exists>us. p x h s = Done () (s\<lparr>trace := trace s @ us\<rparr>)"
  shows "\<exists>us. block (map p xs) h s = Done () (s\<lparr>trace := trace s @ us\<rparr>)"
  using assms
proof (induction xs arbitrary: s)
  case Nil
  show ?case by (cases s) (auto simp: io_simps intro: exI [of _ "[]"])
next
  case (Cons x xs)
  obtain us where us: "p x h s = Done () (s\<lparr>trace := trace s @ us\<rparr>)"
    using Cons.prems by (meson list.set_intros(1))
  obtain vs where "block (map p xs) h (s\<lparr>trace := trace s @ us\<rparr>) = Done () (s\<lparr>trace := (trace s @ us) @ vs\<rparr>)"
    using Cons.IH [of "s\<lparr>trace := trace s @ us\<rparr>"] Cons.prems by auto
  then show ?case by (intro exI [of _ "us @ vs"]) (simp add: io_simps us)
qed

section \<open>Verdicts\<close>

text \<open>
  Xtf_msr_consistency_test passes on coherent hardware: when real and emulated accesses to the
  MSR agree with what was last written, the test only probes, never reports a failure, and leaves
  the rest of the state unchanged.
\<close>

lemma msr_coherent_passes:
  assumes "msr_coherent h (test_msr t) (set (tested_vals t))"
  shows "\<exists>us. xtf_msr_consistency_test t h s = Done () (s\<lparr>trace := trace s @ us\<rparr>)"
proof -
  have vals: "x \<in> set (test_vals t) \<Longrightarrow> test_pred x \<Longrightarrow> test_val x \<in> set (tested_vals t)" for x
    by (auto simp: tested_vals_def)
  obtain us where us: "block (map (real_write_round (test_msr t)) (test_vals t)) h s = Done () (s\<lparr>trace := trace s @ us\<rparr>)"
    using block_extends [of "test_vals t" "real_write_round (test_msr t)" h s]
      coherent_rounds(1) [OF assms vals] by blast
  obtain vs where vs: "block (map (emul_write_round (test_msr t)) (test_vals t)) h (s\<lparr>trace := trace s @ us\<rparr>) =
      Done () (s\<lparr>trace := (trace s @ us) @ vs\<rparr>)"
    using block_extends [of "test_vals t" "emul_write_round (test_msr t)" h "s\<lparr>trace := trace s @ us\<rparr>"]
      coherent_rounds(2) [OF assms vals] by auto
  show ?thesis
    by (cases "xtf_has_fep s") (use us vs in \<open>auto simp: xtf_msr_consistency_test_def io_simps\<close>)
qed

definition coherent_hw :: "env \<Rightarrow> hw" where
  "coherent_hw e = (accept_hw e)
     \<lparr>hw_rdmsr := \<lambda>t i. Some (case msr_after i t of Some v \<Rightarrow> v | None \<Rightarrow> 0),
      hw_insn := \<lambda>t n ops. Some (if n = ''fep rdmsr''
        then case msr_after (ucast (hd ops)) t of Some v \<Rightarrow> [take_bit 32 v, drop_bit 32 v] | None \<Rightarrow> [0, 0] else [])\<rparr>"

lemma msr_coherent_coherent_hw: "msr_coherent (coherent_hw e) i vs"
  by (auto simp: msr_coherent_def coherent_hw_def)

lemma msr_coherent_passes_witness:
  "\<exists>us. xtf_msr_consistency_test \<lparr>test_msr = 0x174, test_vals = [\<lparr>test_val = 8, test_pred = True\<rparr>]\<rparr>
     (coherent_hw HVM64) (cpu0\<lparr>xtf_has_fep := True\<rparr>) =
   Done () (cpu0\<lparr>xtf_has_fep := True\<rparr>\<lparr>trace := trace (cpu0\<lparr>xtf_has_fep := True\<rparr>) @ us\<rparr>)"
  by (rule msr_coherent_passes) (rule msr_coherent_coherent_hw)



end
