(* ===== verification/Printf_Spec.thy ===== *)
theory Printf_Spec imports
  Fmt_Number
  X86_Decode
begin

text \<open>
  What a whole format string means. A format is built from items, each with the argument it takes;
  \<open>format_of\<close> and \<open>args_of\<close> give the C format string and the variable arguments, \<open>text_of\<close> the text
  that the items stand for. The formatter of \<open>common/libc/vsnprintf.c\<close> is shown to produce that
  text for every list of well-formed items, without undefined behaviour: the parser of conversion
  specifications reads back what \<open>format_of\<close> wrote.
\<close>

section \<open>Items\<close>

datatype fwidth = No_width | Width nat | Star_width u32
datatype fprec = No_prec | Dot | Prec nat | Star_prec u32
datatype lenmod = M_hh | M_h | M_none | M_l | M_ll | M_z

text \<open>The flags, the width, the precision and, for the numbers, the length and the conversion.\<close>

datatype item =
    Lit char
  | Percent
  | Chr string fwidth fprec u32
  | Str string fwidth fprec "char list option"
  | Num string fwidth fprec lenmod char u64
  | Ptr string fwidth fprec u64

definition decimal :: "nat \<Rightarrow> string" where
  "decimal n = number_text 10 0 n"

fun width_text :: "fwidth \<Rightarrow> string" where
  "width_text No_width = []"
| "width_text (Width n) = decimal n"
| "width_text (Star_width i) = ''*''"

fun width_args :: "fwidth \<Rightarrow> varg list" where
  "width_args (Star_width i) = [VaInt i]"
| "width_args _ = []"

fun prec_text :: "fprec \<Rightarrow> string" where
  "prec_text No_prec = []"
| "prec_text Dot = ''.''"
| "prec_text (Prec n) = CHR ''.'' # decimal n"
| "prec_text (Star_prec i) = ''.*''"

fun prec_args :: "fprec \<Rightarrow> varg list" where
  "prec_args (Star_prec i) = [VaInt i]"
| "prec_args _ = []"

fun mod_text :: "lenmod \<Rightarrow> string" where
  "mod_text M_hh = ''hh''" | "mod_text M_h = ''h''" | "mod_text M_none = []"
| "mod_text M_l = ''l''" | "mod_text M_ll = ''ll''" | "mod_text M_z = ''z''"

fun num_arg :: "lenmod \<Rightarrow> u64 \<Rightarrow> varg" where
  "num_arg M_l v = VaLong v" | "num_arg M_z v = VaLong v" | "num_arg M_ll v = VaLLong v"
| "num_arg _ v = VaInt (ucast v)"

definition conv_text :: "string \<Rightarrow> fwidth \<Rightarrow> fprec \<Rightarrow> string" where
  "conv_text fl w p = CHR ''%'' # fl @ width_text w @ prec_text p"

fun item_format :: "item \<Rightarrow> string" where
  "item_format (Lit c) = [c]"
| "item_format Percent = ''%%''"
| "item_format (Chr fl w p i) = conv_text fl w p @ ''c''"
| "item_format (Str fl w p s) = conv_text fl w p @ ''s''"
| "item_format (Num fl w p m c v) = conv_text fl w p @ mod_text m @ [c]"
| "item_format (Ptr fl w p v) = conv_text fl w p @ ''p''"

fun item_args :: "item \<Rightarrow> varg list" where
  "item_args (Chr fl w p i) = width_args w @ prec_args p @ [VaInt i]"
| "item_args (Str fl w p s) = width_args w @ prec_args p @ [VaStr s]"
| "item_args (Num fl w p m c v) = width_args w @ prec_args p @ [num_arg m v]"
| "item_args (Ptr fl w p v) = width_args w @ prec_args p @ [VaPtr v]"
| "item_args _ = []"

definition format_of :: "item list \<Rightarrow> string" where
  "format_of items = concat (map item_format items)"

definition args_of :: "item list \<Rightarrow> varg list" where
  "args_of items = concat (map item_args items)"

section \<open>Their meaning\<close>

fun flag_of :: "char \<Rightarrow> u32" where
  "flag_of c = (if c = CHR ''-'' then LEFT else if c = CHR ''+'' then PLUS else if c = CHR '' '' then SPACE
     else if c = CHR ''#'' then ALTERNATE else if c = CHR ''0'' then ZERO else 0)"

declare flag_of.simps [simp del]

text \<open>A negative width argument is a \<open>-\<close> flag and a width.\<close>

fun width_flag :: "fwidth \<Rightarrow> u32" where
  "width_flag (Star_width i) = (if sint i < 0 then LEFT else 0)"
| "width_flag _ = 0"

fun width_value :: "fwidth \<Rightarrow> int" where
  "width_value No_width = -1"
| "width_value (Width n) = int n"
| "width_value (Star_width i) = \<bar>sint i\<bar>"

fun prec_value :: "fprec \<Rightarrow> int" where
  "prec_value (Prec n) = int n"
| "prec_value (Star_prec i) = (if sint i < 0 then -1 else sint i)"
| "prec_value _ = -1"

definition conv_flags :: "u32 \<Rightarrow> string \<Rightarrow> fwidth \<Rightarrow> u32" where
  "conv_flags cf fl w = fold (\<lambda>c f. f OR flag_of c) fl cf OR width_flag w"

fun num_base :: "char \<Rightarrow> u32" where
  "num_base c = (if c = CHR ''o'' then 8 else if c = CHR ''x'' \<or> c = CHR ''X'' then 16 else 10)"

fun num_flag :: "char \<Rightarrow> u32" where
  "num_flag c = (if c = CHR ''d'' \<or> c = CHR ''i'' then SIGNED else if c = CHR ''X'' then UPPER else 0)"

fun mod_bits :: "env \<Rightarrow> lenmod \<Rightarrow> nat" where
  "mod_bits e M_hh = 8" | "mod_bits e M_h = 16" | "mod_bits e M_none = 32" | "mod_bits e M_ll = 64"
| "mod_bits e _ = BITS_PER_LONG e"

text \<open>The value of the argument in the type that the length modifier names; \<open>z\<close> is always unsigned.\<close>

definition num_value :: "env \<Rightarrow> lenmod \<Rightarrow> char \<Rightarrow> u64 \<Rightarrow> u64" where
  "num_value e m c v =
     (if (c = CHR ''d'' \<or> c = CHR ''i'') \<and> m \<noteq> M_z then signed_take_bit (mod_bits e m - 1) v
      else take_bit (mod_bits e m) v)"

text \<open>Text padded with spaces to the field width, on the left unless the flags say otherwise.\<close>

definition field :: "u32 \<Rightarrow> int \<Rightarrow> nat \<Rightarrow> string \<Rightarrow> string" where
  "field flags width len cs =
     (let pad = replicate (nat (width - int len)) (CHR '' '')
      in if has flags LEFT then cs @ pad else pad @ cs)"

fun str_text :: "char list option \<Rightarrow> int \<Rightarrow> string" where
  "str_text s prec =
     (let cs = (case s of None \<Rightarrow> ''(NULL)'' | Some v \<Rightarrow> cstr v)
      in if prec < 0 then cs else take (nat prec) cs)"

fun item_text :: "env \<Rightarrow> u32 \<Rightarrow> item \<Rightarrow> string" where
  "item_text e cf (Lit c) = crlf cf [c]"
| "item_text e cf Percent = ''%''"
| "item_text e cf (Chr fl w p i) =
     (let f = conv_flags cf fl w in field f (width_value w) 1 (crlf f [char_of (unat i)]))"
| "item_text e cf (Str fl w p s) =
     (let f = conv_flags cf fl w; cs = str_text s (prec_value p)
      in field f (width_value w) (length cs) (crlf f cs))"
| "item_text e cf (Num fl w p m c v) =
     number_spec (num_value e m c v) (num_base c) (width_value w) (prec_value p) (conv_flags cf fl w OR num_flag c)"
| "item_text e cf (Ptr fl w p v) =
     (let f = conv_flags cf fl w
      in if width_value w = -1
         then number_spec (to_ulong e v) 16 (2 * int (BITS_PER_LONG e div 8)) (prec_value p) (f OR ZERO)
         else number_spec (to_ulong e v) 16 (width_value w) (prec_value p) f)"

definition text_of :: "env \<Rightarrow> u32 \<Rightarrow> item list \<Rightarrow> string" where
  "text_of e cf items = concat (map (item_text e cf) items)"

section \<open>Well-formed items\<close>

text \<open>
  The flags are flags, a width in the format is a positive decimal number, and the \<open>int\<close> arithmetic
  of the formatter stays in range.
\<close>

fun width_ok :: "fwidth \<Rightarrow> bool" where
  "width_ok (Width n) \<longleftrightarrow> 0 < n \<and> int n \<le> INT_MAX"
| "width_ok (Star_width i) \<longleftrightarrow> sint i \<noteq> INT_MIN"
| "width_ok No_width \<longleftrightarrow> True"

fun prec_ok :: "fprec \<Rightarrow> bool" where
  "prec_ok (Prec n) \<longleftrightarrow> int n \<le> INT_MAX"
| "prec_ok _ \<longleftrightarrow> True"

definition conv_ok :: "string \<Rightarrow> fwidth \<Rightarrow> fprec \<Rightarrow> bool" where
  "conv_ok fl w p \<longleftrightarrow> set fl \<subseteq> set ''-+ #0'' \<and> width_ok w \<and> prec_ok p"

fun str_ok :: "char list option \<Rightarrow> int \<Rightarrow> bool" where
  "str_ok None prec \<longleftrightarrow> True"
| "str_ok (Some v) prec \<longleftrightarrow> (NUL \<in> set v \<or> 0 \<le> prec \<and> nat prec \<le> length v) \<and> int (length (cstr v)) \<le> INT_MAX"

fun item_ok :: "env \<Rightarrow> u32 \<Rightarrow> item \<Rightarrow> bool" where
  "item_ok e cf (Lit c) \<longleftrightarrow> c \<noteq> CHR ''%''"
| "item_ok e cf Percent \<longleftrightarrow> True"
| "item_ok e cf (Chr fl w p i) \<longleftrightarrow> conv_ok fl w p"
| "item_ok e cf (Str fl w p s) \<longleftrightarrow> conv_ok fl w p \<and> str_ok s (prec_value p)"
| "item_ok e cf (Num fl w p m c v) \<longleftrightarrow>
     conv_ok fl w p \<and> c \<in> set ''diuoxX''
     \<and> number_args_ok (num_value e m c v) (width_value w) (prec_value p) (conv_flags cf fl w OR num_flag c)"
| "item_ok e cf (Ptr fl w p v) \<longleftrightarrow>
     conv_ok fl w p \<and> number_args_ok (to_ulong e v) (width_value w) (prec_value p) (conv_flags cf fl w)"

text \<open>A plain pointer must not be followed by a letter that modifies it, \<open>h\<close> or \<open>e\<close>.\<close>

fun pointers_ok :: "item list \<Rightarrow> bool" where
  "pointers_ok (Ptr fl w p v # Lit c # items) \<longleftrightarrow> c \<notin> set ''he'' \<and> pointers_ok (Lit c # items)"
| "pointers_ok (i # items) \<longleftrightarrow> pointers_ok items"
| "pointers_ok [] \<longleftrightarrow> True"

definition format_ok :: "env \<Rightarrow> u32 \<Rightarrow> item list \<Rightarrow> bool" where
  "format_ok e cf items \<longleftrightarrow> list_all (item_ok e cf) items \<and> pointers_ok items"

section \<open>Decimal numbers in the format\<close>

lemma lower_digit:
  assumes "d < 10"
  shows "isdigit (lower_digits ! d) \<and> schar_of (lower_digits ! d) = 48 + int d"
proof -
  have "\<forall>d \<in> set [0..<10]. isdigit (lower_digits ! d) \<and> schar_of (lower_digits ! d) = 48 + int d" by code_simp
  then show ?thesis using assms by simp
qed

lemma foldl_digits_ge: "m \<le> foldl (\<lambda>r d. r * 10 + d) m ds" for m :: nat
proof (induction ds arbitrary: m)
  case (Cons d ds)
  have "m \<le> m * 10 + d" by simp
  also have "\<dots> \<le> foldl (\<lambda>r d. r * 10 + d) (m * 10 + d) ds" by (rule Cons.IH)
  finally show ?case by simp
qed simp

lemma fmt_int_digits:
  assumes "\<forall>d \<in> set ds. d < 10" "int (foldl (\<lambda>r d. r * 10 + d) m ds) \<le> INT_MAX"
    and "rest = [] \<or> \<not> isdigit (hd rest)"
  shows "fmt_int_loop (int m) (map ((!) lower_digits) ds @ rest) = Some (int (foldl (\<lambda>r d. r * 10 + d) m ds), rest)"
  using assms(1,2)
proof (induction ds arbitrary: m)
  case Nil
  then show ?case using assms(3) by (cases rest) auto
next
  case (Cons d ds)
  have "int (m * 10 + d) \<le> INT_MAX"
    using Cons.prems(2) foldl_digits_ge [of "m * 10 + d" ds] by simp
  then have c: "c_int (int m * 10) = Some (int m * 10)" "c_int (int m * 10 + int d) = Some (int (m * 10 + d))"
    by (simp_all add: c_int_def INT_limits)
  show ?case
    using Cons.IH [of "m * 10 + d"] Cons.prems lower_digit [of d] by (simp add: c)
qed

lemma foldl_rev_digits: "foldl (\<lambda>r d. r * 10 + d) 0 (rev ds) = value_of 10 ds" for ds :: "nat list"
  by (induction ds) simp_all

lemma decimal_digits:
  "\<exists>ds. decimal n = map ((!) lower_digits) ds \<and> ds \<noteq> [] \<and> (\<forall>d \<in> set ds. d < 10)
     \<and> foldl (\<lambda>r d. r * 10 + d) 0 ds = n \<and> (0 < n \<longrightarrow> hd ds \<noteq> 0)"
proof (cases "n = 0")
  case True
  then show ?thesis
    by (intro exI [of _ "[0]"]) (simp add: decimal_def number_text_def lower_digits_def)
next
  case False
  have "digit_chars 0 = lower_digits" by (simp add: digit_chars_def has_def)
  moreover have "digit_list 10 n \<noteq> []" using False by (simp add: digit_list_step)
  ultimately show ?thesis
    using False last_digit_list [of 10 n] digit_list_less [of _ 10 n] value_of_digit_list [of 10 n]
    by (intro exI [of _ "rev (digit_list 10 n)"])
      (auto simp: decimal_def number_text_def foldl_rev_digits hd_rev)
qed

lemma fmt_int_decimal:
  "int n \<le> INT_MAX \<Longrightarrow> rest = [] \<or> \<not> isdigit (hd rest) \<Longrightarrow> fmt_int (decimal n @ rest) = Some (int n, rest)"
  using decimal_digits [of n] fmt_int_digits [of _ 0 rest] by (auto simp: fmt_int_def)

lemma hd_decimal: "\<exists>c cs. decimal n = c # cs \<and> isdigit c \<and> (0 < n \<longrightarrow> c \<noteq> CHR ''0'')"
proof -
  obtain ds where ds: "decimal n = map ((!) lower_digits) ds" "ds \<noteq> []" "\<forall>d \<in> set ds. d < 10" "0 < n \<longrightarrow> hd ds \<noteq> 0"
    using decimal_digits [of n] by (elim exE conjE) (rule that)
  obtain d ds' where d: "ds = d # ds'" using ds(2) by (cases ds) auto
  have "\<forall>k \<in> set [1..<10]. lower_digits ! k \<noteq> CHR ''0''" by code_simp
  then have "d \<noteq> 0 \<Longrightarrow> lower_digits ! d \<noteq> CHR ''0''" using ds(3) d by simp
  then show ?thesis using ds d lower_digit [of d] by auto
qed

section \<open>Parsing what the items print\<close>

lemma isdigit_chars: "isdigit c \<Longrightarrow> c \<notin> set ''*.-+ #hlz%csodiuxXp''"
proof
  have "\<forall>c \<in> set ''*.-+ #hlz%csodiuxXp''. \<not> isdigit c" by (simp add: isdigit_def schar_of_def)
  then show "isdigit c \<Longrightarrow> c \<in> set ''*.-+ #hlz%csodiuxXp'' \<Longrightarrow> False" by blast
qed

lemma parse_flags_text:
  assumes "set fl \<subseteq> set ''-+ #0''" "rest = [] \<or> hd rest \<notin> set ''-+ #0''"
  shows "parse_flags (fl @ rest) f = (rest, fold (\<lambda>c f. f OR flag_of c) fl f)"
  using assms(1)
proof (induction fl arbitrary: f)
  case Nil
  then show ?case using assms(2) by (cases rest) auto
qed (auto simp: flag_of.simps split: if_splits)

lemma parse_width_text:
  assumes "width_ok w" "rest = [] \<or> \<not> isdigit (hd rest) \<and> hd rest \<noteq> CHR ''*''"
  shows "parse_width (width_text w @ rest) (width_args w @ args) f = Some (rest, args, width_value w, f OR width_flag w)"
proof (cases w)
  case No_width
  then show ?thesis using assms(2) by (cases rest) (auto simp: parse_width_def fmt_at_def isdigit_def NUL_def schar_of_def)
next
  case (Width n)
  obtain c cs where c: "decimal n = c # cs" "isdigit c" using hd_decimal by blast
  have "fmt_int (decimal n @ rest) = Some (int n, rest)"
    using assms Width by (intro fmt_int_decimal) auto
  then show ?thesis
    using Width c isdigit_chars [OF c(2)] by (simp add: parse_width_def fmt_at_def set_width_def)
next
  case (Star_width i)
  have "sint i \<le> INT_MAX" "INT_MIN \<le> sint i"
    using sint_lt [of i] sint_ge [of i] by (simp_all add: INT_limits)
  then have c: "sint i < 0 \<Longrightarrow> c_int (- sint i) = Some (- sint i)"
    using assms Star_width by (simp add: c_int_def INT_limits)
  show ?thesis using Star_width by (simp add: parse_width_def fmt_at_def set_width_def c)
qed

lemma parse_precision_text:
  assumes "prec_ok p" "rest = [] \<or> \<not> isdigit (hd rest) \<and> hd rest \<notin> set ''*.''"
  shows "parse_precision (prec_text p @ rest) (prec_args p @ args) = Some (rest, args, prec_value p)"
proof -
  have nul: "\<not> isdigit NUL" "NUL \<noteq> CHR ''.''" "NUL \<noteq> CHR ''*''"
    by (simp_all add: isdigit_def NUL_def schar_of_def)
  show ?thesis
  proof (cases p)
    case No_prec
    then show ?thesis using assms(2) nul by (cases rest) (auto simp: parse_precision_def fmt_at_def)
  next
    case Dot
    then show ?thesis using assms(2) nul by (cases rest) (auto simp: parse_precision_def fmt_at_def)
  next
    case (Prec n)
    obtain c cs where c: "decimal n = c # cs" "isdigit c" using hd_decimal by blast
    have "fmt_int (decimal n @ rest) = Some (int n, rest)"
      using assms Prec by (intro fmt_int_decimal) auto
    then show ?thesis using Prec c isdigit_chars [OF c(2)] by (simp add: parse_precision_def fmt_at_def)
  next
    case (Star_prec i)
    then show ?thesis by (simp add: parse_precision_def fmt_at_def)
  qed
qed

fun mod_char :: "lenmod \<Rightarrow> char" where
  "mod_char M_hh = CHR ''H''" | "mod_char M_h = CHR ''h''" | "mod_char M_none = CHR ''i''"
| "mod_char M_l = CHR ''l''" | "mod_char M_ll = CHR ''L''" | "mod_char M_z = CHR ''z''"

lemma parse_length_text: "c \<notin> set ''hlz'' \<Longrightarrow> parse_length (mod_text m @ c # rest) = (c # rest, mod_char m)"
  by (cases m) (simp_all add: parse_length_def fmt_at_def)

section \<open>One conversion specification\<close>

lemma hd_mod_text: "c \<in> set ''csdiuoxXp'' \<Longrightarrow> hd (mod_text m @ c # rest) \<in> set ''hlzcsdiuoxXp''"
  by (cases m) auto

lemma conv_letters:
  assumes "c \<in> set ''hlzcsdiuoxXp''"
  shows "\<not> isdigit c" "c \<notin> set ''*.-+ #0''"
proof -
  have "set ''hlzcsdiuoxXp'' \<subseteq> set ''*.-+ #hlz%csodiuxXp''" by simp
  then show "\<not> isdigit c" using isdigit_chars [of c] assms by blast
  have "set ''hlzcsdiuoxXp'' \<inter> set ''*.-+ #0'' = {}" by simp
  then show "c \<notin> set ''*.-+ #0''" using assms by blast
qed

lemma vs_spec_conv:
  assumes "conv_ok fl w p" "c \<in> set ''csdiuoxXp''"
  shows "vs_spec hook e cf (conv_text fl w p @ mod_text m @ c # rest) (width_args w @ prec_args p @ args) o1 =
    (let flags = conv_flags cf fl w; width = width_value w; precision = prec_value p; fmt = c # rest
     in if c = CHR ''c''
       then do {
         (i, args) \<leftarrow> va_int args;
         (width, o1) \<leftarrow>
           (if \<not> has flags LEFT then pad_pre (CHR '' '') width o1 else Some (width, o1));
         o1 \<leftarrow> put_char (char_of (unat i)) width flags o1;
         Some (fmt, args, o1)
       }
       else if c = CHR ''s''
       then (case args of
               VaStr s # args \<Rightarrow>
                 do { o1 \<leftarrow> fmt_string o1 s width precision flags; Some (fmt, args, o1) }
             | _ \<Rightarrow> None)
       else if c = CHR ''p''
       then (case args of
               p # args \<Rightarrow>
                 do {
                   (o1, k) \<leftarrow> pointer hook e o1 fmt p width precision flags;
                   Some (drop k fmt, args, o1)
                 }
             | _ \<Rightarrow> None)
       else (case number_conversion c flags of
               None \<Rightarrow> Some (conv_text fl w p @ mod_text m @ c # rest, args, PUT (CHR ''%'') o1)
             | Some (base, flags) \<Rightarrow>
                 do {
                   (num, args) \<leftarrow> pull_number e (mod_char m) flags args;
                   o1 \<leftarrow> fmt_number e o1 num base width precision flags;
                   Some (fmt, args, o1)
                 }))"
proof -
  let ?t1 = "mod_text m @ c # rest"
  let ?t2 = "prec_text p @ ?t1"
  let ?t3 = "width_text w @ ?t2"
  have t1: "\<not> isdigit (hd ?t1)" "hd ?t1 \<notin> set ''*.-+ #0''"
    using conv_letters [OF hd_mod_text [OF assms(2)]] by simp_all
  have t2: "\<not> isdigit (hd ?t2)" "hd ?t2 \<notin> set ''*-+ #0''"
    using t1 isdigit_chars [of "CHR ''.''"] by (cases p; auto)+
  have t3: "hd ?t3 \<notin> set ''-+ #0''"
  proof (cases w)
    case (Width n)
    then show ?thesis
      using assms(1) hd_decimal [of n] isdigit_chars by (auto simp: conv_ok_def)
  qed (use t2 in auto)
  have pf: "parse_flags (fl @ ?t3) cf = (?t3, fold (\<lambda>c f. f OR flag_of c) fl cf)"
    using assms(1) t3 by (intro parse_flags_text) (auto simp: conv_ok_def)
  have pw: "parse_width ?t3 (width_args w @ prec_args p @ args) (fold (\<lambda>c f. f OR flag_of c) fl cf) =
      Some (?t2, prec_args p @ args, width_value w, conv_flags cf fl w)"
    unfolding conv_flags_def using assms(1) t2 by (intro parse_width_text) (auto simp: conv_ok_def)
  have pp: "parse_precision ?t2 (prec_args p @ args) = Some (?t1, args, prec_value p)"
    using assms(1) t1 by (intro parse_precision_text) (auto simp: conv_ok_def)
  have pl: "parse_length ?t1 = (c # rest, mod_char m)"
    using assms(2) by (intro parse_length_text) auto
  have "c \<noteq> CHR ''%''" using assms(2) by auto
  then show ?thesis
    unfolding conv_text_def by (simp add: vs_spec_def pf pw pp pl fmt_at_def Let_def split: option.split)
qed

lemma width_range: "width_ok w \<Longrightarrow> -1 \<le> width_value w \<and> width_value w \<le> INT_MAX"
  using sint_lt [of "(case w of Star_width i \<Rightarrow> i | _ \<Rightarrow> 0)"] sint_ge [of "(case w of Star_width i \<Rightarrow> i | _ \<Rightarrow> 0)"]
  by (cases w) (auto simp: INT_limits)

lemma char_field:
  assumes "-1 \<le> w" "w \<le> INT_MAX"
  shows "(do {
      (w, o1) \<leftarrow> (if \<not> has f LEFT then pad_pre (CHR '' '') w o1 else Some (w, o1));
      o1 \<leftarrow> put_char c w f o1;
      Some (fmt, args, o1) }) = Some (fmt, args, puts (field f w 1 (crlf f [c])) o1)"
proof (cases "has f LEFT")
  case True
  then show ?thesis using assms by (auto simp: put_char_eq field_def INT_limits)
next
  case False
  have "nat (min w 1 - 2) = 0" by simp
  then show ?thesis
    using assms False by (auto simp: pad_pre_eq_pad_while pad_while_eq put_char_eq field_def INT_limits)
qed

lemma string_field:
  assumes "-1 \<le> w" "w \<le> INT_MAX" "str_ok s prec"
  shows "fmt_string o1 s w prec f = Some (puts (field f w (length (str_text s prec)) (crlf f (str_text s prec))) o1)"
proof -
  define v where "v = (case s of None \<Rightarrow> ''(NULL)'' @ [NUL] | Some v \<Rightarrow> v)"
  define cs where "cs = str_text s prec"
  have v: "cstr v = (case s of None \<Rightarrow> ''(NULL)'' | Some v \<Rightarrow> cstr v)"
    by (simp add: v_def cstr_def NUL_def split: option.splits)
  have ok: "NUL \<in> set v \<or> 0 \<le> prec \<and> nat prec \<le> length v" "int (length (cstr v)) \<le> INT_MAX"
    using assms(3) unfolding v by (auto simp: v_def INT_limits split: option.splits)
  have cs: "cs = (if prec < 0 then cstr v else take (nat prec) (cstr v))"
    by (simp add: cs_def v)
  have len: "(if prec < 0 then strlen v else strnlen v (nat prec)) = Some (length cs)"
    using ok(1) by (auto simp: strlen_eq strnlen_eq cs)
  have le: "length cs \<le> length (cstr v)" by (simp add: cs)
  have pre: "take (length (cstr v)) v = cstr v" by (simp add: cstr_def takeWhile_eq_take [symmetric])
  have "cs = take (length cs) (cstr v)" by (simp add: cs min_def)
  also have "\<dots> = take (length cs) (take (length (cstr v)) v)" by (simp only: pre)
  also have "\<dots> = take (length cs) v" using le by (simp only: take_take min_absorb1)
  finally have chars: "take (length cs) v = cs" by (rule sym)
  have range: "int (length cs) \<le> INT_MAX" using le ok(2) by linarith
  then have c: "c_int (int (length cs)) = Some (int (length cs))" by (simp add: c_int_def INT_limits)
  note run = fmt_string_def Let_def v_def [symmetric] len c chars put_string_eq
  have pad: "pad_while (CHR '' '') (int (length cs)) x o1 =
      Some (min x (int (length cs)) - 1, puts (replicate (nat (x - int (length cs))) (CHR '' '')) o1)"
    if "-2 \<le> x" "x \<le> INT_MAX" for x o1
    using that by (subst pad_while_ok) (auto simp: INT_limits)
  have w: "-2 \<le> w" "-2 \<le> min w (int (length cs)) - 1" "min w (int (length cs)) - 1 \<le> INT_MAX"
    using assms(1,2) by auto
  show ?thesis
    unfolding cs_def [symmetric]
  proof (cases "has f LEFT")
    case True
    then show "fmt_string o1 s w prec f = Some (puts (field f w (length cs) (crlf f cs)) o1)"
      unfolding run by (simp add: c chars pad [OF w(1) assms(2)] put_string_eq field_def)
  next
    case False
    have "nat (min w (int (length cs)) - 1 - int (length cs)) = 0" by simp
    then show "fmt_string o1 s w prec f = Some (puts (field f w (length cs) (crlf f cs)) o1)"
      using False unfolding run
      by (simp add: c chars pad [OF w(1) assms(2)] pad [OF w(2,3)] put_string_eq field_def)
  qed
qed

section \<open>Numbers\<close>

lemma has_or_SIGNED: "has (f OR g) SIGNED \<longleftrightarrow> has f SIGNED \<or> has g SIGNED"
  by (simp add: has_SIGNED bit_or_iff)

lemma not_SIGNED:
  "\<not> has LEFT SIGNED" "\<not> has ZERO SIGNED" "\<not> has UPPER SIGNED" "\<not> has 0 SIGNED" "has SIGNED SIGNED" "\<not> has (flag_of c) SIGNED"
  by (simp_all add: has_def flag_defs flag_of.simps)

lemma conv_flags_SIGNED: "has (conv_flags cf fl w) SIGNED \<longleftrightarrow> has cf SIGNED"
proof -
  have "has (fold (\<lambda>c f. f OR flag_of c) fl cf) SIGNED \<longleftrightarrow> has cf SIGNED"
    by (induction fl arbitrary: cf) (simp_all add: has_or_SIGNED not_SIGNED)
  moreover have "\<not> has (width_flag w) SIGNED" by (cases w) (simp_all add: not_SIGNED)
  ultimately show ?thesis by (simp add: conv_flags_def has_or_SIGNED)
qed

lemma num_flag_SIGNED: "has (num_flag c) SIGNED \<longleftrightarrow> c = CHR ''d'' \<or> c = CHR ''i''"
  by (simp add: not_SIGNED)

lemma number_conversion_text:
  "c \<in> set ''diuoxX'' \<Longrightarrow> number_conversion c f = Some (num_base c, f OR num_flag c)"
  by (auto simp: number_conversion_def)

lemma narrow:
  fixes v :: u64
  shows "scast (ucast (ucast v :: u32) :: u8) = signed_take_bit 7 v" "ucast (ucast (ucast v :: u32) :: u8) = take_bit 8 v"
    "scast (ucast (ucast v :: u32) :: u16) = signed_take_bit 15 v" "ucast (ucast (ucast v :: u32) :: u16) = take_bit 16 v"
    "scast (ucast v :: u32) = signed_take_bit 31 v" "ucast (ucast v :: u32) = take_bit 32 v"
  by (rule bit_word_eqI; auto simp: bit_simps min_def)+

lemma wide:
  fixes v :: u64
  shows "signed_take_bit 63 v = v" "take_bit 64 v = v"
proof -
  show "take_bit 64 v = v" by (rule bit_word_eqI) (simp add: bit_simps)
  show "signed_take_bit 63 v = v"
  proof (rule bit_word_eqI)
    fix n
    assume "n < LENGTH(64)"
    then have "n < 63 \<or> n = 63" by auto
    then show "bit (signed_take_bit 63 v) n \<longleftrightarrow> bit v n" by (auto simp: bit_simps min_def)
  qed
qed

lemma pull_number_text:
  assumes "c \<in> set ''diuoxX''" "\<not> has f SIGNED"
  shows "pull_number e (mod_char m) (f OR num_flag c) (num_arg m v # args) = Some (num_value e m c v, args)"
proof -
  have s: "has (f OR num_flag c) SIGNED \<longleftrightarrow> c = CHR ''d'' \<or> c = CHR ''i''"
    using assms(2) by (simp add: has_or_SIGNED num_flag_SIGNED del: num_flag.simps)
  show ?thesis
    by (cases m) (simp_all add: s num_value_def narrow wide to_ulong_def del: num_flag.simps BITS_PER_LONG.simps)
qed

lemma num_base_ok: "num_base c = 8 \<or> num_base c = 10 \<or> num_base c = 16"
  by simp

section \<open>The formatter renders items\<close>

lemma items_Cons:
  "format_of (it # items) = item_format it @ format_of items" "args_of (it # items) = item_args it @ args_of items"
  "text_of e cf (it # items) = item_text e cf it @ text_of e cf items"
  by (simp_all add: format_of_def args_of_def text_of_def)

lemma pointers_ok_tl: "pointers_ok (it # items) \<Longrightarrow> pointers_ok items"
  by (cases "it # items" rule: pointers_ok.cases) auto

lemma pointers_ok_next:
  assumes "pointers_ok (Ptr fl w p v # items)"
  shows "fmt_at (format_of items) 0 \<notin> set ''he''"
proof (cases items)
  case Nil
  then show ?thesis by (simp add: format_of_def fmt_at_def NUL_def)
next
  case (Cons i its)
  then show ?thesis using assms by (cases i) (simp_all add: format_of_def fmt_at_def conv_text_def)
qed

text \<open>
  What the pointer hook has to leave to the formatter: every pointer without a modifier letter.
\<close>

locale plain_hook =
  fixes hook :: fmt_hook
  assumes plain: "fmt_at fmt 1 \<noteq> CHR ''h'' \<Longrightarrow> fmt_at fmt 1 \<noteq> CHR ''e'' \<Longrightarrow>
    hook o1 fmt arg width precision flags = Some (False, o1, 0)"
begin

lemma pointer_plain:
  assumes "fmt_at fmt 1 \<notin> set ''he''" "number_args_ok (to_ulong e v) w p f" "-1 \<le> w"
  shows "pointer hook e o1 fmt (VaPtr v) w p f =
    Some (puts (if w = -1 then number_spec (to_ulong e v) 16 (2 * int (BITS_PER_LONG e div 8)) p (f OR ZERO)
                else number_spec (to_ulong e v) 16 w p f) o1, 0)"
proof -
  have "number_args_ok (to_ulong e v) (2 * int (BITS_PER_LONG e div 8)) p (f OR ZERO)"
    using assms(2) by (simp add: number_args_ok_def has_or_SIGNED not_SIGNED INT_limits)
  then have "fmt_number e o1 (to_ulong e v) 16 (2 * int (BITS_PER_LONG e div 8)) p (f OR ZERO) =
      Some (puts (number_spec (to_ulong e v) 16 (2 * int (BITS_PER_LONG e div 8)) p (f OR ZERO)) o1)" for o1
    by (intro fmt_number_text) simp_all
  moreover have "fmt_number e o1 (to_ulong e v) 16 w p f = Some (puts (number_spec (to_ulong e v) 16 w p f) o1)" for o1
    using assms(2) by (intro fmt_number_text) simp_all
  ultimately show ?thesis
    using assms(1) by (simp add: pointer_def plain Let_def del: BITS_PER_LONG.simps)
qed

text \<open>The conversion letter is where the loop continues.\<close>

lemma item_run:
  assumes "item_ok e cf it" "\<not> has cf SIGNED" "\<And>c. it \<noteq> Lit c"
    and "\<And>fl w p v. it = Ptr fl w p v \<Longrightarrow> fmt_at rest 0 \<notin> set ''he''"
  shows "\<exists>c. vs_spec hook e cf (item_format it @ rest) (item_args it @ args) o1 =
    Some (c # rest, args, puts (item_text e cf it) o1)"
proof (cases it)
  case (Lit c)
  then show ?thesis using assms(3) by simp
next
  case Percent
  then show ?thesis
    by (simp add: vs_spec_def parse_width_def parse_precision_def parse_length_def fmt_at_def PUT_puts isdigit_def schar_of_def Let_def)
next
  case (Chr fl w p i)
  then have ok: "conv_ok fl w p" using assms(1) by simp
  then have w: "-1 \<le> width_value w" "width_value w \<le> INT_MAX" using width_range by (auto simp: conv_ok_def)
  show ?thesis
    using vs_spec_conv [OF ok, of "CHR ''c''" hook e cf M_none rest "VaInt i # args" o1] Chr
      char_field [OF w, of "conv_flags cf fl w" o1 "char_of (unat i)" "CHR ''c'' # rest" args]
    by (simp add: Let_def)
next
  case (Str fl w p s)
  then have ok: "conv_ok fl w p" "str_ok s (prec_value p)" using assms(1) by simp_all
  then have w: "-1 \<le> width_value w" "width_value w \<le> INT_MAX" using width_range by (auto simp: conv_ok_def)
  show ?thesis
    using vs_spec_conv [OF ok(1), of "CHR ''s''" hook e cf M_none rest "VaStr s # args" o1] Str
      string_field [OF w ok(2), of o1 "conv_flags cf fl w"]
    by (simp add: Let_def)
next
  case (Num fl w p m c v)
  then have ok: "conv_ok fl w p" "c \<in> set ''diuoxX''"
      "number_args_ok (num_value e m c v) (width_value w) (prec_value p) (conv_flags cf fl w OR num_flag c)"
    using assms(1) by simp_all
  have "c \<in> set ''csdiuoxXp''" "c \<noteq> CHR ''c''" "c \<noteq> CHR ''s''" "c \<noteq> CHR ''p''" using ok(2) by auto
  then show ?thesis
    using vs_spec_conv [OF ok(1), of c hook e cf m rest "num_arg m v # args" o1] Num
      pull_number_text [OF ok(2), of "conv_flags cf fl w" e m v args] assms(2) fmt_number_text [OF num_base_ok ok(3)]
    by (simp add: Let_def number_conversion_text [OF ok(2)] conv_flags_SIGNED del: num_flag.simps num_base.simps)
next
  case (Ptr fl w p v)
  then have ok: "conv_ok fl w p" "number_args_ok (to_ulong e v) (width_value w) (prec_value p) (conv_flags cf fl w)"
    using assms(1) by simp_all
  then have w: "-1 \<le> width_value w" using width_range by (auto simp: conv_ok_def)
  have "fmt_at (CHR ''p'' # rest) 1 \<notin> set ''he''"
    using assms(4) Ptr by (auto simp: fmt_at_def NUL_def split: if_splits)
  from pointer_plain [OF this ok(2) w, of o1] show ?thesis
    using vs_spec_conv [OF ok(1), of "CHR ''p''" hook e cf M_none rest "VaPtr v # args" o1] Ptr
    by (simp add: Let_def)
qed

lemma loop_renders:
  assumes "list_all (item_ok e cf) items" "pointers_ok items" "\<not> has cf SIGNED"
  shows "vs_loop hook e cf (format_of items) (args_of items) o1 = Some (puts (text_of e cf items) o1)"
  using assms(1,2)
proof (induction items arbitrary: o1)
  case Nil
  then show ?case by (simp add: format_of_def args_of_def text_of_def vs_loop.simps)
next
  case (Cons it items)
  have IH: "vs_loop hook e cf (format_of items) (args_of items) o1 = Some (puts (text_of e cf items) o1)" for o1
    using Cons pointers_ok_tl by simp
  show ?case
  proof (cases "\<exists>c. it = Lit c")
    case True
    then obtain c where lit: "it = Lit c" by blast
    then have it: "it = Lit c" "c \<noteq> CHR ''%''" using Cons.prems(1) by simp_all
    have "put_char c (-1) cf o1 = Some (puts (crlf cf [c]) o1)"
      by (simp add: put_char_eq INT_limits)
    then show ?thesis
      using it IH by (simp add: items_Cons vs_loop.simps [of hook e cf "c # format_of items"])
  next
    case False
    have ptr: "fmt_at (format_of items) 0 \<notin> set ''he''" if "it = Ptr fl w p v" for fl w p v
      using Cons.prems(2) unfolding that by (rule pointers_ok_next)
    have "item_ok e cf it" "\<And>c. it \<noteq> Lit c" using Cons.prems(1) False by simp_all
    then obtain c where "vs_spec hook e cf (item_format it @ format_of items) (item_args it @ args_of items) o1 =
        Some (c # format_of items, args_of items, puts (item_text e cf it) o1)"
      using item_run [of e cf it "format_of items" "args_of items" o1] assms(3) ptr by blast
    moreover obtain cs where cs: "item_format it = CHR ''%'' # cs"
      using False by (cases it) (simp_all add: conv_text_def)
    ultimately show ?thesis
      using IH by (simp add: items_Cons vs_loop.simps [of hook e cf "CHR ''%'' # cs @ format_of items"])
  qed
qed

lemma vsnprintf_internal_renders:
  assumes "format_ok e cf items" "\<not> has cf SIGNED" "sz \<le> length buf"
  shows "vsnprintf_internal hook e buf sz (format_of items) (args_of items) cf =
    Some (length (text_of e cf items),
      if sz = 0 then buf
      else take (sz - 1) (text_of e cf items) @ NUL # drop (Suc (min (sz - 1) (length (text_of e cf items)))) buf)"
  using assms loop_renders [of e cf items]
  by (simp add: vsnprintf_internal_def format_ok_def vs_finish_puts)

end

interpretation weak_plain: plain_hook weak_arch_fmt_pointer
  by unfold_locales (simp add: weak_arch_fmt_pointer_def)

interpretation x86_plain: plain_hook "arch_fmt_pointer e" for e
  by unfold_locales (simp add: arch_fmt_pointer_def)


definition sample_items :: "item list" where
  "sample_items =
     [Str ''-'' (Width 5) No_prec (Some (''abc'' @ [NUL])), Lit (CHR ''=''), Num ''#0'' (Star_width 6) No_prec M_hh (CHR ''x'') 0x1ff,
      Lit (CHR '' ''), Num [] No_width (Prec 3) M_l (CHR ''d'') (- 7), Percent]"


end
