(* ===== verification/Printk.thy ===== *)
theory Printk imports
  Console
  Printf_Spec
begin

text \<open>
  \<open>vprintk\<close> (\<open>common/console.c\<close>) on the x86 build: the composition of the formatter, with the
  pointer formats of \<open>arch/x86/decode.c\<close>, and the console callbacks.
\<close>

text \<open>
  A printk whose text fits the static buffer reaches every registered console whole.
\<close>

lemma vprintk_delivers:
  assumes "vsnprintf_internal (arch_fmt_pointer (hw_env h)) (hw_env h) (vprintk_buf s) 2048 fmt args LF_TO_CRLF = Some (rc, buf)"
    and "length (vprintk_buf s) = 2048" "rc < 2048"
    and "consumer peer" "2048 < fuel" "out_ok (pv_ring s)" "out_len (pv_ring s) = 0"
  shows "\<exists>cs r. length cs = rc
     \<and> vprintk fuel peer (arch_fmt_pointer (hw_env h)) fmt args h s =
         Done () (s\<lparr>vprintk_buf := buf, trace := trace s @ concat (map (cb_events cs) (output_fns s)), pv_ring := r\<rparr>)
     \<and> out_ok r \<and> out_len r = 0
     \<and> consumed r = consumed (pv_ring s) @ concat (map (cb_pv_text cs) (output_fns s))
     \<and> (\<exists>rest. vsnprintf_internal (arch_fmt_pointer (hw_env h)) (hw_env h) (vprintk_buf s) 2048 fmt args LF_TO_CRLF
           = Some (rc, cs @ NUL # rest))"
proof -
  let ?e = "hw_env h"
  obtain cs where cs: "rc = length cs"
    "\<And>buf' sz'. sz' \<le> length buf' \<Longrightarrow> vsnprintf_internal (arch_fmt_pointer ?e) ?e buf' sz' fmt args LF_TO_CRLF =
         Some (length cs, if sz' = 0 then buf'
           else take (sz' - 1) cs @ NUL # drop (Suc (min (sz' - 1) (length cs))) buf')"
    using x86.vsnprintf_internal_contract [OF assms(1)] by blast
  have buf: "buf = cs @ NUL # drop (Suc rc) (vprintk_buf s)"
    using cs(2) [of 2048 "vprintk_buf s"] assms(1-3) cs(1) by simp
  let ?s = "s\<lparr>vprintk_buf := buf\<rparr>"
  obtain r where r: "block (map (\<lambda>fn. call_output_fn fuel peer fn cs) (output_fns s)) h ?s =
       Done () (?s\<lparr>trace := trace ?s @ concat (map (cb_events cs) (output_fns s)), pv_ring := r\<rparr>)"
     "out_ok r" "out_len r = 0" "consumed r = consumed (pv_ring ?s) @ concat (map (cb_pv_text cs) (output_fns s))"
    using call_output_fns_run [of peer fuel cs ?s "output_fns s" h] assms(3-) cs(1) by auto
  have "vprintk fuel peer (arch_fmt_pointer ?e) fmt args h s =
         Done () (s\<lparr>vprintk_buf := buf, trace := trace s @ concat (map (cb_events cs) (output_fns s)), pv_ring := r\<rparr>)"
    using r(1) assms(1,3) cs(1) buf by (simp add: vprintk_def io_simps)
  then show ?thesis
    using r(2-) cs(1) assms(1) buf by (intro exI [of _ cs] exI [of _ r]) auto
qed

text \<open>
  C18: printk prints what its format says. For every well-formed format whose text, with each line
  feed preceded by a carriage return, fits the static buffer, the registered consoles receive
  exactly that text, in the order of registration: the hypercall and port consoles as one request
  each, the paravirtual console as bytes that the peer has taken from the ring. The ring is drained
  and consistent, and nothing else changes but the buffer, which holds the text.
\<close>

theorem vprintk_renders:
  assumes "format_ok (hw_env h) LF_TO_CRLF items" "txt = text_of (hw_env h) LF_TO_CRLF items" "length txt < 2048"
    and "length (vprintk_buf s) = 2048" "consumer peer" "2048 < fuel" "out_ok (pv_ring s)" "out_len (pv_ring s) = 0"
  shows "\<exists>r. vprintk fuel peer (arch_fmt_pointer (hw_env h)) (format_of items) (args_of items) h s =
         Done () (s\<lparr>vprintk_buf := txt @ NUL # drop (Suc (length txt)) (vprintk_buf s),
           trace := trace s @ concat (map (cb_events txt) (output_fns s)), pv_ring := r\<rparr>)
     \<and> out_ok r \<and> out_len r = 0
     \<and> consumed r = consumed (pv_ring s) @ concat (map (cb_pv_text txt) (output_fns s))"
proof -
  have "\<not> has LF_TO_CRLF SIGNED" by (simp add: has_def flag_defs)
  note run = x86_plain.vsnprintf_internal_renders [OF assms(1) this, of 2048 "vprintk_buf s" "hw_env h", folded assms(2)]
  have take: "take (2048 - 1) txt = txt" "min (2048 - 1) (length txt) = length txt" using assms(3) by simp_all
  have run: "vsnprintf_internal (arch_fmt_pointer (hw_env h)) (hw_env h) (vprintk_buf s) 2048 (format_of items) (args_of items) LF_TO_CRLF =
      Some (length txt, txt @ NUL # drop (Suc (length txt)) (vprintk_buf s))"
    using run assms(4) unfolding take by simp
  obtain cs r where len: "length cs = length txt"
    and r: "vprintk fuel peer (arch_fmt_pointer (hw_env h)) (format_of items) (args_of items) h s =
         Done () (s\<lparr>vprintk_buf := txt @ NUL # drop (Suc (length txt)) (vprintk_buf s),
           trace := trace s @ concat (map (cb_events cs) (output_fns s)), pv_ring := r\<rparr>)"
      "out_ok r" "out_len r = 0" "consumed r = consumed (pv_ring s) @ concat (map (cb_pv_text cs) (output_fns s))"
    and cs: "\<exists>rest. vsnprintf_internal (arch_fmt_pointer (hw_env h)) (hw_env h) (vprintk_buf s) 2048 (format_of items)
        (args_of items) LF_TO_CRLF = Some (length txt, cs @ NUL # rest)"
    using vprintk_delivers [OF run assms(4,3,5-8)] by blast
  from cs obtain rest where "txt @ NUL # drop (Suc (length txt)) (vprintk_buf s) = cs @ NUL # rest"
    unfolding run by blast
  then have "cs = txt" using len by simp
  then show ?thesis using r by blast
qed

theorem vprintk_renders_witness:
  "\<exists>r. vprintk 3000 drain (arch_fmt_pointer HVM64) (''%u'' @ [LF]) [VaInt 10] (accept_hw HVM64)
       (console0\<lparr>output_fns := [Xen_console_write, Pv_console_write]\<rparr>)
     = Done () (console0\<lparr>output_fns := [Xen_console_write, Pv_console_write],
         vprintk_buf := ''10'' @ [CR, LF] @ replicate 2044 NUL, trace := [console_event (''10'' @ [CR, LF])], pv_ring := r\<rparr>)
     \<and> consumed r = ''10'' @ [CR, LF]"
proof -
  let ?s = "console0\<lparr>output_fns := [Xen_console_write, Pv_console_write]\<rparr>"
  let ?items = "[Num [] No_width No_prec M_none (CHR ''u'') 10, Lit LF]"
  have f: "format_of ?items = ''%u'' @ [LF]" "args_of ?items = [VaInt 10]" by code_simp+
  have t: "''10'' @ [CR, LF] = text_of (hw_env (accept_hw HVM64)) LF_TO_CRLF ?items"
    unfolding accept_hw_simps by code_simp
  have ok: "format_ok (hw_env (accept_hw HVM64)) LF_TO_CRLF ?items"
    unfolding accept_hw_simps by code_simp
  have s: "out_ok (pv_ring ?s)" "out_len (pv_ring ?s) = 0" "vprintk_buf ?s = replicate 2048 NUL"
      "output_fns ?s = [Xen_console_write, Pv_console_write]" "trace ?s = []" "consumed (pv_ring ?s) = []"
    by (simp_all add: init_states xencons0_def out_ok_def out_len_def)
  obtain r where "vprintk 3000 drain (arch_fmt_pointer (hw_env (accept_hw HVM64))) (format_of ?items) (args_of ?items) (accept_hw HVM64) ?s =
       Done () (?s\<lparr>vprintk_buf := (''10'' @ [CR, LF]) @ NUL # drop (Suc (length (''10'' @ [CR, LF]))) (vprintk_buf ?s),
         trace := trace ?s @ concat (map (cb_events (''10'' @ [CR, LF])) (output_fns ?s)), pv_ring := r\<rparr>)"
      "consumed r = consumed (pv_ring ?s) @ concat (map (cb_pv_text (''10'' @ [CR, LF])) (output_fns ?s))"
    using vprintk_renders [OF ok t, of ?s drain 3000] s consumer_drain by auto
  moreover have "NUL # drop (Suc (length (''10'' @ [CR, LF]))) (replicate 2048 NUL) = replicate 2044 NUL"
    by (simp add: replicate_Suc [symmetric] del: replicate_Suc)
  ultimately show ?thesis
    unfolding f s(3-6) by (intro exI [of _ r]) simp
qed

end
