(* ===== verification/Selftest_Heapsort.thy ===== *)
theory Selftest_Heapsort imports
  Heapsort
begin

text \<open>
  \<open>selftests/heapsort.c\<close>, the host program that tests the sort on arrays of \<open>int\<close>: its callbacks as
  a second instance of the interface \<open>sortable\<close>, now with an invariant of the array. What it prints
  is not modelled.
\<close>

section \<open>The callbacks\<close>

text \<open>
  The array is a list of 32-bit integers. The subtraction of \<open>compar_int\<close> is the machine's; where it
  overflows C leaves it undefined, and the theorems are about arrays where it cannot.
\<close>

definition int_at :: "u32 list \<Rightarrow> int \<Rightarrow> u32" where
  "int_at hp off = hp ! nat (off div 4)"

definition compar_int :: "u32 list compar_fn" where
  "compar_int l r hp = sint (int_at hp l - int_at hp r)"

definition swap_int :: "u32 list swap_fn" where
  "swap_int l r hp =
     (let tmp = int_at hp l
      in hp[nat (l div 4) := int_at hp r, nat (r div 4) := tmp])"

section \<open>The tests\<close>

text \<open>The loop that looks for a pair out of order, on the entries from \<open>heap[i - 1]\<close> on.\<close>

fun in_order :: "u32 list \<Rightarrow> bool" where
  "in_order (x # y # ys) = (if sint x > sint y then False else in_order (y # ys))"
| "in_order _ = True"

definition test_array :: "u32 list \<Rightarrow> bool option" where
  "test_array arr = map_option in_order (heapsort (length arr) 4 compar_int swap_int arr)"

definition heapsort_cases :: "u32 list list" where
  "heapsort_cases =
     [[1], [1, 2], [2, 1], [3, 2, 1], [4, 3, 2, 1], [3, 2, 4, 1], [3, 3, 4, 1], [3, 3, 4, 1, 10],
      [2, 3, 11, 1, 10], [2, 3, 11, 1, 10, 4]]"

fun run_cases :: "u32 list list \<Rightarrow> bool option" where
  "run_cases [] = Some True"
| "run_cases (arr # arrs) =
     (case test_array arr of None \<Rightarrow> None | Some ok \<Rightarrow> if \<not> ok then Some False else run_cases arrs)"

text \<open>\<open>main\<close>, for the array that \<open>rand()\<close> filled; it returns the exit status.\<close>

definition selftest_main :: "u32 list \<Rightarrow> int option" where
  "selftest_main arr =
     (case run_cases heapsort_cases of
        None \<Rightarrow> None
      | Some False \<Rightarrow> Some 1
      | Some True \<Rightarrow> map_option (\<lambda>success. if success then 0 else 1) (test_array arr))"

section \<open>The interface\<close>

definition nonnegative :: "u32 list \<Rightarrow> bool" where
  "nonnegative hp \<longleftrightarrow> (\<forall>x \<in> set hp. 0 \<le> sint x)"

lemma nonnegative_Cons [simp]: "nonnegative (x # xs) \<longleftrightarrow> 0 \<le> sint x \<and> nonnegative xs"
  by (simp add: nonnegative_def)

lemma nonnegative_Nil [simp]: "nonnegative []"
  by (simp add: nonnegative_def)

lemma sint_diff:
  assumes "0 \<le> sint (x :: u32)" "0 \<le> sint y"
  shows "sint (x - y) = sint x - sint y"
proof -
  have "sint x < 2 ^ 31" "sint y < 2 ^ 31" using sint_lt [of x] sint_lt [of y] by simp_all
  then have "signed_take_bit 31 (sint x - sint y) = sint x - sint y"
    using assms by (intro signed_take_bit_int_eq_self) simp_all
  then show ?thesis by (simp add: sint_word_ariths)
qed

lemma exchange_nonnegative:
  "nonnegative xs \<Longrightarrow> i < length xs \<Longrightarrow> j < length xs \<Longrightarrow> nonnegative (exchange i j xs)"
  using mset_eq_setD [OF mset_exchange [of i xs j]] by (simp add: nonnegative_def)

lemma swap_int_exchange: "swap_int (int i * 4) (int j * 4) hp = exchange i j hp"
  by (simp add: swap_int_def int_at_def exchange_def Let_def)

interpretation ints: sortable compar_int swap_int 4 id sint nonnegative
proof
  show "compar_int (int i * 4) (int j * 4) m < 0 \<longleftrightarrow> sint (id m ! i) < sint (id m ! j)"
    if "nonnegative m" "i < length (id m)" "j < length (id m)" for m i j
    using that sint_diff [of "m ! i" "m ! j"]
    by (simp add: compar_int_def int_at_def nonnegative_def)
qed (simp_all add: swap_int_exchange exchange_nonnegative)

lemma in_order_sorted: "in_order xs \<longleftrightarrow> sorted (map sint xs)"
  by (induction xs rule: in_order.induct) (auto simp: not_less)

lemma test_array_passes: "nonnegative arr \<Longrightarrow> test_array arr = Some True"
  using ints.heapsort_correct [of arr] by (auto simp: test_array_def in_order_sorted)

lemma run_cases_pass: "\<forall>arr \<in> set arrs. nonnegative arr \<Longrightarrow> run_cases arrs = Some True"
  by (induction arrs) (simp_all add: test_array_passes)

section \<open>Properties\<close>

text \<open>
  C36: the self-test of the sort passes: its main returns 0, for its ten fixed arrays and for every
  array of non-negative integers that rand() can have filled.
\<close>

theorem selftest_main_passes:
  assumes "nonnegative arr"
  shows "selftest_main arr = Some 0"
proof -
  have "run_cases heapsort_cases = Some True"
    by (rule run_cases_pass) (simp add: heapsort_cases_def)
  then show ?thesis using test_array_passes [OF assms] by (simp add: selftest_main_def)
qed

theorem selftest_main_passes_witness: "selftest_main [7, 0x7fffffff, 0, 7] = Some 0"
  by (rule selftest_main_passes) simp

text \<open>With a negative entry the difference can overflow; the order is then not one, and sorting fails.\<close>

lemma compar_int_overflows: "compar_int 0 4 [1, 0x80000000] < 0 \<and> sint (1 :: u32) > sint (0x80000000 :: u32)"
  by (simp add: compar_int_def int_at_def)

end
