(* ===== verification/X86_Features.thy ===== *)
theory X86_Features imports
  X86_Cpuid
begin

text \<open>
  The feature bits: the numbering of \<open>include/xen/arch-x86/cpufeatureset.h\<close>, the macros of
  \<open>arch/cpuid.h\<close> that are built on it, and what \<open>collect_cpuid\<close> makes of them.
\<close>

section \<open>The features\<close>

text \<open>\<open>X86_FEATURE_*\<close>, by name.\<close>

definition cpu_features :: "(string \<times> nat) list" where
  "cpu_features =
     [(''FPU'', 0 * 32 + 0), (''VME'', 0 * 32 + 1), (''DE'', 0 * 32 + 2), (''PSE'', 0 * 32 + 3),
      (''TSC'', 0 * 32 + 4), (''MSR'', 0 * 32 + 5), (''PAE'', 0 * 32 + 6), (''MCE'', 0 * 32 + 7),
      (''CX8'', 0 * 32 + 8), (''APIC'', 0 * 32 + 9), (''SEP'', 0 * 32 + 11),
      (''MTRR'', 0 * 32 + 12), (''PGE'', 0 * 32 + 13), (''MCA'', 0 * 32 + 14),
      (''CMOV'', 0 * 32 + 15), (''PAT'', 0 * 32 + 16), (''PSE36'', 0 * 32 + 17),
      (''CLFLUSH'', 0 * 32 + 19), (''DS'', 0 * 32 + 21), (''ACPI'', 0 * 32 + 22),
      (''MMX'', 0 * 32 + 23), (''FXSR'', 0 * 32 + 24), (''SSE'', 0 * 32 + 25),
      (''SSE2'', 0 * 32 + 26), (''HTT'', 0 * 32 + 28), (''TM1'', 0 * 32 + 29),
      (''PBE'', 0 * 32 + 31), (''SSE3'', 1 * 32 + 0), (''PCLMULQDQ'', 1 * 32 + 1),
      (''DTES64'', 1 * 32 + 2), (''MONITOR'', 1 * 32 + 3), (''DSCPL'', 1 * 32 + 4),
      (''VMX'', 1 * 32 + 5), (''SMX'', 1 * 32 + 6), (''EIST'', 1 * 32 + 7), (''TM2'', 1 * 32 + 8),
      (''SSSE3'', 1 * 32 + 9), (''FMA'', 1 * 32 + 12), (''CX16'', 1 * 32 + 13),
      (''XTPR'', 1 * 32 + 14), (''PDCM'', 1 * 32 + 15), (''PCID'', 1 * 32 + 17),
      (''DCA'', 1 * 32 + 18), (''SSE4_1'', 1 * 32 + 19), (''SSE4_2'', 1 * 32 + 20),
      (''X2APIC'', 1 * 32 + 21), (''MOVBE'', 1 * 32 + 22), (''POPCNT'', 1 * 32 + 23),
      (''TSC_DEADLINE'', 1 * 32 + 24), (''AESNI'', 1 * 32 + 25), (''XSAVE'', 1 * 32 + 26),
      (''OSXSAVE'', 1 * 32 + 27), (''AVX'', 1 * 32 + 28), (''F16C'', 1 * 32 + 29),
      (''RDRAND'', 1 * 32 + 30), (''HYPERVISOR'', 1 * 32 + 31), (''SYSCALL'', 2 * 32 + 11),
      (''NX'', 2 * 32 + 20), (''MMXEXT'', 2 * 32 + 22), (''FFXSR'', 2 * 32 + 25),
      (''PAGE1GB'', 2 * 32 + 26), (''RDTSCP'', 2 * 32 + 27), (''LM'', 2 * 32 + 29),
      (''3DNOWEXT'', 2 * 32 + 30), (''3DNOW'', 2 * 32 + 31), (''LAHF_LM'', 3 * 32 + 0),
      (''CMP_LEGACY'', 3 * 32 + 1), (''SVM'', 3 * 32 + 2), (''EXTAPIC'', 3 * 32 + 3),
      (''CR8_LEGACY'', 3 * 32 + 4), (''ABM'', 3 * 32 + 5), (''SSE4A'', 3 * 32 + 6),
      (''MISALIGNSSE'', 3 * 32 + 7), (''3DNOWPREFETCH'', 3 * 32 + 8), (''OSVW'', 3 * 32 + 9),
      (''IBS'', 3 * 32 + 10), (''XOP'', 3 * 32 + 11), (''SKINIT'', 3 * 32 + 12),
      (''WDT'', 3 * 32 + 13), (''LWP'', 3 * 32 + 15), (''FMA4'', 3 * 32 + 16),
      (''NODEID_MSR'', 3 * 32 + 19), (''TBM'', 3 * 32 + 21), (''TOPOEXT'', 3 * 32 + 22),
      (''DBEXT'', 3 * 32 + 26), (''MONITORX'', 3 * 32 + 29), (''XSAVEOPT'', 4 * 32 + 0),
      (''XSAVEC'', 4 * 32 + 1), (''XGETBV1'', 4 * 32 + 2), (''XSAVES'', 4 * 32 + 3),
      (''FSGSBASE'', 5 * 32 + 0), (''TSC_ADJUST'', 5 * 32 + 1), (''SGX'', 5 * 32 + 2),
      (''BMI1'', 5 * 32 + 3), (''HLE'', 5 * 32 + 4), (''AVX2'', 5 * 32 + 5),
      (''FDP_EXCP_ONLY'', 5 * 32 + 6), (''SMEP'', 5 * 32 + 7), (''BMI2'', 5 * 32 + 8),
      (''ERMS'', 5 * 32 + 9), (''INVPCID'', 5 * 32 + 10), (''RTM'', 5 * 32 + 11),
      (''PQM'', 5 * 32 + 12), (''NO_FPU_SEL'', 5 * 32 + 13), (''MPX'', 5 * 32 + 14),
      (''PQE'', 5 * 32 + 15), (''RDSEED'', 5 * 32 + 18), (''ADX'', 5 * 32 + 19),
      (''SMAP'', 5 * 32 + 20), (''PCOMMIT'', 5 * 32 + 22), (''CLFLUSHOPT'', 5 * 32 + 23),
      (''CLWB'', 5 * 32 + 24), (''SHA'', 5 * 32 + 29), (''PREFETCHWT1'', 6 * 32 + 0),
      (''UMIP'', 6 * 32 + 2), (''PKU'', 6 * 32 + 3), (''OSPKE'', 6 * 32 + 4),
      (''ITSC'', 7 * 32 + 8), (''EFRO'', 7 * 32 + 10), (''CLZERO'', 8 * 32 + 0),
      (''RTM_ALWAYS_ABORT'', 9 * 32 + 11)]"

definition X86_FEATURE :: "string \<Rightarrow> nat option" where
  "X86_FEATURE name = map_of cpu_features name"

text \<open>\<open>cpufeat_word\<close>, \<open>cpufeat_bit\<close> and \<open>cpufeat_mask\<close>.\<close>

definition cpufeat_word :: "nat \<Rightarrow> nat" where "cpufeat_word idx = idx div 32"
definition cpufeat_bit :: "nat \<Rightarrow> nat" where "cpufeat_bit idx = idx mod 32"
definition cpufeat_mask :: "nat \<Rightarrow> u32" where "cpufeat_mask idx = push_bit (cpufeat_bit idx) 1"

text \<open>The macros \<open>cpu_has_*\<close>: the feature that each of them asks for.\<close>

definition cpu_has_macros :: "(string \<times> string) list" where
  "cpu_has_macros =
     [(''fpu'', ''FPU''), (''vme'', ''VME''), (''de'', ''DE''), (''pse'', ''PSE''),
      (''tsc'', ''TSC''), (''pae'', ''PAE''), (''mce'', ''MCE''), (''pge'', ''PGE''),
      (''mca'', ''MCA''), (''pat'', ''PAT''), (''pse36'', ''PSE36''), (''ds'', ''DS''),
      (''mmx'', ''MMX''), (''fxsr'', ''FXSR''), (''sse'', ''SSE''), (''sse2'', ''SSE2''),
      (''vmx'', ''VMX''), (''smx'', ''SMX''), (''pcid'', ''PCID''), (''x2apic'', ''X2APIC''),
      (''xsave'', ''XSAVE''), (''avx'', ''AVX''), (''syscall'', ''SYSCALL''), (''nx'', ''NX''),
      (''page1gb'', ''PAGE1GB''), (''lm'', ''LM''), (''svm'', ''SVM''), (''dbext'', ''DBEXT''),
      (''fsgsbase'', ''FSGSBASE''), (''hle'', ''HLE''), (''smep'', ''SMEP''), (''rtm'', ''RTM''),
      (''smap'', ''SMAP''), (''umip'', ''UMIP''), (''pku'', ''PKU''),
      (''rtm_always_abort'', ''RTM_ALWAYS_ABORT'')]"

definition vendor_is :: "x86_vendor \<Rightarrow> 'z cpu_scheme \<Rightarrow> bool" where
  "vendor_is v s \<longleftrightarrow> cpu_vendor s = v"

section \<open>Numbering\<close>

lemma cpu_has_mask: "cpu_has feature s \<longleftrightarrow> x86_features s ! cpufeat_word feature AND cpufeat_mask feature \<noteq> 0"
  by (simp add: cpu_has_def cpufeat_word_def cpufeat_mask_def cpufeat_bit_def and_exp_eq_0_iff_not_bit push_bit_eq_mult)

lemma features_in_bounds: "list_all (\<lambda>(name, idx). cpufeat_word idx < FSCAPINTS) cpu_features"
  by code_simp

lemma features_increasing: "sorted_wrt (<) (map snd cpu_features)"
  by (simp add: cpu_features_def sorted_wrt2 [OF transp_on_less] sorted_wrt1 del: sorted_wrt.simps(2))

section \<open>What collect_cpuid stores\<close>

text \<open>The leaf and the register that each word is taken from, always of subleaf 0.\<close>

definition word_source :: "(u32 \<times> (u32 \<times> u32 \<times> u32 \<times> u32 \<Rightarrow> u32)) list" where
  "word_source =
     (let eax = (\<lambda>(a, b, c, d). a); ebx = (\<lambda>(a, b, c, d). b); ecx = (\<lambda>(a, b, c, d). c); edx = (\<lambda>(a, b, c, d). d)
      in [(1, edx), (1, ecx), (0x80000001, edx), (0x80000001, ecx), (0xd, eax), (7, ebx), (7, ecx),
          (0x80000007, edx), (0x80000008, ebx), (7, edx)])"

definition leaf_present :: "hw \<Rightarrow> u32 \<Rightarrow> bool" where
  "leaf_present h l \<longleftrightarrow>
     (let top = fst (leaf_of h (l AND 0x80000000))
      in l \<le> top \<and> (l < 0x80000000 \<or> drop_bit 16 top = 0x8000))"

definition words_after :: "hw \<Rightarrow> u32 list \<Rightarrow> u32 list" where
  "words_after h ws =
     map (\<lambda>k. case word_source ! k of (l, reg) \<Rightarrow> if leaf_present h l then reg (leaf_of h l) else ws ! k)
       [0..<FSCAPINTS]"

lemma words_ten:
  assumes "length ws = 10" obtains a b c d e f g i j k where "ws = [a, b, c, d, e, f, g, i, j, k]"
  using assms by (auto simp: length_Suc_conv numeral_eq_Suc)

lemma collect_cpuid_words:
  assumes "stable_cpuid h" "length (x86_features s) = FSCAPINTS"
  shows "\<exists>s1. collect_cpuid cpuid_count h s = Done () s1 \<and> x86_features s1 = words_after h (x86_features s)"
proof -
  have leaf: "hw_cpuid h t l 0 = leaf_of h l" for t l using assms(1) by (simp add: stable_cpuid_def)
  have "length (x86_features s) = 10" using assms(2) by (simp add: FSCAPINTS_def)
  then obtain a b c d e f g i j k where ws: "x86_features s = [a, b, c, d, e, f, g, i, j, k]" by (rule words_ten)
  obtain m1 b0 c0 d0 where l0: "leaf_of h 0 = (m1, b0, c0, d0)" by (metis prod.exhaust)
  obtain me b8 c8 d8 where le: "leaf_of h 0x80000000 = (me, b8, c8, d8)" by (metis prod.exhaust)
  obtain a1 b1 c1 d1 where l1: "leaf_of h 1 = (a1, b1, c1, d1)" by (metis prod.exhaust)
  obtain a7 b7 c7 d7 where l7: "leaf_of h 7 = (a7, b7, c7, d7)" by (metis prod.exhaust)
  obtain ad bd cd dd where ld: "leaf_of h 0xd = (ad, bd, cd, dd)" by (metis prod.exhaust)
  obtain e1 f1 g1 h1 where le1: "leaf_of h 0x80000001 = (e1, f1, g1, h1)" by (metis prod.exhaust)
  obtain e7 f7 g7 h7 where le7: "leaf_of h 0x80000007 = (e7, f7, g7, h7)" by (metis prod.exhaust)
  obtain e8 f8 g8 h8 where le8: "leaf_of h 0x80000008 = (e8, f8, g8, h8)" by (metis prod.exhaust)
  note leaves = l0 le l1 l7 ld le1 le7 le8
  have u: "[0..<FSCAPINTS] = [0, 1, 2, 3, 4, 5, 6, 7, 8, 9]" by (simp add: FSCAPINTS_def upt_rec)
  have wa: "words_after h [a, b, c, d, e, f, g, i, j, k] =
      [if 1 \<le> m1 then d1 else a, if 1 \<le> m1 then c1 else b,
       if 0x80000001 \<le> me \<and> drop_bit 16 me = 0x8000 then h1 else c, if 0x80000001 \<le> me \<and> drop_bit 16 me = 0x8000 then g1 else d,
       if 0xd \<le> m1 then ad else e, if 7 \<le> m1 then b7 else f, if 7 \<le> m1 then c7 else g,
       if 0x80000007 \<le> me \<and> drop_bit 16 me = 0x8000 then h7 else i,
       if 0x80000008 \<le> me \<and> drop_bit 16 me = 0x8000 then f8 else j, if 7 \<le> m1 then d7 else k]"
    unfolding words_after_def u by (simp add: word_source_def leaf_present_def leaves Let_def)
  show ?thesis
    unfolding ws wa
    by (auto simp: collect_cpuid_def collect_basic_def collect_extd_def io_simps leaf leaves ws xtf_consts)
qed

text \<open>
  C32: collect_cpuid fills the feature words from subleaf 0 of the leaves that the processor announces,
  and a word whose leaf is missing keeps its value. In particular word 4, which cpufeatureset.h
  defines as leaf 0xd, subleaf 1, register eax, receives eax of subleaf 0 instead, the low half of
  the XCR0 bits, so that the features of that word (XSAVEOPT and its neighbours) are not what
  cpu_has answers for them.
\<close>

theorem cpu_has_after_collect:
  assumes "stable_cpuid h" "length (x86_features s) = FSCAPINTS"
  shows "\<exists>s1. collect_cpuid cpuid_count h s = Done () s1
    \<and> (\<forall>(name, idx) \<in> set cpu_features.
         (case word_source ! cpufeat_word idx of (l, reg) \<Rightarrow>
            cpu_has idx s1 = (if leaf_present h l then bit (reg (leaf_of h l)) (cpufeat_bit idx) else cpu_has idx s)))"
proof -
  obtain s1 where s1: "collect_cpuid cpuid_count h s = Done () s1" "x86_features s1 = words_after h (x86_features s)"
    using collect_cpuid_words [OF assms] by blast
  have "cpufeat_word idx < FSCAPINTS" if "(name, idx) \<in> set cpu_features" for name idx
    using that features_in_bounds by (auto simp: list_all_iff)
  then show ?thesis
    using s1 by (auto simp: cpu_has_def words_after_def cpufeat_word_def cpufeat_bit_def split: prod.split)
qed

theorem cpu_has_after_collect_witness:
  "\<exists>s1. collect_cpuid cpuid_count (accept_hw HVM64\<lparr>hw_cpuid := \<lambda>t l c. if l = 0 then (0xd, 0, 0, 0)
         else if l = 0xd \<and> c = 0 then (7, 0, 0, 0) else (0, 0, 0, 0)\<rparr>) cpu0 = Done () s1
     \<and> cpu_has (4 * 32 + 0) s1"
proof -
  let ?h = "accept_hw HVM64\<lparr>hw_cpuid := \<lambda>t l c. if l = 0 then (0xd, 0, 0, 0)
         else if l = 0xd \<and> c = 0 then (7, 0, 0, 0) else (0, 0, 0, 0)\<rparr>"
  have st: "stable_cpuid ?h" by (simp add: stable_cpuid_def leaf_of_def)
  have len: "length (x86_features cpu0) = FSCAPINTS" by (simp add: init_states)
  obtain s1 where s1: "collect_cpuid cpuid_count ?h cpu0 = Done () s1"
      "\<forall>(name, idx) \<in> set cpu_features.
         (case word_source ! cpufeat_word idx of (l, reg) \<Rightarrow>
            cpu_has idx s1 = (if leaf_present ?h l then bit (reg (leaf_of ?h l)) (cpufeat_bit idx) else cpu_has idx cpu0))"
    using cpu_has_after_collect [OF st len] by blast
  have "(''XSAVEOPT'', 4 * 32 + 0) \<in> set cpu_features" by (simp add: cpu_features_def)
  from bspec [OF s1(2) this] show ?thesis
    using s1(1) by (simp add: word_source_def leaf_present_def leaf_of_def cpufeat_word_def cpufeat_bit_def Let_def)
qed

text \<open>
  The numbering of the CPU features is consistent: the numbers increase strictly down the table,
  so no two features share a bit, every one lies inside the array of feature words, every cpu_has
  macro asks for a feature that exists, and the word indices that collect_cpuid uses are those of
  the features the header derives them from.
\<close>

lemma features_consistent:
  "sorted_wrt (<) (map snd cpu_features)
   \<and> list_all (\<lambda>(name, idx). cpufeat_word idx < FSCAPINTS) cpu_features
   \<and> list_all (\<lambda>(m, name). X86_FEATURE name \<noteq> None) cpu_has_macros
   \<and> map (map_option cpufeat_word \<circ> X86_FEATURE)
       [''FPU'', ''SSE3'', ''SYSCALL'', ''LAHF_LM'', ''XSAVEOPT'', ''FSGSBASE'', ''PREFETCHWT1'', ''ITSC'', ''CLZERO'',
        ''RTM_ALWAYS_ABORT''] =
     map Some [FEATURESET_1d, FEATURESET_1c, FEATURESET_e1d, FEATURESET_e1c, FEATURESET_Da1, FEATURESET_7b0,
        FEATURESET_7c0, FEATURESET_e7d, FEATURESET_e8b, FEATURESET_7d0]"
proof (intro conjI)
  show "list_all (\<lambda>(m, name). X86_FEATURE name \<noteq> None) cpu_has_macros" by code_simp
  show "map (map_option cpufeat_word \<circ> X86_FEATURE)
       [''FPU'', ''SSE3'', ''SYSCALL'', ''LAHF_LM'', ''XSAVEOPT'', ''FSGSBASE'', ''PREFETCHWT1'', ''ITSC'', ''CLZERO'',
        ''RTM_ALWAYS_ABORT''] =
     map Some [FEATURESET_1d, FEATURESET_1c, FEATURESET_e1d, FEATURESET_e1c, FEATURESET_Da1, FEATURESET_7b0,
        FEATURESET_7c0, FEATURESET_e7d, FEATURESET_e8b, FEATURESET_7d0]"
    by code_simp
qed (rule features_increasing features_in_bounds)+

end
