(* ===== verification/X86_Symbols.thy ===== *)
theory X86_Symbols imports
  X86_Traps
begin

text \<open>
  The mnemonics of the architecture headers, as tables from token to value, and the macros of
  \<open>arch/symbolic-const.h\<close>, \<open>arch/processor.h\<close> and \<open>arch/x86-dbg-reg.h\<close> that paste tokens together.
  A token that is not in its table is a compilation error, \<open>None\<close>. With them, the error strings of
  \<open>arch/x86/vmx.c\<close>.
\<close>

section \<open>Tables\<close>

text \<open>\<open>SEG_ATTR_*\<close>, \<open>_PAGE_*\<close>, \<open>X86_EXC_*\<close>, \<open>X86_EC_*\<close> and \<open>X86_PFEC_*\<close>.\<close>

definition SEG_ATTR :: "(string \<times> u32) list" where
  "SEG_ATTR =
     [(''G'', 0x8000), (''AVL'', 0x1000), (''P'', 0x0080), (''S'', 0x0010), (''A'', 0x0001),
      (''COMMON'', 0x8091), (''DPL0'', 0x0000), (''DPL1'', 0x0020), (''DPL2'', 0x0040),
      (''DPL3'', 0x0060), (''CODE'', 0x0008), (''DATA'', 0x0000), (''D'', 0x4000), (''L'', 0x2000),
      (''C'', 0x0004), (''R'', 0x0002), (''B'', 0x4000), (''E'', 0x0004), (''W'', 0x0002)]"

definition PAGE_FLAG :: "(string \<times> u64) list" where
  "PAGE_FLAG =
     [(''PRESENT'', 0x0001), (''RW'', 0x0002), (''USER'', 0x0004), (''PWT'', 0x0008),
      (''PCD'', 0x0010), (''ACCESSED'', 0x0020), (''DIRTY'', 0x0040), (''AD'', 0x0020 OR 0x0040),
      (''PSE'', 0x0080), (''PAT'', 0x0080), (''GLOBAL'', 0x0100), (''AVAIL'', 0x0e00),
      (''PSE_PAT'', 0x1000), (''NX'', push_bit 63 1), (''P'', 0x0001), (''U'', 0x0004),
      (''A'', 0x0020), (''D'', 0x0040)]"

definition X86_EXC :: "(string \<times> u32) list" where
  "X86_EXC =
     [(''DE'', 0), (''DB'', 1), (''NMI'', 2), (''BP'', 3), (''OF'', 4), (''BR'', 5), (''UD'', 6),
      (''NM'', 7), (''DF'', 8), (''CSO'', 9), (''TS'', 10), (''NP'', 11), (''SS'', 12),
      (''GP'', 13), (''PF'', 14), (''SPV'', 15), (''MF'', 16), (''AC'', 17), (''MC'', 18),
      (''XM'', 19), (''VE'', 20)]"

definition X86_EC :: "(string \<times> u32) list" where
  "X86_EC =
     [(''EXT'', push_bit 0 1), (''IDT'', push_bit 1 1), (''TI'', push_bit 2 1), (''TABLE_MASK'', push_bit 1 3), (''SEL_SHIFT'', 3),
      (''SEL_MASK'', push_bit 3 (NOT 0)), (''GDT'', 0), (''LDT'', push_bit 2 1)]"

definition X86_PFEC :: "(string \<times> u32) list" where
  "X86_PFEC =
     [(''PRESENT'', push_bit 0 1), (''WRITE'', push_bit 1 1), (''USER'', push_bit 2 1),
      (''RSVD'', push_bit 3 1), (''INSN'', push_bit 4 1), (''PK'', push_bit 5 1),
      (''P'', push_bit 0 1), (''W'', push_bit 1 1), (''U'', push_bit 2 1), (''R'', push_bit 3 1),
      (''I'', push_bit 4 1), (''K'', push_bit 5 1)]"

text \<open>The bits of the flags, control, debug and other registers.\<close>

definition X86_EFLAGS :: "(string \<times> u32) list" where
  "X86_EFLAGS =
     [(''CF'', 0x00000001), (''MBS'', 0x00000002), (''PF'', 0x00000004), (''AF'', 0x00000010),
      (''ZF'', 0x00000040), (''SF'', 0x00000080), (''TF'', 0x00000100), (''IF'', 0x00000200),
      (''DF'', 0x00000400), (''OF'', 0x00000800), (''IOPL'', 0x00003000), (''NT'', 0x00004000),
      (''RF'', 0x00010000), (''VM'', 0x00020000), (''AC'', 0x00040000), (''VIF'', 0x00080000),
      (''VIP'', 0x00100000), (''ID'', 0x00200000)]"

definition X86_CR0 :: "(string \<times> u32) list" where
  "X86_CR0 =
     [(''PE'', 0x00000001), (''MP'', 0x00000002), (''EM'', 0x00000004), (''TS'', 0x00000008),
      (''ET'', 0x00000010), (''NE'', 0x00000020), (''WP'', 0x00010000), (''AM'', 0x00040000),
      (''NW'', 0x20000000), (''CD'', 0x40000000), (''PG'', 0x80000000)]"

definition X86_CR4 :: "(string \<times> u32) list" where
  "X86_CR4 =
     [(''VME'', 0x00000001), (''PVI'', 0x00000002), (''TSD'', 0x00000004), (''DE'', 0x00000008),
      (''PSE'', 0x00000010), (''PAE'', 0x00000020), (''MCE'', 0x00000040), (''PGE'', 0x00000080),
      (''PCE'', 0x00000100), (''OSFXSR'', 0x00000200), (''OSXMMEXCPT'', 0x00000400),
      (''UMIP'', 0x00000800), (''VMXE'', 0x00002000), (''SMXE'', 0x00004000),
      (''FSGSBASE'', 0x00010000), (''PCIDE'', 0x00020000), (''OSXSAVE'', 0x00040000),
      (''SMEP'', 0x00100000), (''SMAP'', 0x00200000)]"

definition XSTATE :: "(string \<times> u64) list" where
  "XSTATE =
     [(''FP'', push_bit 0 1), (''SSE'', push_bit 1 1), (''YMM'', push_bit 2 1),
      (''BNDREGS'', push_bit 3 1), (''BNDCSR'', push_bit 4 1), (''OPMASK'', push_bit 5 1),
      (''ZMM'', push_bit 6 1), (''HI_ZMM'', push_bit 7 1), (''PKRU'', push_bit 9 1),
      (''LWP'', push_bit 62 1)]"

definition X86_MXCSR :: "(string \<times> u32) list" where
  "X86_MXCSR =
     [(''IE'', 0x00000001), (''DE'', 0x00000002), (''ZE'', 0x00000004), (''OE'', 0x00000008),
      (''UE'', 0x00000010), (''PE'', 0x00000020), (''STATUS_MASK'', 0x0000003f)]"

definition X86_DR6 :: "(string \<times> u32) list" where
  "X86_DR6 =
     [(''B0'', push_bit 0 1), (''B1'', push_bit 1 1), (''B2'', push_bit 2 1),
      (''B3'', push_bit 3 1), (''BD'', push_bit 13 1), (''BS'', push_bit 14 1),
      (''BT'', push_bit 15 1), (''RTM'', push_bit 16 1), (''DEFAULT'', 0xffff0ff0)]"

definition X86_DR7 :: "(string \<times> u32) list" where
  "X86_DR7 =
     [(''LE'', push_bit 8 1), (''GE'', push_bit 9 1), (''RTM'', push_bit 11 1),
      (''GD'', push_bit 13 1), (''DEFAULT'', 0x00000400)]"

text \<open>\<open>X86_DR7_n_*\<close> for the breakpoints 0 to 3.\<close>

definition X86_DR7_BP :: "(string \<times> u32) list list" where
  "X86_DR7_BP =
     [[(''L'', push_bit 0 1), (''G'', push_bit 1 1), (''X'', push_bit 16 0),
       (''W'', push_bit 16 1), (''IO'', push_bit 16 2), (''RW'', push_bit 16 3),
       (''8'', push_bit 18 0), (''16'', push_bit 18 1), (''64'', push_bit 18 2),
       (''32'', push_bit 18 3)],
      [(''L'', push_bit 2 1), (''G'', push_bit 3 1), (''X'', push_bit 20 0),
       (''W'', push_bit 20 1), (''IO'', push_bit 20 2), (''RW'', push_bit 20 3),
       (''8'', push_bit 22 0), (''16'', push_bit 22 1), (''64'', push_bit 22 2),
       (''32'', push_bit 22 3)],
      [(''L'', push_bit 4 1), (''G'', push_bit 5 1), (''X'', push_bit 24 0),
       (''W'', push_bit 24 1), (''IO'', push_bit 24 2), (''RW'', push_bit 24 3),
       (''8'', push_bit 26 0), (''16'', push_bit 26 1), (''64'', push_bit 26 2),
       (''32'', push_bit 26 3)],
      [(''L'', push_bit 6 1), (''G'', push_bit 7 1), (''X'', push_bit 28 0),
       (''W'', push_bit 28 1), (''IO'', push_bit 28 2), (''RW'', push_bit 28 3),
       (''8'', push_bit 30 0), (''16'', push_bit 30 1), (''64'', push_bit 30 2),
       (''32'', push_bit 30 3)]]"

text \<open>\<open>MSR_*\<close> without those that take a parameter, and \<open>EFER_*\<close>.\<close>

definition MSR_INDEX :: "(string \<times> u32) list" where
  "MSR_INDEX =
     [(''APICBASE'', 0x0000001b), (''FEATURE_CONTROL'', 0x0000003a),
      (''INTEL_PLATFORM_INFO'', 0x000000ce), (''INTEL_MISC_FEATURES_ENABLES'', 0x00000140),
      (''MISC_ENABLE'', 0x000001a0), (''DEBUGCTL'', 0x000001d9),
      (''PERF_CAPABILITIES'', 0x00000345), (''FIXED_CTR_CTRL'', 0x0000038d),
      (''PERF_GLOBAL_STATUS'', 0x0000038e), (''PERF_GLOBAL_CTRL'', 0x0000038f),
      (''PERF_GLOBAL_OVF_CTRL'', 0x00000390), (''VMX_BASIC'', 0x00000480),
      (''X2APIC_REGS'', 0x00000800), (''EFER'', 0xc0000080), (''STAR'', 0xc0000081),
      (''LSTAR'', 0xc0000082), (''CSTAR'', 0xc0000083), (''FMASK'', 0xc0000084),
      (''FS_BASE'', 0xc0000100), (''GS_BASE'', 0xc0000101), (''SHADOW_GS_BASE'', 0xc0000102),
      (''DR0_ADDR_MASK'', 0xc0011027), (''DR1_ADDR_MASK'', 0xc0011019),
      (''DR2_ADDR_MASK'', 0xc001101a), (''DR3_ADDR_MASK'', 0xc001101b)]"

definition EFER :: "(string \<times> u64) list" where
  "EFER =
     [(''SCE'', push_bit 0 1), (''LME'', push_bit 8 1), (''LMA'', push_bit 10 1),
      (''NXE'', push_bit 11 1), (''SVME'', push_bit 12 1), (''LMSLE'', push_bit 13 1),
      (''FFXSR'', push_bit 14 1), (''TCE'', push_bit 15 1)]"

text \<open>The families of counters, and the bits of single MSRs.\<close>

definition MSR_PMC :: "u32 \<Rightarrow> u32" where "MSR_PMC n = 0xc1 + n"
definition MSR_PERFEVTSEL :: "u32 \<Rightarrow> u32" where "MSR_PERFEVTSEL n = 0x186 + n"
definition MSR_FIXED_CTR :: "u32 \<Rightarrow> u32" where "MSR_FIXED_CTR n = 0x309 + n"
definition MSR_A_PMC :: "u32 \<Rightarrow> u32" where "MSR_A_PMC n = 0x4c1 + n"

definition APICBASE_BSP :: u64 where "APICBASE_BSP = push_bit 8 1"
definition PLATFORM_INFO_CPUID_FAULTING :: u64 where "PLATFORM_INFO_CPUID_FAULTING = push_bit 31 1"
definition MISC_FEATURES_CPUID_FAULTING :: u64 where "MISC_FEATURES_CPUID_FAULTING = push_bit 0 1"

definition DEBUGCTL :: "(string \<times> u64) list" where
  "DEBUGCTL = [(''LBR'', push_bit 0 1), (''TR'', push_bit 6 1), (''BTS'', push_bit 7 1), (''BTINT'', push_bit 8 1)]"

section \<open>Token pasting\<close>

text \<open>\<open>TOK_OR\<close>, which is there for up to 11 tokens.\<close>

fun tok_or :: "(string \<times> 'a::len word) list \<Rightarrow> string list \<Rightarrow> 'a word option" where
  "tok_or tab [] = Some 0"
| "tok_or tab (x # xs) =
     (case map_of tab x of None \<Rightarrow> None | Some v \<Rightarrow> map_option (\<lambda>w. v OR w) (tok_or tab xs))"

definition TOK_OR :: "(string \<times> 'a::len word) list \<Rightarrow> string list \<Rightarrow> 'a word option" where
  "TOK_OR tab toks = (if length toks \<le> 11 then tok_or tab toks else None)"

definition GDTE_SYM :: "u64 \<Rightarrow> u64 \<Rightarrow> string list \<Rightarrow> user_desc option" where
  "GDTE_SYM base limit toks = map_option (GDTE base limit) (TOK_OR SEG_ATTR toks)"

definition SEL_EC_SYM :: "u32 \<Rightarrow> string list \<Rightarrow> u32 option" where
  "SEL_EC_SYM sel toks = map_option (\<lambda>v. sel OR v) (TOK_OR X86_EC toks)"

definition EXC_EC_SYM :: "string \<Rightarrow> string list \<Rightarrow> u32 option" where
  "EXC_EC_SYM exc toks = Option.bind (map_of X86_EXC exc) (\<lambda>v. SEL_EC_SYM (push_bit 3 v) (''IDT'' # toks))"

definition PF_SYM :: "string list \<Rightarrow> u64 option" where
  "PF_SYM toks = TOK_OR PAGE_FLAG toks"

definition PFEC_SYM :: "string list \<Rightarrow> u32 option" where
  "PFEC_SYM toks = TOK_OR X86_PFEC toks"

definition EXINFO_SYM :: "string \<Rightarrow> u32 \<Rightarrow> u32 option" where
  "EXINFO_SYM exc ec = map_option (\<lambda>v. EXINFO v ec) (map_of X86_EXC exc)"

definition DR7_SYM :: "nat \<Rightarrow> string list \<Rightarrow> u32 option" where
  "DR7_SYM bp toks = (if bp < length X86_DR7_BP then TOK_OR (X86_DR7_BP ! bp) toks else None)"

section \<open>Classes of exceptions\<close>

text \<open>\<open>(1 << X86_EXC_a) | (1 << X86_EXC_b) | ...\<close>\<close>

definition exc_bits :: "string list \<Rightarrow> u32" where
  "exc_bits names = foldr (\<lambda>name m. (case map_of X86_EXC name of None \<Rightarrow> 0 | Some v \<Rightarrow> push_bit (unat v) 1) OR m) names 0"

definition X86_EXC_FAULTS :: u32 where
  "X86_EXC_FAULTS =
     exc_bits [''DE'', ''BR'', ''UD'', ''NM'', ''CSO'', ''TS'', ''NP'', ''SS'', ''GP'', ''PF'', ''MF'', ''AC'', ''XM'', ''VE'']"

definition X86_EXC_INTERRUPTS :: u32 where "X86_EXC_INTERRUPTS = exc_bits [''NMI'']"
definition X86_EXC_TRAPS :: u32 where "X86_EXC_TRAPS = exc_bits [''BP'', ''OF'']"
definition X86_EXC_ABORTS :: u32 where "X86_EXC_ABORTS = exc_bits [''DF'', ''MC'']"

section \<open>VMX error strings\<close>

text \<open>\<open>VMERR_*\<close> of \<open>arch/x86-vmx.h\<close>, in the order in which \<open>vmx_insn_err_strerror\<close> lists them.\<close>

definition VMERR :: "(string \<times> u32) list" where
  "VMERR =
     [(''VMCALL_IN_ROOT'', 1), (''VMCLEAR_BAD_PADDR'', 2), (''VMCLEAR_WITH_VMXON_PTR'', 3),
      (''VMLAUNCH_NONCLEAR_VMCS'', 4), (''VMRESUME_NONLAUNCHED_VMCS'', 5),
      (''VMRESUME_AFTER_VMXOFF'', 6), (''INVALID_CONTROL_STATE'', 7), (''INVALID_HOST_STATE'', 8),
      (''VMPTRLD_BAD_PADDR'', 9), (''VMPTRLD_WITH_VMXON_PTR'', 10), (''VMPTRLD_BAD_REVID'', 11),
      (''UNSUPPORTED_VMCS_FIELD'', 12), (''VMWRITE_READONLY_FIELD'', 13), (''VMXON_IN_ROOT'', 15),
      (''VMENTRY_BAD_EXECUTIVE'', 16), (''VMENTRY_NONLAUNCHED_EXECUTIVE'', 17),
      (''VMENTRY_WITHOUT_VMXON_PTR'', 18), (''VMCALL_NONCLEAR_VMCS'', 19),
      (''VMCALL_BAD_CONTROL_STATE'', 20), (''VMCALL_BAD_MSEG_REVID'', 22),
      (''VMXOFF_UNDER_DUAL'', 23), (''VMCALL_BAD_SMM_MONITOR'', 24), (''BAD_EXECUTIVE_STATE'', 25),
      (''VMENTRY_MOVSS'', 26), (''BAD_INV_OPERAND'', 28)]"

text \<open>
  The array of strings by error number, \<open>None\<close> for the holes that the designated initialisers leave;
  its length is one more than the largest number.
\<close>

definition vmx_strings :: "string option list" where
  "vmx_strings = map (\<lambda>i. map_option fst (find (\<lambda>(name, n). unat n = i) VMERR)) [0..<29]"

definition vmx_insn_err_strerror :: "u32 \<Rightarrow> string" where
  "vmx_insn_err_strerror err =
     (if unat err < length vmx_strings
      then case vmx_strings ! unat err of Some name \<Rightarrow> name | None \<Rightarrow> ''<unknown>''
      else ''<unknown>'')"

section \<open>Breakpoints\<close>

lemma DR7_tables: "X86_DR7_BP ! 1 = map (\<lambda>(x, v). (x, push_bit (2 * 1) (v AND 3) OR push_bit (4 * 1) (v AND 0xf0000))) (X86_DR7_BP ! 0)"
  "X86_DR7_BP ! 2 = map (\<lambda>(x, v). (x, push_bit (2 * 2) (v AND 3) OR push_bit (4 * 2) (v AND 0xf0000))) (X86_DR7_BP ! 0)"
  "X86_DR7_BP ! 3 = map (\<lambda>(x, v). (x, push_bit (2 * 3) (v AND 3) OR push_bit (4 * 3) (v AND 0xf0000))) (X86_DR7_BP ! 0)"
  "X86_DR7_BP ! 0 = map (\<lambda>(x, v). (x, push_bit (2 * 0) (v AND 3) OR push_bit (4 * 0) (v AND 0xf0000))) (X86_DR7_BP ! 0)"
  by (simp_all add: X86_DR7_BP_def)

lemma tok_or_map:
  assumes "\<And>v w. f (v OR w) = f v OR f w" "f 0 = 0"
  shows "tok_or (map (\<lambda>(x, v). (x, f v)) tab) toks = map_option f (tok_or tab toks)"
proof (induction toks)
  case (Cons x xs)
  then show ?case
    using assms by (cases "tok_or tab xs") (auto simp: map_of_map [of f, unfolded comp_def] split: option.splits)
qed (simp add: assms)

text \<open>
  DR7_SYM builds the same setting for every breakpoint: for any list of tokens, the value for
  breakpoint bp is the one for breakpoint 0 with the enable bits moved up by 2 * bp and the type and
  size fields moved up by 4 * bp, which is where the processor has the fields of that breakpoint.
\<close>

lemma DR7_SYM_shifts:
  assumes "bp < 4"
  shows "DR7_SYM bp toks =
    map_option (\<lambda>v. push_bit (2 * bp) (v AND 3) OR push_bit (4 * bp) (v AND 0xf0000)) (DR7_SYM 0 toks)"
proof -
  let ?f = "\<lambda>v :: u32. push_bit (2 * bp) (v AND 3) OR push_bit (4 * bp) (v AND 0xf0000)"
  have or: "?f (v OR w) = ?f v OR ?f w" for v w
    by (rule bit_word_eqI) (auto simp: bit_simps)
  consider "bp = 0" | "bp = 1" | "bp = 2" | "bp = 3" using assms by linarith
  then have "X86_DR7_BP ! bp = map (\<lambda>(x, v). (x, ?f v)) (X86_DR7_BP ! 0)"
    by cases (hypsubst, rule DR7_tables)+
  moreover have "length X86_DR7_BP = 4" by (simp add: X86_DR7_BP_def)
  moreover have "tok_or (map (\<lambda>(x, v). (x, ?f v)) (X86_DR7_BP ! 0)) toks = map_option ?f (tok_or (X86_DR7_BP ! 0) toks)"
    by (rule tok_or_map [OF or]) simp
  ultimately show ?thesis
    using assms by (simp only: DR7_SYM_def TOK_OR_def) simp
qed

lemma DR7_SYM_shifts_witness: "DR7_SYM 3 [''G'', ''RW'', ''32''] = Some 0xf0000080"
proof -
  have "DR7_SYM 0 [''G'', ''RW'', ''32''] = Some 0xf0002" by code_simp
  then show ?thesis by (subst DR7_SYM_shifts) simp_all
qed

section \<open>Properties of the tables\<close>

text \<open>
  Every exception belongs to exactly one class. The bitmaps of faults, interrupts, traps and aborts
  are pairwise disjoint and together hold every exception but #DB (a fault or a trap, depending on
  its cause) and the spurious vector, and only faults and aborts have an error code.
\<close>

lemma exception_classes:
  "X86_EXC_FAULTS AND (X86_EXC_INTERRUPTS OR X86_EXC_TRAPS OR X86_EXC_ABORTS) = 0
   \<and> X86_EXC_INTERRUPTS AND (X86_EXC_TRAPS OR X86_EXC_ABORTS) = 0 \<and> X86_EXC_TRAPS AND X86_EXC_ABORTS = 0
   \<and> (\<forall>(name, v) \<in> set X86_EXC.
        bit (X86_EXC_FAULTS OR X86_EXC_INTERRUPTS OR X86_EXC_TRAPS OR X86_EXC_ABORTS) (unat v)
          = (name \<noteq> ''DB'' \<and> name \<noteq> ''SPV''))
   \<and> X86_EXC_HAVE_EC AND NOT (X86_EXC_FAULTS OR X86_EXC_ABORTS) = 0"
proof -
  have F: "X86_EXC_FAULTS = 0x1b7ee1" by code_simp
  have I: "X86_EXC_INTERRUPTS = 4" by code_simp
  have T: "X86_EXC_TRAPS = 0x18" by code_simp
  have A: "X86_EXC_ABORTS = 0x40100" by code_simp
  show ?thesis unfolding F I T A by (simp add: X86_EXC_def X86_EXC_HAVE_EC_def)
qed

lemma exception_classes_witness: "bit (X86_EXC_FAULTS OR X86_EXC_INTERRUPTS OR X86_EXC_TRAPS OR X86_EXC_ABORTS) 14"
proof -
  have "(''PF'', 14) \<in> set X86_EXC" by (simp add: X86_EXC_def)
  then show ?thesis using exception_classes by fastforce
qed

lemma find_by_number:
  "map_option fst (find (\<lambda>(name, n :: u32). unat n = unat err) tab) = map_of (map (\<lambda>(name, n). (n, name)) tab) err"
proof (induction tab)
  case (Cons x xs)
  then show ?case by (cases x) (simp add: word_unat_eq_iff)
qed simp

text \<open>
  Vmx_insn_err_strerror names every VMX instruction error: each error number gives the name that
  the header has for it, and every other number, the holes 14, 21 and 27 included, gives the fallback
  string.
\<close>

lemma vmx_error_names:
  "vmx_insn_err_strerror err =
     (case map_of (map (\<lambda>(name, n). (n, name)) VMERR) err of Some name \<Rightarrow> name | None \<Rightarrow> ''<unknown>'')"
proof (cases "unat err < 29")
  case True
  then show ?thesis
    by (simp add: vmx_insn_err_strerror_def vmx_strings_def find_by_number [symmetric])
next
  case False
  have "list_all (\<lambda>(name, n). unat n < 29) VMERR" by (simp add: VMERR_def)
  then have "map_of (map (\<lambda>(name, n). (n, name)) VMERR) err = None"
    using False by (auto simp: map_of_eq_None_iff list_all_iff)
  then show ?thesis using False by (simp add: vmx_insn_err_strerror_def vmx_strings_def)
qed

text \<open>The masks of a register that share no bit.\<close>

fun disjoint_masks :: "'a::len word list \<Rightarrow> bool" where
  "disjoint_masks [] = True"
| "disjoint_masks (m # ms) = (m AND foldr (OR) ms 0 = 0 \<and> disjoint_masks ms)"

text \<open>
  The named bits of a register do not overlap: the masks of EFLAGS, CR0, CR4, XCR0, EFER, of the
  error codes and of the status of MXCSR and DR6 are pairwise disjoint, and the status mask of MXCSR
  is exactly the union of its six bits.
\<close>

lemma register_masks_disjoint:
  "disjoint_masks (map snd X86_EFLAGS) \<and> disjoint_masks (map snd X86_CR0) \<and> disjoint_masks (map snd X86_CR4)
   \<and> disjoint_masks (map snd XSTATE) \<and> disjoint_masks (map snd EFER) \<and> disjoint_masks (map snd (take 6 X86_PFEC))
   \<and> disjoint_masks (map snd (take 6 X86_MXCSR)) \<and> disjoint_masks (map snd (take 8 X86_DR6))
   \<and> map_of X86_MXCSR ''STATUS_MASK'' = tok_or X86_MXCSR [''IE'', ''DE'', ''ZE'', ''OE'', ''UE'', ''PE'']"
  by (intro conjI) code_simp+

text \<open>
  On a hardware virtual machine guest the code selectors name the right descriptors of the GDT that
  desc.c builds from tokens: __KERN_CS a present code segment of privilege 0 and __USER_CS one of
  privilege 3 (and with that requested privilege), both 64-bit on a 64-bit build and 32-bit
  otherwise, and __USER_DS a present writable data segment of privilege 3.
\<close>

lemma selectors_match_gdt:
  "list_all (\<lambda>e. let kcs = init_gdt e ! (unat (KERN_CS e) div 8); ucs = init_gdt e ! (unat (USER_CS e) div 8);
        uds = init_gdt e ! (unat (USER_DS e) div 8)
    in desc_p kcs \<and> desc_s kcs \<and> bit (desc_type kcs) 3 \<and> desc_dpl kcs = 0 \<and> KERN_CS e AND 7 = 0
     \<and> desc_l kcs = CONFIG_64BIT e \<and> desc_db kcs \<noteq> CONFIG_64BIT e
     \<and> desc_p ucs \<and> desc_s ucs \<and> bit (desc_type ucs) 3 \<and> desc_dpl ucs = 3 \<and> USER_CS e AND 7 = 3
     \<and> desc_l ucs = CONFIG_64BIT e \<and> desc_db ucs \<noteq> CONFIG_64BIT e
     \<and> desc_p uds \<and> desc_s uds \<and> \<not> bit (desc_type uds) 3 \<and> bit (desc_type uds) 1 \<and> desc_dpl uds = 3 \<and> USER_DS e AND 7 = 3
     \<and> map Some (take 4 (drop 1 (init_gdt e))) =
         [GDTE_SYM 0 0xfffff [''COMMON'', ''CODE'', ''DPL0'', ''R'', ''L''], GDTE_SYM 0 0xfffff [''COMMON'', ''CODE'', ''DPL0'', ''R'', ''D''],
          GDTE_SYM 0 0xfffff [''COMMON'', ''DATA'', ''DPL0'', ''B'', ''W''], GDTE_SYM 0 0xfffff [''COMMON'', ''CODE'', ''DPL3'', ''R'', ''L'']])
   [HVM64, HVM32PAE, HVM32PSE, HVM32]"
  by (simp add: init_gdt_def code_desc_def data_desc_def GDTE_def KERN_CS_def USER_CS_def USER_DS_def NR_GDT_ENTRIES_def
      desc_p_def desc_s_def desc_type_def desc_dpl_def desc_l_def desc_db_def GDTE_SYM_def TOK_OR_def SEG_ATTR_def Let_def
      SEG_ATTR_COMMON_def SEG_ATTR_CODE_def SEG_ATTR_DATA_def SEG_ATTR_DPL0_def SEG_ATTR_DPL3_def SEG_ATTR_L_def
      SEG_ATTR_D_def SEG_ATTR_B_def SEG_ATTR_W_def SEG_ATTR_R_def)

end
