(* ===== verification/X86_Lib.thy ===== *)
theory X86_Lib imports
  X86_Symbols
begin

text \<open>
  The wrappers of single instructions in \<open>arch/lib.h\<close>, \<open>arch/x86-dbg-reg.h\<close> and \<open>arch/tsx.h\<close>. The
  instruction itself is a request to the processor by its mnemonic and its operands; the results
  are the values that it leaves in its output operands, and the code that collects, truncates and
  joins them is the wrapper's. An \<open>unsigned long\<close> has the width of the build.
\<close>

section \<open>Requests with one result\<close>

definition insn_read :: "string \<Rightarrow> u64 list \<Rightarrow> ('z machine_scheme, u64) prog" where
  "insn_read name ops = bnd (insn name ops) (\<lambda>r. ret (r ! 0))"

definition insn_read_ulong :: "string \<Rightarrow> ('z machine_scheme, u64) prog" where
  "insn_read_ulong name = bnd (insn_read name []) (\<lambda>v. config (\<lambda>e. to_ulong e v))"

definition insn_write_ulong :: "string \<Rightarrow> u64 \<Rightarrow> ('z machine_scheme, unit) prog" where
  "insn_write_ulong name v = bnd (config (\<lambda>e. to_ulong e v)) (\<lambda>w. void (insn name [w]))"

lemma insn_read_run [io_simps]:
  "insn_read n ops h s = (case hw_insn h (trace s) n ops of
       Some vs \<Rightarrow> Done (vs ! 0) (s\<lparr>trace := trace s @ [Insn n ops]\<rparr>)
     | None \<Rightarrow> Stop (s\<lparr>trace := trace s @ [Insn n ops]\<rparr>))"
  by (simp add: insn_read_def io_simps split: option.split)

section \<open>CPUID and ports\<close>

definition cpuid_eax :: "u32 \<Rightarrow> ('z machine_scheme, u32) prog" where
  "cpuid_eax leaf = bnd (cpuid leaf) (\<lambda>(eax, _, _, _). ret eax)"

definition cpuid_ebx :: "u32 \<Rightarrow> ('z machine_scheme, u32) prog" where
  "cpuid_ebx leaf = bnd (cpuid leaf) (\<lambda>(_, ebx, _, _). ret ebx)"

definition cpuid_ecx :: "u32 \<Rightarrow> ('z machine_scheme, u32) prog" where
  "cpuid_ecx leaf = bnd (cpuid leaf) (\<lambda>(_, _, ecx, _). ret ecx)"

definition cpuid_edx :: "u32 \<Rightarrow> ('z machine_scheme, u32) prog" where
  "cpuid_edx leaf = bnd (cpuid leaf) (\<lambda>(_, _, _, edx). ret edx)"

text \<open>The subleaf register keeps whatever it holds.\<close>

definition pv_cpuid :: "u64 \<Rightarrow> u32 \<Rightarrow> ('z machine_scheme, u32 \<times> u32 \<times> u32 \<times> u32) prog" where
  "pv_cpuid ecx leaf =
     bnd (insn ''fep cpuid'' [ucast leaf, ecx]) (\<lambda>r. ret (ucast (r ! 0), ucast (r ! 1), ucast (r ! 2), ucast (r ! 3)))"

definition inb :: "u16 \<Rightarrow> ('z machine_scheme, u8) prog" where
  "inb port = bnd (insn_read ''inb'' [ucast port]) (\<lambda>v. ret (ucast v))"

definition inw :: "u16 \<Rightarrow> ('z machine_scheme, u16) prog" where
  "inw port = bnd (insn_read ''inw'' [ucast port]) (\<lambda>v. ret (ucast v))"

definition inl :: "u16 \<Rightarrow> ('z machine_scheme, u32) prog" where
  "inl port = bnd (insn_read ''inl'' [ucast port]) (\<lambda>v. ret (ucast v))"

definition outb :: "u8 \<Rightarrow> u16 \<Rightarrow> ('z machine_scheme, unit) prog" where
  "outb val port = void (insn ''outb'' [ucast val, ucast port])"

definition outw :: "u16 \<Rightarrow> u16 \<Rightarrow> ('z machine_scheme, unit) prog" where
  "outw val port = void (insn ''outw'' [ucast val, ucast port])"

definition outl :: "u32 \<Rightarrow> u16 \<Rightarrow> ('z machine_scheme, unit) prog" where
  "outl val port = void (insn ''outl'' [ucast val, ucast port])"

section \<open>Segment registers and flags\<close>

definition read_cs :: "('z machine_scheme, u32) prog" where "read_cs = bnd (insn_read ''mov from cs'' []) (\<lambda>v. ret (ucast v))"
definition read_ds :: "('z machine_scheme, u32) prog" where "read_ds = bnd (insn_read ''mov from ds'' []) (\<lambda>v. ret (ucast v))"
definition read_es :: "('z machine_scheme, u32) prog" where "read_es = bnd (insn_read ''mov from es'' []) (\<lambda>v. ret (ucast v))"
definition read_fs :: "('z machine_scheme, u32) prog" where "read_fs = bnd (insn_read ''mov from fs'' []) (\<lambda>v. ret (ucast v))"
definition read_gs :: "('z machine_scheme, u32) prog" where "read_gs = bnd (insn_read ''mov from gs'' []) (\<lambda>v. ret (ucast v))"
definition read_ss :: "('z machine_scheme, u32) prog" where "read_ss = bnd (insn_read ''mov from ss'' []) (\<lambda>v. ret (ucast v))"

text \<open>\<open>write_cs\<close> pushes the selector and the address of the next instruction and returns far to it.\<close>

definition write_cs :: "u64 \<Rightarrow> ('z machine_scheme, unit) prog" where "write_cs cs = insn_write_ulong ''lret'' cs"

definition write_ds :: "u32 \<Rightarrow> ('z machine_scheme, unit) prog" where "write_ds ds = void (insn ''mov ds'' [ucast ds])"
definition write_es :: "u32 \<Rightarrow> ('z machine_scheme, unit) prog" where "write_es es = void (insn ''mov es'' [ucast es])"
definition write_fs :: "u32 \<Rightarrow> ('z machine_scheme, unit) prog" where "write_fs fs = void (insn ''mov fs'' [ucast fs])"
definition write_gs :: "u32 \<Rightarrow> ('z machine_scheme, unit) prog" where "write_gs gs = void (insn ''mov gs'' [ucast gs])"
definition write_ss :: "u32 \<Rightarrow> ('z machine_scheme, unit) prog" where "write_ss ss = void (insn ''mov ss'' [ucast ss])"

definition read_flags :: "('z machine_scheme, u64) prog" where "read_flags = insn_read_ulong ''pushf''"
definition write_flags :: "u64 \<Rightarrow> ('z machine_scheme, unit) prog" where "write_flags flags = insn_write_ulong ''popf'' flags"

section \<open>Control registers\<close>

definition read_cr0 :: "('z machine_scheme, u64) prog" where "read_cr0 = insn_read_ulong ''mov cr0''"
definition read_cr2 :: "('z machine_scheme, u64) prog" where "read_cr2 = insn_read_ulong ''mov cr2''"
definition read_cr3 :: "('z machine_scheme, u64) prog" where "read_cr3 = insn_read_ulong ''mov cr3''"
definition read_cr4 :: "('z machine_scheme, u64) prog" where "read_cr4 = insn_read_ulong ''mov cr4''"
definition read_cr8 :: "('z machine_scheme, u64) prog" where "read_cr8 = insn_read_ulong ''mov cr8''"

definition write_cr0 :: "u64 \<Rightarrow> ('z machine_scheme, unit) prog" where "write_cr0 cr0 = insn_write_ulong ''mov to cr0'' cr0"
definition write_cr2 :: "u64 \<Rightarrow> ('z machine_scheme, unit) prog" where "write_cr2 cr2 = insn_write_ulong ''mov to cr2'' cr2"
definition write_cr3 :: "u64 \<Rightarrow> ('z machine_scheme, unit) prog" where "write_cr3 cr3 = insn_write_ulong ''mov to cr3'' cr3"
definition write_cr4 :: "u64 \<Rightarrow> ('z machine_scheme, unit) prog" where "write_cr4 cr4 = insn_write_ulong ''mov to cr4'' cr4"
definition write_cr8 :: "u64 \<Rightarrow> ('z machine_scheme, unit) prog" where "write_cr8 cr8 = insn_write_ulong ''mov to cr8'' cr8"

text \<open>
  An instruction with an entry in the exception table: the handler gets the registers at the
  instruction with the vector and the error code of the exception, and execution goes on after the
  instruction with the registers that it leaves. \<open>done\<close> gives the registers when nothing faulted.
\<close>

definition no_regs :: cpu_regs where
  "no_regs = msr_regs 0 0"

definition guarded ::
  "string \<Rightarrow> u64 list \<Rightarrow> ex_handler \<Rightarrow> cpu_regs \<Rightarrow> (u64 list \<Rightarrow> cpu_regs) \<Rightarrow> ('z machine_scheme, cpu_regs) prog" where
  "guarded name ops hdl regs finish =
     (\<lambda>h s. let s1 = s\<lparr>trace := trace s @ [Insn name ops]\<rparr>
      in case hw_insn h (trace s) name ops of
           Some vs \<Rightarrow> Done (finish vs) s1
         | None \<Rightarrow>
             (case hw_fault h (trace s) name ops of (vec, ec) \<Rightarrow>
                (case hdl (regs\<lparr>entry_vector := vec, error_code := ec\<rparr>) 0 of
                   (handled, regs1) \<Rightarrow> if handled then Done regs1 s1 else Stop s1)))"

text \<open>\<open>edi\<close> goes in as 0, and the register stays as it is unless the handler changes it.\<close>

definition write_cr4_safe :: "u64 \<Rightarrow> ('z machine_scheme, bool) prog" where
  "write_cr4_safe cr4 =
     bnd (config (\<lambda>e. to_ulong e cr4)) (\<lambda>v.
     let regs = no_regs\<lparr>regs_di := 0\<rparr>
     in bnd (guarded ''mov to cr4'' [v] ex_record_fault_edi regs (\<lambda>_. regs)) (\<lambda>regs1.
        ret ((ucast (regs_di regs1) :: u32) \<noteq> 0)))"

section \<open>Descriptor tables, TLB and extended state\<close>

definition read_mxcsr :: "('z machine_scheme, u32) prog" where "read_mxcsr = bnd (insn_read ''stmxcsr'' []) (\<lambda>v. ret (ucast v))"
definition write_mxcsr :: "u32 \<Rightarrow> ('z machine_scheme, unit) prog" where "write_mxcsr mxcsr = void (insn ''ldmxcsr'' [ucast mxcsr])"
definition invlpg :: "u64 \<Rightarrow> ('z machine_scheme, unit) prog" where "invlpg va = insn_write_ulong ''invlpg'' va"
definition clflush :: "u64 \<Rightarrow> ('z machine_scheme, unit) prog" where "clflush ptr = insn_write_ulong ''clflush'' ptr"

text \<open>A \<open>desc_ptr\<close>: the limit and the base.\<close>

type_synonym desc_ptr = "u16 \<times> u64"

definition lgdt :: "desc_ptr \<Rightarrow> ('z machine_scheme, unit) prog" where "lgdt p = (case p of (limit, base) \<Rightarrow> void (insn ''lgdt'' [ucast limit, base]))"
definition lidt :: "desc_ptr \<Rightarrow> ('z machine_scheme, unit) prog" where "lidt p = (case p of (limit, base) \<Rightarrow> void (insn ''lidt'' [ucast limit, base]))"
definition lldt :: "u32 \<Rightarrow> ('z machine_scheme, unit) prog" where "lldt sel = void (insn ''lldt'' [take_bit 16 (ucast sel)])"
definition ltr :: "u32 \<Rightarrow> ('z machine_scheme, unit) prog" where "ltr sel = void (insn ''ltr'' [take_bit 16 (ucast sel)])"
definition sgdt :: "('z machine_scheme, desc_ptr) prog" where "sgdt = bnd (insn ''sgdt'' []) (\<lambda>r. ret (ucast (r ! 0), r ! 1))"
definition sidt :: "('z machine_scheme, desc_ptr) prog" where "sidt = bnd (insn ''sidt'' []) (\<lambda>r. ret (ucast (r ! 0), r ! 1))"
definition sldt :: "('z machine_scheme, u32) prog" where "sldt = bnd (insn_read ''sldt'' []) (\<lambda>v. ret (ucast v))"
definition str :: "('z machine_scheme, u32) prog" where "str = bnd (insn_read ''str'' []) (\<lambda>v. ret (ucast v))"

definition xgetbv :: "u32 \<Rightarrow> ('z machine_scheme, u64) prog" where
  "xgetbv index =
     bnd (insn ''xgetbv'' [ucast index]) (\<lambda>r.
     let feat_lo = ucast (r ! 0) :: u32; feat_hi = ucast (r ! 1) :: u32
     in ret (ucast feat_lo OR push_bit 32 (ucast feat_hi)))"

definition xsetbv :: "u32 \<Rightarrow> u64 \<Rightarrow> ('z machine_scheme, unit) prog" where
  "xsetbv index value =
     void (insn ''xsetbv'' [ucast (ucast value :: u32), ucast (ucast (drop_bit 32 value) :: u32), ucast index])"

definition read_xcr0 :: "('z machine_scheme, u64) prog" where "read_xcr0 = xgetbv 0"
definition write_xcr0 :: "u64 \<Rightarrow> ('z machine_scheme, unit) prog" where "write_xcr0 xcr0 = xsetbv 0 xcr0"

definition flush_tlb :: "('z machine_scheme, unit) prog" where
  "flush_tlb = bnd read_cr3 write_cr3"

section \<open>Debug registers\<close>

definition read_dr0 :: "('z machine_scheme, u64) prog" where "read_dr0 = insn_read_ulong ''mov dr0''"
definition read_dr1 :: "('z machine_scheme, u64) prog" where "read_dr1 = insn_read_ulong ''mov dr1''"
definition read_dr2 :: "('z machine_scheme, u64) prog" where "read_dr2 = insn_read_ulong ''mov dr2''"
definition read_dr3 :: "('z machine_scheme, u64) prog" where "read_dr3 = insn_read_ulong ''mov dr3''"
definition read_dr6 :: "('z machine_scheme, u64) prog" where "read_dr6 = insn_read_ulong ''mov dr6''"
definition read_dr7 :: "('z machine_scheme, u64) prog" where "read_dr7 = insn_read_ulong ''mov dr7''"
definition write_dr0 :: "u64 \<Rightarrow> ('z machine_scheme, unit) prog" where "write_dr0 linear = insn_write_ulong ''mov to dr0'' linear"
definition write_dr1 :: "u64 \<Rightarrow> ('z machine_scheme, unit) prog" where "write_dr1 linear = insn_write_ulong ''mov to dr1'' linear"
definition write_dr2 :: "u64 \<Rightarrow> ('z machine_scheme, unit) prog" where "write_dr2 linear = insn_write_ulong ''mov to dr2'' linear"
definition write_dr3 :: "u64 \<Rightarrow> ('z machine_scheme, unit) prog" where "write_dr3 linear = insn_write_ulong ''mov to dr3'' linear"
definition write_dr6 :: "u64 \<Rightarrow> ('z machine_scheme, unit) prog" where "write_dr6 val = insn_write_ulong ''mov to dr6'' val"
definition write_dr7 :: "u64 \<Rightarrow> ('z machine_scheme, unit) prog" where "write_dr7 val = insn_write_ulong ''mov to dr7'' val"

section \<open>Transactions\<close>

definition XBEGIN_STARTED :: u32 where "XBEGIN_STARTED = 0xffffffff"
definition XBEGIN_UD :: "u32 option" where "XBEGIN_UD = EXINFO_SYM ''UD'' 0"

definition XABORT :: "(string \<times> u32) list" where
  "XABORT =
     [(''EXPLICIT'', push_bit 0 1), (''RETRY'', push_bit 1 1), (''CONFLICT'', push_bit 2 1),
      (''CAPACITY'', push_bit 3 1), (''DEBUG'', push_bit 4 1), (''NESTED'', push_bit 5 1)]"

definition XABORT_CODE :: "u32 \<Rightarrow> u32" where "XABORT_CODE x = drop_bit 24 x AND 0xff"

text \<open>
  \<open>xbegin\<close> changes \<open>eax\<close> only when the transaction aborts; the processor's answer is \<open>[]\<close> when it
  starts and \<open>[status]\<close> when it aborts at once.
\<close>

definition xbegin_eax :: "u64 list \<Rightarrow> u64" where
  "xbegin_eax r = (case r of [] \<Rightarrow> ucast XBEGIN_STARTED | st # _ \<Rightarrow> st)"

definition xbegin :: "('z machine_scheme, u32) prog" where
  "xbegin = bnd (insn ''xbegin'' []) (\<lambda>r. ret (ucast (xbegin_eax r)))"

definition xbegin_safe :: "('z machine_scheme, u32) prog" where
  "xbegin_safe =
     (let regs = no_regs\<lparr>regs_ax := ucast XBEGIN_STARTED\<rparr>
      in bnd (guarded ''xbegin'' [] ex_record_fault_eax regs (\<lambda>r. regs\<lparr>regs_ax := xbegin_eax r\<rparr>)) (\<lambda>regs1.
         ret (ucast (regs_ax regs1))))"

text \<open>The answer is the zero flag, which is clear inside a transaction.\<close>

definition xtest :: "('z machine_scheme, bool) prog" where
  "xtest = bnd (insn_read ''xtest'' []) (\<lambda>zf. ret (zf = 0))"

text \<open>Inside a transaction, \<open>xabort\<close> does not return.\<close>

definition xabort :: "u8 \<Rightarrow> ('z machine_scheme, unit) prog" where
  "xabort code = seq (void (insn ''xabort'' [ucast code])) halt"

definition xend :: "('z machine_scheme, unit) prog" where
  "xend = void (insn ''xend'' [])"

lemmas guarded_simps = guarded_def no_regs_def msr_regs_def ex_record_fault_edi_def ex_record_fault_eax_def Let_def

section \<open>Properties\<close>

text \<open>
  \<open>write_cr4_safe\<close> tells the truth: it writes CR4 once, with the value cut to the width of the
  build, and returns true exactly when that write faults, whatever the vector and the error code
  of the exception are, because the information that the handler records is never 0.
\<close>

lemma write_cr4_safe_detects:
  "write_cr4_safe cr4 h s =
     Done (hw_insn h (trace s) ''mov to cr4'' [to_ulong (hw_env h) cr4] = None)
       (s\<lparr>trace := trace s @ [Insn ''mov to cr4'' [to_ulong (hw_env h) cr4]]\<rparr>)"
  by (cases "hw_insn h (trace s) ''mov to cr4'' [to_ulong (hw_env h) cr4]")
    (simp_all add: write_cr4_safe_def io_simps guarded_simps EXINFO_nonzero split: prod.split)

lemma EXINFO_bits: "EXINFO vec ec AND 0x7f000000 = 0"
  by (simp add: EXINFO_def push_bit_and word_ao_dist and.assoc)



text \<open>
  Xsetbv and xgetbv split and join the 64 bits of an extended control register the same way: on
  hardware where xgetbv reads the halves that xsetbv wrote, writing XCR0 and reading it back gives
  the value that was written.
\<close>

lemma xcr0_roundtrip:
  assumes "hw_insn h (trace s) ''xsetbv'' [take_bit 32 v, drop_bit 32 v, 0] = Some r"
    and "hw_insn h (trace s @ [Insn ''xsetbv'' [take_bit 32 v, drop_bit 32 v, 0]]) ''xgetbv'' [0] = Some [take_bit 32 v, drop_bit 32 v]"
  shows "returned (bnd (write_xcr0 v) (\<lambda>_. read_xcr0) h s) = Some v"
proof -
  have lo: "ucast (ucast w :: u32) = take_bit 32 w" for w :: u64
    by (rule bit_word_eqI) (auto simp: bit_simps)
  have hi: "take_bit 32 (drop_bit 32 v) = drop_bit 32 v"
    by (rule bit_word_eqI) (auto simp: bit_simps dest: bit_imp_le_length)
  have "take_bit 32 v OR push_bit 32 (drop_bit 32 v) = v"
    using join_edx_eax [of v] by (simp add: or.commute)
  then show ?thesis
    using assms by (simp add: write_xcr0_def read_xcr0_def xsetbv_def xgetbv_def io_simps lo hi Let_def)
qed

lemma xcr0_roundtrip_witness:
  "returned (bnd (write_xcr0 0x4000000000000007) (\<lambda>_. read_xcr0)
      (accept_hw HVM64\<lparr>hw_insn := \<lambda>t n ops. if n = ''xgetbv'' then Some [7, 0x40000000] else Some []\<rparr>) machine0)
    = Some 0x4000000000000007"
  by (rule xcr0_roundtrip) simp_all

text \<open>
  flush_tlb writes CR3 back as it read it, and nothing else.
\<close>

lemma flush_tlb_run:
  assumes "hw_insn h (trace s) ''mov cr3'' [] = Some [cr3]"
    and "hw_insn h (trace s @ [Insn ''mov cr3'' []]) ''mov to cr3'' [to_ulong (hw_env h) cr3] = Some r"
  shows "flush_tlb h s = Done () (s\<lparr>trace := trace s @ [Insn ''mov cr3'' [], Insn ''mov to cr3'' [to_ulong (hw_env h) cr3]]\<rparr>)"
  using assms by (simp add: flush_tlb_def read_cr3_def write_cr3_def insn_read_ulong_def insn_write_ulong_def io_simps to_ulong_def)

end
