(* ===== verification/X86_Bitops.thy ===== *)
theory X86_Bitops imports
  Prelude
begin

text \<open>
  The bit operations of \<open>arch/bitops.h\<close>. With a register bit number and a memory operand, \<open>bt\<close> and
  its relatives take the number as a signed 32-bit offset: they access the 32-bit word
  \<open>offset div 32\<close> from the address (rounded down, so that it can lie before it) and the bit
  \<open>offset mod 32\<close> of it. Memory is a list of such words with the address at the index \<open>a\<close>; an access
  outside the list is \<open>None\<close>.
\<close>

section \<open>Operations\<close>

definition bt_word :: "nat \<Rightarrow> u32 \<Rightarrow> int" where
  "bt_word a nr = int a + sint nr div 32"

definition bt_bit :: "u32 \<Rightarrow> nat" where
  "bt_bit nr = nat (sint nr mod 32)"

definition test_bit :: "u32 \<Rightarrow> u32 list \<Rightarrow> nat \<Rightarrow> bool option" where
  "test_bit nr mem a =
     (let i = bt_word a nr
      in if 0 \<le> i \<and> i < int (length mem) then Some (bit (mem ! nat i) (bt_bit nr)) else None)"

text \<open>The locked operations: the old bit, and memory with the word that \<open>f\<close> makes of the old one.\<close>

definition bt_modify :: "(nat \<Rightarrow> u32 \<Rightarrow> u32) \<Rightarrow> u32 \<Rightarrow> u32 list \<Rightarrow> nat \<Rightarrow> (bool \<times> u32 list) option" where
  "bt_modify f nr mem a =
     (let i = bt_word a nr
      in if 0 \<le> i \<and> i < int (length mem)
         then Some (bit (mem ! nat i) (bt_bit nr), mem[nat i := f (bt_bit nr) (mem ! nat i)]) else None)"

definition test_and_set_bit :: "u32 \<Rightarrow> u32 list \<Rightarrow> nat \<Rightarrow> (bool \<times> u32 list) option" where
  "test_and_set_bit = bt_modify set_bit"

definition test_and_change_bit :: "u32 \<Rightarrow> u32 list \<Rightarrow> nat \<Rightarrow> (bool \<times> u32 list) option" where
  "test_and_change_bit = bt_modify flip_bit"

definition test_and_clear_bit :: "u32 \<Rightarrow> u32 list \<Rightarrow> nat \<Rightarrow> (bool \<times> u32 list) option" where
  "test_and_clear_bit = bt_modify unset_bit"

section \<open>Memory as a set of bits\<close>

text \<open>The bits that are set, by their distance from the address.\<close>

definition bits_at :: "u32 list \<Rightarrow> nat \<Rightarrow> int set" where
  "bits_at mem a = {k. 0 \<le> int a + k div 32 \<and> int a + k div 32 < int (length mem)
     \<and> bit (mem ! nat (int a + k div 32)) (nat (k mod 32))}"

definition in_mem :: "u32 list \<Rightarrow> nat \<Rightarrow> int \<Rightarrow> bool" where
  "in_mem mem a k \<longleftrightarrow> 0 \<le> int a + k div 32 \<and> int a + k div 32 < int (length mem)"

lemma same_bit: "(k :: int) div 32 = j div 32 \<Longrightarrow> nat (k mod 32) = nat (j mod 32) \<Longrightarrow> k = j"
proof -
  assume d: "k div 32 = j div 32" and "nat (k mod 32) = nat (j mod 32)"
  then have "k mod 32 = j mod 32" by (simp add: nat_eq_iff2)
  then show "k = j" using d by (metis div_mult_mod_eq)
qed

lemma bt_modify_bits:
  assumes "bt_modify f nr mem a = Some (old, mem1)"
    and "\<And>n w m. n < 32 \<Longrightarrow> m < 32 \<Longrightarrow> bit (f n w) m = (if m = n then g (bit w n) else bit w m)"
  shows "in_mem mem a (sint nr) \<and> length mem1 = length mem \<and> (old \<longleftrightarrow> sint nr \<in> bits_at mem a)
    \<and> bits_at mem1 a = (if g old then insert (sint nr) (bits_at mem a) else bits_at mem a - {sint nr})"
proof -
  have in_range: "in_mem mem a (sint nr)"
    and old: "old = bit (mem ! nat (bt_word a nr)) (bt_bit nr)"
    and mem1: "mem1 = mem[nat (bt_word a nr) := f (bt_bit nr) (mem ! nat (bt_word a nr))]"
    using assms(1) by (auto simp: bt_modify_def in_mem_def bt_word_def Let_def split: if_splits)
  have bb: "bt_bit nr < 32" by (simp add: bt_bit_def nat_less_iff)
  have len: "nat (int a + sint nr div 32) < length mem" using in_range by (auto simp: in_mem_def nat_less_iff)
  have "k \<in> bits_at mem1 a \<longleftrightarrow> (if k = sint nr then g old else k \<in> bits_at mem a)" for k
  proof -
    have km: "nat (k mod 32) < 32" by (simp add: nat_less_iff)
    consider "k = sint nr" | "k \<noteq> sint nr" "k div 32 = sint nr div 32" | "k div 32 \<noteq> sint nr div 32" by blast
    then show ?thesis
    proof cases
      case 1
      then show ?thesis
        using in_range len assms(2) [OF bb bb] by (simp add: bits_at_def mem1 old in_mem_def bt_word_def bt_bit_def)
    next
      case 2
      then have "nat (k mod 32) \<noteq> bt_bit nr" using same_bit unfolding bt_bit_def by blast
      then show ?thesis
        using 2 in_range len assms(2) [OF bb km] by (simp add: bits_at_def mem1 in_mem_def bt_word_def)
    next
      case 3
      then have "0 \<le> int a + k div 32 \<Longrightarrow> nat (int a + k div 32) \<noteq> nat (bt_word a nr)"
        using in_range by (simp add: bt_word_def in_mem_def nat_eq_iff)
      then show ?thesis using 3 by (auto simp: bits_at_def mem1)
    qed
  qed
  then have "bits_at mem1 a = {k. if k = sint nr then g old else k \<in> bits_at mem a}" by blast
  moreover have "old \<longleftrightarrow> sint nr \<in> bits_at mem a"
    using in_range by (simp add: old bits_at_def bt_word_def bt_bit_def in_mem_def)
  ultimately show ?thesis using in_range mem1 by auto
qed

text \<open>
  C20: the bit operations implement a set of bit numbers. On memory that holds the bit, test_and_set_bit
  adds it to the set, test_and_clear_bit removes it, test_and_change_bit adds or removes it, and
  each returns whether the bit was in the set before; no other bit changes. Bit numbers from 2^31
  on are negative distances, to bits before the address.
\<close>

theorem bitops_refine_set:
  assumes "in_mem mem a (sint nr)"
  shows "test_bit nr mem a = Some (sint nr \<in> bits_at mem a)
    \<and> (\<exists>m. test_and_set_bit nr mem a = Some (sint nr \<in> bits_at mem a, m) \<and> length m = length mem
      \<and> bits_at m a = insert (sint nr) (bits_at mem a))
    \<and> (\<exists>m. test_and_clear_bit nr mem a = Some (sint nr \<in> bits_at mem a, m) \<and> length m = length mem
      \<and> bits_at m a = bits_at mem a - {sint nr})
    \<and> (\<exists>m. test_and_change_bit nr mem a = Some (sint nr \<in> bits_at mem a, m) \<and> length m = length mem
      \<and> bits_at m a = (bits_at mem a - {sint nr}) \<union> ({sint nr} - bits_at mem a))"
proof (intro conjI)
  have modify: "\<exists>old m. bt_modify f nr mem a = Some (old, m)" for f
    using assms by (simp add: bt_modify_def in_mem_def bt_word_def Let_def)
  show "test_bit nr mem a = Some (sint nr \<in> bits_at mem a)"
    using assms by (simp add: test_bit_def in_mem_def bt_word_def bits_at_def bt_bit_def Let_def)
  obtain o1 m1 where m1: "bt_modify set_bit nr mem a = Some (o1, m1)" using modify by blast
  show "\<exists>m. test_and_set_bit nr mem a = Some (sint nr \<in> bits_at mem a, m) \<and> length m = length mem
      \<and> bits_at m a = insert (sint nr) (bits_at mem a)"
    using bt_modify_bits [OF m1, of "\<lambda>_. True"] m1 by (simp add: test_and_set_bit_def bit_simps)
  obtain o2 m2 where m2: "bt_modify unset_bit nr mem a = Some (o2, m2)" using modify by blast
  show "\<exists>m. test_and_clear_bit nr mem a = Some (sint nr \<in> bits_at mem a, m) \<and> length m = length mem
      \<and> bits_at m a = bits_at mem a - {sint nr}"
    using bt_modify_bits [OF m2, of "\<lambda>_. False"] m2 by (simp add: test_and_clear_bit_def bit_simps)
  obtain o3 m3 where m3: "bt_modify flip_bit nr mem a = Some (o3, m3)" using modify by blast
  show "\<exists>m. test_and_change_bit nr mem a = Some (sint nr \<in> bits_at mem a, m) \<and> length m = length mem
      \<and> bits_at m a = (bits_at mem a - {sint nr}) \<union> ({sint nr} - bits_at mem a)"
    using bt_modify_bits [OF m3, of "Not"] m3 by (auto simp: test_and_change_bit_def bit_simps split: if_splits)
qed

theorem bitops_refine_set_witness:
  "test_bit 0xffffffff [0x80000000, 0] 1 = Some True"
proof -
  have "in_mem [0x80000000, 0] 1 (sint (0xffffffff :: u32))" by (simp add: in_mem_def)
  from bitops_refine_set [OF this] show ?thesis by (simp add: bits_at_def)
qed

end
