(* ===== verification/Printf_C11.thy ===== *)
theory Printf_C11 imports
  Printf_Spec
begin

text \<open>
  The comment at the top of \<open>common/libc/vsnprintf.c\<close> lists the conversions it supports "from the C11
  specification". This theory states what that standard (7.21.6.1) asks of them, over the same items
  as the theory of the format strings but from the standard's text alone, and shows that the
  formatter prints exactly that, apart from corner cases that a predicate on the items names.
\<close>

section \<open>The standard\<close>

text \<open>A negative width argument is taken as a \<open>-\<close> flag followed by a positive width.\<close>

definition c11_left :: "string \<Rightarrow> fwidth \<Rightarrow> bool" where
  "c11_left fl w \<longleftrightarrow> CHR ''-'' \<in> set fl \<or> (case w of Star_width i \<Rightarrow> sint i < 0 | _ \<Rightarrow> False)"

fun c11_width :: "fwidth \<Rightarrow> nat" where
  "c11_width No_width = 0"
| "c11_width (Width n) = n"
| "c11_width (Star_width i) = nat \<bar>sint i\<bar>"

text \<open>A lone period is a precision of zero; a negative precision is as if it were omitted.\<close>

fun c11_prec :: "fprec \<Rightarrow> nat option" where
  "c11_prec No_prec = None"
| "c11_prec Dot = Some 0"
| "c11_prec (Prec n) = Some n"
| "c11_prec (Star_prec i) = (if sint i < 0 then None else Some (nat (sint i)))"

definition c11_signed :: "char \<Rightarrow> bool" where
  "c11_signed c \<longleftrightarrow> c = CHR ''d'' \<or> c = CHR ''i''"

definition c11_base :: "char \<Rightarrow> nat" where
  "c11_base c = (if c = CHR ''o'' then 8 else if c = CHR ''x'' \<or> c = CHR ''X'' then 16 else 10)"

definition c11_value :: "env \<Rightarrow> lenmod \<Rightarrow> char \<Rightarrow> u64 \<Rightarrow> int" where
  "c11_value e m c v =
     (if c11_signed c then sint (signed_take_bit (mod_bits e m - 1) v) else uint (take_bit (mod_bits e m) v))"

text \<open>
  The digits: the precision is the minimum number, 1 if it is missing; zero with a precision of zero
  has none. \<open>#\<close> with \<open>o\<close> raises the precision by one if that is needed to make the first digit a zero.
\<close>

definition c11_numeral :: "char \<Rightarrow> nat \<Rightarrow> string" where
  "c11_numeral c n =
     map ((!) (if c = CHR ''X'' then ''0123456789ABCDEF'' else ''0123456789abcdef'')) (rev (digit_list (c11_base c) n))"

definition c11_digits :: "char \<Rightarrow> bool \<Rightarrow> nat option \<Rightarrow> nat \<Rightarrow> string" where
  "c11_digits c alt prec n =
     (let ds = c11_numeral c n;
          body = replicate ((case prec of None \<Rightarrow> 1 | Some p \<Rightarrow> p) - length ds) (CHR ''0'') @ ds
      in if alt \<and> c = CHR ''o'' \<and> (body = [] \<or> hd body \<noteq> CHR ''0'') then CHR ''0'' # body else body)"

text \<open>The sign, and the prefix that \<open>#\<close> gives a nonzero hexadecimal number.\<close>

definition c11_front :: "string \<Rightarrow> char \<Rightarrow> int \<Rightarrow> string" where
  "c11_front fl c v =
     (if c11_signed c
      then if v < 0 then ''-'' else if CHR ''+'' \<in> set fl then ''+'' else if CHR '' '' \<in> set fl then '' '' else []
      else if CHR ''#'' \<in> set fl \<and> v \<noteq> 0
      then if c = CHR ''x'' then ''0x'' else if c = CHR ''X'' then ''0X'' else []
      else [])"

text \<open>
  Padding to the width: spaces on the right after \<open>-\<close>, zeros after the sign or prefix with \<open>0\<close> and no
  precision, else spaces on the left.
\<close>

definition c11_number :: "string \<Rightarrow> fwidth \<Rightarrow> fprec \<Rightarrow> char \<Rightarrow> int \<Rightarrow> string" where
  "c11_number fl w p c v =
     (let front = c11_front fl c v;
          body = c11_digits c (CHR ''#'' \<in> set fl) (c11_prec p) (nat \<bar>v\<bar>);
          pad = c11_width w - (length front + length body)
      in if c11_left fl w then front @ body @ replicate pad (CHR '' '')
         else if CHR ''0'' \<in> set fl \<and> c11_prec p = None then front @ replicate pad (CHR ''0'') @ body
         else replicate pad (CHR '' '') @ front @ body)"

definition c11_field :: "string \<Rightarrow> fwidth \<Rightarrow> string \<Rightarrow> string" where
  "c11_field fl w cs =
     (let pad = replicate (c11_width w - length cs) (CHR '' '') in if c11_left fl w then cs @ pad else pad @ cs)"

text \<open>
  A null string is undefined in the standard; hosted C libraries print \<open>(null)\<close>. The text of a pointer is
  left to the implementation; they print it like \<open>%#lx\<close>.
\<close>

fun c11_item :: "env \<Rightarrow> item \<Rightarrow> string" where
  "c11_item e (Lit c) = [c]"
| "c11_item e Percent = ''%''"
| "c11_item e (Chr fl w p i) = c11_field fl w [char_of (unat i)]"
| "c11_item e (Str fl w p s) =
     c11_field fl w
       (let cs = (case s of None \<Rightarrow> ''(null)'' | Some v \<Rightarrow> cstr v)
        in case c11_prec p of None \<Rightarrow> cs | Some n \<Rightarrow> take n cs)"
| "c11_item e (Num fl w p m c v) = c11_number fl w p c (c11_value e m c v)"
| "c11_item e (Ptr fl w p v) = c11_number (CHR ''#'' # fl) w p (CHR ''x'') (uint (to_ulong e v))"

definition c11_text :: "env \<Rightarrow> item list \<Rightarrow> string" where
  "c11_text e items = concat (map (c11_item e) items)"

section \<open>Where the formatter agrees\<close>

text \<open>
  The corner cases (a number has at least \<open>n\<close> octal digits if it is at least \<open>8 ^ (n - 1)\<close>): a lone period, zero with precision zero, \<open>#\<close> with \<open>X\<close>, \<open>#\<close> with a zero number, \<open>#o\<close> with a
  precision beyond the digits, \<open>z\<close> with a signed conversion where \<open>long\<close> has 32 bits, a null string, a
  pointer without \<open>#\<close> or width.
\<close>

definition c11_number_agrees :: "string \<Rightarrow> fprec \<Rightarrow> char \<Rightarrow> int \<Rightarrow> bool" where
  "c11_number_agrees fl p c v \<longleftrightarrow>
     p \<noteq> Dot \<and> \<not> (v = 0 \<and> c11_prec p = Some 0)
     \<and> (CHR ''#'' \<in> set fl \<longrightarrow> c \<noteq> CHR ''X'' \<and> (c = CHR ''x'' \<or> c = CHR ''o'' \<longrightarrow> v \<noteq> 0)
          \<and> (c = CHR ''o'' \<longrightarrow>
               (case c11_prec p of None \<Rightarrow> True | Some n \<Rightarrow> n = 0 \<or> 8 ^ (n - 1) \<le> v)))"

fun c11_agrees :: "env \<Rightarrow> item \<Rightarrow> bool" where
  "c11_agrees e (Num fl w p m c v) \<longleftrightarrow>
     c11_number_agrees fl p c (c11_value e m c v) \<and> (m = M_z \<and> c11_signed c \<longrightarrow> BITS_PER_LONG e = 64)"
| "c11_agrees e (Str fl w p s) \<longleftrightarrow> p \<noteq> Dot \<and> s \<noteq> None"
| "c11_agrees e (Ptr fl w p v) \<longleftrightarrow>
     CHR ''#'' \<in> set fl \<and> w \<noteq> No_width \<and> c11_number_agrees fl p (CHR ''x'') (uint (to_ulong e v))"
| "c11_agrees e _ \<longleftrightarrow> True"

section \<open>Flags\<close>

lemma bit_flag_of:
  "bit (flag_of c) 0 \<longleftrightarrow> c = CHR ''-''" "bit (flag_of c) 1 \<longleftrightarrow> c = CHR ''+''" "bit (flag_of c) 2 \<longleftrightarrow> c = CHR '' ''"
  "bit (flag_of c) 3 \<longleftrightarrow> c = CHR ''#''" "bit (flag_of c) 4 \<longleftrightarrow> c = CHR ''0''" "\<not> bit (flag_of c) 5" "\<not> bit (flag_of c) 6" "\<not> bit (flag_of c) 7"
  by (simp_all add: flag_of.simps flag_defs)

lemma bit_fold_flags: "bit (fold (\<lambda>c f. f OR flag_of c) fl cf) k \<longleftrightarrow> bit cf k \<or> (\<exists>c \<in> set fl. bit (flag_of c) k)"
  by (induction fl arbitrary: cf) (auto simp: bit_or_iff)

lemma bit_width_flag: "bit (width_flag w) k \<longleftrightarrow> k = 0 \<and> (case w of Star_width i \<Rightarrow> sint i < 0 | _ \<Rightarrow> False)"
  by (cases w) (auto simp: bit_LEFT)

lemma bit_num_flag: "bit (num_flag c) k \<longleftrightarrow> c11_signed c \<and> k = 6 \<or> c = CHR ''X'' \<and> k = 5"
proof -
  have "bit UPPER k \<longleftrightarrow> k = 5" unfolding UPPER_def by (rule bit_push_bit_1_u32) simp
  then show ?thesis by (auto simp: c11_signed_def bit_SIGNED)
qed

lemma conv_flags_tests:
  "has (conv_flags 0 fl w OR num_flag c) LEFT \<longleftrightarrow> c11_left fl w"
  "has (conv_flags 0 fl w OR num_flag c) PLUS \<longleftrightarrow> CHR ''+'' \<in> set fl"
  "has (conv_flags 0 fl w OR num_flag c) SPACE \<longleftrightarrow> CHR '' '' \<in> set fl"
  "has (conv_flags 0 fl w OR num_flag c) ALTERNATE \<longleftrightarrow> CHR ''#'' \<in> set fl"
  "has (conv_flags 0 fl w OR num_flag c) ZERO \<longleftrightarrow> CHR ''0'' \<in> set fl"
  "has (conv_flags 0 fl w OR num_flag c) UPPER \<longleftrightarrow> c = CHR ''X''"
  "has (conv_flags 0 fl w OR num_flag c) SIGNED \<longleftrightarrow> c11_signed c"
  "has (conv_flags 0 fl w) LEFT \<longleftrightarrow> c11_left fl w"
  "\<not> has (conv_flags 0 fl w) LF_TO_CRLF"
  unfolding has_flags conv_flags_def bit_or_iff bit_fold_flags bit_width_flag bit_num_flag
  by (auto simp: bit_flag_of bit_flag_of(2) [unfolded One_nat_def] c11_left_def)

section \<open>Numbers\<close>

lemma number_spec_pad:
  "number_spec val base width precision flags =
     (let front = sign_text val flags @ alternate_text base flags;
          body = number_body val base precision flags;
          pad = nat width - (length front + length body)
      in if has flags LEFT then front @ body @ replicate pad (CHR '' '')
         else if has flags ZERO \<and> precision = -1 then front @ replicate pad (CHR ''0'') @ body
         else replicate pad (CHR '' '') @ front @ body)"
proof -
  have "max (int (length (number_digits val base flags))) precision = int (length (number_body val base precision flags))"
    by (auto simp: number_body_def max_def)
  then have "nat (number_pad val base width precision flags) =
      nat width - (length (sign_text val flags @ alternate_text base flags) + length (number_body val base precision flags))"
    by (simp add: number_pad_def)
  then show ?thesis by (simp only: number_spec_def Let_def)
qed

lemma digit_chars_c11:
  "digit_chars (conv_flags 0 fl w OR num_flag c) = (if c = CHR ''X'' then ''0123456789ABCDEF'' else ''0123456789abcdef'')"
  by (simp add: digit_chars_def conv_flags_tests lower_digits_def upper_digits_def del: num_flag.simps)

lemma c11_base_eq: "unat (num_base c) = c11_base c"
  by (simp add: c11_base_def)

lemma prec_value_c11: "p \<noteq> Dot \<Longrightarrow> prec_value p = (case c11_prec p of None \<Rightarrow> -1 | Some n \<Rightarrow> int n)"
  by (cases p) auto

lemma width_value_c11: "nat (width_value w) = c11_width w"
  by (cases w) auto

lemma hd_octal:
  assumes "0 < n"
  shows "map ((!) ''0123456789abcdef'') (rev (digit_list 8 n)) \<noteq> []
    \<and> hd (map ((!) ''0123456789abcdef'') (rev (digit_list 8 n))) \<noteq> CHR ''0''"
proof -
  have ne: "digit_list 8 n \<noteq> []" using assms by (simp add: digit_list_step)
  then have "last (digit_list 8 n) \<in> set (digit_list 8 n)" by simp
  then have lt: "last (digit_list 8 n) < 8" by (rule digit_list_less)
  have nz: "last (digit_list 8 n) \<noteq> 0" using assms by (intro last_digit_list) simp_all
  have "\<forall>d \<in> set [1..<8]. ''0123456789abcdef'' ! d \<noteq> CHR ''0''" by code_simp
  then have "''0123456789abcdef'' ! last (digit_list 8 n) \<noteq> CHR ''0''" using lt nz by simp
  then show ?thesis using ne by (simp add: hd_map hd_rev)
qed

lemma length_c11_numeral: "0 < n \<Longrightarrow> 0 < length (c11_numeral c n)"
  by (simp add: c11_numeral_def digit_list_step c11_base_def)

lemma c11_digits_plain:
  assumes "\<not> (alt \<and> c = CHR ''o'')" "\<not> (n = 0 \<and> prec = Some 0)"
  shows "c11_digits c alt prec n =
    (let ds = if n = 0 then ''0'' else c11_numeral c n
     in replicate ((case prec of None \<Rightarrow> 0 | Some p \<Rightarrow> p) - length ds) (CHR ''0'') @ ds)"
proof (cases "n = 0")
  case True
  have "replicate p (CHR ''0'') = replicate (p - 1) (CHR ''0'') @ ''0''" if "p \<noteq> 0" for p
    using that by (cases p) (simp_all add: replicate_append_same)
  moreover have "c11_numeral c 0 = []" by (simp add: c11_numeral_def)
  ultimately show ?thesis
    using True assms by (cases "prec") (auto simp: c11_digits_def Let_def)
next
  case False
  then have "c11_numeral c n \<noteq> []" "Suc 0 - length (c11_numeral c n) = 0"
    using length_c11_numeral [of n c] by (auto simp: Suc_le_eq)
  then show ?thesis using False assms by (cases prec) (auto simp: c11_digits_def Let_def)
qed

lemma digit_list_upper: "2 \<le> b \<Longrightarrow> n < b ^ length (digit_list b n)"
proof (induction b n rule: digit_list.induct)
  case (1 b n)
  show ?case
  proof (cases "n = 0")
    case False
    then have "n div b < b ^ length (digit_list b (n div b))" using 1 by simp
    then have "n < b ^ length (digit_list b (n div b)) * b"
      using 1(2) by (simp add: div_less_iff_less_mult)
    then show ?thesis using False 1(2) by (simp add: digit_list_step mult.commute)
  qed simp
qed

lemma octal_length:
  assumes "8 ^ (k - 1) \<le> v" "0 < k"
  shows "k \<le> length (digit_list 8 (nat v))"
proof -
  have "(8::nat) ^ (k - 1) \<le> nat v" using assms(1) by (simp add: le_nat_iff)
  also have "\<dots> < 8 ^ length (digit_list 8 (nat v))" by (intro digit_list_upper) simp
  finally have "k - 1 < length (digit_list 8 (nat v))" by simp
  then show ?thesis by simp
qed

lemma c11_digits_octal:
  assumes "0 < n" "case prec of None \<Rightarrow> True | Some p \<Rightarrow> p \<le> length (digit_list 8 n)"
  shows "c11_digits (CHR ''o'') True prec n = CHR ''0'' # c11_numeral (CHR ''o'') n"
proof -
  have b: "c11_base (CHR ''o'') = 8" by (simp add: c11_base_def)
  have "c11_numeral (CHR ''o'') n \<noteq> []" "hd (c11_numeral (CHR ''o'') n) \<noteq> CHR ''0''"
    using hd_octal [OF assms(1)] by (simp_all add: c11_numeral_def b)
  moreover have "length (c11_numeral (CHR ''o'') n) = length (digit_list 8 n)" by (simp add: c11_numeral_def b)
  moreover have "0 < length (c11_numeral (CHR ''o'') n)" using assms(1) by (rule length_c11_numeral)
  ultimately show ?thesis
    using assms(2) by (cases prec) (simp_all add: c11_digits_def Let_def Suc_le_eq)
qed

lemma num_value_c11:
  assumes "m = M_z \<and> c11_signed c \<longrightarrow> BITS_PER_LONG e = 64"
  shows "(if c11_signed c then sint (num_value e m c v) else uint (num_value e m c v)) = c11_value e m c v"
proof -
  have d: "(c = CHR ''d'' \<or> c = CHR ''i'') = c11_signed c" by (simp add: c11_signed_def)
  show ?thesis
    unfolding num_value_def c11_value_def d
    using assms by (cases "m = M_z") (simp_all add: wide del: BITS_PER_LONG.simps)
qed

lemma number_c11:
  assumes c: "c \<in> set ''diuoxX''"
    and v: "(if c11_signed c then sint val else uint val) = v"
    and ok: "c11_number_agrees fl p c v"
  shows "number_spec val (num_base c) (width_value w) (prec_value p) (conv_flags 0 fl w OR num_flag c) =
    c11_number fl w p c v"
proof -
  let ?f = "conv_flags 0 fl w OR num_flag c"
  let ?alt = "CHR ''#'' \<in> set fl"
  define ds where "ds = (if v = 0 then ''0'' else c11_numeral c (nat \<bar>v\<bar>))"
  define body where "body = replicate ((case c11_prec p of None \<Rightarrow> 0 | Some n \<Rightarrow> n) - length ds) (CHR ''0'') @ ds"
  have "magnitude val ?f = (if c11_signed c then nat \<bar>sint val\<bar> else unat val)"
    unfolding magnitude_def conv_flags_tests ..
  also have "\<dots> = nat \<bar>if c11_signed c then sint val else uint val\<bar>" by simp
  finally have mag: "magnitude val ?f = nat \<bar>v\<bar>" unfolding v .
  have nd: "number_digits val (num_base c) ?f = ds"
    unfolding number_digits_def mag number_text_def digit_chars_c11 c11_base_eq ds_def c11_numeral_def by simp
  have p: "p \<noteq> Dot" using ok by (simp add: c11_number_agrees_def)
  have nb: "number_body val (num_base c) (prec_value p) ?f = body"
    unfolding number_body_def nd body_def prec_value_c11 [OF p] by (simp split: option.split)
  have pm: "prec_value p = -1 \<longleftrightarrow> c11_prec p = None"
    unfolding prec_value_c11 [OF p] by (simp split: option.split)
  have sg: "sign_text val ?f =
      (if \<not> c11_signed c then [] else if v < 0 then ''-'' else if CHR ''+'' \<in> set fl then ''+''
       else if CHR '' '' \<in> set fl then '' '' else [])"
    unfolding sign_text_def conv_flags_tests using v by (cases "c11_signed c") simp_all
  note spec = number_spec_pad [of val "num_base c" "width_value w" "prec_value p" ?f, unfolded nb sg pm width_value_c11 conv_flags_tests]
  show ?thesis
  proof (cases "?alt \<and> c = CHR ''o''")
    case True
    then have n: "v \<noteq> 0" "0 \<le> v" "\<not> c11_signed c" "0 < nat v"
      using ok v uint_ge_0 [of val] by (auto simp: c11_number_agrees_def c11_signed_def simp del: uint_ge_0)
    have prec: "case c11_prec p of None \<Rightarrow> True | Some k \<Rightarrow> k \<le> length (digit_list 8 (nat v))"
      using ok True octal_length [of _ v]
      by (auto simp: c11_number_agrees_def split: option.splits)
    have len: "length ds = length (digit_list 8 (nat v))"
      using True n by (simp add: ds_def c11_numeral_def c11_base_def)
    have body: "body = ds" using prec len by (simp add: body_def split: option.splits)
    have digits: "c11_digits c ?alt (c11_prec p) (nat \<bar>v\<bar>) = CHR ''0'' # ds"
      using c11_digits_octal [OF n(4) prec] True n by (simp add: ds_def)
    have front: "c11_front fl c v = []" using True n by (simp add: c11_front_def)
    have alt: "alternate_text (num_base c) ?f = ''0''"
      using True unfolding alternate_text_def conv_flags_tests by simp
    show ?thesis
      unfolding spec Let_def alt body c11_number_def digits front using n(3)
      by (simp add: replicate_app_Cons_same)
  next
    case False
    have digits: "c11_digits c ?alt (c11_prec p) (nat \<bar>v\<bar>) = body"
      using False ok by (subst c11_digits_plain) (auto simp: c11_number_agrees_def body_def ds_def Let_def)
    have front: "sign_text val ?f @ alternate_text (num_base c) ?f = c11_front fl c v"
      using False ok c unfolding sg alternate_text_def conv_flags_tests c11_front_def
      by (auto simp: c11_signed_def c11_number_agrees_def)
    show ?thesis
      unfolding number_spec_pad c11_number_def Let_def front digits nb pm width_value_c11 conv_flags_tests
      by (rule refl)
  qed
qed

section \<open>Fields\<close>

lemma field_c11:
  "has (conv_flags 0 fl w) LEFT = c11_left fl w"
  "field (conv_flags 0 fl w) (width_value w) (length cs) cs = c11_field fl w cs"
proof -
  show l: "has (conv_flags 0 fl w) LEFT = c11_left fl w"
    by (rule conv_flags_tests)
  have "nat (width_value w - int (length cs)) = c11_width w - length cs"
    by (simp flip: width_value_c11)
  then show "field (conv_flags 0 fl w) (width_value w) (length cs) cs = c11_field fl w cs"
    by (simp add: field_def c11_field_def l)
qed

lemma crlf_plain: "crlf (conv_flags 0 fl w) cs = cs"
  by (induction cs) (simp_all add: crlf_def conv_flags_tests)

lemma item_c11:
  assumes "item_ok e 0 it" "c11_agrees e it"
  shows "item_text e 0 it = c11_item e it"
proof (cases it)
  case (Chr fl w p i)
  then show ?thesis using field_c11(2) [of fl w "[char_of (unat i)]"] by (simp add: crlf_plain)
next
  case (Str fl w p s)
  then obtain v where v: "s = Some v" and p: "p \<noteq> Dot" using assms(2) by auto
  have "str_text s (prec_value p) = (case c11_prec p of None \<Rightarrow> cstr v | Some n \<Rightarrow> take n (cstr v))"
    unfolding prec_value_c11 [OF p] v by (simp split: option.split)
  then show ?thesis using Str v by (simp add: Let_def crlf_plain field_c11(2))
next
  case (Num fl w p m c v)
  then have "c \<in> set ''diuoxX''" "m = M_z \<and> c11_signed c \<longrightarrow> BITS_PER_LONG e = 64"
      "c11_number_agrees fl p c (c11_value e m c v)"
    using assms by (simp_all del: BITS_PER_LONG.simps)
  then show ?thesis
    using number_c11 [OF _ num_value_c11] Num by (simp del: num_flag.simps num_base.simps)
next
  case (Ptr fl w p v)
  let ?x = "CHR ''x''" and ?h = "CHR ''#''"
  have "\<not> c11_signed ?x" by (simp add: c11_signed_def)
  moreover have "c11_number_agrees fl p ?x (uint (to_ulong e v))" using assms(2) Ptr by simp
  ultimately have "number_spec (to_ulong e v) (num_base ?x) (width_value w) (prec_value p) (conv_flags 0 fl w OR num_flag ?x) =
      c11_number fl w p ?x (uint (to_ulong e v))"
    by (intro number_c11) simp_all
  moreover have "c11_number (?h # fl) w p ?x n = c11_number fl w p ?x n" for n
  proof -
    have fl: "set (?h # fl) = set fl" using assms(2) Ptr by auto
    then have "c11_left (?h # fl) w = c11_left fl w" by (simp only: c11_left_def)
    then show ?thesis unfolding c11_number_def c11_front_def fl by simp
  qed
  moreover have "width_value w \<noteq> -1" using assms(2) Ptr by (cases w) auto
  ultimately show ?thesis using Ptr by (simp add: Let_def)
qed (auto simp: crlf_def has_def)

lemma text_c11:
  assumes "list_all (item_ok e 0) items" "list_all (c11_agrees e) items"
  shows "text_of e 0 items = c11_text e items"
  using assms by (induction items) (simp_all add: text_of_def c11_text_def item_c11)

section \<open>The corner cases\<close>

text \<open>Each corner case with what the formatter prints and what the standard asks for.\<close>

definition corner_items :: "(item \<times> string \<times> string) list" where
  "corner_items =
     [(Num ''#'' No_width No_prec M_none (CHR ''x'') 0, ''0x0'', ''0''),
      (Num ''#'' No_width No_prec M_none (CHR ''X'') 255, ''0xFF'', ''0XFF''),
      (Num ''#'' No_width No_prec M_none (CHR ''o'') 0, ''00'', ''0''),
      (Num ''#'' No_width (Prec 5) M_none (CHR ''o'') 255, ''000377'', ''00377''),
      (Num [] No_width (Prec 0) M_none (CHR ''d'') 0, ''0'', []),
      (Num ''0'' (Width 5) Dot M_none (CHR ''d'') 7, ''00007'', ''    7''),
      (Str [] No_width Dot (Some (''abc'' @ [NUL])), ''abc'', [])]"



text \<open>
  Where the formatter leaves the standard: each corner item is well-formed, the formatter prints
  the first text for it and C11 asks for the second. The prefix 0x is printed for zero and in lower
  case for %X, # with %o adds a zero whatever the first digit is, %.0d prints zero, a lone period is
  no precision, and %zd is unsigned.
\<close>

lemma c11_corner_cases:
  "(\<forall>(it, printed, standard) \<in> set corner_items.
      format_ok HVM32 0 [it] \<and> text_of HVM32 0 [it] = printed \<and> c11_text HVM32 [it] = standard
      \<and> printed \<noteq> standard \<and> \<not> c11_agrees HVM32 it)
   \<and> uint (num_value HVM32 M_z (CHR ''d'') (- 1)) = 2 ^ 32 - 1 \<and> c11_value HVM32 M_z (CHR ''d'') (- 1) = -1"
proof (intro conjI)
  show "\<forall>(it, printed, standard) \<in> set corner_items.
      format_ok HVM32 0 [it] \<and> text_of HVM32 0 [it] = printed \<and> c11_text HVM32 [it] = standard
      \<and> printed \<noteq> standard \<and> \<not> c11_agrees HVM32 it"
    by code_simp
qed (simp_all add: num_value_def c11_value_def c11_signed_def mask_eq_exp_minus_1)

end
