(* ===== verification/Selftest_Vsnprintf.thy ===== *)
theory Selftest_Vsnprintf imports
  Printf_C11
begin

text \<open>
  \<open>selftests/vsnprintf.c\<close>, the host program that runs the formatter against the one of the C library on
  a table of formats. The library is a parameter: what is shown assumes of it what the C11 standard
  and the documentation of hosted libraries say about the formats of the table, one by one. What the
  program prints is not modelled.
\<close>

section \<open>One test\<close>

text \<open>
  A formatter takes the buffer, the size, the format and the arguments, and returns its result and the
  buffer. With a null pointer for the buffer there is nothing to write to.
\<close>

type_synonym formatter = "char list \<Rightarrow> nat \<Rightarrow> string \<Rightarrow> varg list \<Rightarrow> (nat \<times> char list) option"

definition format_into :: "formatter \<Rightarrow> bool \<Rightarrow> char list \<Rightarrow> nat \<Rightarrow> string \<Rightarrow> varg list \<Rightarrow> (nat \<times> char list) option" where
  "format_into f dst buf sz fmt args =
     (if dst then f buf sz fmt args
      else do { (rc, _) \<leftarrow> f [] sz fmt args; Some (rc, buf) })"

definition test :: "formatter \<Rightarrow> formatter \<Rightarrow> bool \<Rightarrow> nat \<Rightarrow> string \<Rightarrow> varg list \<Rightarrow> bool option" where
  "test lib xtf dst sz fmt args =
     (let newsz = sz + 2;
          clobbered = replicate newsz (CHR ''$'') @ [NUL]
      in do {
        (librc, libstr) \<leftarrow> format_into lib dst clobbered sz fmt args;
        (xtfrc, xtfstr) \<leftarrow> format_into xtf dst clobbered sz fmt args;
        Some (librc = xtfrc \<and> take newsz libstr = take newsz xtfstr)
      })"

text \<open>The macros: a failing \<open>TEST\<close> clears \<open>success\<close>. The first argument says whether \<open>str\<close> is \<open>buf\<close>, not \<open>NULL\<close>.\<close>

datatype test_case =
    TEST bool nat string "varg list"
  | TEST_NONFATAL bool nat string "varg list"

fun run_tests :: "formatter \<Rightarrow> formatter \<Rightarrow> test_case list \<Rightarrow> bool \<Rightarrow> bool option" where
  "run_tests lib xtf [] success = Some success"
| "run_tests lib xtf (TEST dst sz fmt args # cs) success =
     do { ok \<leftarrow> test lib xtf dst sz fmt args; run_tests lib xtf cs (if \<not> ok then False else success) }"
| "run_tests lib xtf (TEST_NONFATAL dst sz fmt args # cs) success =
     do { ok \<leftarrow> test lib xtf dst sz fmt args; run_tests lib xtf cs success }"

section \<open>The table of main\<close>

text \<open>
  The macros of \<open>inttypes.h\<close> for 32 and 64 bits have the values that \<open>include/inttypes.h\<close> gives them; those
  for 8 and 16 bits are the host's, and hosts use the plain conversion or the one with \<open>hh\<close> or \<open>h\<close>: the
  modifiers are parameters. An argument is what \<open>va_arg\<close> reads for the conversion, so of a \<open>0x...ULL\<close>
  constant the low half for an \<open>int\<close> (\<open>num_arg\<close>). \<open>p\<close> is the address of \<open>buf\<close>.
\<close>

definition pri64 :: "env \<Rightarrow> lenmod" where
  "pri64 e = (if BITS_PER_LONG e = 64 then M_l else M_ll)"

definition PRI :: "lenmod \<Rightarrow> char \<Rightarrow> string" where
  "PRI m c = mod_text m @ [c]"

text \<open>The empty format, plain text and the percent sign.\<close>

definition literal_tests :: "test_case list" where
  "literal_tests =
     [TEST False 0 [] [],
      TEST False 0 ''abc'' [],
      TEST True 0 ''abc'' [],
      TEST True 1 ''abc'' [],
      TEST True 2 ''abc'' [],
      TEST True 3 ''abc'' [],
      TEST True 4 ''abc'' [],
      TEST True 0 ''%%'' [],
      TEST True 1 ''%%'' [],
      TEST True 2 ''%%'' [],
      TEST True 3 ''%%'' []]"

text \<open>Strings: null, truncated by the buffer, with width and precision, also as arguments.\<close>

definition string_tests :: "test_case list" where
  "string_tests =
     [TEST True 0 ''%s'' [VaStr None],
      TEST True 2 ''%s'' [VaStr None],
      TEST_NONFATAL True 4 ''%s'' [VaStr None],
      TEST_NONFATAL True 6 ''%s'' [VaStr None],
      TEST True 0 ''%s'' [VaStr (Some (''abc'' @ [NUL]))],
      TEST True 2 ''%s'' [VaStr (Some (''abc'' @ [NUL]))],
      TEST True 4 ''%s'' [VaStr (Some (''abc'' @ [NUL]))],
      TEST True 6 ''%s'' [VaStr (Some (''abc'' @ [NUL]))],
      TEST True 30 ''%3s'' [VaStr (Some (''abcd'' @ [NUL]))],
      TEST True 30 ''%5s'' [VaStr (Some (''abcd'' @ [NUL]))],
      TEST True 30 ''%7s'' [VaStr (Some (''abcd'' @ [NUL]))],
      TEST True 30 ''%-3s'' [VaStr (Some (''abcd'' @ [NUL]))],
      TEST True 30 ''%-5s'' [VaStr (Some (''abcd'' @ [NUL]))],
      TEST True 30 ''%-7s'' [VaStr (Some (''abcd'' @ [NUL]))],
      TEST True 30 ''%-3.1s'' [VaStr (Some (''abcd'' @ [NUL]))],
      TEST True 30 ''%-5.2s'' [VaStr (Some (''abcd'' @ [NUL]))],
      TEST True 30 ''%-7.3s'' [VaStr (Some (''abcd'' @ [NUL]))],
      TEST True 30 ''%*s'' [VaInt 1, VaStr (Some (''abcd'' @ [NUL]))],
      TEST True 30 ''%*s'' [VaInt 5, VaStr (Some (''abcd'' @ [NUL]))],
      TEST True 30 ''%*s'' [VaInt (- 1), VaStr (Some (''abcd'' @ [NUL]))],
      TEST True 30 ''%*s'' [VaInt (- 5), VaStr (Some (''abcd'' @ [NUL]))],
      TEST True 30 ''%*.*s'' [VaInt 1, VaInt 1, VaStr (Some (''abcd'' @ [NUL]))],
      TEST True 30 ''%*.*s'' [VaInt 5, VaInt 5, VaStr (Some (''abcd'' @ [NUL]))],
      TEST True 30 ''%*.*s'' [VaInt (- 1), VaInt (- 1), VaStr (Some (''abcd'' @ [NUL]))],
      TEST True 30 ''%*.*s'' [VaInt (- 5), VaInt (- 5), VaStr (Some (''abcd'' @ [NUL]))]]"

text \<open>Characters.\<close>

definition char_tests :: "test_case list" where
  "char_tests =
     [TEST True 30 ''%c'' [VaInt 97],
      TEST True 30 ''%1c'' [VaInt 97],
      TEST True 30 ''%2c'' [VaInt 97],
      TEST True 30 ''%.1c'' [VaInt 97],
      TEST True 30 ''%1.1c'' [VaInt 97],
      TEST True 30 ''%2.2c'' [VaInt 97],
      TEST True 30 ''%-.1c'' [VaInt 97],
      TEST True 30 ''%-1.1c'' [VaInt 97],
      TEST True 30 ''%-2.2c'' [VaInt 97],
      TEST_NONFATAL True 30 ''%-.-1c'' [VaInt 97],
      TEST_NONFATAL True 30 ''%-1.-1c'' [VaInt 97],
      TEST_NONFATAL True 30 ''%-2.-2c'' [VaInt 97]]"

text \<open>Zero and 31 in every conversion.\<close>

definition small_tests :: "test_case list" where
  "small_tests =
     [TEST True 10 ''%d'' [VaInt 0],
      TEST True 10 ''%i'' [VaInt 0],
      TEST True 10 ''%o'' [VaInt 0],
      TEST True 10 ''%x'' [VaInt 0],
      TEST True 10 ''%u'' [VaInt 0],
      TEST True 10 ''%X'' [VaInt 0],
      TEST True 10 ''%d'' [VaInt 0x1f],
      TEST True 10 ''%i'' [VaInt 0x1f],
      TEST True 10 ''%o'' [VaInt 0x1f],
      TEST True 10 ''%x'' [VaInt 0x1f],
      TEST True 10 ''%u'' [VaInt 0x1f],
      TEST True 10 ''%X'' [VaInt 0x1f]]"

text \<open>A 64-bit pattern in the widths of \<open>inttypes.h\<close> and as \<open>hh\<close>.\<close>

definition wide_tests :: "env \<Rightarrow> lenmod \<Rightarrow> lenmod \<Rightarrow> test_case list" where
  "wide_tests e m8 m16 =
     [TEST True 30 (''%'' @ PRI m8 (CHR ''o'')) [num_arg m8 0xfedcba9876543210],
      TEST True 30 (''%'' @ PRI m16 (CHR ''o'')) [num_arg m16 0xfedcba9876543210],
      TEST True 30 (''%'' @ PRI M_none (CHR ''o'')) [num_arg M_none 0xfedcba9876543210],
      TEST True 30 (''%'' @ PRI (pri64 e) (CHR ''o'')) [num_arg (pri64 e) 0xfedcba9876543210],
      TEST True 30 (''%'' @ PRI m8 (CHR ''d'')) [num_arg m8 0xfedcba9876543210],
      TEST True 30 (''%'' @ PRI m16 (CHR ''d'')) [num_arg m16 0xfedcba9876543210],
      TEST True 30 (''%'' @ PRI M_none (CHR ''d'')) [num_arg M_none 0xfedcba9876543210],
      TEST True 30 (''%'' @ PRI (pri64 e) (CHR ''d'')) [num_arg (pri64 e) 0xfedcba9876543210],
      TEST True 30 (''%'' @ PRI m8 (CHR ''i'')) [num_arg m8 0xfedcba9876543210],
      TEST True 30 (''%'' @ PRI m16 (CHR ''i'')) [num_arg m16 0xfedcba9876543210],
      TEST True 30 (''%'' @ PRI M_none (CHR ''i'')) [num_arg M_none 0xfedcba9876543210],
      TEST True 30 (''%'' @ PRI (pri64 e) (CHR ''i'')) [num_arg (pri64 e) 0xfedcba9876543210],
      TEST True 30 (''%'' @ PRI m8 (CHR ''u'')) [num_arg m8 0xfedcba9876543210],
      TEST True 30 (''%'' @ PRI m16 (CHR ''u'')) [num_arg m16 0xfedcba9876543210],
      TEST True 30 (''%'' @ PRI M_none (CHR ''u'')) [num_arg M_none 0xfedcba9876543210],
      TEST True 30 (''%'' @ PRI (pri64 e) (CHR ''u'')) [num_arg (pri64 e) 0xfedcba9876543210],
      TEST True 30 (''%'' @ PRI m8 (CHR ''x'')) [num_arg m8 0xfedcba9876543210],
      TEST True 30 (''%'' @ PRI m16 (CHR ''x'')) [num_arg m16 0xfedcba9876543210],
      TEST True 30 (''%'' @ PRI M_none (CHR ''x'')) [num_arg M_none 0xfedcba9876543210],
      TEST True 30 (''%'' @ PRI (pri64 e) (CHR ''x'')) [num_arg (pri64 e) 0xfedcba9876543210],
      TEST True 30 (''%'' @ PRI m8 (CHR ''X'')) [num_arg m8 0xfedcba9876543210],
      TEST True 30 (''%'' @ PRI m16 (CHR ''X'')) [num_arg m16 0xfedcba9876543210],
      TEST True 30 (''%'' @ PRI M_none (CHR ''X'')) [num_arg M_none 0xfedcba9876543210],
      TEST True 30 (''%'' @ PRI (pri64 e) (CHR ''X'')) [num_arg (pri64 e) 0xfedcba9876543210],
      TEST True 30 ''%hho'' [num_arg M_hh 0xfedcba9876543210],
      TEST True 30 ''%hhd'' [num_arg M_hh 0xfedcba9876543210],
      TEST True 30 ''%hhi'' [num_arg M_hh 0xfedcba9876543210],
      TEST True 30 ''%hhu'' [num_arg M_hh 0xfedcba9876543210],
      TEST True 30 ''%hhx'' [num_arg M_hh 0xfedcba9876543210],
      TEST True 30 ''%hhX'' [num_arg M_hh 0xfedcba9876543210]]"

text \<open>Signs and the 64-bit limits.\<close>

definition sign_tests :: "env \<Rightarrow> test_case list" where
  "sign_tests e =
     [TEST True 30 ''% d'' [VaInt 0],
      TEST True 30 ''%-d'' [VaInt 0],
      TEST True 30 ''%+d'' [VaInt 0],
      TEST True 30 ''% d'' [VaInt 1],
      TEST True 30 ''%-d'' [VaInt 1],
      TEST True 30 ''%+d'' [VaInt 1],
      TEST True 30 ''% d'' [VaInt (- 1)],
      TEST True 30 ''%-d'' [VaInt (- 1)],
      TEST True 30 ''%+d'' [VaInt (- 1)],
      TEST True 30 (''%'' @ PRI (pri64 e) (CHR ''d'')) [num_arg (pri64 e) 0x7fffffffffffffff],
      TEST True 30 (''%'' @ PRI (pri64 e) (CHR ''d'')) [num_arg (pri64 e) 0x8000000000000000],
      TEST True 30 (''%'' @ PRI (pri64 e) (CHR ''o'')) [num_arg (pri64 e) 0x7fffffffffffffff],
      TEST True 30 (''%'' @ PRI (pri64 e) (CHR ''u'')) [num_arg (pri64 e) 0x7fffffffffffffff],
      TEST True 30 (''%'' @ PRI (pri64 e) (CHR ''x'')) [num_arg (pri64 e) 0x7fffffffffffffff],
      TEST True 30 (''%'' @ PRI (pri64 e) (CHR ''X'')) [num_arg (pri64 e) 0x7fffffffffffffff]]"

text \<open>Widths and precisions of decimal numbers.\<close>

definition width_tests :: "test_case list" where
  "width_tests =
     [TEST True 30 ''%d'' [VaInt 2],
      TEST True 30 ''%2d'' [VaInt 2],
      TEST True 30 ''%2.1d'' [VaInt 2],
      TEST True 30 ''%2.3d'' [VaInt 2],
      TEST True 30 ''% d'' [VaInt 2],
      TEST True 30 ''% 2d'' [VaInt 2],
      TEST True 30 ''% 2.1d'' [VaInt 2],
      TEST True 30 ''% 2.3d'' [VaInt 2],
      TEST True 30 ''%+d'' [VaInt 2],
      TEST True 30 ''%+2d'' [VaInt 2],
      TEST True 30 ''%+2.1d'' [VaInt 2],
      TEST True 30 ''%+2.3d'' [VaInt 2],
      TEST True 30 ''%-d'' [VaInt 2],
      TEST True 30 ''%-2d'' [VaInt 2],
      TEST True 30 ''%-2.1d'' [VaInt 2],
      TEST True 30 ''%-2.3d'' [VaInt 2],
      TEST True 30 ''%-d'' [VaInt (- 2)],
      TEST True 30 ''%-2d'' [VaInt (- 2)],
      TEST True 30 ''%-2.1d'' [VaInt (- 2)],
      TEST True 30 ''%-2.3d'' [VaInt (- 2)]]"

text \<open>The flags of \<open>%x\<close>.\<close>

definition hex_tests :: "test_case list" where
  "hex_tests =
     [TEST True 30 ''%#05x'' [VaInt 0xf],
      TEST True 30 ''%# 05x'' [VaInt 0xf],
      TEST True 30 ''%#-05x'' [VaInt 0xf],
      TEST True 30 ''%#+05x'' [VaInt 0xf],
      TEST True 30 ''%#- 5x'' [VaInt 0xf],
      TEST True 30 ''%#+ 5x'' [VaInt 0xf],
      TEST True 30 ''%#05.2x'' [VaInt 0xf],
      TEST True 30 ''%# 05.2x'' [VaInt 0xf],
      TEST True 30 ''%#-05.2x'' [VaInt 0xf],
      TEST True 30 ''%#+05.2x'' [VaInt 0xf],
      TEST True 30 ''%#- 5.2x'' [VaInt 0xf],
      TEST True 30 ''%#+ 5.2x'' [VaInt 0xf],
      TEST True 30 ''%#05.2x'' [VaInt 0xffff],
      TEST True 30 ''%# 05.2x'' [VaInt 0xffff],
      TEST True 30 ''%#-05.2x'' [VaInt 0xffff],
      TEST True 30 ''%#+05.2x'' [VaInt 0xffff],
      TEST True 30 ''%#- 5.2x'' [VaInt 0xffff],
      TEST True 30 ''%#+ 5.2x'' [VaInt 0xffff]]"

text \<open>The same flags for \<open>%o\<close>, \<open>%d\<close> and \<open>%zu\<close>.\<close>

definition alternate_tests :: "test_case list" where
  "alternate_tests =
     [TEST True 30 ''%#05.2o'' [VaInt 0xffff],
      TEST True 30 ''%# 05.2o'' [VaInt 0xffff],
      TEST True 30 ''%#-05.2o'' [VaInt 0xffff],
      TEST True 30 ''%#+05.2o'' [VaInt 0xffff],
      TEST True 30 ''%#- 5.2o'' [VaInt 0xffff],
      TEST True 30 ''%#+ 5.2o'' [VaInt 0xffff],
      TEST True 30 ''%#05.2d'' [VaInt 0xffff],
      TEST True 30 ''%# 05.2d'' [VaInt 0xffff],
      TEST True 30 ''%#-05.2d'' [VaInt 0xffff],
      TEST True 30 ''%#+05.2d'' [VaInt 0xffff],
      TEST True 30 ''%#- 5.2d'' [VaInt 0xffff],
      TEST True 30 ''%#+ 5.2d'' [VaInt 0xffff],
      TEST True 30 ''%#05.2zu'' [VaLong 0xffff],
      TEST True 30 ''%# 05.2zu'' [VaLong 0xffff],
      TEST True 30 ''%#-05.2zu'' [VaLong 0xffff],
      TEST True 30 ''%#+05.2zu'' [VaLong 0xffff],
      TEST True 30 ''%#- 5.2zu'' [VaLong 0xffff],
      TEST True 30 ''%#+ 5.2zu'' [VaLong 0xffff]]"

text \<open>Pointers.\<close>

definition pointer_tests :: "u64 \<Rightarrow> test_case list" where
  "pointer_tests p =
     [TEST_NONFATAL True 20 ''%p'' [VaPtr p],
      TEST_NONFATAL True 20 ''%2p'' [VaPtr p],
      TEST True 20 ''%#2p'' [VaPtr p],
      TEST True 20 ''%#2.0p'' [VaPtr p],
      TEST True 20 ''%#2.20p'' [VaPtr p],
      TEST_NONFATAL True 20 ''%2.20p'' [VaPtr p],
      TEST True 20 ''%#20.20p'' [VaPtr p],
      TEST_NONFATAL True 20 ''%20.20p'' [VaPtr p],
      TEST_NONFATAL True 20 ''%03p'' [VaPtr p]]"

definition vsnprintf_tests :: "env \<Rightarrow> lenmod \<Rightarrow> lenmod \<Rightarrow> u64 \<Rightarrow> test_case list" where
  "vsnprintf_tests e m8 m16 p =
     literal_tests @ string_tests @ char_tests @ small_tests @ wide_tests e m8 m16 @ sign_tests e @ width_tests @
     hex_tests @ alternate_tests @ pointer_tests p"

text \<open>
  \<open>main\<close>, with its exit status. The formatter under test is \<open>vsnprintf\<close> with the default pointer hook.
\<close>

definition xtf_vsnprintf :: "env \<Rightarrow> formatter" where
  "xtf_vsnprintf e = vsnprintf weak_arch_fmt_pointer e"

definition vsnprintf_main :: "env \<Rightarrow> formatter \<Rightarrow> lenmod \<Rightarrow> lenmod \<Rightarrow> u64 \<Rightarrow> int option" where
  "vsnprintf_main e lib m8 m16 p =
     do {
       success \<leftarrow> run_tests lib (xtf_vsnprintf e) (vsnprintf_tests e m8 m16 p) True;
       Some (if success then 0 else 1)
     }"

section \<open>The table as items\<close>

definition literal_items :: "(bool \<times> bool \<times> nat \<times> item list) list" where
  "literal_items =
     [(True, False, 0, []),
      (True, False, 0, map Lit ''abc''),
      (True, True, 0, map Lit ''abc''),
      (True, True, 1, map Lit ''abc''),
      (True, True, 2, map Lit ''abc''),
      (True, True, 3, map Lit ''abc''),
      (True, True, 4, map Lit ''abc''),
      (True, True, 0, [Percent]),
      (True, True, 1, [Percent]),
      (True, True, 2, [Percent]),
      (True, True, 3, [Percent])]"

definition string_items :: "(bool \<times> bool \<times> nat \<times> item list) list" where
  "string_items =
     [(True, True, 0, [Str [] No_width No_prec None]),
      (True, True, 2, [Str [] No_width No_prec None]),
      (False, True, 4, [Str [] No_width No_prec None]),
      (False, True, 6, [Str [] No_width No_prec None]),
      (True, True, 0, [Str [] No_width No_prec (Some (''abc'' @ [NUL]))]),
      (True, True, 2, [Str [] No_width No_prec (Some (''abc'' @ [NUL]))]),
      (True, True, 4, [Str [] No_width No_prec (Some (''abc'' @ [NUL]))]),
      (True, True, 6, [Str [] No_width No_prec (Some (''abc'' @ [NUL]))]),
      (True, True, 30, [Str [] (Width 3) No_prec (Some (''abcd'' @ [NUL]))]),
      (True, True, 30, [Str [] (Width 5) No_prec (Some (''abcd'' @ [NUL]))]),
      (True, True, 30, [Str [] (Width 7) No_prec (Some (''abcd'' @ [NUL]))]),
      (True, True, 30, [Str ''-'' (Width 3) No_prec (Some (''abcd'' @ [NUL]))]),
      (True, True, 30, [Str ''-'' (Width 5) No_prec (Some (''abcd'' @ [NUL]))]),
      (True, True, 30, [Str ''-'' (Width 7) No_prec (Some (''abcd'' @ [NUL]))]),
      (True, True, 30, [Str ''-'' (Width 3) (Prec 1) (Some (''abcd'' @ [NUL]))]),
      (True, True, 30, [Str ''-'' (Width 5) (Prec 2) (Some (''abcd'' @ [NUL]))]),
      (True, True, 30, [Str ''-'' (Width 7) (Prec 3) (Some (''abcd'' @ [NUL]))]),
      (True, True, 30, [Str [] (Star_width 1) No_prec (Some (''abcd'' @ [NUL]))]),
      (True, True, 30, [Str [] (Star_width 5) No_prec (Some (''abcd'' @ [NUL]))]),
      (True, True, 30, [Str [] (Star_width (- 1)) No_prec (Some (''abcd'' @ [NUL]))]),
      (True, True, 30, [Str [] (Star_width (- 5)) No_prec (Some (''abcd'' @ [NUL]))]),
      (True, True, 30, [Str [] (Star_width 1) (Star_prec 1) (Some (''abcd'' @ [NUL]))]),
      (True, True, 30, [Str [] (Star_width 5) (Star_prec 5) (Some (''abcd'' @ [NUL]))]),
      (True, True, 30, [Str [] (Star_width (- 1)) (Star_prec (- 1)) (Some (''abcd'' @ [NUL]))]),
      (True, True, 30, [Str [] (Star_width (- 5)) (Star_prec (- 5)) (Some (''abcd'' @ [NUL]))])]"

definition char_items :: "(bool \<times> bool \<times> nat \<times> item list) list" where
  "char_items =
     [(True, True, 30, [Chr [] No_width No_prec 97]),
      (True, True, 30, [Chr [] (Width 1) No_prec 97]),
      (True, True, 30, [Chr [] (Width 2) No_prec 97]),
      (True, True, 30, [Chr [] No_width (Prec 1) 97]),
      (True, True, 30, [Chr [] (Width 1) (Prec 1) 97]),
      (True, True, 30, [Chr [] (Width 2) (Prec 2) 97]),
      (True, True, 30, [Chr ''-'' No_width (Prec 1) 97]),
      (True, True, 30, [Chr ''-'' (Width 1) (Prec 1) 97]),
      (True, True, 30, [Chr ''-'' (Width 2) (Prec 2) 97])]"

definition small_items :: "(bool \<times> bool \<times> nat \<times> item list) list" where
  "small_items =
     [(True, True, 10, [Num [] No_width No_prec M_none (CHR ''d'') 0]),
      (True, True, 10, [Num [] No_width No_prec M_none (CHR ''i'') 0]),
      (True, True, 10, [Num [] No_width No_prec M_none (CHR ''o'') 0]),
      (True, True, 10, [Num [] No_width No_prec M_none (CHR ''x'') 0]),
      (True, True, 10, [Num [] No_width No_prec M_none (CHR ''u'') 0]),
      (True, True, 10, [Num [] No_width No_prec M_none (CHR ''X'') 0]),
      (True, True, 10, [Num [] No_width No_prec M_none (CHR ''d'') 0x1f]),
      (True, True, 10, [Num [] No_width No_prec M_none (CHR ''i'') 0x1f]),
      (True, True, 10, [Num [] No_width No_prec M_none (CHR ''o'') 0x1f]),
      (True, True, 10, [Num [] No_width No_prec M_none (CHR ''x'') 0x1f]),
      (True, True, 10, [Num [] No_width No_prec M_none (CHR ''u'') 0x1f]),
      (True, True, 10, [Num [] No_width No_prec M_none (CHR ''X'') 0x1f])]"

definition wide_items :: "env \<Rightarrow> lenmod \<Rightarrow> lenmod \<Rightarrow> (bool \<times> bool \<times> nat \<times> item list) list" where
  "wide_items e m8 m16 =
     [(True, True, 30, [Num [] No_width No_prec m8 (CHR ''o'') 0xfedcba9876543210]),
      (True, True, 30, [Num [] No_width No_prec m16 (CHR ''o'') 0xfedcba9876543210]),
      (True, True, 30, [Num [] No_width No_prec M_none (CHR ''o'') 0xfedcba9876543210]),
      (True, True, 30, [Num [] No_width No_prec (pri64 e) (CHR ''o'') 0xfedcba9876543210]),
      (True, True, 30, [Num [] No_width No_prec m8 (CHR ''d'') 0xfedcba9876543210]),
      (True, True, 30, [Num [] No_width No_prec m16 (CHR ''d'') 0xfedcba9876543210]),
      (True, True, 30, [Num [] No_width No_prec M_none (CHR ''d'') 0xfedcba9876543210]),
      (True, True, 30, [Num [] No_width No_prec (pri64 e) (CHR ''d'') 0xfedcba9876543210]),
      (True, True, 30, [Num [] No_width No_prec m8 (CHR ''i'') 0xfedcba9876543210]),
      (True, True, 30, [Num [] No_width No_prec m16 (CHR ''i'') 0xfedcba9876543210]),
      (True, True, 30, [Num [] No_width No_prec M_none (CHR ''i'') 0xfedcba9876543210]),
      (True, True, 30, [Num [] No_width No_prec (pri64 e) (CHR ''i'') 0xfedcba9876543210]),
      (True, True, 30, [Num [] No_width No_prec m8 (CHR ''u'') 0xfedcba9876543210]),
      (True, True, 30, [Num [] No_width No_prec m16 (CHR ''u'') 0xfedcba9876543210]),
      (True, True, 30, [Num [] No_width No_prec M_none (CHR ''u'') 0xfedcba9876543210]),
      (True, True, 30, [Num [] No_width No_prec (pri64 e) (CHR ''u'') 0xfedcba9876543210]),
      (True, True, 30, [Num [] No_width No_prec m8 (CHR ''x'') 0xfedcba9876543210]),
      (True, True, 30, [Num [] No_width No_prec m16 (CHR ''x'') 0xfedcba9876543210]),
      (True, True, 30, [Num [] No_width No_prec M_none (CHR ''x'') 0xfedcba9876543210]),
      (True, True, 30, [Num [] No_width No_prec (pri64 e) (CHR ''x'') 0xfedcba9876543210]),
      (True, True, 30, [Num [] No_width No_prec m8 (CHR ''X'') 0xfedcba9876543210]),
      (True, True, 30, [Num [] No_width No_prec m16 (CHR ''X'') 0xfedcba9876543210]),
      (True, True, 30, [Num [] No_width No_prec M_none (CHR ''X'') 0xfedcba9876543210]),
      (True, True, 30, [Num [] No_width No_prec (pri64 e) (CHR ''X'') 0xfedcba9876543210]),
      (True, True, 30, [Num [] No_width No_prec M_hh (CHR ''o'') 0xfedcba9876543210]),
      (True, True, 30, [Num [] No_width No_prec M_hh (CHR ''d'') 0xfedcba9876543210]),
      (True, True, 30, [Num [] No_width No_prec M_hh (CHR ''i'') 0xfedcba9876543210]),
      (True, True, 30, [Num [] No_width No_prec M_hh (CHR ''u'') 0xfedcba9876543210]),
      (True, True, 30, [Num [] No_width No_prec M_hh (CHR ''x'') 0xfedcba9876543210]),
      (True, True, 30, [Num [] No_width No_prec M_hh (CHR ''X'') 0xfedcba9876543210])]"

definition sign_items :: "env \<Rightarrow> (bool \<times> bool \<times> nat \<times> item list) list" where
  "sign_items e =
     [(True, True, 30, [Num '' '' No_width No_prec M_none (CHR ''d'') 0]),
      (True, True, 30, [Num ''-'' No_width No_prec M_none (CHR ''d'') 0]),
      (True, True, 30, [Num ''+'' No_width No_prec M_none (CHR ''d'') 0]),
      (True, True, 30, [Num '' '' No_width No_prec M_none (CHR ''d'') 1]),
      (True, True, 30, [Num ''-'' No_width No_prec M_none (CHR ''d'') 1]),
      (True, True, 30, [Num ''+'' No_width No_prec M_none (CHR ''d'') 1]),
      (True, True, 30, [Num '' '' No_width No_prec M_none (CHR ''d'') (- 1)]),
      (True, True, 30, [Num ''-'' No_width No_prec M_none (CHR ''d'') (- 1)]),
      (True, True, 30, [Num ''+'' No_width No_prec M_none (CHR ''d'') (- 1)]),
      (True, True, 30, [Num [] No_width No_prec (pri64 e) (CHR ''d'') 0x7fffffffffffffff]),
      (True, True, 30, [Num [] No_width No_prec (pri64 e) (CHR ''d'') 0x8000000000000000]),
      (True, True, 30, [Num [] No_width No_prec (pri64 e) (CHR ''o'') 0x7fffffffffffffff]),
      (True, True, 30, [Num [] No_width No_prec (pri64 e) (CHR ''u'') 0x7fffffffffffffff]),
      (True, True, 30, [Num [] No_width No_prec (pri64 e) (CHR ''x'') 0x7fffffffffffffff]),
      (True, True, 30, [Num [] No_width No_prec (pri64 e) (CHR ''X'') 0x7fffffffffffffff])]"

definition width_items :: "(bool \<times> bool \<times> nat \<times> item list) list" where
  "width_items =
     [(True, True, 30, [Num [] No_width No_prec M_none (CHR ''d'') 2]),
      (True, True, 30, [Num [] (Width 2) No_prec M_none (CHR ''d'') 2]),
      (True, True, 30, [Num [] (Width 2) (Prec 1) M_none (CHR ''d'') 2]),
      (True, True, 30, [Num [] (Width 2) (Prec 3) M_none (CHR ''d'') 2]),
      (True, True, 30, [Num '' '' No_width No_prec M_none (CHR ''d'') 2]),
      (True, True, 30, [Num '' '' (Width 2) No_prec M_none (CHR ''d'') 2]),
      (True, True, 30, [Num '' '' (Width 2) (Prec 1) M_none (CHR ''d'') 2]),
      (True, True, 30, [Num '' '' (Width 2) (Prec 3) M_none (CHR ''d'') 2]),
      (True, True, 30, [Num ''+'' No_width No_prec M_none (CHR ''d'') 2]),
      (True, True, 30, [Num ''+'' (Width 2) No_prec M_none (CHR ''d'') 2]),
      (True, True, 30, [Num ''+'' (Width 2) (Prec 1) M_none (CHR ''d'') 2]),
      (True, True, 30, [Num ''+'' (Width 2) (Prec 3) M_none (CHR ''d'') 2]),
      (True, True, 30, [Num ''-'' No_width No_prec M_none (CHR ''d'') 2]),
      (True, True, 30, [Num ''-'' (Width 2) No_prec M_none (CHR ''d'') 2]),
      (True, True, 30, [Num ''-'' (Width 2) (Prec 1) M_none (CHR ''d'') 2]),
      (True, True, 30, [Num ''-'' (Width 2) (Prec 3) M_none (CHR ''d'') 2]),
      (True, True, 30, [Num ''-'' No_width No_prec M_none (CHR ''d'') (- 2)]),
      (True, True, 30, [Num ''-'' (Width 2) No_prec M_none (CHR ''d'') (- 2)]),
      (True, True, 30, [Num ''-'' (Width 2) (Prec 1) M_none (CHR ''d'') (- 2)]),
      (True, True, 30, [Num ''-'' (Width 2) (Prec 3) M_none (CHR ''d'') (- 2)])]"

definition hex_items :: "(bool \<times> bool \<times> nat \<times> item list) list" where
  "hex_items =
     [(True, True, 30, [Num ''#0'' (Width 5) No_prec M_none (CHR ''x'') 0xf]),
      (True, True, 30, [Num ''# 0'' (Width 5) No_prec M_none (CHR ''x'') 0xf]),
      (True, True, 30, [Num ''#-0'' (Width 5) No_prec M_none (CHR ''x'') 0xf]),
      (True, True, 30, [Num ''#+0'' (Width 5) No_prec M_none (CHR ''x'') 0xf]),
      (True, True, 30, [Num ''#- '' (Width 5) No_prec M_none (CHR ''x'') 0xf]),
      (True, True, 30, [Num ''#+ '' (Width 5) No_prec M_none (CHR ''x'') 0xf]),
      (True, True, 30, [Num ''#0'' (Width 5) (Prec 2) M_none (CHR ''x'') 0xf]),
      (True, True, 30, [Num ''# 0'' (Width 5) (Prec 2) M_none (CHR ''x'') 0xf]),
      (True, True, 30, [Num ''#-0'' (Width 5) (Prec 2) M_none (CHR ''x'') 0xf]),
      (True, True, 30, [Num ''#+0'' (Width 5) (Prec 2) M_none (CHR ''x'') 0xf]),
      (True, True, 30, [Num ''#- '' (Width 5) (Prec 2) M_none (CHR ''x'') 0xf]),
      (True, True, 30, [Num ''#+ '' (Width 5) (Prec 2) M_none (CHR ''x'') 0xf]),
      (True, True, 30, [Num ''#0'' (Width 5) (Prec 2) M_none (CHR ''x'') 0xffff]),
      (True, True, 30, [Num ''# 0'' (Width 5) (Prec 2) M_none (CHR ''x'') 0xffff]),
      (True, True, 30, [Num ''#-0'' (Width 5) (Prec 2) M_none (CHR ''x'') 0xffff]),
      (True, True, 30, [Num ''#+0'' (Width 5) (Prec 2) M_none (CHR ''x'') 0xffff]),
      (True, True, 30, [Num ''#- '' (Width 5) (Prec 2) M_none (CHR ''x'') 0xffff]),
      (True, True, 30, [Num ''#+ '' (Width 5) (Prec 2) M_none (CHR ''x'') 0xffff])]"

definition alternate_items :: "(bool \<times> bool \<times> nat \<times> item list) list" where
  "alternate_items =
     [(True, True, 30, [Num ''#0'' (Width 5) (Prec 2) M_none (CHR ''o'') 0xffff]),
      (True, True, 30, [Num ''# 0'' (Width 5) (Prec 2) M_none (CHR ''o'') 0xffff]),
      (True, True, 30, [Num ''#-0'' (Width 5) (Prec 2) M_none (CHR ''o'') 0xffff]),
      (True, True, 30, [Num ''#+0'' (Width 5) (Prec 2) M_none (CHR ''o'') 0xffff]),
      (True, True, 30, [Num ''#- '' (Width 5) (Prec 2) M_none (CHR ''o'') 0xffff]),
      (True, True, 30, [Num ''#+ '' (Width 5) (Prec 2) M_none (CHR ''o'') 0xffff]),
      (True, True, 30, [Num ''#0'' (Width 5) (Prec 2) M_none (CHR ''d'') 0xffff]),
      (True, True, 30, [Num ''# 0'' (Width 5) (Prec 2) M_none (CHR ''d'') 0xffff]),
      (True, True, 30, [Num ''#-0'' (Width 5) (Prec 2) M_none (CHR ''d'') 0xffff]),
      (True, True, 30, [Num ''#+0'' (Width 5) (Prec 2) M_none (CHR ''d'') 0xffff]),
      (True, True, 30, [Num ''#- '' (Width 5) (Prec 2) M_none (CHR ''d'') 0xffff]),
      (True, True, 30, [Num ''#+ '' (Width 5) (Prec 2) M_none (CHR ''d'') 0xffff]),
      (True, True, 30, [Num ''#0'' (Width 5) (Prec 2) M_z (CHR ''u'') 0xffff]),
      (True, True, 30, [Num ''# 0'' (Width 5) (Prec 2) M_z (CHR ''u'') 0xffff]),
      (True, True, 30, [Num ''#-0'' (Width 5) (Prec 2) M_z (CHR ''u'') 0xffff]),
      (True, True, 30, [Num ''#+0'' (Width 5) (Prec 2) M_z (CHR ''u'') 0xffff]),
      (True, True, 30, [Num ''#- '' (Width 5) (Prec 2) M_z (CHR ''u'') 0xffff]),
      (True, True, 30, [Num ''#+ '' (Width 5) (Prec 2) M_z (CHR ''u'') 0xffff])]"

definition pointer_items :: "u64 \<Rightarrow> (bool \<times> bool \<times> nat \<times> item list) list" where
  "pointer_items p =
     [(False, True, 20, [Ptr [] No_width No_prec p]),
      (False, True, 20, [Ptr [] (Width 2) No_prec p]),
      (True, True, 20, [Ptr ''#'' (Width 2) No_prec p]),
      (True, True, 20, [Ptr ''#'' (Width 2) (Prec 0) p]),
      (True, True, 20, [Ptr ''#'' (Width 2) (Prec 20) p]),
      (False, True, 20, [Ptr [] (Width 2) (Prec 20) p]),
      (True, True, 20, [Ptr ''#'' (Width 20) (Prec 20) p]),
      (False, True, 20, [Ptr [] (Width 20) (Prec 20) p]),
      (False, True, 20, [Ptr ''0'' (Width 3) No_prec p])]"

definition case_of :: "bool \<times> bool \<times> nat \<times> item list \<Rightarrow> test_case" where
  "case_of row =
     (case row of (fatal, dst, sz, its) \<Rightarrow>
        (if fatal then TEST else TEST_NONFATAL) dst sz (format_of its) (args_of its))"

definition item_rows :: "env \<Rightarrow> lenmod \<Rightarrow> lenmod \<Rightarrow> u64 \<Rightarrow> (bool \<times> bool \<times> nat \<times> item list) list" where
  "item_rows e m8 m16 p =
     literal_items @ string_items @ char_items @ small_items @ wide_items e m8 m16 @ sign_items e @ width_items @
     hex_items @ alternate_items @ pointer_items p"

text \<open>The three formats with a negative precision in digits, which are not conversions.\<close>

definition odd_formats :: "string list" where
  "odd_formats = [''%-.-1c'', ''%-1.-1c'', ''%-2.-2c'']"

definition odd_tests :: "test_case list" where
  "odd_tests = map (\<lambda>fmt. TEST_NONFATAL True 30 fmt [VaInt 97]) odd_formats"

lemma tests_as_items:
  "literal_tests = map case_of literal_items"
  "string_tests = map case_of string_items"
  "char_tests = map case_of char_items @ odd_tests"
  "small_tests = map case_of small_items"
  "width_tests = map case_of width_items"
  "hex_tests = map case_of hex_items"
  "alternate_tests = map case_of alternate_items"
  by code_simp+

lemma pointer_tests_as_items: "pointer_tests p = map case_of (pointer_items p)"
  by code_simp

lemma sign_tests_as_items: "sign_tests e = map case_of (sign_items e)"
  by (cases e; hypsubst; code_simp)

lemma wide_tests_as_items:
  assumes "m8 = M_none \<or> m8 = M_hh" "m16 = M_none \<or> m16 = M_h"
  shows "wide_tests e m8 m16 = map case_of (wide_items e m8 m16)"
  using assms by (cases e; elim disjE; hypsubst; code_simp)

section \<open>What a formatter gives for items\<close>

text \<open>The result of putting a text into a buffer of \<open>sz\<close> bytes.\<close>

definition rendered :: "nat \<Rightarrow> string \<Rightarrow> char list \<Rightarrow> nat \<times> char list" where
  "rendered sz cs buf =
     (length cs,
      if sz = 0 then buf else take (sz - 1) cs @ NUL # drop (Suc (min (sz - 1) (length cs))) buf)"

lemma xtf_rendered:
  "format_ok e 0 its \<Longrightarrow> sz \<le> length buf \<Longrightarrow>
   xtf_vsnprintf e buf sz (format_of its) (args_of its) = Some (rendered sz (text_of e 0 its) buf)"
  using weak_plain.vsnprintf_internal_renders [of e 0 its sz buf]
  by (simp add: xtf_vsnprintf_def vsnprintf_def rendered_def has_def)

text \<open>
  Two texts that a buffer of \<open>sz\<close> bytes cannot tell apart. The null strings of the table are such: the
  formatter prints \<open>(NULL)\<close>, the host \<open>(null)\<close>, and only sizes 0 and 2 are tested.
\<close>

definition same_output :: "nat \<Rightarrow> string \<Rightarrow> string \<Rightarrow> bool" where
  "same_output sz cs ds \<longleftrightarrow> length cs = length ds \<and> take (sz - 1) cs = take (sz - 1) ds"

lemma rendered_same: "same_output sz cs ds \<Longrightarrow> rendered sz cs buf = rendered sz ds buf"
  by (simp add: same_output_def rendered_def)

text \<open>What the library is assumed to do with a row: the text of the standard if the row is fatal, else anything.\<close>

definition conforms :: "env \<Rightarrow> formatter \<Rightarrow> bool \<times> bool \<times> nat \<times> item list \<Rightarrow> bool" where
  "conforms e lib row \<longleftrightarrow>
     (case row of (fatal, dst, sz, its) \<Rightarrow>
        let buf = (if dst then replicate (sz + 2) (CHR ''$'') @ [NUL] else []);
            result = lib buf sz (format_of its) (args_of its)
        in if fatal then result = Some (rendered sz (c11_text e its) buf) else result \<noteq> None)"

text \<open>What a row needs for the formatter to pass it.\<close>

definition row_ok :: "env \<Rightarrow> bool \<times> bool \<times> nat \<times> item list \<Rightarrow> bool" where
  "row_ok e row \<longleftrightarrow>
     (case row of (fatal, dst, sz, its) \<Rightarrow>
        format_ok e 0 its \<and> (dst \<or> sz = 0) \<and>
        (fatal \<longrightarrow> list_all (c11_agrees e) its \<or> its = [Str [] No_width No_prec None] \<and> sz \<le> 2))"

lemma null_texts:
  "text_of e 0 [Str [] No_width No_prec None] = ''(NULL)''" "c11_text e [Str [] No_width No_prec None] = ''(null)''"
  by (simp_all add: text_of_def c11_text_def field_def c11_field_def crlf_def Let_def conv_flags_def has_def c11_left_def)

lemma row_same:
  assumes "row_ok e (True, dst, sz, its)"
  shows "same_output sz (text_of e 0 its) (c11_text e its)"
proof -
  have "same_output sz ''(NULL)'' ''(null)''" if "sz \<le> 2"
  proof -
    have "sz = 0 \<or> sz = 1 \<or> sz = 2" using that by auto
    then show ?thesis by (auto simp: same_output_def)
  qed
  then show ?thesis
    using assms text_c11 [of e its] by (auto simp: row_ok_def format_ok_def same_output_def null_texts)
qed

section \<open>The tests pass\<close>

lemma fatal_passes:
  assumes "row_ok e (True, dst, sz, its)" "conforms e lib (True, dst, sz, its)"
  shows "test lib (xtf_vsnprintf e) dst sz (format_of its) (args_of its) = Some True"
proof -
  have ok: "format_ok e 0 its" "dst \<or> sz = 0" using assms(1) by (simp_all add: row_ok_def)
  note same = rendered_same [OF row_same [OF assms(1)]]
  show ?thesis
  proof (cases dst)
    case True
    then show ?thesis
      using assms(2) xtf_rendered [OF ok(1), of sz "replicate (sz + 2) (CHR ''$'') @ [NUL]"]
      by (simp add: test_def format_into_def conforms_def Let_def same split: prod.split)
  next
    case False
    then show ?thesis
      using assms(2) ok(2) xtf_rendered [OF ok(1), of 0 "[]"] same [of "[]"]
      by (simp add: test_def format_into_def conforms_def rendered_def Let_def)
  qed
qed

lemma nonfatal_runs:
  assumes "row_ok e (False, dst, sz, its)" "conforms e lib (False, dst, sz, its)"
  shows "\<exists>ok. test lib (xtf_vsnprintf e) dst sz (format_of its) (args_of its) = Some ok"
proof -
  have ok: "format_ok e 0 its" "dst \<or> sz = 0" using assms(1) by (simp_all add: row_ok_def)
  show ?thesis
    using assms(2) ok(2) xtf_rendered [OF ok(1), of 0 "replicate 2 (CHR ''$'') @ [NUL]"] xtf_rendered [OF ok(1), of sz "replicate (sz + 2) (CHR ''$'') @ [NUL]"]
      xtf_rendered [OF ok(1), of 0 "[]"]
    by (cases dst) (auto simp: test_def format_into_def conforms_def Let_def split: prod.split)
qed

text \<open>The test at \<open>INT64_MIN\<close>, where \<open>fmt_number\<close> negates the number: \<open>-val\<close> overflows, which C leaves undefined.\<close>

definition int64_min_row :: "env \<Rightarrow> bool \<times> bool \<times> nat \<times> item list" where
  "int64_min_row e = (True, True, 30, [Num [] No_width No_prec (pri64 e) (CHR ''d'') 0x8000000000000000])"

definition int64_min_test :: "env \<Rightarrow> test_case" where
  "int64_min_test e =
     TEST True 30 (''%'' @ PRI (pri64 e) (CHR ''d'')) [num_arg (pri64 e) 0x8000000000000000]"

lemma int64_min_case: "int64_min_test e = case_of (int64_min_row e)"
  by (simp add: int64_min_test_def int64_min_row_def case_of_def PRI_def format_of_def args_of_def conv_text_def)

lemma rows_ok:
  "list_all (row_ok e) literal_items" "list_all (row_ok e) string_items" "list_all (row_ok e) char_items"
  "list_all (row_ok e) small_items" "list_all (row_ok e) width_items" "list_all (row_ok e) hex_items"
  by code_simp+

lemma long_rows_ok:
  "list_all (row_ok e) alternate_items" "list_all (row_ok e) (removeAll (int64_min_row e) (sign_items e))"
  by (cases e; hypsubst; code_simp)+

lemma plain_row_ok:
  assumes "c \<in> set ''diuoxX''" "m \<noteq> M_z" "sint (num_value e m c v) \<noteq> - (2 ^ 63)"
  shows "row_ok e (True, True, 30, [Num [] No_width No_prec m c v])"
  using assms
  by (simp add: row_ok_def format_ok_def conv_ok_def number_args_ok_def INT_limits c11_number_agrees_def del: mod_bits.simps)

lemma wide_value: "m \<noteq> M_z \<Longrightarrow> sint (num_value e m c 0xfedcba9876543210) \<noteq> - (2 ^ 63)"
  by (cases m; cases e; simp add: num_value_def)

lemma wide_rows_ok:
  assumes "m8 = M_none \<or> m8 = M_hh" "m16 = M_none \<or> m16 = M_h"
  shows "list_all (row_ok e) (wide_items e m8 m16)"
proof -
  have "m8 \<noteq> M_z" "m16 \<noteq> M_z" "pri64 e \<noteq> M_z" using assms by (auto simp: pri64_def)
  then show ?thesis
    unfolding wide_items_def list.pred_inject by (intro conjI TrueI plain_row_ok wide_value) simp_all
qed

lemma pointer_rows_ok:
  assumes "to_ulong e p \<noteq> 0"
  shows "list_all (row_ok e) (pointer_items p)"
proof -
  have "uint (to_ulong e p) \<noteq> 0" using assms by (simp only: unsigned_eq_0_iff not_False_eq_True)
  moreover have "\<not> has (conv_flags 0 fl w) SIGNED" for fl w by (simp only: conv_flags_SIGNED not_SIGNED not_False_eq_True)
  ultimately show ?thesis
    by (simp add: pointer_items_def row_ok_def format_ok_def conv_ok_def number_args_ok_def INT_limits c11_number_agrees_def)
qed

lemma item_rows_ok:
  assumes "m8 = M_none \<or> m8 = M_hh" "m16 = M_none \<or> m16 = M_h" "to_ulong e p \<noteq> 0"
    and "row \<in> set (item_rows e m8 m16 p)"
  shows "row = int64_min_row e \<or> row_ok e row"
  using assms(4) rows_ok [of e] long_rows_ok [of e] wide_rows_ok [OF assms(1,2), of e] pointer_rows_ok [OF assms(3)]
  by (auto simp: item_rows_def list_all_iff)

section \<open>The whole run\<close>

definition case_passes :: "formatter \<Rightarrow> env \<Rightarrow> test_case \<Rightarrow> bool" where
  "case_passes lib e c \<longleftrightarrow>
     (case c of
        TEST dst sz fmt args \<Rightarrow> test lib (xtf_vsnprintf e) dst sz fmt args = Some True
      | TEST_NONFATAL dst sz fmt args \<Rightarrow> test lib (xtf_vsnprintf e) dst sz fmt args \<noteq> None)"

lemma run_tests_pass:
  "\<forall>c \<in> set cs. case_passes lib e c \<Longrightarrow> run_tests lib (xtf_vsnprintf e) cs success = Some success"
proof (induction cs)
  case (Cons c cs)
  then show ?case by (cases c) (auto simp: case_passes_def)
qed simp

lemma row_passes:
  assumes "row_ok e row" "conforms e lib row"
  shows "case_passes lib e (case_of row)"
proof -
  obtain fatal dst sz its where row: "row = (fatal, dst, sz, its)" by (cases row)
  show ?thesis
    using assms fatal_passes [of e dst sz its lib] nonfatal_runs [of e dst sz its lib]
    by (cases fatal) (auto simp: row case_of_def case_passes_def)
qed

lemma odd_tests_run:
  assumes "\<forall>fmt \<in> set odd_formats. lib (replicate 32 (CHR ''$'') @ [NUL]) 30 fmt [VaInt 97] \<noteq> None"
    and "c \<in> set odd_tests"
  shows "case_passes lib e c"
proof -
  have "list_all (\<lambda>fmt. xtf_vsnprintf e (replicate 32 (CHR ''$'') @ [NUL]) 30 fmt [VaInt 97] \<noteq> None) odd_formats"
    by code_simp
  then have xtf: "\<forall>fmt \<in> set odd_formats. xtf_vsnprintf e (replicate 32 (CHR ''$'') @ [NUL]) 30 fmt [VaInt 97] \<noteq> None"
    unfolding list_all_iff .
  have "test lib (xtf_vsnprintf e) True 30 fmt [VaInt 97] \<noteq> None" if "fmt \<in> set odd_formats" for fmt
  proof -
    obtain r r' where "lib (replicate 32 (CHR ''$'') @ [NUL]) 30 fmt [VaInt 97] = Some r"
        "xtf_vsnprintf e (replicate 32 (CHR ''$'') @ [NUL]) 30 fmt [VaInt 97] = Some r'"
      using assms(1) xtf \<open>fmt \<in> set odd_formats\<close> by blast
    then show ?thesis by (simp add: test_def format_into_def Let_def split: prod.split)
  qed
  then show ?thesis using assms(2) by (auto simp: odd_tests_def case_passes_def)
qed

lemma int64_min_undefined: "xtf_vsnprintf e (replicate 32 (CHR ''$'') @ [NUL]) 30 (''%'' @ PRI (pri64 e) (CHR ''d'')) [num_arg (pri64 e) 0x8000000000000000] = None"
  by (cases e; hypsubst; code_simp)

text \<open>A library that fits: the formatter itself, told to print \<open>(null)\<close> for a null string.\<close>

definition hosted_vsnprintf :: "env \<Rightarrow> formatter" where
  "hosted_vsnprintf e buf sz fmt args =
     xtf_vsnprintf e buf sz fmt (map (\<lambda>a. if a = VaStr None then VaStr (Some (''(null)'' @ [NUL])) else a) args)"

lemma hosted_same:
  "VaStr None \<notin> set args \<Longrightarrow> hosted_vsnprintf e buf sz fmt args = xtf_vsnprintf e buf sz fmt args"
proof -
  assume "VaStr None \<notin> set args"
  then have "map (\<lambda>a. if a = VaStr None then VaStr (Some (''(null)'' @ [NUL])) else a) args = args"
    by (intro map_idI) auto
  then show ?thesis by (simp add: hosted_vsnprintf_def)
qed

lemma agreeing_args: "c11_agrees e it \<Longrightarrow> VaStr None \<notin> set (item_args it)"
proof (cases it)
  case (Num fl w p m c v)
  then show ?thesis by (cases w; cases p; cases m) auto
next
  case (Chr fl w p i)
  then show ?thesis by (cases w; cases p) auto
next
  case (Str fl w p s)
  then show "c11_agrees e it \<Longrightarrow> ?thesis" by (cases w; cases p) auto
next
  case (Ptr fl w p v)
  then show ?thesis by (cases w; cases p) auto
qed auto

lemma hosted_null:
  "sz \<le> length buf \<Longrightarrow> hosted_vsnprintf e buf sz (format_of [Str [] No_width No_prec None]) (args_of [Str [] No_width No_prec None]) =
     Some (rendered sz (c11_text e [Str [] No_width No_prec None]) buf)"
proof -
  assume sz: "sz \<le> length buf"
  let ?its = "[Str [] No_width No_prec (Some (''(null)'' @ [NUL]))]"
  have "format_ok e 0 ?its" by code_simp
  moreover have "text_of e 0 ?its = ''(null)''" by code_simp
  ultimately have "xtf_vsnprintf e buf sz (format_of ?its) (args_of ?its) = Some (rendered sz ''(null)'' buf)"
    using xtf_rendered [of e ?its sz buf] sz by simp
  then show ?thesis by (simp add: hosted_vsnprintf_def null_texts format_of_def args_of_def)
qed

lemma hosted_conforms:
  assumes "row_ok e (fatal, dst, sz, its)" "fatal \<or> its = [Str [] No_width No_prec None] \<or> VaStr None \<notin> set (args_of its)"
  shows "conforms e (hosted_vsnprintf e) (fatal, dst, sz, its)"
proof -
  let ?buf = "if dst then replicate (sz + 2) (CHR ''$'') @ [NUL] else []"
  have sz: "sz \<le> length ?buf" and ok: "format_ok e 0 its" using assms by (auto simp: row_ok_def)
  have conforms: "conforms e (hosted_vsnprintf e) (fatal, dst, sz, its)"
    if "hosted_vsnprintf e ?buf sz (format_of its) (args_of its) = Some r" "fatal \<longrightarrow> r = rendered sz (c11_text e its) ?buf" for r
    using that by (simp add: conforms_def Let_def)
  show ?thesis
  proof (cases "its = [Str [] No_width No_prec None]")
    case True
    show ?thesis unfolding True by (rule conforms [unfolded True, OF hosted_null [OF sz]]) simp
  next
    case False
    have "VaStr None \<notin> set (args_of its)"
    proof (cases fatal)
      case True
      then have "list_all (c11_agrees e) its" using assms(1) False by (simp add: row_ok_def)
      then show ?thesis using agreeing_args by (auto simp: args_of_def list_all_iff)
    qed (use assms(2) False in simp)
    note same = hosted_same [OF this, of e ?buf sz "format_of its"]
    note run = xtf_rendered [OF ok sz]
    have "fatal \<longrightarrow> rendered sz (text_of e 0 its) ?buf = rendered sz (c11_text e its) ?buf"
      using assms(1) rendered_same [OF row_same] by auto
    then show ?thesis using conforms [OF trans [OF same run]] by simp
  qed
qed

text \<open>
  C24: The formatter passes its self-test. For a C library that gives each conversion of the table's fatal
  tests the text of the standard (and the non-fatal ones any result), every test of the table runs
  without undefined behaviour and no fatal one fails, whatever the pointer, the word size and the
  host's modifiers for 8 and 16 bits; the test at INT64_MIN is the exception, the formatter's negation
  overflows there, so that the program as a whole has undefined behaviour.
\<close>

theorem selftest_vsnprintf_passes:
  assumes "m8 = M_none \<or> m8 = M_hh" "m16 = M_none \<or> m16 = M_h" "to_ulong e p \<noteq> 0"
    and "\<forall>row \<in> set (item_rows e m8 m16 p) - {int64_min_row e}. conforms e lib row"
    and "\<forall>fmt \<in> set odd_formats. lib (replicate 32 (CHR ''$'') @ [NUL]) 30 fmt [VaInt 97] \<noteq> None"
  shows "run_tests lib (xtf_vsnprintf e) (removeAll (int64_min_test e) (vsnprintf_tests e m8 m16 p)) True = Some True
    \<and> vsnprintf_main e lib m8 m16 p = None"
proof
  have tests: "set (vsnprintf_tests e m8 m16 p) = case_of ` set (item_rows e m8 m16 p) \<union> set odd_tests"
    unfolding vsnprintf_tests_def item_rows_def tests_as_items pointer_tests_as_items sign_tests_as_items
      wide_tests_as_items [OF assms(1,2)] by auto
  note ok = item_rows_ok [OF assms(1-3)]
  have pass: "case_passes lib e c" if "c \<in> set (vsnprintf_tests e m8 m16 p) - {int64_min_test e}" for c
  proof -
    from that consider row where "row \<in> set (item_rows e m8 m16 p)" "c = case_of row" | "c \<in> set odd_tests"
      unfolding tests by blast
    then show ?thesis
    proof cases
      case 1
      then have ne: "row \<noteq> int64_min_row e" using that int64_min_case [of e] by auto
      then have "row_ok e row" using ok [OF 1(1)] by simp
      then show ?thesis using ne 1 assms(4) row_passes by blast
    next
      case 2
      then show ?thesis using assms(5) odd_tests_run by blast
    qed
  qed
  then show "run_tests lib (xtf_vsnprintf e) (removeAll (int64_min_test e) (vsnprintf_tests e m8 m16 p)) True = Some True"
    by (intro run_tests_pass) simp
  have "int64_min_test e \<in> set (vsnprintf_tests e m8 m16 p)"
    by (simp add: vsnprintf_tests_def sign_tests_def int64_min_test_def)
  moreover have "run_tests lib (xtf_vsnprintf e) cs s = None" if "int64_min_test e \<in> set cs" for cs s
    using that
  proof (induction cs arbitrary: s)
    case (Cons c cs)
    show ?case
    proof (cases "c = int64_min_test e")
      case True
      then show ?thesis
        using int64_min_undefined [of e]
        by (simp add: int64_min_test_def test_def format_into_def Let_def numeral_eq_Suc split: option.split)
    next
      case False
      then show ?thesis using Cons by (cases c) (auto split: Option.bind_split)
    qed
  qed simp
  ultimately show "vsnprintf_main e lib m8 m16 p = None" by (simp add: vsnprintf_main_def)
qed

theorem selftest_vsnprintf_passes_witness:
  "run_tests (hosted_vsnprintf HVM64) (xtf_vsnprintf HVM64)
     (removeAll (int64_min_test HVM64) (vsnprintf_tests HVM64 M_none M_h 0x7ffe1000)) True = Some True"
proof -
  have p: "to_ulong HVM64 0x7ffe1000 \<noteq> 0" by (simp add: to_ulong_def)
  have "list_all (\<lambda>(fatal, dst, sz, its). fatal \<or> its = [Str [] No_width No_prec None] \<or> VaStr None \<notin> set (args_of its))
      (item_rows HVM64 M_none M_h 0x7ffe1000)"
    by code_simp
  then have args: "\<forall>(fatal, dst, sz, its) \<in> set (item_rows HVM64 M_none M_h 0x7ffe1000).
      fatal \<or> its = [Str [] No_width No_prec None] \<or> VaStr None \<notin> set (args_of its)"
    unfolding list_all_iff .
  have rows: "\<forall>row \<in> set (item_rows HVM64 M_none M_h 0x7ffe1000) - {int64_min_row HVM64}. conforms HVM64 (hosted_vsnprintf HVM64) row"
  proof
    fix row
    assume row: "row \<in> set (item_rows HVM64 M_none M_h 0x7ffe1000) - {int64_min_row HVM64}"
    obtain fatal dst sz its where r: "row = (fatal, dst, sz, its)" by (cases row)
    have "row_ok HVM64 row" using item_rows_ok [OF _ _ p] row by blast
    then show "conforms HVM64 (hosted_vsnprintf HVM64) row"
      unfolding r using args row r by (intro hosted_conforms) blast+
  qed
  have "list_all (\<lambda>fmt. hosted_vsnprintf HVM64 (replicate 32 (CHR ''$'') @ [NUL]) 30 fmt [VaInt 97] \<noteq> None) odd_formats"
    by code_simp
  then have odd: "\<forall>fmt \<in> set odd_formats. hosted_vsnprintf HVM64 (replicate 32 (CHR ''$'') @ [NUL]) 30 fmt [VaInt 97] \<noteq> None"
    unfolding list_all_iff .
  show ?thesis
    by (rule conjunct1 [OF selftest_vsnprintf_passes [OF disjI1 [OF refl] disjI2 [OF refl] p rows odd]])
qed

end
