(* ===== verification/C_Layout.thy ===== *)
theory C_Layout imports
  Prelude
begin

text \<open>
  How a C compiler for the two x86 ABIs lays out the types that the headers declare: sizes, alignments
  and member offsets. The hypervisor and the processor read and write the same structures, so the
  offsets are part of the program's meaning. The rules are those of the System V psABI supplements: a
  member goes to the next multiple of its alignment, a structure ends at a multiple of the largest
  alignment, a union has its members at offset 0, \<open>__packed\<close> drops the padding, and 64-bit integers are
  aligned to 4 bytes in a 32-bit build.

  The second half treats a structure as bytes, with loads and stores of members found by name.
\<close>

section \<open>Types\<close>

text \<open>
  Integers by their size in bytes (plain characters are integers of size 1), \<open>long\<close> and pointers by the
  build, arrays (a flexible array member has length 0), structures and unions with named members, and
  a type with the attribute \<open>__aligned(n)\<close>. An anonymous member has the empty name; an unnamed bit-field
  that fills a whole integer is a member that nothing refers to.
\<close>

datatype ctype =
    CInt nat
  | CLong
  | CArray nat ctype
  | CStruct "(string \<times> ctype) list"
  | CPacked "(string \<times> ctype) list"
  | CUnion "(string \<times> ctype) list"
  | CAligned nat ctype

abbreviation uint8 :: ctype where "uint8 \<equiv> CInt 1"
abbreviation uint16 :: ctype where "uint16 \<equiv> CInt 2"
abbreviation uint32 :: ctype where "uint32 \<equiv> CInt 4"
abbreviation uint64 :: ctype where "uint64 \<equiv> CInt 8"
abbreviation pointer_t :: ctype where "pointer_t \<equiv> CLong"

definition word_bytes :: "env \<Rightarrow> nat" where
  "word_bytes e = BITS_PER_LONG e div 8"

definition int_align :: "env \<Rightarrow> nat \<Rightarrow> nat" where
  "int_align e n = (if CONFIG_64BIT e then n else min n 4)"

definition round_up :: "nat \<Rightarrow> nat \<Rightarrow> nat" where
  "round_up off a = (off + a - 1) div a * a"

fun align_of :: "env \<Rightarrow> ctype \<Rightarrow> nat"
  and align_fields :: "env \<Rightarrow> (string \<times> ctype) list \<Rightarrow> nat" where
  "align_of e (CInt n) = int_align e n"
| "align_of e CLong = word_bytes e"
| "align_of e (CArray n t) = align_of e t"
| "align_of e (CStruct fs) = align_fields e fs"
| "align_of e (CPacked fs) = 1"
| "align_of e (CUnion fs) = align_fields e fs"
| "align_of e (CAligned n t) = max n (align_of e t)"
| "align_fields e [] = 1"
| "align_fields e ((n, t) # fs) = max (align_of e t) (align_fields e fs)"

fun size_of :: "env \<Rightarrow> ctype \<Rightarrow> nat"
  and struct_end :: "env \<Rightarrow> nat \<Rightarrow> (string \<times> ctype) list \<Rightarrow> nat"
  and packed_end :: "env \<Rightarrow> nat \<Rightarrow> (string \<times> ctype) list \<Rightarrow> nat"
  and union_size :: "env \<Rightarrow> (string \<times> ctype) list \<Rightarrow> nat" where
  "size_of e (CInt n) = n"
| "size_of e CLong = word_bytes e"
| "size_of e (CArray n t) = n * size_of e t"
| "size_of e (CStruct fs) = round_up (struct_end e 0 fs) (align_fields e fs)"
| "size_of e (CPacked fs) = packed_end e 0 fs"
| "size_of e (CUnion fs) = round_up (union_size e fs) (align_fields e fs)"
| "size_of e (CAligned n t) = size_of e t"
| "struct_end e off [] = off"
| "struct_end e off ((n, t) # fs) = struct_end e (round_up off (align_of e t) + size_of e t) fs"
| "packed_end e off [] = off"
| "packed_end e off ((n, t) # fs) = packed_end e (off + size_of e t) fs"
| "union_size e [] = 0"
| "union_size e ((n, t) # fs) = max (size_of e t) (union_size e fs)"

text \<open>The members of an aggregate with their offsets.\<close>

fun struct_members :: "env \<Rightarrow> nat \<Rightarrow> (string \<times> ctype) list \<Rightarrow> (string \<times> nat \<times> ctype) list" where
  "struct_members e off [] = []"
| "struct_members e off ((n, t) # fs) =
     (n, round_up off (align_of e t), t) # struct_members e (round_up off (align_of e t) + size_of e t) fs"

fun packed_members :: "env \<Rightarrow> nat \<Rightarrow> (string \<times> ctype) list \<Rightarrow> (string \<times> nat \<times> ctype) list" where
  "packed_members e off [] = []"
| "packed_members e off ((n, t) # fs) = (n, off, t) # packed_members e (off + size_of e t) fs"

fun members :: "env \<Rightarrow> ctype \<Rightarrow> (string \<times> nat \<times> ctype) list" where
  "members e (CStruct fs) = struct_members e 0 fs"
| "members e (CPacked fs) = packed_members e 0 fs"
| "members e (CUnion fs) = map (\<lambda>(n, t). (n, 0, t)) fs"
| "members e (CAligned n t) = members e t"
| "members e _ = []"

text \<open>
  \<open>offsetof\<close> with the type of the member, for a path of names; an anonymous member is named by the empty
  name on the path.
\<close>

fun offset_of :: "env \<Rightarrow> ctype \<Rightarrow> string list \<Rightarrow> (nat \<times> ctype) option" where
  "offset_of e t [] = Some (0, t)"
| "offset_of e t (n # path) =
     (case map_of (members e t) n of
        None \<Rightarrow> None
      | Some (o1, t1) \<Rightarrow> map_option (\<lambda>(o2, t2). (o1 + o2, t2)) (offset_of e t1 path))"

text \<open>What the declarations of the headers satisfy: integers of the machine's sizes and alignments that are powers of two.\<close>

fun wf_type :: "ctype \<Rightarrow> bool"
  and wf_fields :: "(string \<times> ctype) list \<Rightarrow> bool" where
  "wf_type (CInt n) \<longleftrightarrow> n \<in> set [1, 2, 4, 8]"
| "wf_type CLong \<longleftrightarrow> True"
| "wf_type (CArray n t) \<longleftrightarrow> wf_type t"
| "wf_type (CStruct fs) \<longleftrightarrow> wf_fields fs"
| "wf_type (CPacked fs) \<longleftrightarrow> wf_fields fs"
| "wf_type (CUnion fs) \<longleftrightarrow> wf_fields fs"
| "wf_type (CAligned n t) \<longleftrightarrow> n \<in> set [1, 2, 4, 8, 16, 4096] \<and> wf_type t"
| "wf_fields [] \<longleftrightarrow> True"
| "wf_fields ((n, t) # fs) \<longleftrightarrow> wf_type t \<and> wf_fields fs"

section \<open>Alignments are powers of two\<close>

definition pow2 :: "nat \<Rightarrow> bool" where
  "pow2 n \<longleftrightarrow> (\<exists>k. n = 2 ^ k)"

lemma pow2_numerals: "pow2 1" "pow2 2" "pow2 4" "pow2 8" "pow2 16" "pow2 4096"
  unfolding pow2_def
  by (rule exI [of _ 0], simp, rule exI [of _ 1], simp, rule exI [of _ 2], simp, rule exI [of _ 3], simp,
      rule exI [of _ 4], simp, rule exI [of _ 12], simp)

lemma pow2_max: "pow2 a \<Longrightarrow> pow2 b \<Longrightarrow> pow2 (max a b)"
  by (simp add: max_def)

lemma pow2_dvd: "pow2 a \<Longrightarrow> pow2 b \<Longrightarrow> a \<le> b \<Longrightarrow> a dvd b"
  by (auto simp: pow2_def power_le_imp_le_exp le_imp_power_dvd)

lemma pow2_pos: "pow2 a \<Longrightarrow> 0 < a"
  by (auto simp: pow2_def)

lemma pow2_align:
  "wf_type t \<Longrightarrow> pow2 (align_of e t)"
  "wf_fields fs \<Longrightarrow> pow2 (align_fields e fs)"
proof (induction e t and e fs rule: align_of_align_fields.induct)
  case (1 e n)
  then show ?case using pow2_numerals by (auto simp: int_align_def min_def)
next
  case (2 e)
  then show ?case using pow2_numerals by (simp add: word_bytes_def)
next
  case (7 e n t)
  then have "pow2 n" "pow2 (align_of e t)" using pow2_numerals by auto
  then show ?case by (simp add: pow2_max)
qed (simp_all add: pow2_max pow2_numerals(1) [unfolded One_nat_def])

lemma align_fields_ge: "(n, t) \<in> set fs \<Longrightarrow> align_of e t \<le> align_fields e fs"
  by (induction fs) auto

lemma wf_field: "wf_fields fs \<Longrightarrow> (n, t) \<in> set fs \<Longrightarrow> wf_type t"
  by (induction fs) auto

lemma align_field_dvd: "wf_fields fs \<Longrightarrow> (n, t) \<in> set fs \<Longrightarrow> align_of e t dvd align_fields e fs"
  by (intro pow2_dvd pow2_align align_fields_ge wf_field)

section \<open>Rounding up\<close>

lemma round_up_dvd [simp]: "a dvd round_up off a"
  by (simp add: round_up_def)

lemma round_up_bounds:
  assumes "0 < a"
  shows "off \<le> round_up off a" "round_up off a < off + a"
proof -
  have "(off + a - 1) div a * a + (off + a - 1) mod a = off + a - 1" by (rule div_mult_mod_eq)
  moreover have "(off + a - 1) mod a < a" using assms by simp
  ultimately show "off \<le> round_up off a" "round_up off a < off + a"
    using assms unfolding round_up_def by linarith+
qed

section \<open>Members lie inside, aligned and apart\<close>

lemma struct_member_type: "(n, o1, t) \<in> set (struct_members e off fs) \<Longrightarrow> (n, t) \<in> set fs"
  by (induction fs arbitrary: off) fastforce+

lemma packed_member_type: "(n, o1, t) \<in> set (packed_members e off fs) \<Longrightarrow> (n, t) \<in> set fs"
  by (induction fs arbitrary: off) fastforce+

lemma align_pos: "wf_type t \<Longrightarrow> 0 < align_of e t"
  by (rule pow2_pos [OF pow2_align(1)])

lemma struct_end_ge: "wf_fields fs \<Longrightarrow> off \<le> struct_end e off fs"
proof (induction fs arbitrary: off)
  case (Cons f fs)
  obtain n t where f: "f = (n, t)" by (cases f)
  have "off \<le> round_up off (align_of e t) + size_of e t"
    using Cons.prems round_up_bounds(1) [of "align_of e t" off] align_pos by (simp add: f trans_le_add1)
  also have "\<dots> \<le> struct_end e (round_up off (align_of e t) + size_of e t) fs"
    using Cons f by simp
  finally show ?case by (simp add: f)
qed simp

lemma struct_member_bounds:
  "wf_fields fs \<Longrightarrow> (n, o1, t) \<in> set (struct_members e off fs) \<Longrightarrow>
   off \<le> o1 \<and> o1 + size_of e t \<le> struct_end e off fs \<and> align_of e t dvd o1"
proof (induction fs arbitrary: off)
  case (Cons f fs)
  obtain n' t' where f: "f = (n', t')" by (cases f)
  let ?o = "round_up off (align_of e t')"
  have wf: "wf_type t'" "wf_fields fs" using Cons.prems f by simp_all
  have ge: "off \<le> ?o" using round_up_bounds(1) [OF align_pos [OF wf(1)]] .
  from Cons.prems consider "n = n'" "o1 = ?o" "t = t'" | "(n, o1, t) \<in> set (struct_members e (?o + size_of e t') fs)"
    by (auto simp: f)
  then show ?case
  proof cases
    case 1
    then show ?thesis using ge struct_end_ge [OF wf(2)] by (simp add: f)
  next
    case 2
    then show ?thesis using Cons.IH [OF wf(2) 2] ge by (simp add: f)
  qed
qed simp

lemma packed_end_ge: "off \<le> packed_end e off fs"
proof (induction fs arbitrary: off)
  case (Cons f fs)
  then show ?case by (cases f) (simp, metis add_leD1)
qed simp

lemma packed_member_bounds:
  "(n, o1, t) \<in> set (packed_members e off fs) \<Longrightarrow> off \<le> o1 \<and> o1 + size_of e t \<le> packed_end e off fs"
proof (induction fs arbitrary: off)
  case (Cons f fs)
  obtain n' t' where f: "f = (n', t')" by (cases f)
  from Cons.prems consider "n = n'" "o1 = off" "t = t'" | "(n, o1, t) \<in> set (packed_members e (off + size_of e t') fs)"
    by (auto simp: f)
  then show ?case
  proof cases
    case 1
    then show ?thesis using packed_end_ge by (simp add: f)
  next
    case 2
    then show ?thesis using Cons.IH [OF 2] by (simp add: f)
  qed
qed simp

lemma union_size_ge: "(n, t) \<in> set fs \<Longrightarrow> size_of e t \<le> union_size e fs"
  by (induction fs) auto

lemma member_in:
  assumes "wf_type t" "(n, o1, t1) \<in> set (members e t)"
  shows "o1 + size_of e t1 \<le> size_of e t \<and> wf_type t1"
  using assms
proof (induction t)
  case (CStruct fs)
  then have wf: "wf_fields fs" and m: "(n, o1, t1) \<in> set (struct_members e 0 fs)" by simp_all
  have "wf_type t1" by (rule wf_field [OF wf struct_member_type [OF m]])
  moreover have "struct_end e 0 fs \<le> size_of e (CStruct fs)"
    using round_up_bounds(1) [OF pow2_pos [OF pow2_align(2) [OF wf]]] by simp
  ultimately show ?case using struct_member_bounds [OF wf m] by linarith
next
  case (CPacked fs)
  then have wf: "wf_fields fs" and m: "(n, o1, t1) \<in> set (packed_members e 0 fs)" by simp_all
  have "wf_type t1" by (rule wf_field [OF wf packed_member_type [OF m]])
  then show ?case using packed_member_bounds [OF m] by simp
next
  case (CUnion fs)
  then have wf: "wf_fields fs" and m: "(n, t1) \<in> set fs" "o1 = 0" by auto
  have "union_size e fs \<le> size_of e (CUnion fs)"
    using round_up_bounds(1) [OF pow2_pos [OF pow2_align(2) [OF wf]]] by simp
  then show ?case using union_size_ge [OF m(1), of e] m(2) wf_field [OF wf m(1)] by simp
qed simp_all

text \<open>Members of a structure do not overlap; those of a union all start at the same byte.\<close>

fun is_struct :: "ctype \<Rightarrow> bool" where
  "is_struct (CStruct fs) \<longleftrightarrow> True"
| "is_struct (CPacked fs) \<longleftrightarrow> True"
| "is_struct (CAligned n t) \<longleftrightarrow> is_struct t"
| "is_struct _ \<longleftrightarrow> False"

lemma struct_members_apart:
  assumes "wf_fields fs" "(a, o1, t1) \<in> set (struct_members e off fs)" "(b, o2, t2) \<in> set (struct_members e off fs)" "a \<noteq> b"
  shows "o1 + size_of e t1 \<le> o2 \<or> o2 + size_of e t2 \<le> o1"
  using assms
proof (induction fs arbitrary: off)
  case (Cons f fs)
  obtain n t where f: "f = (n, t)" by (cases f)
  let ?o = "round_up off (align_of e t)" and ?rest = "struct_members e (round_up off (align_of e t) + size_of e t) fs"
  have wf: "wf_fields fs" using Cons.prems f by simp
  have after: "(m, o3, t3) \<in> set ?rest \<Longrightarrow> ?o + size_of e t \<le> o3" for m o3 t3
    using struct_member_bounds [OF wf, of m o3 t3 e] by blast
  have "(a, o1, t1) = (n, ?o, t) \<or> (a, o1, t1) \<in> set ?rest" "(b, o2, t2) = (n, ?o, t) \<or> (b, o2, t2) \<in> set ?rest"
    using Cons.prems by (simp_all add: f)
  then show ?case
    using Cons.IH [OF wf] Cons.prems(4) after [of a o1 t1] after [of b o2 t2] by auto
qed simp

lemma packed_members_apart:
  assumes "(a, o1, t1) \<in> set (packed_members e off fs)" "(b, o2, t2) \<in> set (packed_members e off fs)" "a \<noteq> b"
  shows "o1 + size_of e t1 \<le> o2 \<or> o2 + size_of e t2 \<le> o1"
  using assms
proof (induction fs arbitrary: off)
  case (Cons f fs)
  obtain n t where f: "f = (n, t)" by (cases f)
  let ?rest = "packed_members e (off + size_of e t) fs"
  have after: "(m, o3, t3) \<in> set ?rest \<Longrightarrow> off + size_of e t \<le> o3" for m o3 t3
    using packed_member_bounds [of m o3 t3 e] by blast
  have "(a, o1, t1) = (n, off, t) \<or> (a, o1, t1) \<in> set ?rest" "(b, o2, t2) = (n, off, t) \<or> (b, o2, t2) \<in> set ?rest"
    using Cons.prems by (simp_all add: f)
  then show ?case
    using Cons.IH Cons.prems(3) after [of a o1 t1] after [of b o2 t2] by auto
qed simp

lemma members_apart:
  assumes "wf_type t" "is_struct t" "(a, o1, t1) \<in> set (members e t)" "(b, o2, t2) \<in> set (members e t)" "a \<noteq> b"
  shows "o1 + size_of e t1 \<le> o2 \<or> o2 + size_of e t2 \<le> o1"
  using assms
proof (induction t)
  case (CStruct fs)
  show ?case
    by (rule struct_members_apart [of fs a o1 t1 e 0 b o2 t2]) (use CStruct in simp_all)
next
  case (CPacked fs)
  show ?case by (rule packed_members_apart [of a o1 t1 e 0 fs b o2 t2]) (use CPacked in simp_all)
qed simp_all

section \<open>Paths\<close>

text \<open>A type without packed parts.\<close>

fun unpacked :: "ctype \<Rightarrow> bool"
  and unpacked_fields :: "(string \<times> ctype) list \<Rightarrow> bool" where
  "unpacked (CArray n t) \<longleftrightarrow> unpacked t"
| "unpacked (CStruct fs) \<longleftrightarrow> unpacked_fields fs"
| "unpacked (CPacked fs) \<longleftrightarrow> False"
| "unpacked (CUnion fs) \<longleftrightarrow> unpacked_fields fs"
| "unpacked (CAligned n t) \<longleftrightarrow> unpacked t"
| "unpacked _ \<longleftrightarrow> True"
| "unpacked_fields [] \<longleftrightarrow> True"
| "unpacked_fields ((n, t) # fs) \<longleftrightarrow> unpacked t \<and> unpacked_fields fs"

lemma unpacked_field: "unpacked_fields fs \<Longrightarrow> (n, t) \<in> set fs \<Longrightarrow> unpacked t"
  by (induction fs) auto

lemma member_aligned:
  assumes "wf_type t" "unpacked t" "(n, o1, t1) \<in> set (members e t)"
  shows "align_of e t1 dvd o1 \<and> align_of e t1 dvd align_of e t \<and> unpacked t1"
  using assms
proof (induction t)
  case (CStruct fs)
  then have wf: "wf_fields fs" and m: "(n, o1, t1) \<in> set (struct_members e 0 fs)" by simp_all
  note f = struct_member_type [OF m]
  show ?case
    using struct_member_bounds [OF wf m] align_field_dvd [OF wf f] unpacked_field [OF _ f] CStruct.prems(2) by simp
next
  case (CUnion fs)
  then have wf: "wf_fields fs" and f: "(n, t1) \<in> set fs" "o1 = 0" by auto
  show ?case
    using align_field_dvd [OF wf f(1)] unpacked_field [OF _ f(1)] CUnion.prems(2) f(2) by simp
next
  case (CAligned k t)
  then have "align_of e t1 dvd align_of e t" "wf_type t" "pow2 k" using pow2_numerals by auto
  moreover have "align_of e t dvd max k (align_of e t)"
    using \<open>wf_type t\<close> \<open>pow2 k\<close> by (intro pow2_dvd pow2_max pow2_align) simp_all
  ultimately show ?case using CAligned dvd_trans by auto
qed simp_all

lemma offset_of_step:
  assumes "offset_of e t (n # path) = Some (o1, t1)"
  obtains o2 t2 o3 where "(n, o2, t2) \<in> set (members e t)" "offset_of e t2 path = Some (o3, t1)" "o1 = o2 + o3"
  using assms by (auto split: option.splits dest: map_of_SomeD)

lemma offset_of_inside:
  assumes "wf_type t" "offset_of e t path = Some (o1, t1)"
  shows "wf_type t1 \<and> o1 + size_of e t1 \<le> size_of e t"
  using assms
proof (induction path arbitrary: t o1)
  case (Cons n path)
  from Cons.prems(2) obtain o2 t2 o3 where
    s: "(n, o2, t2) \<in> set (members e t)" "offset_of e t2 path = Some (o3, t1)" "o1 = o2 + o3"
    by (rule offset_of_step)
  have "o2 + size_of e t2 \<le> size_of e t" "wf_type t2" using member_in [OF Cons.prems(1) s(1)] by simp_all
  with Cons.IH [OF _ s(2)] s(3) show ?case by simp
qed simp

lemma offset_of_aligned:
  assumes "wf_type t" "unpacked t" "offset_of e t path = Some (o1, t1)"
  shows "align_of e t1 dvd o1 \<and> align_of e t1 dvd align_of e t"
  using assms
proof (induction path arbitrary: t o1)
  case (Cons n path)
  from Cons.prems(3) obtain o2 t2 o3 where
    s: "(n, o2, t2) \<in> set (members e t)" "offset_of e t2 path = Some (o3, t1)" "o1 = o2 + o3"
    by (rule offset_of_step)
  have m: "align_of e t2 dvd o2" "align_of e t2 dvd align_of e t" "unpacked t2" "wf_type t2"
    using member_aligned [OF Cons.prems(1,2) s(1)] member_in [OF Cons.prems(1) s(1)] by simp_all
  have "align_of e t1 dvd o3" "align_of e t1 dvd align_of e t2"
    using Cons.IH [OF m(4,3) s(2)] by simp_all
  then show ?case using m s(3) by (auto intro: dvd_trans dvd_add)
qed simp

lemma offset_of_append:
  "offset_of e t (p @ q) =
     (case offset_of e t p of None \<Rightarrow> None
      | Some (o1, t1) \<Rightarrow> map_option (\<lambda>(o2, t2). (o1 + o2, t2)) (offset_of e t1 q))"
  by (induction p arbitrary: t)
    (auto split: option.splits simp: option.map_comp comp_def split_def option.map_ident add.assoc)

lemma offset_of_apart:
  assumes "wf_type t" "offset_of e t p = Some (o0, s)" "is_struct s" "a \<noteq> b"
    and "offset_of e t (p @ a # q) = Some (o1, t1)" "offset_of e t (p @ b # r) = Some (o2, t2)"
  shows "o1 + size_of e t1 \<le> o2 \<or> o2 + size_of e t2 \<le> o1"
proof -
  have wf: "wf_type s" using offset_of_inside [OF assms(1,2)] by simp
  from assms(2,5) obtain o1' where 1: "offset_of e s (a # q) = Some (o1', t1)" "o1 = o0 + o1'"
    by (auto simp: offset_of_append)
  from assms(2,6) obtain o2' where 2: "offset_of e s (b # r) = Some (o2', t2)" "o2 = o0 + o2'"
    by (auto simp: offset_of_append)
  from 1(1) obtain oa ta o3 where a: "(a, oa, ta) \<in> set (members e s)" "offset_of e ta q = Some (o3, t1)" "o1' = oa + o3"
    by (rule offset_of_step)
  from 2(1) obtain ob tb o4 where b: "(b, ob, tb) \<in> set (members e s)" "offset_of e tb r = Some (o4, t2)" "o2' = ob + o4"
    by (rule offset_of_step)
  have "oa + size_of e ta \<le> ob \<or> ob + size_of e tb \<le> oa"
    by (rule members_apart [OF wf assms(3) a(1) b(1) assms(4)])
  moreover have "o3 + size_of e t1 \<le> size_of e ta" "o4 + size_of e t2 \<le> size_of e tb"
    using member_in [OF wf a(1)] member_in [OF wf b(1)] offset_of_inside [OF _ a(2)] offset_of_inside [OF _ b(2)] by blast+
  ultimately show ?thesis using 1(2) 2(2) a(3) b(3) by linarith
qed

section \<open>A structure in memory\<close>

definition load_member :: "env \<Rightarrow> ctype \<Rightarrow> string list \<Rightarrow> u8 list \<Rightarrow> u8 list option" where
  "load_member e t path bs =
     (case offset_of e t path of
        None \<Rightarrow> None
      | Some (o1, t1) \<Rightarrow> if o1 + size_of e t1 \<le> length bs then Some (take (size_of e t1) (drop o1 bs)) else None)"

definition store_member :: "env \<Rightarrow> ctype \<Rightarrow> string list \<Rightarrow> u8 list \<Rightarrow> u8 list \<Rightarrow> u8 list option" where
  "store_member e t path v bs =
     (case offset_of e t path of
        None \<Rightarrow> None
      | Some (o1, t1) \<Rightarrow>
          if o1 + size_of e t1 \<le> length bs \<and> length v = size_of e t1
          then Some (take o1 bs @ v @ drop (o1 + size_of e t1) bs) else None)"

lemma load_store_same:
  "store_member e t path v bs = Some bs' \<Longrightarrow> load_member e t path bs' = Some v \<and> length bs' = length bs"
  by (auto simp: store_member_def load_member_def split: option.splits if_splits)

lemma store_member_defined:
  assumes "wf_type t" "length bs = size_of e t" "offset_of e t path = Some (o1, t1)" "length v = size_of e t1"
  shows "\<exists>bs'. store_member e t path v bs = Some bs'"
  using offset_of_inside [OF assms(1,3)] assms by (simp add: store_member_def)

lemma take_drop_outside:
  assumes "i + n \<le> j \<or> j + length v \<le> i" "j + length v \<le> length bs" "i + n \<le> length bs"
  shows "take n (drop i (take j bs @ v @ drop (j + length v) bs)) = take n (drop i bs)"
  using assms(1)
proof
  assume "i + n \<le> j"
  then have "take n (drop i (take j bs)) = take n (drop i bs)" "n \<le> length (drop i (take j bs))"
    using assms(2) by (simp_all add: drop_take min_absorb1)
  then show ?thesis using \<open>i + n \<le> j\<close> assms(2) by simp
next
  assume "j + length v \<le> i"
  then show ?thesis using assms(2) by simp
qed

lemma load_store_other:
  assumes "store_member e t p v bs = Some bs'"
    and "offset_of e t p = Some (o1, t1)" "offset_of e t q = Some (o2, t2)"
    and "o1 + size_of e t1 \<le> o2 \<or> o2 + size_of e t2 \<le> o1"
  shows "load_member e t q bs' = load_member e t q bs"
proof -
  have s: "o1 + size_of e t1 \<le> length bs" "length v = size_of e t1" "bs' = take o1 bs @ v @ drop (o1 + size_of e t1) bs"
    using assms(1,2) by (auto simp: store_member_def split: if_splits)
  then have "length bs' = length bs" by simp
  then show ?thesis
    using take_drop_outside [of o2 "size_of e t2" o1 v bs] assms(3,4) s
    by (auto simp: load_member_def)
qed

text \<open>The layout of a concrete type by rewriting.\<close>

lemma round_up_at:
  "round_up off (Suc 0) = off" "round_up off 2 = (off + 1) div 2 * 2" "round_up off 4 = (off + 3) div 4 * 4"
  "round_up off 8 = (off + 7) div 8 * 8" "round_up off 16 = (off + 15) div 16 * 16"
  by (simp_all add: round_up_def)

lemma max_1: "max (Suc 0) (numeral k) = numeral k" "max (numeral k) (Suc 0) = numeral k"
  by (simp_all add: max_def numeral_eq_Suc)

lemmas layout_simps = max_1 round_up_at numeral_2_eq_2 [symmetric] word_bytes_def int_align_def

section \<open>The layout depends on the word size only\<close>

lemma same_word:
  assumes "CONFIG_64BIT e = CONFIG_64BIT e'"
  shows "word_bytes e = word_bytes e'" "int_align e n = int_align e' n"
  using assms by (cases e; cases e'; simp add: word_bytes_def int_align_def)+

lemma same_align:
  assumes "CONFIG_64BIT e = CONFIG_64BIT e'"
  shows "align_of e t = align_of e' t" "align_fields e fs = align_fields e' fs"
  by (induction t and fs rule: wf_type_wf_fields.induct) (simp_all add: same_word [OF assms])

lemma same_size:
  assumes "CONFIG_64BIT e = CONFIG_64BIT e'"
  shows "size_of e t = size_of e' t"
    "(\<forall>off. struct_end e off fs = struct_end e' off fs) \<and> (\<forall>off. packed_end e off fs = packed_end e' off fs)
     \<and> union_size e fs = union_size e' fs"
  by (induction t and fs rule: wf_type_wf_fields.induct) (simp_all add: same_word [OF assms] same_align [OF assms])

lemma same_build_members:
  assumes "CONFIG_64BIT e = CONFIG_64BIT e'"
  shows "members e t = members e' t"
proof -
  have "struct_members e off fs = struct_members e' off fs" for off fs
    by (induction fs arbitrary: off) (auto simp: same_align [OF assms] same_size [OF assms])
  moreover have "packed_members e off fs = packed_members e' off fs" for off fs
    by (induction fs arbitrary: off) (auto simp: same_size [OF assms])
  ultimately show ?thesis by (induction t) simp_all
qed

lemma same_build:
  assumes "CONFIG_64BIT e = CONFIG_64BIT e'"
  shows "offset_of e t path = offset_of e' t path \<and> size_of e t = size_of e' t"
proof
  show "offset_of e t path = offset_of e' t path"
  proof (induction path arbitrary: t)
    case (Cons n path)
    then show ?case unfolding offset_of.simps same_build_members [OF assms] by (auto split: option.split)
  qed simp
qed (rule same_size(1) [OF assms])

end
