(* ===== verification/Xen_Abi.thy ===== *)
theory Xen_Abi imports
  C_Layout
begin

text \<open>
  The structures of the hypervisor interface, \<open>include/xen/\<close>, as C types: one definition per structure or
  union, with the members in the order of the header. Where a declaration depends on the
  architecture it takes the build environment. Anonymous unions and structures carry the empty name, or,
  where a structure has several, the name of the register that they hold.
\<close>

section \<open>xen.h\<close>

definition domid_t :: ctype where "domid_t = uint16"
definition xen_pfn_t :: ctype where "xen_pfn_t = CLong"

definition vcpu_time_info :: ctype where
  "vcpu_time_info = CStruct
     [(''version'', uint32), (''pad0'', uint32), (''tsc_timestamp'', uint64), (''system_time'', uint64),
      (''tsc_to_system_mul'', uint32), (''tsc_shift'', uint8), (''flags'', uint8), (''pad1'', CArray 2 uint8)]"

definition arch_vcpu_info :: "env \<Rightarrow> ctype" where
  "arch_vcpu_info e = CStruct
     [(''cr2'', CLong), (''pad'', if CONFIG_64BIT e then CLong else CArray 5 CLong)]"

definition vcpu_info :: "env \<Rightarrow> ctype" where
  "vcpu_info e = CStruct
     [(''evtchn_upcall_pending'', uint8), (''evtchn_upcall_mask'', uint8), (''evtchn_pending_sel'', CLong),
      (''arch'', arch_vcpu_info e), (''time'', vcpu_time_info)]"

definition arch_shared_info :: "env \<Rightarrow> ctype" where
  "arch_shared_info e = CStruct
     ([(''max_pfn'', CLong), (''pfn_to_mfn_frame_list_list'', xen_pfn_t), (''nmi_reason'', CLong), (''p2m_cr3'', CLong),
       (''p2m_vaddr'', CLong), (''p2m_generation'', CLong)]
      @ (if CONFIG_64BIT e then [] else [(''wc_sec_hi'', uint32)]))"

definition shared_info :: "env \<Rightarrow> ctype" where
  "shared_info e = CStruct
     ([(''vcpu_info'', CArray 32 (vcpu_info e)),
       (''evtchn_pending'', CArray (word_bytes e * 8) CLong), (''evtchn_mask'', CArray (word_bytes e * 8) CLong),
       (''wc_version'', uint32), (''wc_sec'', uint32), (''wc_nsec'', uint32)]
      @ (if CONFIG_64BIT e then [(''wc_sec_hi'', uint32)] else [])
      @ [(''arch'', arch_shared_info e)])"

definition MAX_GUEST_CMDLINE :: nat where "MAX_GUEST_CMDLINE = 1024"

definition xen_pv_start_info :: ctype where
  "xen_pv_start_info = CStruct
     [(''magic'', CArray 32 uint8), (''nr_pages'', CLong), (''shared_info'', CLong), (''flags'', uint32),
      (''store_mfn'', xen_pfn_t), (''store_evtchn'', uint32),
      (''console'', CUnion
         [(''domU'', CStruct [(''mfn'', xen_pfn_t), (''evtchn'', uint32)]),
          (''dom0'', CStruct [(''info_off'', uint32), (''info_size'', uint32)])]),
      (''pt_base'', CLong), (''nr_pt_frames'', CLong), (''mfn_list'', CLong), (''mod_start'', CLong), (''mod_len'', CLong),
      (''cmd_line'', CArray MAX_GUEST_CMDLINE uint8), (''first_p2m_pfn'', CLong), (''nr_p2m_frames'', CLong)]"

definition mmu_update :: ctype where
  "mmu_update = CStruct [(''ptr'', uint64), (''val'', uint64)]"

definition multicall_entry :: ctype where
  "multicall_entry = CStruct [(''op'', CLong), (''result'', CLong), (''args'', CArray 6 CLong)]"

definition mmuext_op :: ctype where
  "mmuext_op = CStruct
     [(''cmd'', uint32),
      (''arg1'', CUnion [(''mfn'', xen_pfn_t), (''linear_addr'', CLong)]),
      (''arg2'', CUnion [(''nr_ents'', uint32), (''vcpumask'', pointer_t), (''src_mfn'', xen_pfn_t)])]"

definition guest_handle_64_t :: ctype where
  "guest_handle_64_t = CStruct [([], CUnion [(''p'', pointer_t), (''q'', CAligned 8 uint64)])]"

section \<open>arch-x86\<close>

definition xen_trap_info :: ctype where
  "xen_trap_info = CStruct [(''vector'', uint8), (''flags'', uint8), (''cs'', uint16), (''address'', CLong)]"

text \<open>The unions that name the parts of a register, \<open>__DECL_REG_LOHI\<close> and its relatives.\<close>

definition decl_reg_lohi64 :: "string \<Rightarrow> ctype" where
  "decl_reg_lohi64 which = CUnion
     [(''r'' @ which @ ''x'', uint64), (''e'' @ which @ ''x'', uint32), (which @ ''x'', uint16),
      ([], CStruct [(which @ ''l'', uint8), (which @ ''h'', uint8)])]"

definition decl_reg_lo8_64 :: "string \<Rightarrow> ctype" where
  "decl_reg_lo8_64 name = CUnion
     [(''r'' @ name, uint64), (''e'' @ name, uint32), (name, uint16), (name @ ''l'', uint8)]"

definition decl_reg_lo16_64 :: "string \<Rightarrow> ctype" where
  "decl_reg_lo16_64 name = CUnion [(''r'' @ name, uint64), (''e'' @ name, uint32), (name, uint16)]"

definition decl_reg_hi :: "string \<Rightarrow> ctype" where
  "decl_reg_hi num = CUnion
     [(''r'' @ num, uint64), (''r'' @ num @ ''d'', uint32), (''r'' @ num @ ''w'', uint16), (''r'' @ num @ ''b'', uint8)]"

definition xen_cpu_user_regs_64 :: ctype where
  "xen_cpu_user_regs_64 = CStruct
     [(''r15'', decl_reg_hi ''15''), (''r14'', decl_reg_hi ''14''), (''r13'', decl_reg_hi ''13''), (''r12'', decl_reg_hi ''12''),
      (''bp'', decl_reg_lo8_64 ''bp''), (''b'', decl_reg_lohi64 ''b''), (''r11'', decl_reg_hi ''11''), (''r10'', decl_reg_hi ''10''),
      (''r9'', decl_reg_hi ''9''), (''r8'', decl_reg_hi ''8''), (''a'', decl_reg_lohi64 ''a''), (''c'', decl_reg_lohi64 ''c''),
      (''d'', decl_reg_lohi64 ''d''), (''si'', decl_reg_lo8_64 ''si''), (''di'', decl_reg_lo8_64 ''di''),
      (''error_code'', uint32), (''entry_vector'', uint32), (''ip'', decl_reg_lo16_64 ''ip''),
      (''cs'', uint16), (''_pad0'', CArray 1 uint16), (''saved_upcall_mask'', uint8), (''_pad1'', CArray 3 uint8),
      (''flags'', decl_reg_lo16_64 ''flags''), (''sp'', decl_reg_lo8_64 ''sp''),
      (''ss'', uint16), (''_pad2'', CArray 3 uint16), (''es'', uint16), (''_pad3'', CArray 3 uint16),
      (''ds'', uint16), (''_pad4'', CArray 3 uint16), (''fs'', uint16), (''_pad5'', CArray 3 uint16),
      (''gs'', uint16), (''_pad6'', CArray 3 uint16)]"

definition decl_reg_lo8_32 :: "string \<Rightarrow> ctype" where
  "decl_reg_lo8_32 which = CUnion
     [(''e'' @ which @ ''x'', uint32), (which @ ''x'', uint16),
      ([], CStruct [(which @ ''l'', uint8), (which @ ''h'', uint8)])]"

definition decl_reg_lo16_32 :: "string \<Rightarrow> ctype" where
  "decl_reg_lo16_32 name = CUnion [(''e'' @ name, uint32), (''_e'' @ name, uint32), (name, uint16)]"

definition xen_cpu_user_regs_32 :: ctype where
  "xen_cpu_user_regs_32 = CStruct
     [(''b'', decl_reg_lo8_32 ''b''), (''c'', decl_reg_lo8_32 ''c''), (''d'', decl_reg_lo8_32 ''d''),
      (''si'', decl_reg_lo16_32 ''si''), (''di'', decl_reg_lo16_32 ''di''), (''bp'', decl_reg_lo16_32 ''bp''),
      (''a'', decl_reg_lo8_32 ''a''), (''error_code'', uint16), (''entry_vector'', uint16),
      (''ip'', decl_reg_lo16_32 ''ip''), (''cs'', uint16), (''saved_upcall_mask'', uint8), (''_pad0'', uint8),
      (''flags'', decl_reg_lo16_32 ''flags''), (''sp'', decl_reg_lo16_32 ''sp''),
      (''ss'', uint16), (''_pad1'', uint16), (''es'', uint16), (''_pad2'', uint16), (''ds'', uint16), (''_pad3'', uint16),
      (''fs'', uint16), (''_pad4'', uint16), (''gs'', uint16), (''_pad5'', uint16)]"

definition xen_cpu_user_regs :: "env \<Rightarrow> ctype" where
  "xen_cpu_user_regs e = (if CONFIG_64BIT e then xen_cpu_user_regs_64 else xen_cpu_user_regs_32)"

definition xen_callback_t :: "env \<Rightarrow> ctype" where
  "xen_callback_t e = (if CONFIG_64BIT e then CLong else CStruct [(''cs'', CLong), (''eip'', CLong)])"

definition xen_vcpu_guest_context :: "env \<Rightarrow> ctype" where
  "xen_vcpu_guest_context e = CStruct
     ([(''fpu_ctxt'', CStruct [(''x'', CArray 512 uint8)]), (''flags'', CLong), (''user_regs'', xen_cpu_user_regs e),
       (''trap_ctxt'', CArray 256 xen_trap_info), (''ldt_base'', CLong), (''ldt_ents'', CLong),
       (''gdt_frames'', CArray 16 CLong), (''gdt_ents'', CLong), (''kernel_ss'', CLong), (''kernel_sp'', CLong),
       (''ctrlreg'', CArray 8 CLong), (''debugreg'', CArray 8 CLong)]
      @ (if CONFIG_64BIT e
         then [(''event_callback_eip'', CLong), (''failsafe_callback_eip'', CLong),
               ([], CUnion
                  [(''syscall_callback_eip'', CLong),
                   ([], CStruct [(''event_callback_cs'', uint32), (''failsafe_callback_cs'', uint32)])])]
         else [(''event_callback_cs'', CLong), (''event_callback_eip'', CLong),
               (''failsafe_callback_cs'', CLong), (''failsafe_callback_eip'', CLong)])
      @ [(''vm_assist'', CLong)]
      @ (if CONFIG_64BIT e
         then [(''fs_base'', uint64), (''gs_base_kernel'', uint64), (''gs_base_user'', uint64)] else []))"

definition xen_callback_register :: "env \<Rightarrow> ctype" where
  "xen_callback_register e = CStruct [(''type'', uint16), (''flags'', uint16), (''address'', xen_callback_t e)]"

section \<open>event_channel.h, sched.h, physdev.h, version.h, memory.h, hvm_op.h\<close>

definition evtchn_port_t :: ctype where "evtchn_port_t = uint32"

definition evtchn_status :: ctype where
  "evtchn_status = CStruct
     [(''dom'', domid_t), (''_pad0'', uint16), (''port'', evtchn_port_t), (''status'', uint32), (''vcpu'', uint32),
      ([], CUnion
         [(''unbound'', CStruct [(''dom'', domid_t)]),
          (''interdomain'', CStruct [(''dom'', domid_t), (''port'', evtchn_port_t)]),
          (''pirq'', uint32), (''virq'', uint32)])]"

definition evtchn_alloc_unbound :: ctype where
  "evtchn_alloc_unbound = CStruct [(''dom'', domid_t), (''remote_dom'', domid_t), (''port'', evtchn_port_t)]"

definition evtchn_init_control :: ctype where
  "evtchn_init_control = CStruct
     [(''control_gfn'', uint64), (''offset'', uint32), (''vcpu'', uint32), (''link_bits'', uint8), (''_pad'', CArray 7 uint8)]"

definition evtchn_expand_array :: ctype where
  "evtchn_expand_array = CStruct [(''array_gfn'', uint64)]"

definition sched_shutdown :: ctype where "sched_shutdown = CStruct [(''reason'', uint32)]"

definition sched_poll :: ctype where
  "sched_poll = CStruct [(''ports'', pointer_t), (''nr_ports'', uint32), (''timeout'', uint64)]"

definition physdev_set_iopl :: ctype where "physdev_set_iopl = CStruct [(''iopl'', uint32)]"

definition xen_compile_info :: ctype where
  "xen_compile_info = CStruct
     [(''compiler'', CArray 64 uint8), (''compile_by'', CArray 16 uint8), (''compile_domain'', CArray 32 uint8),
      (''compile_date'', CArray 32 uint8)]"

definition xen_memory_reservation :: ctype where
  "xen_memory_reservation = CStruct
     [(''extent_start'', pointer_t), (''nr_extents'', CLong), (''extent_order'', uint32), (''mem_flags'', uint32),
      (''domid'', domid_t)]"

definition xen_add_to_physmap :: ctype where
  "xen_add_to_physmap = CStruct
     [(''domid'', domid_t), (''size'', uint16), (''space'', uint32), (''idx'', CLong), (''gfn'', CLong)]"

definition xen_memory_exchange :: ctype where
  "xen_memory_exchange = CStruct
     [(''in'', xen_memory_reservation), (''out'', xen_memory_reservation), (''nr_exchanged'', CLong)]"

definition xen_hvm_param :: ctype where
  "xen_hvm_param = CStruct [(''domid'', domid_t), (''index'', uint32), (''value'', uint64)]"

section \<open>sysctl.h\<close>

definition xen_livepatch_name :: ctype where
  "xen_livepatch_name = CStruct [(''name'', guest_handle_64_t), (''size'', uint16), (''pad'', CArray 3 uint16)]"

definition xen_sysctl_livepatch_upload :: ctype where
  "xen_sysctl_livepatch_upload = CStruct
     [(''name'', xen_livepatch_name), (''size'', uint64), (''payload'', guest_handle_64_t)]"

definition xen_livepatch_status :: ctype where
  "xen_livepatch_status = CStruct [(''state'', uint32), (''rc'', uint32)]"

definition xen_sysctl_livepatch_get :: ctype where
  "xen_sysctl_livepatch_get = CStruct [(''name'', xen_livepatch_name), (''status'', xen_livepatch_status)]"

definition xen_sysctl_livepatch_list :: ctype where
  "xen_sysctl_livepatch_list = CStruct
     [(''version'', uint32), (''idx'', uint32), (''nr'', uint32), (''pad'', uint32), (''status'', guest_handle_64_t),
      (''name'', guest_handle_64_t), (''len'', guest_handle_64_t)]"

definition xen_sysctl_livepatch_action :: ctype where
  "xen_sysctl_livepatch_action = CStruct
     [(''name'', xen_livepatch_name), (''cmd'', uint32), (''timeout'', uint32)]"

definition xen_sysctl_livepatch_op :: ctype where
  "xen_sysctl_livepatch_op = CStruct
     [(''cmd'', uint32), (''pad'', uint32),
      (''u'', CUnion
         [(''upload'', xen_sysctl_livepatch_upload), (''list'', xen_sysctl_livepatch_list),
          (''get'', xen_sysctl_livepatch_get), (''action'', xen_sysctl_livepatch_action)])]"

definition xen_sysctl :: ctype where
  "xen_sysctl = CStruct
     [(''cmd'', uint32), (''interface_version'', uint32),
      (''u'', CUnion [(''livepatch'', xen_sysctl_livepatch_op), (''pad'', CArray 128 uint8)])]"

section \<open>argo.h\<close>

definition xen_argo_port_t :: ctype where "xen_argo_port_t = uint32"

definition xen_argo_iov :: ctype where
  "xen_argo_iov = CStruct [(''iov_hnd'', CLong), (''iov_len'', uint32), (''pad'', uint32)]"

definition xen_argo_addr :: ctype where
  "xen_argo_addr = CStruct [(''aport'', xen_argo_port_t), (''domain_id'', domid_t), (''pad'', uint16)]"

definition xen_argo_send_addr :: ctype where
  "xen_argo_send_addr = CStruct [(''src'', xen_argo_addr), (''dst'', xen_argo_addr)]"

definition xen_argo_ring :: ctype where
  "xen_argo_ring = CStruct
     [(''rx_ptr'', uint32), (''tx_ptr'', uint32), (''reserved'', CArray 56 uint8), (''ring'', CArray 0 uint8)]"

definition xen_argo_register_ring :: ctype where
  "xen_argo_register_ring = CStruct
     [(''aport'', xen_argo_port_t), (''partner_id'', domid_t), (''pad'', uint16), (''len'', uint32)]"

definition xen_argo_unregister_ring :: ctype where
  "xen_argo_unregister_ring = CStruct [(''aport'', xen_argo_port_t), (''partner_id'', domid_t), (''pad'', uint16)]"

definition xen_argo_ring_data_ent :: ctype where
  "xen_argo_ring_data_ent = CStruct
     [(''ring'', xen_argo_addr), (''flags'', uint16), (''pad'', uint16), (''space_required'', uint32),
      (''max_message_size'', uint32)]"

definition xen_argo_ring_data :: ctype where
  "xen_argo_ring_data = CStruct [(''nent'', uint32), (''pad'', uint32)]"

definition xen_argo_ring_message_header :: ctype where
  "xen_argo_ring_message_header = CStruct
     [(''len'', uint32), (''source'', xen_argo_addr), (''message_type'', uint32), (''data'', CArray 0 uint8)]"

definition XEN_ARGO_MSG_SLOT_SIZE :: nat where "XEN_ARGO_MSG_SLOT_SIZE = 0x10"

section \<open>grant_table.h\<close>

definition grant_ref_t :: ctype where "grant_ref_t = uint32"
definition grant_handle_t :: ctype where "grant_handle_t = uint32"

definition grant_entry_v1 :: ctype where
  "grant_entry_v1 = CStruct [(''flags'', uint16), (''domid'', domid_t), (''frame'', uint32)]"

definition grant_entry_header :: ctype where
  "grant_entry_header = CStruct [(''flags'', uint16), (''domid'', domid_t)]"

definition grant_entry_v2 :: ctype where
  "grant_entry_v2 = CUnion
     [(''hdr'', grant_entry_header),
      (''full_page'', CStruct [(''hdr'', grant_entry_header), (''pad0'', uint32), (''frame'', uint64)]),
      (''sub_page'', CStruct
         [(''hdr'', grant_entry_header), (''page_off'', uint16), (''length'', uint16), (''frame'', uint64)]),
      (''transitive'', CStruct
         [(''hdr'', grant_entry_header), (''trans_domid'', domid_t), (''pad0'', uint16), (''gref'', grant_ref_t)]),
      (''__spacer'', CArray 4 uint32)]"

definition gnttab_map_grant_ref :: ctype where
  "gnttab_map_grant_ref = CStruct
     [(''host_addr'', uint64), (''flags'', uint32), (''ref'', grant_ref_t), (''dom'', domid_t), (''status'', uint16),
      (''handle'', grant_handle_t), (''dev_bus_addr'', uint64)]"

definition gnttab_unmap_grant_ref :: ctype where
  "gnttab_unmap_grant_ref = CStruct
     [(''host_addr'', uint64), (''dev_bus_addr'', uint64), (''handle'', grant_handle_t), (''status'', uint16)]"

definition gnttab_setup_table :: ctype where
  "gnttab_setup_table = CStruct
     [(''dom'', domid_t), (''nr_frames'', uint32), (''status'', uint16), (''frame_list'', pointer_t)]"

definition gnttab_unmap_and_replace :: ctype where
  "gnttab_unmap_and_replace = CStruct
     [(''host_addr'', uint64), (''new_addr'', uint64), (''handle'', grant_handle_t), (''status'', uint16)]"

definition gnttab_set_version :: ctype where "gnttab_set_version = CStruct [(''version'', uint32)]"

definition gnttab_get_status_frames :: ctype where
  "gnttab_get_status_frames = CStruct
     [(''nr_frames'', uint32), (''dom'', domid_t), (''status'', uint16), (''frame_list'', pointer_t)]"

definition gnttab_cache_flush :: ctype where
  "gnttab_cache_flush = CStruct
     [(''a'', CUnion [(''dev_bus_addr'', uint64), (''ref'', grant_ref_t)]), (''offset'', uint16), (''length'', uint16),
      (''op'', uint32)]"

section \<open>hvm_vcpu.h and start_info.h\<close>

definition xen_vcpu_hvm_x86_32 :: ctype where
  "xen_vcpu_hvm_x86_32 = CStruct
     [(''eax'', uint32), (''ecx'', uint32), (''edx'', uint32), (''ebx'', uint32), (''esp'', uint32), (''ebp'', uint32),
      (''esi'', uint32), (''edi'', uint32), (''eip'', uint32), (''eflags'', uint32), (''cr0'', uint32), (''cr3'', uint32),
      (''cr4'', uint32), (''pad1'', uint32), (''efer'', uint64), (''cs_base'', uint32), (''ds_base'', uint32),
      (''ss_base'', uint32), (''es_base'', uint32), (''tr_base'', uint32), (''cs_limit'', uint32), (''ds_limit'', uint32),
      (''ss_limit'', uint32), (''es_limit'', uint32), (''tr_limit'', uint32), (''cs_ar'', uint16), (''ds_ar'', uint16),
      (''ss_ar'', uint16), (''es_ar'', uint16), (''tr_ar'', uint16), (''pad2'', CArray 3 uint16)]"

definition xen_vcpu_hvm_x86_64 :: ctype where
  "xen_vcpu_hvm_x86_64 = CStruct
     [(''rax'', uint64), (''rcx'', uint64), (''rdx'', uint64), (''rbx'', uint64), (''rsp'', uint64), (''rbp'', uint64),
      (''rsi'', uint64), (''rdi'', uint64), (''rip'', uint64), (''rflags'', uint64), (''cr0'', uint64), (''cr3'', uint64),
      (''cr4'', uint64), (''efer'', uint64)]"

definition xen_vcpu_hvm_context :: ctype where
  "xen_vcpu_hvm_context = CStruct
     [(''mode'', uint32), (''pad'', uint32),
      (''cpu_regs'', CUnion [(''x86_32'', xen_vcpu_hvm_x86_32), (''x86_64'', xen_vcpu_hvm_x86_64)])]"

definition xen_hvm_start_info :: ctype where
  "xen_hvm_start_info = CStruct
     [(''magic'', uint32), (''version'', uint32), (''flags'', uint32), (''nr_modules'', uint32),
      (''modlist_paddr'', uint64), (''cmdline_paddr'', uint64), (''rsdp_paddr'', uint64)]"

definition xen_hvm_modlist_entry :: ctype where
  "xen_hvm_modlist_entry = CStruct
     [(''paddr'', uint64), (''size'', uint64), (''cmdline_paddr'', uint64), (''reserved'', uint64)]"

section \<open>The shared rings\<close>

definition xencons_interface :: ctype where
  "xencons_interface = CStruct
     [(''in'', CArray 1024 uint8), (''out'', CArray 2048 uint8), (''in_cons'', uint32), (''in_prod'', uint32),
      (''out_cons'', uint32), (''out_prod'', uint32)]"

definition xenbus_interface :: ctype where
  "xenbus_interface = CStruct
     [(''req'', CArray 1024 uint8), (''rsp'', CArray 1024 uint8), (''req_cons'', uint32), (''req_prod'', uint32),
      (''rsp_cons'', uint32), (''rsp_prod'', uint32), (''server_features'', uint32), (''connection'', uint32)]"

definition xenstore_msg_hdr :: ctype where
  "xenstore_msg_hdr = CStruct [(''type'', uint32), (''req_id'', uint32), (''tx_id'', uint32), (''len'', uint32)]"

section \<open>Every declaration is well-formed\<close>

definition xen_structs :: "env \<Rightarrow> ctype list" where
  "xen_structs e =
     [vcpu_time_info, vcpu_info e, shared_info e, xen_pv_start_info, mmu_update, multicall_entry, mmuext_op,
      guest_handle_64_t, xen_trap_info, xen_cpu_user_regs e, xen_callback_t e, xen_vcpu_guest_context e,
      xen_callback_register e, evtchn_status, evtchn_alloc_unbound, evtchn_init_control, evtchn_expand_array,
      sched_shutdown, sched_poll, physdev_set_iopl, xen_compile_info, xen_memory_reservation, xen_add_to_physmap,
      xen_memory_exchange, xen_hvm_param, xen_livepatch_name, xen_livepatch_status, xen_sysctl_livepatch_op, xen_sysctl,
      xen_argo_iov, xen_argo_send_addr, xen_argo_ring, xen_argo_register_ring, xen_argo_unregister_ring,
      xen_argo_ring_data_ent, xen_argo_ring_data, xen_argo_ring_message_header, grant_entry_v1, grant_entry_v2,
      gnttab_map_grant_ref, gnttab_unmap_grant_ref, gnttab_setup_table, gnttab_unmap_and_replace, gnttab_set_version,
      gnttab_get_status_frames, gnttab_cache_flush, xen_vcpu_hvm_context, xen_hvm_start_info, xen_hvm_modlist_entry,
      xencons_interface, xenbus_interface, xenstore_msg_hdr]"

lemmas xen_struct_defs =
  domid_t_def xen_pfn_t_def vcpu_time_info_def arch_vcpu_info_def vcpu_info_def arch_shared_info_def
  shared_info_def MAX_GUEST_CMDLINE_def xen_pv_start_info_def mmu_update_def multicall_entry_def mmuext_op_def
  guest_handle_64_t_def xen_trap_info_def decl_reg_lohi64_def decl_reg_lo8_64_def decl_reg_lo16_64_def
  decl_reg_hi_def xen_cpu_user_regs_64_def decl_reg_lo8_32_def decl_reg_lo16_32_def xen_cpu_user_regs_32_def
  xen_cpu_user_regs_def xen_callback_t_def xen_vcpu_guest_context_def xen_callback_register_def
  evtchn_port_t_def evtchn_status_def evtchn_alloc_unbound_def evtchn_init_control_def evtchn_expand_array_def
  sched_shutdown_def sched_poll_def physdev_set_iopl_def xen_compile_info_def xen_memory_reservation_def
  xen_add_to_physmap_def xen_memory_exchange_def xen_hvm_param_def xen_livepatch_name_def
  xen_sysctl_livepatch_upload_def xen_livepatch_status_def xen_sysctl_livepatch_get_def
  xen_sysctl_livepatch_list_def xen_sysctl_livepatch_action_def xen_sysctl_livepatch_op_def xen_sysctl_def
  xen_argo_port_t_def xen_argo_iov_def xen_argo_addr_def xen_argo_send_addr_def xen_argo_ring_def
  xen_argo_register_ring_def xen_argo_unregister_ring_def xen_argo_ring_data_ent_def xen_argo_ring_data_def
  xen_argo_ring_message_header_def grant_ref_t_def grant_handle_t_def grant_entry_v1_def grant_entry_header_def
  grant_entry_v2_def gnttab_map_grant_ref_def gnttab_unmap_grant_ref_def gnttab_setup_table_def
  gnttab_unmap_and_replace_def gnttab_set_version_def gnttab_get_status_frames_def gnttab_cache_flush_def
  xen_vcpu_hvm_x86_32_def xen_vcpu_hvm_x86_64_def xen_vcpu_hvm_context_def xen_hvm_start_info_def
  xen_hvm_modlist_entry_def xencons_interface_def xenbus_interface_def xenstore_msg_hdr_def

lemma xen_structs_wf: "list_all (\<lambda>t. wf_type t \<and> unpacked t) (xen_structs e)"
  by (simp add: xen_structs_def xen_struct_defs)



section \<open>The same bytes in every build\<close>

text \<open>
  Two environments that agree on a type: every member, however deep, is at the same offset, and the
  whole has the same size. The hypervisor translates no structure of which that is true.
\<close>

fun same_offsets :: "env \<Rightarrow> env \<Rightarrow> ctype \<Rightarrow> bool"
  and same_fields :: "env \<Rightarrow> env \<Rightarrow> (string \<times> ctype) list \<Rightarrow> bool" where
  "same_offsets e e' (CStruct fs) \<longleftrightarrow> struct_members e 0 fs = struct_members e' 0 fs \<and> same_fields e e' fs"
| "same_offsets e e' (CPacked fs) \<longleftrightarrow> packed_members e 0 fs = packed_members e' 0 fs \<and> same_fields e e' fs"
| "same_offsets e e' (CUnion fs) \<longleftrightarrow> same_fields e e' fs"
| "same_offsets e e' (CAligned n t) \<longleftrightarrow> same_offsets e e' t"
| "same_offsets e e' _ \<longleftrightarrow> True"
| "same_fields e e' [] \<longleftrightarrow> True"
| "same_fields e e' ((n, t) # fs) \<longleftrightarrow> same_offsets e e' t \<and> same_fields e e' fs"

lemma same_field: "same_fields e e' fs \<Longrightarrow> (n, t) \<in> set fs \<Longrightarrow> same_offsets e e' t"
  by (induction fs) auto

lemma same_members: "same_offsets e e' t \<Longrightarrow> members e t = members e' t"
  by (induction t) simp_all

lemma same_member: "same_offsets e e' t \<Longrightarrow> (n, o1, t1) \<in> set (members e t) \<Longrightarrow> same_offsets e e' t1"
  by (induction t) (auto dest: struct_member_type packed_member_type same_field)

lemma same_offset_of: "same_offsets e e' t \<Longrightarrow> offset_of e t path = offset_of e' t path"
proof (induction path arbitrary: t)
  case (Cons n path)
  have m: "members e t = members e' t" by (rule same_members [OF Cons.prems])
  show ?case
  proof (cases "map_of (members e t) n")
    case None
    then show ?thesis by (simp add: m)
  next
    case (Some r)
    obtain o1 t1 where r: "r = (o1, t1)" by (cases r)
    have "(n, o1, t1) \<in> set (members e t)" using Some r by (simp add: map_of_SomeD)
    then have "same_offsets e e' t1" by (rule same_member [OF Cons.prems])
    from Cons.IH [OF this] show ?thesis using Some r by (simp flip: m)
  qed
qed simp

text \<open>The structures without a bare \<open>long\<close> or pointer, with one example of each kind of handle.\<close>

definition fixed_structs :: "ctype list" where
  "fixed_structs =
     [vcpu_time_info, mmu_update, guest_handle_64_t, evtchn_status, evtchn_alloc_unbound, evtchn_init_control,
      evtchn_expand_array, sched_shutdown, physdev_set_iopl, xen_compile_info, xen_hvm_param, xen_livepatch_name,
      xen_livepatch_status, xen_sysctl_livepatch_op, xen_sysctl, xen_argo_send_addr, xen_argo_ring,
      xen_argo_register_ring, xen_argo_unregister_ring, xen_argo_ring_data_ent, xen_argo_ring_data,
      xen_argo_ring_message_header, grant_entry_v1, grant_entry_v2, gnttab_map_grant_ref, gnttab_unmap_grant_ref,
      gnttab_unmap_and_replace, gnttab_set_version, gnttab_cache_flush, xen_vcpu_hvm_context, xen_hvm_start_info,
      xen_hvm_modlist_entry, xencons_interface, xenbus_interface, xenstore_msg_hdr]"

lemma fixed_structs_same:
  "list_all (\<lambda>t. same_offsets HVM64 HVM32 t \<and> size_of HVM64 t = size_of HVM32 t) fixed_structs"
  by (simp add: fixed_structs_def xen_struct_defs layout_simps)

text \<open>
  C26: The structures that have no bare long or pointer are binary-compatible: in every build, of
  whatever guest kind and word size, each of their members is at the same offset and the structure
  has the same size, although 64-bit integers are aligned differently and handles hold pointers of
  different sizes.
\<close>

theorem abi_same_in_every_build:
  assumes "t \<in> set fixed_structs"
  shows "offset_of e t path = offset_of e' t path \<and> size_of e t = size_of e' t"
proof -
  have s: "same_offsets HVM64 HVM32 t" "size_of HVM64 t = size_of HVM32 t"
    using assms fixed_structs_same by (auto simp: list_all_iff)
  have "offset_of e t path = offset_of HVM64 t path \<and> size_of e t = size_of HVM64 t" for e
  proof (cases "CONFIG_64BIT e")
    case True
    then show ?thesis by (intro same_build) simp
  next
    case False
    then have "offset_of e t path = offset_of HVM32 t path \<and> size_of e t = size_of HVM32 t" by (intro same_build) simp
    then show ?thesis using s same_offset_of [OF s(1)] by simp
  qed
  then show ?thesis by metis
qed

theorem abi_same_in_every_build_witness:
  "offset_of PV64 xen_sysctl [''u'', ''livepatch'', ''u'', ''list'', ''len''] = Some (48, guest_handle_64_t)
   \<and> offset_of HVM32 xen_sysctl [''u'', ''livepatch'', ''u'', ''list'', ''len''] = Some (48, guest_handle_64_t)"
proof -
  have "xen_sysctl \<in> set fixed_structs" by (simp add: fixed_structs_def)
  moreover have "offset_of PV64 xen_sysctl [''u'', ''livepatch'', ''u'', ''list'', ''len''] = Some (48, guest_handle_64_t)"
    by (simp add: xen_struct_defs layout_simps)
  ultimately show ?thesis
    using abi_same_in_every_build [of xen_sysctl PV64 "[''u'', ''livepatch'', ''u'', ''list'', ''len'']" HVM32] by simp
qed

definition layout :: "env \<Rightarrow> ctype \<Rightarrow> (string \<times> nat) list \<times> nat" where
  "layout e t = (map (\<lambda>(n, o1, t). (n, o1)) (members e t), size_of e t)"

text \<open>
  The layouts that the headers document are the ones the declarations give, in every build: 32 and 64
  bytes for the vcpu structures, the offsets drawn in start_info.h for the start information and the
  module list, a union padded to 128 bytes in the sysctl structure, grant entries of 8 and 16 bytes, an
  argo ring and message header that are multiples of the message slot, rings and shared information
  that fit in a page.
\<close>

lemma abi_documented_layouts:
  "size_of e vcpu_time_info = 32 \<and> size_of e (vcpu_info e) = 64
   \<and> layout e xen_hvm_start_info =
       ([(''magic'', 0), (''version'', 4), (''flags'', 8), (''nr_modules'', 12), (''modlist_paddr'', 16),
         (''cmdline_paddr'', 24), (''rsdp_paddr'', 32)], 40)
   \<and> layout e xen_hvm_modlist_entry = ([(''paddr'', 0), (''size'', 8), (''cmdline_paddr'', 16), (''reserved'', 24)], 32)
   \<and> layout e xen_sysctl = ([(''cmd'', 0), (''interface_version'', 4), (''u'', 8)], 136)
   \<and> size_of e grant_entry_v1 = 8 \<and> size_of e grant_entry_v2 = 16
   \<and> offset_of e xen_argo_ring [''ring''] = Some (4 * XEN_ARGO_MSG_SLOT_SIZE, CArray 0 uint8)
   \<and> offset_of e xen_argo_ring_message_header [''data''] = Some (XEN_ARGO_MSG_SLOT_SIZE, CArray 0 uint8)
   \<and> size_of e (shared_info e) \<le> 4096 \<and> size_of e xencons_interface \<le> 4096 \<and> size_of e xenbus_interface \<le> 4096"
  by (cases e; simp add: layout_def XEN_ARGO_MSG_SLOT_SIZE_def xen_struct_defs layout_simps)+

section \<open>Page-directory addresses\<close>

text \<open>
  \<open>xen_pfn_to_cr3\<close> and \<open>xen_cr3_to_pfn\<close>: on a 32-bit build an address above 4GB does not fit in \<open>cr3\<close>, so the
  high bits of the frame number are folded into the low bits.
\<close>

definition xen_pfn_to_cr3 :: "env \<Rightarrow> u64 \<Rightarrow> u64" where
  "xen_pfn_to_cr3 e pfn =
     (if CONFIG_64BIT e then push_bit 12 pfn
      else ucast (push_bit 12 (ucast pfn :: u32) OR drop_bit 20 (ucast pfn :: u32)))"

definition xen_cr3_to_pfn :: "env \<Rightarrow> u64 \<Rightarrow> u64" where
  "xen_cr3_to_pfn e cr3 =
     (if CONFIG_64BIT e then drop_bit 12 cr3
      else ucast (drop_bit 12 (ucast cr3 :: u32) OR push_bit 20 (ucast cr3 :: u32)))"

lemma fold_pfn: "drop_bit 12 (push_bit 12 p OR drop_bit 20 p) OR push_bit 20 (push_bit 12 p OR drop_bit 20 p) = p"
  for p :: u32
proof (rule bit_word_eqI)
  fix n
  show "bit (drop_bit 12 (push_bit 12 p OR drop_bit 20 p) OR push_bit 20 (push_bit 12 p OR drop_bit 20 p)) n \<longleftrightarrow> bit p n"
    if "n < LENGTH(32)"
    using that by (cases "n < 20") (auto simp: bit_simps dest: bit_imp_le_length)
qed

lemma fold_cr3: "push_bit 12 (drop_bit 12 c OR push_bit 20 c) OR drop_bit 20 (drop_bit 12 c OR push_bit 20 c) = c"
  for c :: u32
  by (rule bit_word_eqI) (auto simp: bit_simps dest: bit_imp_le_length)

text \<open>
  Frame numbers survive cr3. On a 32-bit build every 32-bit frame number folds into a 32-bit cr3 value
  and back, and every cr3 value unfolds and folds back, so none is lost although the address needs 44
  bits; on a 64-bit build the frame number comes back without the 12 bits that the shift drops.
\<close>

lemma pfn_cr3_roundtrip:
  "(\<not> CONFIG_64BIT e \<longrightarrow>
      xen_cr3_to_pfn e (xen_pfn_to_cr3 e v) = take_bit 32 v \<and> xen_pfn_to_cr3 e (xen_cr3_to_pfn e v) = take_bit 32 v)
   \<and> (CONFIG_64BIT e \<longrightarrow>
      xen_cr3_to_pfn e (xen_pfn_to_cr3 e v) = take_bit 52 v \<and> xen_pfn_to_cr3 e (xen_cr3_to_pfn e v) = v AND NOT (mask 12))"
proof (cases "CONFIG_64BIT e")
  case True
  have "drop_bit 12 (push_bit 12 v) = take_bit 52 v" "push_bit 12 (drop_bit 12 v) = v AND NOT (mask 12)"
    by (rule bit_word_eqI; auto simp: bit_simps dest: bit_imp_le_length)+
  then show ?thesis using True by (simp add: xen_cr3_to_pfn_def xen_pfn_to_cr3_def)
next
  case False
  have u: "ucast (ucast w :: u64) = w" for w :: u32 by (rule bit_word_eqI) (simp add: bit_simps)
  have t: "(ucast (ucast v :: u32) :: u64) = take_bit 32 v" by (rule bit_word_eqI) (auto simp: bit_simps)
  show ?thesis
    unfolding xen_cr3_to_pfn_def xen_pfn_to_cr3_def u fold_pfn fold_cr3 if_not_P [OF False]
    using False by (simp add: t)
qed

lemma pfn_cr3_roundtrip_witness:
  "xen_cr3_to_pfn HVM32PAE (xen_pfn_to_cr3 HVM32PAE 0x123456) = 0x123456
   \<and> xen_pfn_to_cr3 HVM32PAE 0x123456 = 0x23456001"
proof
  show "xen_cr3_to_pfn HVM32PAE (xen_pfn_to_cr3 HVM32PAE 0x123456) = 0x123456"
    using pfn_cr3_roundtrip [of HVM32PAE "0x123456"] by simp
  show "xen_pfn_to_cr3 HVM32PAE 0x123456 = 0x23456001" by (simp add: xen_pfn_to_cr3_def)
qed

end
