(* ===== verification/Xen_Numbers.thy ===== *)
theory Xen_Numbers imports
  Grant_Table
begin

text \<open>
  The numbers of the hypervisor interface under \<open>include/xen\<close>: the operations, states, errors and flags as
  tables from the name to the value. What is proved is that a table can be read in both directions: two
  names of a table of codes never share a value, and the flags of a table of flags can be told apart
  after they have been ORed.
\<close>

section \<open>The tables\<close>

text \<open>Commands of the console hypercall.\<close>

definition console_io_ops :: "(string \<times> int) list" where
  "console_io_ops =
     [(''CONSOLEIO_write'', 0)]"

text \<open>Commands of the assists hypercall.\<close>

definition vmasst_cmds :: "(string \<times> int) list" where
  "vmasst_cmds =
     [(''VMASST_CMD_enable'', 0), (''VMASST_CMD_disable'', 1)]"

definition vmasst_types :: "(string \<times> int) list" where
  "vmasst_types =
     [(''VMASST_TYPE_architectural_iopl'', 4)]"

text \<open>Flags of the start information of a PV guest.\<close>

definition start_info_flags :: "(string \<times> int) list" where
  "start_info_flags =
     [(''SIF_PRIVILEGED'', 1), (''SIF_INITDOMAIN'', 2)]"

text \<open>Kinds of page-table updates, in the low bits of the pointer.\<close>

definition mmu_update_types :: "(string \<times> int) list" where
  "mmu_update_types =
     [(''MMU_NORMAL_PT_UPDATE'', 0), (''MMU_MACHPHYS_UPDATE'', 1), (''MMU_PT_UPDATE_PRESERVE_AD'', 2)]"

text \<open>Extended page-table operations.\<close>

definition mmuext_cmds :: "(string \<times> int) list" where
  "mmuext_cmds =
     [(''MMUEXT_PIN_L1_TABLE'', 0), (''MMUEXT_PIN_L2_TABLE'', 1), (''MMUEXT_PIN_L3_TABLE'', 2),
      (''MMUEXT_PIN_L4_TABLE'', 3), (''MMUEXT_UNPIN_TABLE'', 4), (''MMUEXT_NEW_BASEPTR'', 5),
      (''MMUEXT_TLB_FLUSH_LOCAL'', 6), (''MMUEXT_INVLPG_LOCAL'', 7), (''MMUEXT_TLB_FLUSH_MULTI'', 8),
      (''MMUEXT_INVLPG_MULTI'', 9), (''MMUEXT_TLB_FLUSH_ALL'', 10), (''MMUEXT_INVLPG_ALL'', 11),
      (''MMUEXT_FLUSH_CACHE'', 12), (''MMUEXT_SET_LDT'', 13), (''MMUEXT_NEW_USER_BASEPTR'', 15),
      (''MMUEXT_CLEAR_PAGE'', 16), (''MMUEXT_COPY_PAGE'', 17), (''MMUEXT_FLUSH_CACHE_GLOBAL'', 18),
      (''MMUEXT_MARK_SUPER'', 19), (''MMUEXT_UNMARK_SUPER'', 20)]"

text \<open>Errors; a hypercall returns them negated.\<close>

definition errno_values :: "(string \<times> int) list" where
  "errno_values =
     [(''EPERM'', 1), (''ENOENT'', 2), (''ESRCH'', 3), (''EINTR'', 4), (''EIO'', 5), (''ENXIO'', 6), (''E2BIG'', 7),
      (''ENOEXEC'', 8), (''EBADF'', 9), (''ECHILD'', 10), (''EAGAIN'', 11), (''ENOMEM'', 12), (''EACCES'', 13),
      (''EFAULT'', 14), (''EBUSY'', 16), (''EEXIST'', 17), (''EXDEV'', 18), (''ENODEV'', 19), (''EINVAL'', 22),
      (''ENFILE'', 23), (''EMFILE'', 24), (''ENOSPC'', 28), (''EMLINK'', 31), (''EDOM'', 33), (''ERANGE'', 34),
      (''EDEADLK'', 35), (''ENAMETOOLONG'', 36), (''ENOLCK'', 37), (''ENOSYS'', 38), (''ENODATA'', 61),
      (''ETIME'', 62), (''EBADMSG'', 74), (''EOVERFLOW'', 75), (''EILSEQ'', 84), (''ERESTART'', 85),
      (''ENOTSOCK'', 88), (''EOPNOTSUPP'', 95), (''EADDRINUSE'', 98), (''EADDRNOTAVAIL'', 99), (''ENOBUFS'', 105),
      (''EISCONN'', 106), (''ENOTCONN'', 107), (''ETIMEDOUT'', 110)]"

text \<open>Operations on event channels and the states they report.\<close>

definition evtchn_ops :: "(string \<times> int) list" where
  "evtchn_ops =
     [(''EVTCHNOP_close'', 3), (''EVTCHNOP_send'', 4), (''EVTCHNOP_status'', 5), (''EVTCHNOP_alloc_unbound'', 6),
      (''EVTCHNOP_init_control'', 11), (''EVTCHNOP_expand_array'', 12)]"

definition evtchn_states :: "(string \<times> int) list" where
  "evtchn_states =
     [(''EVTCHN_STATUS_closed'', 0), (''EVTCHN_STATUS_unbound'', 1), (''EVTCHN_STATUS_interdomain'', 2),
      (''EVTCHN_STATUS_pirq'', 3), (''EVTCHN_STATUS_virq'', 4), (''EVTCHN_STATUS_ipi'', 5)]"

text \<open>Results of grant-table operations, 0 or negative.\<close>

definition gntst_values :: "(string \<times> int) list" where
  "gntst_values =
     [(''GNTST_okay'', 0), (''GNTST_general_error'', - 1), (''GNTST_bad_domain'', - 2), (''GNTST_bad_gntref'', - 3),
      (''GNTST_bad_handle'', - 4), (''GNTST_bad_virt_addr'', - 5), (''GNTST_bad_dev_addr'', - 6),
      (''GNTST_no_device_space'', - 7), (''GNTST_permission_denied'', - 8), (''GNTST_bad_page'', - 9),
      (''GNTST_bad_copy_arg'', - 10), (''GNTST_address_too_big'', - 11), (''GNTST_eagain'', - 12)]"

definition GNTTABOP_map_grant_ref :: int where [xtf_consts]: "GNTTABOP_map_grant_ref = 0"
definition GNTTABOP_unmap_grant_ref :: int where [xtf_consts]: "GNTTABOP_unmap_grant_ref = 1"
definition GNTTABOP_unmap_and_replace :: int where [xtf_consts]: "GNTTABOP_unmap_and_replace = 7"
definition GNTTABOP_get_status_frames :: int where [xtf_consts]: "GNTTABOP_get_status_frames = 9"
definition GNTTABOP_cache_flush :: int where [xtf_consts]: "GNTTABOP_cache_flush = 12"

definition gnttab_ops :: "(string \<times> int) list" where
  "gnttab_ops =
     [(''GNTTABOP_map_grant_ref'', GNTTABOP_map_grant_ref), (''GNTTABOP_unmap_grant_ref'', GNTTABOP_unmap_grant_ref),
      (''GNTTABOP_setup_table'', uint GNTTABOP_setup_table),
      (''GNTTABOP_unmap_and_replace'', GNTTABOP_unmap_and_replace),
      (''GNTTABOP_set_version'', uint GNTTABOP_set_version),
      (''GNTTABOP_get_status_frames'', GNTTABOP_get_status_frames), (''GNTTABOP_cache_flush'', GNTTABOP_cache_flush)]"

text \<open>Types of grant entries, below their flags, and the flags of the two table versions.\<close>

definition gtf_types :: "(string \<times> int) list" where
  "gtf_types =
     [(''GTF_invalid'', 0), (''GTF_permit_access'', 1), (''GTF_accept_transfer'', 2), (''GTF_transitive'', 3)]"

definition gtf_flags :: "(string \<times> int) list" where
  "gtf_flags =
     [(''GTF_readonly'', 4), (''GTF_reading'', 8), (''GTF_writing'', 16), (''GTF_PWT'', 32), (''GTF_PCD'', 64),
      (''GTF_PAT'', 128), (''GTF_sub_page'', 256)]"

definition gtf_transfer_flags :: "(string \<times> int) list" where
  "gtf_transfer_flags =
     [(''GTF_transfer_committed'', 4), (''GTF_transfer_completed'', 8)]"

definition gntmap_flags :: "(string \<times> int) list" where
  "gntmap_flags =
     [(''GNTMAP_device_map'', 1), (''GNTMAP_host_map'', 2), (''GNTMAP_readonly'', 4),
      (''GNTMAP_application_map'', 8), (''GNTMAP_contains_pte'', 16)]"

text \<open>Memory operations and the spaces of add_to_physmap.\<close>

definition XENMEM_increase_reservation :: int where [xtf_consts]: "XENMEM_increase_reservation = 0"
definition XENMEM_decrease_reservation :: int where [xtf_consts]: "XENMEM_decrease_reservation = 1"
definition XENMEM_populate_physmap :: int where [xtf_consts]: "XENMEM_populate_physmap = 6"
definition XENMEM_maximum_ram_page :: int where [xtf_consts]: "XENMEM_maximum_ram_page = 2"
definition XENMEM_exchange :: int where [xtf_consts]: "XENMEM_exchange = 11"
definition XENMEM_maximum_gpfn :: int where [xtf_consts]: "XENMEM_maximum_gpfn = 14"

definition xenmem_ops :: "(string \<times> int) list" where
  "xenmem_ops =
     [(''XENMEM_increase_reservation'', XENMEM_increase_reservation),
      (''XENMEM_decrease_reservation'', XENMEM_decrease_reservation),
      (''XENMEM_populate_physmap'', XENMEM_populate_physmap), (''XENMEM_maximum_ram_page'', XENMEM_maximum_ram_page),
      (''XENMEM_add_to_physmap'', uint XENMEM_add_to_physmap), (''XENMEM_exchange'', XENMEM_exchange),
      (''XENMEM_maximum_gpfn'', XENMEM_maximum_gpfn)]"

definition xenmapspace_values :: "(string \<times> int) list" where
  "xenmapspace_values =
     [(''XENMAPSPACE_shared_info'', 0), (''XENMAPSPACE_grant_table'', 1), (''XENMAPSPACE_gmfn'', 2),
      (''XENMAPSPACE_gmfn_range'', 3), (''XENMAPSPACE_gmfn_foreign'', 4), (''XENMAPSPACE_dev_mmio'', 5)]"

text \<open>Scheduler operations and the reasons of a shutdown.\<close>

definition sched_ops :: "(string \<times> int) list" where
  "sched_ops =
     [(''SCHEDOP_yield'', 0), (''SCHEDOP_shutdown'', 2), (''SCHEDOP_poll'', 3)]"

definition shutdown_reasons :: "(string \<times> int) list" where
  "shutdown_reasons =
     [(''SHUTDOWN_poweroff'', 0), (''SHUTDOWN_reboot'', 1), (''SHUTDOWN_suspend'', 2), (''SHUTDOWN_crash'', 3),
      (''SHUTDOWN_watchdog'', 4)]"

definition vcpu_ops :: "(string \<times> int) list" where
  "vcpu_ops =
     [(''VCPUOP_initialise'', 0), (''VCPUOP_up'', 1), (''VCPUOP_down'', 2), (''VCPUOP_is_up'', 3)]"

definition version_ops :: "(string \<times> int) list" where
  "version_ops =
     [(''XENVER_version'', 0), (''XENVER_extraversion'', 1), (''XENVER_compile_info'', 2), (''XENVER_changeset'', 4)]"

definition callback_types :: "(string \<times> int) list" where
  "callback_types =
     [(''CALLBACKTYPE_event'', 0), (''CALLBACKTYPE_failsafe'', 1), (''CALLBACKTYPE_syscall'', 2),
      (''CALLBACKTYPE_sysenter_deprecated'', 3), (''CALLBACKTYPE_nmi'', 4), (''CALLBACKTYPE_sysenter'', 5),
      (''CALLBACKTYPE_syscall32'', 7)]"

text \<open>Types of the ELF notes of the guest image.\<close>

definition elfnote_types :: "(string \<times> int) list" where
  "elfnote_types =
     [(''XEN_ELFNOTE_HYPERCALL_PAGE'', 2), (''XEN_ELFNOTE_XEN_VERSION'', 5), (''XEN_ELFNOTE_GUEST_OS'', 6),
      (''XEN_ELFNOTE_GUEST_VERSION'', 7), (''XEN_ELFNOTE_LOADER'', 8), (''XEN_ELFNOTE_PAE_MODE'', 9),
      (''XEN_ELFNOTE_FEATURES'', 10), (''XEN_ELFNOTE_BSD_SYMTAB'', 11), (''XEN_ELFNOTE_PHYS32_ENTRY'', 18)]"

definition hvm_ops :: "(string \<times> int) list" where
  "hvm_ops =
     [(''HVMOP_set_param'', 0), (''HVMOP_get_param'', 1)]"

definition hvm_params :: "(string \<times> int) list" where
  "hvm_params =
     [(''HVM_PARAM_STORE_PFN'', 1), (''HVM_PARAM_STORE_EVTCHN'', 2), (''HVM_PARAM_CONSOLE_PFN'', 17),
      (''HVM_PARAM_CONSOLE_EVTCHN'', 18)]"

definition vcpu_hvm_modes :: "(string \<times> int) list" where
  "vcpu_hvm_modes =
     [(''VCPU_HVM_MODE_32B'', 0), (''VCPU_HVM_MODE_64B'', 1)]"

text \<open>Live-patch operations, states and actions.\<close>

definition XEN_SYSCTL_LIVEPATCH_UPLOAD :: int where [xtf_consts]: "XEN_SYSCTL_LIVEPATCH_UPLOAD = 0"
definition XEN_SYSCTL_LIVEPATCH_GET :: int where [xtf_consts]: "XEN_SYSCTL_LIVEPATCH_GET = 1"
definition XEN_SYSCTL_LIVEPATCH_LIST :: int where [xtf_consts]: "XEN_SYSCTL_LIVEPATCH_LIST = 2"
definition XEN_SYSCTL_LIVEPATCH_ACTION :: int where [xtf_consts]: "XEN_SYSCTL_LIVEPATCH_ACTION = 3"

definition livepatch_ops :: "(string \<times> int) list" where
  "livepatch_ops =
     [(''XEN_SYSCTL_LIVEPATCH_UPLOAD'', XEN_SYSCTL_LIVEPATCH_UPLOAD),
      (''XEN_SYSCTL_LIVEPATCH_GET'', XEN_SYSCTL_LIVEPATCH_GET),
      (''XEN_SYSCTL_LIVEPATCH_LIST'', XEN_SYSCTL_LIVEPATCH_LIST),
      (''XEN_SYSCTL_LIVEPATCH_ACTION'', XEN_SYSCTL_LIVEPATCH_ACTION)]"

definition livepatch_states :: "(string \<times> int) list" where
  "livepatch_states =
     [(''LIVEPATCH_STATE_CHECKED'', 1), (''LIVEPATCH_STATE_APPLIED'', 2)]"

definition livepatch_actions :: "(string \<times> int) list" where
  "livepatch_actions =
     [(''LIVEPATCH_ACTION_UNLOAD'', 1), (''LIVEPATCH_ACTION_REVERT'', 2), (''LIVEPATCH_ACTION_APPLY'', 3),
      (''LIVEPATCH_ACTION_REPLACE'', 4)]"

text \<open>Argo operations and what is reported of a ring.\<close>

definition XEN_ARGO_OP_register_ring :: int where [xtf_consts]: "XEN_ARGO_OP_register_ring = 1"
definition XEN_ARGO_OP_unregister_ring :: int where [xtf_consts]: "XEN_ARGO_OP_unregister_ring = 2"
definition XEN_ARGO_OP_sendv :: int where [xtf_consts]: "XEN_ARGO_OP_sendv = 3"
definition XEN_ARGO_OP_notify :: int where [xtf_consts]: "XEN_ARGO_OP_notify = 4"

definition argo_ops :: "(string \<times> int) list" where
  "argo_ops =
     [(''XEN_ARGO_OP_register_ring'', XEN_ARGO_OP_register_ring),
      (''XEN_ARGO_OP_unregister_ring'', XEN_ARGO_OP_unregister_ring), (''XEN_ARGO_OP_sendv'', XEN_ARGO_OP_sendv),
      (''XEN_ARGO_OP_notify'', XEN_ARGO_OP_notify)]"

definition argo_ring_flags :: "(string \<times> int) list" where
  "argo_ring_flags =
     [(''XEN_ARGO_RING_EXISTS'', 1), (''XEN_ARGO_RING_SHARED'', 2), (''XEN_ARGO_RING_EMPTY'', 4),
      (''XEN_ARGO_RING_SUFFICIENT'', 8), (''XEN_ARGO_RING_EMSGSIZE'', 16), (''XEN_ARGO_RING_EBUSY'', 32)]"

text \<open>Flags of a guest context.\<close>

definition vgcf_flags :: "(string \<times> int) list" where
  "vgcf_flags =
     [(''VGCF_i387_valid'', 1), (''VGCF_in_kernel'', 4), (''VGCF_failsafe_disables_events'', 8),
      (''VGCF_syscall_disables_events'', 16), (''VGCF_online'', 32)]"

text \<open>Flags of the hypervisor leaves.\<close>

definition xen_cpuid_flags :: "(string \<times> int) list" where
  "xen_cpuid_flags =
     [(''XEN_HVM_CPUID_VCPU_ID_PRESENT'', 8), (''XEN_HVM_CPUID_DOMID_PRESENT'', 16)]"

text \<open>Types of xenstore messages.\<close>

definition xenstore_msg_types :: "(string \<times> int) list" where
  "xenstore_msg_types =
     [(''XS_CONTROL'', 0), (''XS_DIRECTORY'', 1), (''XS_READ'', 2), (''XS_GET_PERMS'', 3), (''XS_WATCH'', 4),
      (''XS_UNWATCH'', 5), (''XS_TRANSACTION_START'', 6), (''XS_TRANSACTION_END'', 7), (''XS_INTRODUCE'', 8),
      (''XS_RELEASE'', 9), (''XS_GET_DOMAIN_PATH'', 10), (''XS_WRITE'', 11), (''XS_MKDIR'', 12), (''XS_RM'', 13),
      (''XS_SET_PERMS'', 14), (''XS_WATCH_EVENT'', 15), (''XS_ERROR'', 16), (''XS_IS_DOMAIN_INTRODUCED'', 17),
      (''XS_RESUME'', 18), (''XS_SET_TARGET'', 19), (''XS_RESET_WATCHES'', 21), (''XS_DIRECTORY_PART'', 22),
      (''XS_TYPE_COUNT'', 23), (''XS_INVALID'', 65535)]"

text \<open>The tables of codes and those of flags.\<close>

definition code_tables :: "(string \<times> int) list list" where
  "code_tables =
     [console_io_ops, vmasst_cmds, vmasst_types, mmu_update_types, mmuext_cmds, errno_values, evtchn_ops,
      evtchn_states, gntst_values, gnttab_ops, gtf_types, xenmem_ops, xenmapspace_values, sched_ops,
      shutdown_reasons, vcpu_ops, version_ops, callback_types, elfnote_types, hvm_ops, hvm_params, vcpu_hvm_modes,
      livepatch_ops, livepatch_states, livepatch_actions, argo_ops, xenstore_msg_types]"

definition flag_tables :: "(string \<times> int) list list" where
  "flag_tables =
     [start_info_flags, gtf_flags, gtf_transfer_flags, gntmap_flags, argo_ring_flags, vgcf_flags, xen_cpuid_flags]"

lemmas code_table_defs =
  console_io_ops_def vmasst_cmds_def vmasst_types_def mmu_update_types_def mmuext_cmds_def errno_values_def
  evtchn_ops_def evtchn_states_def gntst_values_def gnttab_ops_def gtf_types_def xenmem_ops_def
  xenmapspace_values_def sched_ops_def shutdown_reasons_def vcpu_ops_def version_ops_def callback_types_def
  elfnote_types_def hvm_ops_def hvm_params_def vcpu_hvm_modes_def livepatch_ops_def livepatch_states_def
  livepatch_actions_def argo_ops_def xenstore_msg_types_def

lemmas flag_table_defs =
  start_info_flags_def gtf_flags_def gtf_transfer_flags_def gntmap_flags_def argo_ring_flags_def
  vgcf_flags_def xen_cpuid_flags_def

section \<open>Reading a value back\<close>

definition value_of :: "(string \<times> int) list \<Rightarrow> string \<Rightarrow> int option" where
  "value_of tbl name = map_of tbl name"

definition symbol_of :: "(string \<times> int) list \<Rightarrow> int \<Rightarrow> string option" where
  "symbol_of tbl v = map_of (map prod.swap tbl) v"

definition or_all :: "int list \<Rightarrow> int" where
  "or_all vs = foldr (OR) vs 0"

fun unambiguous :: "(string \<times> int) list \<Rightarrow> bool" where
  "unambiguous [] \<longleftrightarrow> True"
| "unambiguous ((n, v) # tbl) \<longleftrightarrow> list_all (\<lambda>(m, w). m \<noteq> n \<and> w \<noteq> v) tbl \<and> unambiguous tbl"

fun bits_apart :: "(string \<times> int) list \<Rightarrow> bool" where
  "bits_apart [] \<longleftrightarrow> True"
| "bits_apart ((n, v) # tbl) \<longleftrightarrow> v \<noteq> 0 \<and> list_all (\<lambda>(m, w). w AND v = 0) tbl \<and> bits_apart tbl"

lemma unambiguous_distinct: "unambiguous tbl \<Longrightarrow> distinct (map fst tbl) \<and> distinct (map snd tbl)"
  by (induction tbl rule: unambiguous.induct) (fastforce simp: list_all_iff)+

lemma bits_apart_nonzero: "bits_apart tbl \<Longrightarrow> (n, v) \<in> set tbl \<Longrightarrow> v \<noteq> 0"
  by (induction tbl rule: bits_apart.induct) auto

lemma bits_apart_pair:
  "bits_apart tbl \<Longrightarrow> (n, v) \<in> set tbl \<Longrightarrow> (m, w) \<in> set tbl \<Longrightarrow> (n, v) \<noteq> (m, w) \<Longrightarrow> v AND w = 0"
proof (induction tbl rule: bits_apart.induct)
  case (2 k u tbl)
  then show ?case by (auto simp: list_all_iff and.commute)
qed simp

lemma or_all_and: "(or_all vs AND v \<noteq> 0) = (\<exists>w \<in> set vs. w AND v \<noteq> 0)"
proof (induction vs)
  case (Cons w vs)
  have "((w OR or_all vs) AND v = 0) = (w AND v = 0 \<and> or_all vs AND v = 0)"
    by (simp add: bit.conj_disj_distrib2 or_eq_0_iff)
  then show ?case using Cons by (simp add: or_all_def)
qed (simp add: or_all_def)

lemma codes_unambiguous: "list_all unambiguous code_tables"
  by (simp add: code_tables_def code_table_defs xtf_consts)

lemma flags_apart: "list_all (\<lambda>tbl. unambiguous tbl \<and> bits_apart tbl) flag_tables"
  by (simp add: flag_tables_def flag_table_defs)

lemma gntst_distinct: "distinct GNTTABOP_error_msgs \<and> ''unknown'' \<notin> set GNTTABOP_error_msgs"
  by (simp add: GNTTABOP_error_msgs_def)

text \<open>
  The numbers of the hypervisor interface can be read back. In every table of operations, states and
  errors a name has the value that the header gives it and that value stands for no other name of the
  table. In every table of flags, whatever list of its flags is ORed, testing the result for a flag of
  the table tells whether that flag is in the list.
\<close>

lemma numbers_read_back:
  assumes "tbl \<in> set (code_tables @ flag_tables)" "(n, v) \<in> set tbl" "set flags \<subseteq> set tbl"
  shows "value_of tbl n = Some v \<and> symbol_of tbl v = Some n
    \<and> (tbl \<in> set flag_tables \<longrightarrow> (or_all (map snd flags) AND v \<noteq> 0) = ((n, v) \<in> set flags))"
proof (intro conjI impI)
  have u: "unambiguous tbl" using assms(1) codes_unambiguous flags_apart by (auto simp: list_all_iff)
  then have d: "distinct (map fst tbl)" "distinct (map snd tbl)" using unambiguous_distinct by blast+
  show "value_of tbl n = Some v" using d(1) assms(2) by (simp add: value_of_def)
  have "distinct (map fst (map prod.swap tbl))" using d(2) by (simp add: comp_def)
  moreover have "(v, n) \<in> set (map prod.swap tbl)" using assms(2) by force
  ultimately show "symbol_of tbl v = Some n" by (simp add: symbol_of_def del: set_map list.set_map)
next
  assume "tbl \<in> set flag_tables"
  then have b: "bits_apart tbl" using flags_apart by (simp add: list_all_iff)
  show "(or_all (map snd flags) AND v \<noteq> 0) = ((n, v) \<in> set flags)"
  proof
    assume "or_all (map snd flags) AND v \<noteq> 0"
    then obtain m w where mw: "(m, w) \<in> set flags" "w AND v \<noteq> 0" unfolding or_all_and by auto
    then have "(m, w) = (n, v)" using bits_apart_pair [OF b, of m w n v] assms(2,3) by blast
    then show "(n, v) \<in> set flags" using mw(1) by simp
  next
    assume f: "(n, v) \<in> set flags"
    then have "v AND v \<noteq> 0" using bits_apart_nonzero [OF b assms(2)] by simp
    then show "or_all (map snd flags) AND v \<noteq> 0" unfolding or_all_and using f by force
  qed
qed

lemma numbers_read_back_witness:
  "value_of gtf_flags ''GTF_reading'' = Some 8 \<and> symbol_of gtf_flags 8 = Some ''GTF_reading''
    \<and> or_all [4, 8] AND 8 \<noteq> (0 :: int)"
  using numbers_read_back [of gtf_flags "''GTF_reading''" 8 "[(''GTF_readonly'', 4), (''GTF_reading'', 8)]"]
  by (simp add: flag_tables_def gtf_flags_def)

text \<open>
  \<open>gntst_strerror\<close> has a message of its own for every status of \<open>grant_table.h\<close>, and answers
  ``unknown'' for every other \<open>int\<close>, positive ones and the most negative one included: a message other
  than ``unknown'' comes from exactly one number, and that number is in the table.
\<close>

lemma gntst_messages_exact:
  assumes "- (2 ^ 31) \<le> err" "err < 2 ^ 31" "- (2 ^ 31) \<le> err'" "err' < 2 ^ 31"
  shows "(gntst_strerror err \<noteq> ''unknown'') = (err \<in> snd ` set gntst_values)
    \<and> (gntst_strerror err = gntst_strerror err' \<longrightarrow> err = err' \<or> gntst_strerror err = ''unknown'')"
proof -
  have tbl: "(e \<in> snd ` set gntst_values) = (- 12 \<le> e \<and> e \<le> 0)" for e :: int
    unfolding gntst_values_def by (auto, presburger)
  have known: "gntst_strerror e = GNTTABOP_error_msgs ! nat (- e) \<and> nat (- e) < length GNTTABOP_error_msgs"
    if "- 12 \<le> e" "e \<le> 0" for e
    using gntst_strerror_known [OF that] that by (simp add: length_error_msgs)
  have msg: "gntst_strerror e \<noteq> ''unknown''" if "- 12 \<le> e" "e \<le> 0" for e
    using known [OF that] gntst_distinct nth_mem by metis
  have out: "gntst_strerror e = ''unknown''" if "- (2 ^ 31) \<le> e" "e < 2 ^ 31" "\<not> (- 12 \<le> e \<and> e \<le> 0)" for e
    using gntst_strerror_unknown [OF that(1,2)] that(3) by auto
  have "err = err'" if "gntst_strerror err = gntst_strerror err'" "gntst_strerror err \<noteq> ''unknown''"
  proof -
    have "- 12 \<le> err" "err \<le> 0" "- 12 \<le> err'" "err' \<le> 0" using that out assms by (metis, metis, metis, metis)
    then show ?thesis
      using known [of err] known [of err'] that(1) gntst_distinct nth_eq_iff_index_eq [of GNTTABOP_error_msgs] by fastforce
  qed
  then show ?thesis using msg out assms(1,2) tbl by blast
qed

lemma gntst_messages_exact_witness:
  "gntst_strerror (- 3) \<noteq> ''unknown'' \<and> gntst_strerror 3 = ''unknown''"
  using gntst_messages_exact [of "- 3" 3] gntst_messages_exact [of 3 "- 3"] by (simp add: gntst_values_def)

end
