(* ===== verification/X86_Entry.thy ===== *)
theory X86_Entry imports
  C_Layout
  X86_Traps
begin

text \<open>
  The exception entry points of \<open>arch/x86/entry_32.S\<close> and \<open>entry_64.S\<close>, with the macros \<open>SAVE_ALL\<close> and
  \<open>RESTORE_ALL\<close>: programs over the general registers and the stack. The stub makes a \<open>struct cpu_regs\<close> on
  the stack for \<open>do_exception\<close>; that the C layout of the structure finds each register where the stub
  pushed it is what this theory is about, and that the way back restores what the interrupted code
  had, with the changes that the handlers of the exception table make.
\<close>

section \<open>Registers and instructions\<close>

datatype reg = RAX | RBX | RCX | RDX | RSI | RDI | RBP | R8 | R9 | R10 | R11 | R12 | R13 | R14 | R15

text \<open>
  The words on the stack, the last one pushed first, and the address of that word in \<open>sp\<close>. On a 32-bit
  build the registers have 32 bits.
\<close>

record cpu_context =
  gpr :: "reg \<Rightarrow> u64"
  sel_ds :: u16
  sel_es :: u16
  sp :: u64
  stack :: "u64 list"

datatype instr =
    PUSH reg
  | PUSHI u64
  | POP reg
  | PUSH_DS
  | PUSH_ES
  | POP_DS
  | POP_ES
  | MOVL_4SP u32
  | MOV_DS_ES u16
  | ADD_SP nat

text \<open>\<open>movl $i, 4(%rsp)\<close> changes the upper half of the word on top; \<open>add $n, %sp\<close> drops words.\<close>

definition push_word :: "env \<Rightarrow> u64 \<Rightarrow> cpu_context \<Rightarrow> cpu_context" where
  "push_word e w c = c\<lparr>sp := sp c - of_nat (word_bytes e), stack := to_ulong e w # stack c\<rparr>"

definition pop_word :: "env \<Rightarrow> cpu_context \<Rightarrow> (u64 \<times> cpu_context) option" where
  "pop_word e c =
     (case stack c of
        [] \<Rightarrow> None
      | w # ws \<Rightarrow> Some (w, c\<lparr>sp := sp c + of_nat (word_bytes e), stack := ws\<rparr>))"

fun step :: "env \<Rightarrow> instr \<Rightarrow> cpu_context \<Rightarrow> cpu_context option" where
  "step e (PUSH r) c = Some (push_word e (gpr c r) c)"
| "step e (PUSHI i) c = Some (push_word e i c)"
| "step e (POP r) c = map_option (\<lambda>(w, c). c\<lparr>gpr := (gpr c)(r := w)\<rparr>) (pop_word e c)"
| "step e PUSH_DS c = Some (push_word e (ucast (sel_ds c)) c)"
| "step e PUSH_ES c = Some (push_word e (ucast (sel_es c)) c)"
| "step e POP_DS c = map_option (\<lambda>(w, c). c\<lparr>sel_ds := ucast w\<rparr>) (pop_word e c)"
| "step e POP_ES c = map_option (\<lambda>(w, c). c\<lparr>sel_es := ucast w\<rparr>) (pop_word e c)"
| "step e (MOVL_4SP i) c =
     (case stack c of
        [] \<Rightarrow> None
      | w # ws \<Rightarrow> Some (c\<lparr>stack := (take_bit 32 w OR push_bit 32 (ucast i)) # ws\<rparr>))"
| "step e (MOV_DS_ES s) c = Some (c\<lparr>sel_ds := s, sel_es := s\<rparr>)"
| "step e (ADD_SP n) c =
     (if n \<le> length (stack c)
      then Some (c\<lparr>sp := sp c + of_nat (n * word_bytes e), stack := drop n (stack c)\<rparr>) else None)"

fun run :: "env \<Rightarrow> instr list \<Rightarrow> cpu_context \<Rightarrow> cpu_context option" where
  "run e [] c = Some c"
| "run e (i # is1) c = (case step e i c of None \<Rightarrow> None | Some c1 \<Rightarrow> run e is1 c1)"

section \<open>The stubs\<close>

definition SAVE_ALL :: "env \<Rightarrow> instr list" where
  "SAVE_ALL e =
     map PUSH
       (if CONFIG_64BIT e
        then [RDI, RSI, RDX, RCX, RAX, R8, R9, R10, R11, RBX, RBP, R12, R13, R14, R15]
        else [RDI, RSI, RDX, RCX, RAX, RBX, RBP])"

definition RESTORE_ALL :: "env \<Rightarrow> instr list" where
  "RESTORE_ALL e =
     map POP
       (if CONFIG_64BIT e
        then [R15, R14, R13, R12, RBP, RBX, R11, R10, R9, R8, RAX, RCX, RDX, RSI, RDI]
        else [RBP, RBX, RAX, RCX, RDX, RSI, RDI])"

text \<open>\<open>env_ADJUST_FRAME\<close>: Xen enters a 64-bit PV kernel with \<open>rcx\<close> and \<open>r11\<close> on the stack.\<close>

definition env_ADJUST_FRAME :: "env \<Rightarrow> instr list" where
  "env_ADJUST_FRAME e = (if CONFIG_PV e then [POP RCX, POP R11] else [])"

definition exception_entry :: "env \<Rightarrow> nat \<Rightarrow> instr list" where
  "exception_entry e vec =
     (if CONFIG_64BIT e
      then env_ADJUST_FRAME e @ (if bit X86_EXC_HAVE_EC vec then [] else [PUSHI 0]) @ [MOVL_4SP (of_nat vec)]
      else (if bit X86_EXC_HAVE_EC vec then [] else [PUSHI 0]) @ [PUSHI (of_nat vec)])"

text \<open>\<open>handle_exception\<close> up to the call of \<open>do_exception\<close>, and from there to \<open>iret\<close>.\<close>

definition handle_exception :: "env \<Rightarrow> instr list" where
  "handle_exception e =
     (if CONFIG_64BIT e then SAVE_ALL e
      else [PUSH_ES, PUSH_DS] @ SAVE_ALL e @ [MOV_DS_ES (ucast (KERN_DS e))])"

definition handle_exception_exit :: "env \<Rightarrow> instr list" where
  "handle_exception_exit e =
     (if CONFIG_64BIT e then RESTORE_ALL e @ [ADD_SP 1]
      else RESTORE_ALL e @ [POP_DS, POP_ES, ADD_SP 2])"


text \<open>
  The entry points of event channels, \<open>syscall\<close> and \<open>sysenter\<close> up to the calls of \<open>do_evtchn\<close>, \<open>do_syscall\<close> and
  \<open>do_sysenter\<close>; the last two exist in PV builds only.
\<close>

definition pseudo_entry :: "env \<Rightarrow> u32 \<Rightarrow> instr list" where
  "pseudo_entry e metadata =
     (if CONFIG_64BIT e
      then env_ADJUST_FRAME e @ [PUSHI 0, MOVL_4SP metadata] @ SAVE_ALL e
      else [PUSHI 0, PUSHI (ucast metadata), PUSH_ES, PUSH_DS] @ SAVE_ALL e @ [MOV_DS_ES (ucast (KERN_DS e))])"

definition entry_EVTCHN :: "env \<Rightarrow> instr list" where "entry_EVTCHN e = pseudo_entry e 0x200"
definition entry_SYSCALL :: "env \<Rightarrow> instr list" where "entry_SYSCALL e = pseudo_entry e 0x100"
definition entry_SYSENTER :: "env \<Rightarrow> instr list" where "entry_SYSENTER e = pseudo_entry e 0x200"

section \<open>struct cpu_regs\<close>

text \<open>\<open>DECL_REG\<close> and \<open>_DECL_REG\<close>; the anonymous union carries the name of the \<open>unsigned long\<close> in it.\<close>

definition DECL_REG :: "env \<Rightarrow> string \<Rightarrow> string \<times> ctype" where
  "DECL_REG e n =
     (n, CUnion ((if CONFIG_64BIT e then [(''r'' @ n, uint64)] else []) @ [(''e'' @ n, uint32), (n, CLong)]))"

definition DECL_REG_sp :: "env \<Rightarrow> string \<times> ctype" where
  "DECL_REG_sp e =
     (''_sp'', CUnion ((if CONFIG_64BIT e then [(''_rsp'', uint64)] else []) @ [(''_esp'', uint32), (''_sp'', CLong)]))"

definition cpu_regs_t :: "env \<Rightarrow> ctype" where
  "cpu_regs_t e = CStruct
     (if CONFIG_64BIT e
      then [(''r15'', uint64), (''r14'', uint64), (''r13'', uint64), (''r12'', uint64), DECL_REG e ''bp'', DECL_REG e ''bx'',
            (''r11'', uint64), (''r10'', uint64), (''r9'', uint64), (''r8'', uint64), DECL_REG e ''ax'', DECL_REG e ''cx'',
            DECL_REG e ''dx'', DECL_REG e ''si'', DECL_REG e ''di'', (''error_code'', uint32), (''entry_vector'', uint32),
            DECL_REG e ''ip'', (''cs'', uint16), (''_pad1'', CArray 3 uint16), DECL_REG e ''flags'', DECL_REG_sp e,
            (''_ss'', uint16), (''_pad0'', CArray 3 uint16)]
      else [DECL_REG e ''bp'', DECL_REG e ''bx'', DECL_REG e ''ax'', DECL_REG e ''cx'', DECL_REG e ''dx'', DECL_REG e ''si'',
            DECL_REG e ''di'', (''ds'', uint16), ([], uint16), (''es'', uint16), ([], uint16),
            (''entry_vector'', uint32), (''error_code'', uint32), DECL_REG e ''ip'', (''cs'', uint16), (''_pad1'', CArray 1 uint16),
            DECL_REG e ''flags'', DECL_REG_sp e, (''_ss'', uint16), (''_pad0'', CArray 1 uint16)])"

text \<open>The stack as the bytes from \<open>sp\<close> up, and a member of the structure there as a number.\<close>

fun le_bytes :: "nat \<Rightarrow> u64 \<Rightarrow> u8 list" where
  "le_bytes 0 w = []"
| "le_bytes (Suc n) w = ucast w # le_bytes n (drop_bit 8 w)"

fun word_of_bytes :: "u8 list \<Rightarrow> u64" where
  "word_of_bytes [] = 0"
| "word_of_bytes (b # bs) = ucast b OR push_bit 8 (word_of_bytes bs)"

definition stack_bytes :: "env \<Rightarrow> u64 list \<Rightarrow> u8 list" where
  "stack_bytes e ws = concat (map (le_bytes (word_bytes e)) ws)"

definition peek :: "env \<Rightarrow> string list \<Rightarrow> u8 list \<Rightarrow> u64 option" where
  "peek e path bs = map_option word_of_bytes (load_member e (cpu_regs_t e) path bs)"

text \<open>What C code sees through a pointer to the structure.\<close>

definition regs_at :: "env \<Rightarrow> u8 list \<Rightarrow> cpu_regs option" where
  "regs_at e bs =
     do {
       ax \<leftarrow> peek e [''ax'', ''ax''] bs; bx \<leftarrow> peek e [''bx'', ''bx''] bs; cx \<leftarrow> peek e [''cx'', ''cx''] bs;
       dx \<leftarrow> peek e [''dx'', ''dx''] bs; si \<leftarrow> peek e [''si'', ''si''] bs; di \<leftarrow> peek e [''di'', ''di''] bs;
       bp \<leftarrow> peek e [''bp'', ''bp''] bs;
       high \<leftarrow> (if CONFIG_64BIT e
                then those (map (\<lambda>r. peek e [r] bs) [''r8'', ''r9'', ''r10'', ''r11'', ''r12'', ''r13'', ''r14'', ''r15''])
                else Some []);
       (ds, es) \<leftarrow> (if CONFIG_64BIT e then Some (0, 0)
                   else do { d \<leftarrow> peek e [''ds''] bs; s \<leftarrow> peek e [''es''] bs; Some (d, s) });
       vec \<leftarrow> peek e [''entry_vector''] bs; ec \<leftarrow> peek e [''error_code''] bs; ip \<leftarrow> peek e [''ip'', ''ip''] bs;
       cs \<leftarrow> peek e [''cs''] bs; flags \<leftarrow> peek e [''flags'', ''flags''] bs; sp \<leftarrow> peek e [''_sp'', ''_sp''] bs;
       ss \<leftarrow> peek e [''_ss''] bs;
       Some \<lparr>regs_ax = ax, regs_bx = bx, regs_cx = cx, regs_dx = dx, regs_si = si, regs_di = di, regs_bp = bp,
         regs_r8_r15 = high, regs_ds = ucast ds, regs_es = ucast es, entry_vector = ucast vec, error_code = ucast ec,
         regs_ip = ip, regs_cs = ucast cs, regs_flags = flags, regs_sp = sp, regs_ss = ucast ss\<rparr>
     }"

section \<open>Reading words of the stack\<close>

lemma length_le_bytes [simp]: "length (le_bytes n w) = n"
  by (induction n w rule: le_bytes.induct) auto

lemma drop_le_bytes: "drop k (le_bytes n w) = le_bytes (n - k) (drop_bit (8 * k) w)"
proof (induction k arbitrary: n w)
  case (Suc k)
  show ?case by (cases n) (simp_all add: Suc drop_bit_drop_bit add.commute)
qed simp

lemma take_le_bytes: "take k (le_bytes n w) = le_bytes (min k n) w"
proof (induction k arbitrary: n w)
  case (Suc k)
  show ?case by (cases n) (simp_all add: Suc)
qed simp

lemma word_of_le_bytes: "n \<le> 8 \<Longrightarrow> word_of_bytes (le_bytes n w) = take_bit (8 * n) w"
proof (induction n arbitrary: w)
  case (Suc n)
  then have IH: "word_of_bytes (le_bytes n (drop_bit 8 w)) = take_bit (8 * n) (drop_bit 8 w)" by simp
  have "ucast (ucast w :: u8) OR push_bit 8 (take_bit (8 * n) (drop_bit 8 w)) = take_bit (8 + 8 * n) w"
    using Suc.prems by (intro bit_word_eqI) (auto simp: bit_simps)
  then show ?case by (simp add: IH)
qed simp

lemma length_stack_bytes: "length (stack_bytes e ws) = word_bytes e * length ws"
  by (induction ws) (simp_all add: stack_bytes_def)

lemma drop_stack_bytes: "i \<le> length ws \<Longrightarrow> drop (word_bytes e * i) (stack_bytes e ws) = stack_bytes e (drop i ws)"
proof (induction ws arbitrary: i)
  case (Cons w ws)
  then show ?case by (cases i) (simp_all add: stack_bytes_def)
qed simp

lemma take_stack_word:
  assumes "i < length ws" "k + n \<le> word_bytes e"
  shows "take n (drop (word_bytes e * i + k) (stack_bytes e ws)) = le_bytes n (drop_bit (8 * k) (ws ! i))"
proof -
  have "drop (word_bytes e * i + k) (stack_bytes e ws) = drop k (stack_bytes e (drop i ws))"
    using drop_stack_bytes [of i ws e] assms(1) by (simp add: add.commute flip: drop_drop)
  also have "drop i ws = ws ! i # drop (Suc i) ws" using assms(1) by (simp add: Cons_nth_drop_Suc)
  finally show ?thesis using assms(2) by (simp add: stack_bytes_def drop_le_bytes take_le_bytes min_absorb1)
qed

lemma peek_word:
  assumes "offset_of e (cpu_regs_t e) path = Some (word_bytes e * i + k, t1)"
    and "i < length ws" "k + size_of e t1 \<le> word_bytes e"
  shows "peek e path (stack_bytes e ws) = Some (take_bit (8 * size_of e t1) (drop_bit (8 * k) (ws ! i)))"
proof -
  have "word_bytes e * i + k + size_of e t1 \<le> word_bytes e * Suc i" using assms(3) by simp
  also have "\<dots> \<le> word_bytes e * length ws" using assms(2) by (intro mult_le_mono2) simp
  finally have le: "word_bytes e * i + k + size_of e t1 \<le> length (stack_bytes e ws)" by (simp add: length_stack_bytes)
  have "word_bytes e \<le> 8" by (cases e) (simp_all add: word_bytes_def)
  then have "word_of_bytes (le_bytes (size_of e t1) (drop_bit (8 * k) (ws ! i))) = take_bit (8 * size_of e t1) (drop_bit (8 * k) (ws ! i))"
    using assms(3) by (intro word_of_le_bytes) simp
  then show ?thesis
    using take_stack_word [OF assms(2,3)] le assms(1) by (simp add: peek_def load_member_def)
qed


lemma peek_at:
  assumes "offset_of e (cpu_regs_t e) path = Some (off, t1)"
    and "off div word_bytes e < length ws" "off mod word_bytes e + size_of e t1 \<le> word_bytes e"
  shows "peek e path (stack_bytes e ws)
    = Some (take_bit (8 * size_of e t1) (drop_bit (8 * (off mod word_bytes e)) (ws ! (off div word_bytes e))))"
  using peek_word [of e path "off div word_bytes e" "off mod word_bytes e"] assms by simp

lemma offsets_64:
  assumes "CONFIG_64BIT e"
  shows
    "offset_of e (cpu_regs_t e) [''r15''] = Some (0, uint64)"
    "offset_of e (cpu_regs_t e) [''r14''] = Some (8, uint64)"
    "offset_of e (cpu_regs_t e) [''r13''] = Some (16, uint64)"
    "offset_of e (cpu_regs_t e) [''r12''] = Some (24, uint64)"
    "offset_of e (cpu_regs_t e) [''bp'', ''bp''] = Some (32, CLong)"
    "offset_of e (cpu_regs_t e) [''bx'', ''bx''] = Some (40, CLong)"
    "offset_of e (cpu_regs_t e) [''r11''] = Some (48, uint64)"
    "offset_of e (cpu_regs_t e) [''r10''] = Some (56, uint64)"
    "offset_of e (cpu_regs_t e) [''r9''] = Some (64, uint64)"
    "offset_of e (cpu_regs_t e) [''r8''] = Some (72, uint64)"
    "offset_of e (cpu_regs_t e) [''ax'', ''ax''] = Some (80, CLong)"
    "offset_of e (cpu_regs_t e) [''cx'', ''cx''] = Some (88, CLong)"
    "offset_of e (cpu_regs_t e) [''dx'', ''dx''] = Some (96, CLong)"
    "offset_of e (cpu_regs_t e) [''si'', ''si''] = Some (104, CLong)"
    "offset_of e (cpu_regs_t e) [''di'', ''di''] = Some (112, CLong)"
    "offset_of e (cpu_regs_t e) [''error_code''] = Some (120, uint32)"
    "offset_of e (cpu_regs_t e) [''entry_vector''] = Some (124, uint32)"
    "offset_of e (cpu_regs_t e) [''ip'', ''ip''] = Some (128, CLong)"
    "offset_of e (cpu_regs_t e) [''cs''] = Some (136, uint16)"
    "offset_of e (cpu_regs_t e) [''flags'', ''flags''] = Some (144, CLong)"
    "offset_of e (cpu_regs_t e) [''_sp'', ''_sp''] = Some (152, CLong)"
    "offset_of e (cpu_regs_t e) [''_ss''] = Some (160, uint16)"
  using assms by (auto simp: cpu_regs_t_def DECL_REG_def DECL_REG_sp_def layout_simps)

lemma offsets_32:
  assumes "\<not> CONFIG_64BIT e"
  shows
    "offset_of e (cpu_regs_t e) [''bp'', ''bp''] = Some (0, CLong)"
    "offset_of e (cpu_regs_t e) [''bx'', ''bx''] = Some (4, CLong)"
    "offset_of e (cpu_regs_t e) [''ax'', ''ax''] = Some (8, CLong)"
    "offset_of e (cpu_regs_t e) [''cx'', ''cx''] = Some (12, CLong)"
    "offset_of e (cpu_regs_t e) [''dx'', ''dx''] = Some (16, CLong)"
    "offset_of e (cpu_regs_t e) [''si'', ''si''] = Some (20, CLong)"
    "offset_of e (cpu_regs_t e) [''di'', ''di''] = Some (24, CLong)"
    "offset_of e (cpu_regs_t e) [''ds''] = Some (28, uint16)"
    "offset_of e (cpu_regs_t e) [''es''] = Some (32, uint16)"
    "offset_of e (cpu_regs_t e) [''entry_vector''] = Some (36, uint32)"
    "offset_of e (cpu_regs_t e) [''error_code''] = Some (40, uint32)"
    "offset_of e (cpu_regs_t e) [''ip'', ''ip''] = Some (44, CLong)"
    "offset_of e (cpu_regs_t e) [''cs''] = Some (48, uint16)"
    "offset_of e (cpu_regs_t e) [''flags'', ''flags''] = Some (52, CLong)"
    "offset_of e (cpu_regs_t e) [''_sp'', ''_sp''] = Some (56, CLong)"
    "offset_of e (cpu_regs_t e) [''_ss''] = Some (60, uint16)"
  using assms by (auto simp: cpu_regs_t_def DECL_REG_def DECL_REG_sp_def layout_simps)

lemma regs_at_64:
  assumes "CONFIG_64BIT e" "21 \<le> length ws"
  shows "regs_at e (stack_bytes e ws) =
    Some \<lparr>regs_ax = ws ! 10, regs_bx = ws ! 5, regs_cx = ws ! 11, regs_dx = ws ! 12, regs_si = ws ! 13, regs_di = ws ! 14,
      regs_bp = ws ! 4, regs_r8_r15 = [ws ! 9, ws ! 8, ws ! 7, ws ! 6, ws ! 3, ws ! 2, ws ! 1, ws ! 0], regs_ds = 0, regs_es = 0,
      entry_vector = ucast (take_bit 32 (drop_bit 32 (ws ! 15))), error_code = ucast (take_bit 32 (ws ! 15)), regs_ip = ws ! 16,
      regs_cs = ucast (take_bit 16 (ws ! 17)),
      regs_flags = ws ! 18, regs_sp = ws ! 19, regs_ss = ucast (take_bit 16 (ws ! 20))\<rparr>"
proof -
  have w: "word_bytes e = 8" using assms(1) by (simp add: word_bytes_def)
  have full: "take_bit 64 v = v" for v :: u64 by (simp add: take_bit_word_eq_self)
  have ne: "ws \<noteq> []" using assms(2) by auto
  note at = offsets_64 [OF assms(1), THEN peek_at, where ws = ws, simplified w]
  show ?thesis using assms unfolding regs_at_def by (simp add: at w full ne del: CONFIG_64BIT.simps)
qed

lemma regs_at_32:
  assumes "\<not> CONFIG_64BIT e" "16 \<le> length ws"
  shows "regs_at e (stack_bytes e ws) =
    Some \<lparr>regs_ax = take_bit 32 (ws ! 2), regs_bx = take_bit 32 (ws ! 1), regs_cx = take_bit 32 (ws ! 3),
      regs_dx = take_bit 32 (ws ! 4), regs_si = take_bit 32 (ws ! 5), regs_di = take_bit 32 (ws ! 6),
      regs_bp = take_bit 32 (ws ! 0), regs_r8_r15 = [], regs_ds = ucast (take_bit 16 (ws ! 7)), regs_es = ucast (take_bit 16 (ws ! 8)),
      entry_vector = ucast (take_bit 32 (ws ! 9)), error_code = ucast (take_bit 32 (ws ! 10)), regs_ip = take_bit 32 (ws ! 11),
      regs_cs = ucast (take_bit 16 (ws ! 12)), regs_flags = take_bit 32 (ws ! 13), regs_sp = take_bit 32 (ws ! 14),
      regs_ss = ucast (take_bit 16 (ws ! 15))\<rparr>"
proof -
  have w: "word_bytes e = 4" using assms(1) by (simp add: word_bytes_def)
  have ne: "ws \<noteq> []" using assms(2) by auto
  note at = offsets_32 [OF assms(1), THEN peek_at, where ws = ws, simplified w]
  show ?thesis using assms unfolding regs_at_def by (simp add: at w ne del: CONFIG_64BIT.simps)
qed

section \<open>Delivery of an exception\<close>

text \<open>
  The frame that the processor or Xen makes, in the order of the tables in the two files: \<open>ss\<close> and \<open>sp\<close>
  (in a 32-bit build only when the stack was switched), the flags, \<open>cs\<close> with Xen's upcall mask above it, the
  address of the instruction, the error code for the vectors that have one, and for a 64-bit PV kernel
  the values of \<open>r11\<close> and \<open>rcx\<close>, which Xen's \<open>sysret\<close> overwrites with \<open>junk\<close>.
\<close>

record iret_frame =
  fr_ip :: u64
  fr_cs :: u64
  fr_flags :: u64
  fr_sp :: u64
  fr_ss :: u64

definition frame_words :: "env \<Rightarrow> bool \<Rightarrow> iret_frame \<Rightarrow> u64 list" where
  "frame_words e sw fr =
     [fr_ip fr, fr_cs fr, fr_flags fr] @ (if CONFIG_64BIT e \<or> sw then [fr_sp fr, fr_ss fr] else [])"

definition deliver :: "env \<Rightarrow> bool \<Rightarrow> u32 option \<Rightarrow> iret_frame \<Rightarrow> u64 \<times> u64 \<Rightarrow> cpu_context \<Rightarrow> cpu_context" where
  "deliver e sw ec fr junk c =
     (let ws = (if e = PV64 then [gpr c RCX, gpr c R11] else [])
             @ (case ec of None \<Rightarrow> [] | Some x \<Rightarrow> [ucast x]) @ frame_words e sw fr
      in c\<lparr>gpr := (if e = PV64 then (gpr c)(RCX := fst junk, R11 := snd junk) else gpr c),
           sp := sp c - of_nat (word_bytes e * length ws), stack := ws @ stack c\<rparr>)"

text \<open>Registers that fit the build's word.\<close>

definition fits :: "env \<Rightarrow> u64 \<Rightarrow> bool" where
  "fits e w \<longleftrightarrow> to_ulong e w = w"

definition context_fits :: "env \<Rightarrow> cpu_context \<Rightarrow> bool" where
  "context_fits e c \<longleftrightarrow> (\<forall>r. fits e (gpr c r)) \<and> fits e (sp c) \<and> (CONFIG_64BIT e \<or> 2 \<le> length (stack c))"

definition frame_fits :: "env \<Rightarrow> iret_frame \<Rightarrow> bool" where
  "frame_fits e fr \<longleftrightarrow>
     fits e (fr_ip fr) \<and> fits e (fr_cs fr) \<and> fits e (fr_flags fr) \<and> fits e (fr_sp fr) \<and> fits e (fr_ss fr)"

section \<open>The stack pointer and segment of the interrupted code\<close>

text \<open>\<open>addr\<close> is the address of the structure, \<open>cs\<close> and \<open>ss\<close> are the kernel's own.\<close>

definition cpu_regs_sp :: "env \<Rightarrow> u32 \<Rightarrow> u64 \<Rightarrow> cpu_regs \<Rightarrow> u64" where
  "cpu_regs_sp e cs addr regs =
     (if CONFIG_64BIT e then regs_sp regs
      else if ucast (regs_cs regs) AND 3 > cs AND 3 then regs_sp regs
      else to_ulong e (addr + of_nat (case offset_of e (cpu_regs_t e) [''_sp''] of Some (off, t) \<Rightarrow> off | None \<Rightarrow> 0)))"

definition cpu_regs_ss :: "env \<Rightarrow> u32 \<Rightarrow> u32 \<Rightarrow> cpu_regs \<Rightarrow> u32" where
  "cpu_regs_ss e cs ss regs =
     (if CONFIG_64BIT e then ucast (regs_ss regs)
      else if ucast (regs_cs regs) AND 3 > cs AND 3 then ucast (regs_ss regs)
      else ss)"

section \<open>What the stub makes\<close>

definition entry_words :: "env \<Rightarrow> nat \<Rightarrow> u32 option \<Rightarrow> cpu_context \<Rightarrow> u64 list" where
  "entry_words e vec ec c =
     (let ec' = (case ec of None \<Rightarrow> 0 | Some x \<Rightarrow> ucast x)
      in if CONFIG_64BIT e
         then map (gpr c) [R15, R14, R13, R12, RBP, RBX, R11, R10, R9, R8, RAX, RCX, RDX, RSI, RDI]
            @ [take_bit 32 ec' OR push_bit 32 (ucast (of_nat vec :: u32))]
         else map (gpr c) [RBP, RBX, RAX, RCX, RDX, RSI, RDI]
            @ [ucast (sel_ds c), ucast (sel_es c), of_nat vec, ec'])"

lemma run_append: "run e (is1 @ is2) c = (case run e is1 c of None \<Rightarrow> None | Some c1 \<Rightarrow> run e is2 c1)"
  by (induction is1 arbitrary: c) (simp_all split: option.split)

lemma to_ulong_64 [simp]: "to_ulong PV64 w = w" "to_ulong HVM64 w = w"
  by (simp_all add: to_ulong_def take_bit_word_eq_self)

lemma fits_ulong: "fits e w \<Longrightarrow> to_ulong e w = w"
  by (simp add: fits_def)

lemma fits_ucast: "fits e (ucast (x :: u32))" "fits e (ucast (s :: u16))"
  unfolding fits_def to_ulong_def by (rule bit_word_eqI; auto simp: bit_simps dest: bit_imp_le_length)+

lemma vector_word: "vec < 2 ^ 32 \<Longrightarrow> ucast (of_nat vec :: u32) = (of_nat vec :: u64)"
  by (simp add: unsigned_of_nat take_bit_nat_eq_self)

lemma fits_of_nat: "v < 2 ^ 32 \<Longrightarrow> fits e (of_nat v)"
  by (simp add: fits_def to_ulong_def take_bit_nat_eq_self flip: of_nat_take_bit)

lemma entry_run:
  assumes "vec < 2 ^ 32" and "(ec \<noteq> None) = bit X86_EXC_HAVE_EC vec" "context_fits e c"
  shows "\<exists>c1. run e (exception_entry e vec @ handle_exception e) (deliver e sw ec fr junk c) = Some c1
    \<and> stack c1 = entry_words e vec ec c @ frame_words e sw fr @ stack c
    \<and> sp c1 = sp c - of_nat (word_bytes e * length (entry_words e vec ec c @ frame_words e sw fr))
    \<and> (CONFIG_64BIT e \<longrightarrow> sel_ds c1 = sel_ds c \<and> sel_es c1 = sel_es c)"
proof (cases "CONFIG_64BIT e")
  case True
  then have e: "e = PV64 \<or> e = HVM64" by simp
  have full: "take_bit 64 v = v" for v :: u64 by (simp add: take_bit_word_eq_self)
  from e show ?thesis
  proof
    assume e: "e = PV64"
    show ?thesis using assms(2) unfolding e
      by (cases ec) (simp_all add: exception_entry_def handle_exception_def SAVE_ALL_def env_ADJUST_FRAME_def deliver_def frame_words_def
        entry_words_def push_word_def pop_word_def word_bytes_def full vector_word [OF assms(1)])
  next
    assume e: "e = HVM64"
    show ?thesis using assms(2) unfolding e
      by (cases ec) (simp_all add: exception_entry_def handle_exception_def SAVE_ALL_def env_ADJUST_FRAME_def deliver_def frame_words_def
        entry_words_def push_word_def pop_word_def word_bytes_def full vector_word [OF assms(1)])
  qed
next
  case False
  have f: "to_ulong e (gpr c r) = gpr c r" for r using assms(3) by (simp add: context_fits_def fits_def)
  have w: "word_bytes e = 4" "\<not> CONFIG_64BIT e" "e \<noteq> PV64" using False by (simp_all add: word_bytes_def)
  have v: "to_ulong e (of_nat vec) = of_nat vec" using fits_of_nat assms(1) by (simp add: fits_def)
  have z: "to_ulong e 0 = 0" by (simp add: to_ulong_def)
  note u = fits_ucast [unfolded fits_def]
  show ?thesis using assms(2)
    by (cases ec) (simp_all add: exception_entry_def handle_exception_def SAVE_ALL_def deliver_def frame_words_def
        entry_words_def push_word_def w f v z u del: CONFIG_64BIT.simps)
qed

definition registers :: "env \<Rightarrow> reg list" where
  "registers e =
     [RAX, RBX, RCX, RDX, RSI, RDI, RBP] @ (if CONFIG_64BIT e then [R8, R9, R10, R11, R12, R13, R14, R15] else [])"

lemma split_stack: "n \<le> length ws \<Longrightarrow> ws = map ((!) ws) [0..<n] @ drop n ws"
proof -
  assume "n \<le> length ws"
  then have "map ((!) ws) [0..<n] = take n ws" by (intro nth_equalityI) auto
  then show ?thesis by simp
qed

lemma exit_64:
  assumes "CONFIG_64BIT e" "16 \<le> length (stack c)"
  shows "\<exists>c2. run e (handle_exception_exit e) c = Some c2
    \<and> map (gpr c2) [R15, R14, R13, R12, RBP, RBX, R11, R10, R9, R8, RAX, RCX, RDX, RSI, RDI] = take 15 (stack c)
    \<and> stack c2 = drop 16 (stack c) \<and> sp c2 = sp c + 128 \<and> sel_ds c2 = sel_ds c \<and> sel_es c2 = sel_es c"
proof -
  define ws where "ws = stack c"
  have w: "word_bytes e = 8" using assms(1) by (simp add: word_bytes_def)
  obtain xs where s: "stack c = map ((!) ws) [0..<16] @ xs"
    using split_stack [of 16 ws] assms(2) ws_def by blast
  have u: "[0..<16] = [0, Suc 0, 2, 3, 4, 5, 6, 7, 8, 9, 10, 11, 12, 13, 14, 15 :: nat]" by code_simp
  show ?thesis using assms(1)
    by (simp add: handle_exception_exit_def RESTORE_ALL_def pop_word_def s u w del: CONFIG_64BIT.simps)
qed

lemma exit_32:
  assumes "\<not> CONFIG_64BIT e" "11 \<le> length (stack c)"
  shows "\<exists>c2. run e (handle_exception_exit e) c = Some c2
    \<and> map (gpr c2) [RBP, RBX, RAX, RCX, RDX, RSI, RDI] = take 7 (stack c)
    \<and> stack c2 = drop 11 (stack c) \<and> sp c2 = sp c + 44
    \<and> sel_ds c2 = ucast (stack c ! 7) \<and> sel_es c2 = ucast (stack c ! 8)"
proof -
  define ws where "ws = stack c"
  have w: "word_bytes e = 4" using assms(1) by (simp add: word_bytes_def)
  obtain xs where s: "stack c = map ((!) ws) [0..<11] @ xs"
    using split_stack [of 11 ws] assms(2) ws_def by blast
  have u: "[0..<11] = [0, Suc 0, 2, 3, 4, 5, 6, 7, 8, 9, 10 :: nat]" by code_simp
  show ?thesis using assms(1)
    by (simp add: handle_exception_exit_def RESTORE_ALL_def pop_word_def s u w del: CONFIG_64BIT.simps)
qed

lemma exit_run:
  assumes "stack c1 = entry_words e vec ec c' @ ws" "CONFIG_64BIT e \<longrightarrow> sel_ds c1 = sel_ds c' \<and> sel_es c1 = sel_es c'"
  shows "\<exists>c2. run e (handle_exception_exit e) c1 = Some c2
    \<and> map (gpr c2) (registers e) = map (gpr c') (registers e) \<and> sel_ds c2 = sel_ds c' \<and> sel_es c2 = sel_es c'
    \<and> stack c2 = ws \<and> sp c2 = sp c1 + of_nat (word_bytes e * length (entry_words e vec ec c'))"
proof (cases "CONFIG_64BIT e")
  case True
  then have n: "length (entry_words e vec ec c') = 16" and w: "word_bytes e = 8" by (simp_all add: entry_words_def word_bytes_def)
  show ?thesis using exit_64 [OF True, of c1] True n assms
    by (auto simp: w registers_def entry_words_def Let_def simp del: CONFIG_64BIT.simps)
next
  case False
  then have n: "length (entry_words e vec ec c') = 11" and w: "word_bytes e = 4" by (simp_all add: entry_words_def word_bytes_def)
  have u: "ucast (ucast s :: u64) = s" for s :: u16 by (rule bit_word_eqI) (auto simp: bit_simps)
  show ?thesis using exit_32 [OF False, of c1] False n assms
    by (auto simp: w u registers_def entry_words_def Let_def simp del: CONFIG_64BIT.simps)
qed

section \<open>What the theorems say of entry and exit\<close>

lemma ucast_take_16 [simp]: "ucast (take_bit 16 (w :: u64)) = (ucast w :: u16)"
  by (rule bit_word_eqI) (auto simp: bit_simps dest: bit_imp_le_length)

lemma ucast_take_32 [simp]: "ucast (take_bit 32 (w :: u64)) = (ucast w :: u32)"
  by (rule bit_word_eqI) (auto simp: bit_simps dest: bit_imp_le_length)

lemma metadata_word:
  fixes v :: u32 and x :: u64
  shows "ucast (take_bit 32 (drop_bit 32 (take_bit 32 x OR push_bit 32 (ucast v)))) = v"
    and "ucast (take_bit 32 (take_bit 32 x OR push_bit 32 (ucast v))) = (ucast x :: u32)"
  by (rule bit_word_eqI; auto simp: bit_simps dest: bit_imp_le_length)+

lemma take_bit_add_word: "n \<le> 64 \<Longrightarrow> take_bit n (take_bit n a + b :: u64) = take_bit n (a + b)"
proof -
  assume n: "n \<le> 64"
  have plus: "uint (x + y) = take_bit 64 (uint x + uint y)" for x y :: u64
    by (simp add: uint_word_ariths(1) take_bit_eq_mod)
  have "uint (take_bit n (take_bit n a + b)) = take_bit n (take_bit 64 (take_bit n (uint a) + uint b))"
    by (simp only: unsigned_take_bit_eq plus)
  also have "\<dots> = take_bit n (take_bit n (uint a) + uint b)" using n by (simp add: min_absorb1)
  also have "\<dots> = take_bit n (uint a + uint b)" using take_bit_add [of n "take_bit n (uint a)" "uint b"] take_bit_add [of n "uint a" "uint b"] by simp
  also have "\<dots> = take_bit n (take_bit 64 (uint a + uint b))" using n by (simp add: min_absorb1)
  also have "\<dots> = uint (take_bit n (a + b))"
    by (simp only: unsigned_take_bit_eq plus)
  finally show ?thesis by (simp only: word_uint_eq_iff)
qed

lemma sp_round_trip: "fits e w \<Longrightarrow> to_ulong e (to_ulong e (w - x) + x) = w"
  by (simp add: fits_def to_ulong_def take_bit_add_word)

lemma entry_regs_64:
  assumes "CONFIG_64BIT e"
  shows "\<exists>R. regs_at e (stack_bytes e (entry_words e vec ec c @ frame_words e sw fr @ stk)) = Some R
    \<and> regs_ax R = gpr c RAX \<and> regs_bx R = gpr c RBX \<and> regs_cx R = gpr c RCX \<and> regs_dx R = gpr c RDX
    \<and> regs_si R = gpr c RSI \<and> regs_di R = gpr c RDI \<and> regs_bp R = gpr c RBP
    \<and> regs_r8_r15 R = map (gpr c) [R8, R9, R10, R11, R12, R13, R14, R15]
    \<and> entry_vector R = of_nat vec \<and> error_code R = (case ec of None \<Rightarrow> 0 | Some x \<Rightarrow> x)
    \<and> regs_ip R = fr_ip fr \<and> regs_cs R = ucast (fr_cs fr) \<and> regs_flags R = fr_flags fr
    \<and> regs_sp R = fr_sp fr \<and> regs_ss R = ucast (fr_ss fr)"
proof -
  define m :: u64 where "m = take_bit 32 (case ec of None \<Rightarrow> 0 | Some x \<Rightarrow> ucast x) OR push_bit 32 (ucast (of_nat vec :: u32))"
  have m: "ucast (take_bit 32 (drop_bit 32 m)) = (of_nat vec :: u32)" "ucast (take_bit 32 m) = (case ec of None \<Rightarrow> 0 | Some x \<Rightarrow> x)"
    unfolding m_def metadata_word by (simp_all split: option.split)
  show ?thesis using assms m unfolding entry_words_def Let_def m_def [symmetric]
    by (simp add: regs_at_64 frame_words_def del: CONFIG_64BIT.simps ucast_take_32)
qed

lemma entry_regs_32:
  assumes "\<not> CONFIG_64BIT e" "context_fits e c" "frame_fits e fr" "vec < 2 ^ 32" "sw \<or> 2 \<le> length stk"
  shows "\<exists>R. regs_at e (stack_bytes e (entry_words e vec ec c @ frame_words e sw fr @ stk)) = Some R
    \<and> regs_ax R = gpr c RAX \<and> regs_bx R = gpr c RBX \<and> regs_cx R = gpr c RCX \<and> regs_dx R = gpr c RDX
    \<and> regs_si R = gpr c RSI \<and> regs_di R = gpr c RDI \<and> regs_bp R = gpr c RBP \<and> regs_r8_r15 R = []
    \<and> regs_ds R = sel_ds c \<and> regs_es R = sel_es c
    \<and> entry_vector R = of_nat vec \<and> error_code R = (case ec of None \<Rightarrow> 0 | Some x \<Rightarrow> x)
    \<and> regs_ip R = fr_ip fr \<and> regs_cs R = ucast (fr_cs fr) \<and> regs_flags R = fr_flags fr
    \<and> (sw \<longrightarrow> regs_sp R = fr_sp fr \<and> regs_ss R = ucast (fr_ss fr))"
proof -
  have b: "BITS_PER_LONG e = 32" using assms(1) by simp
  have f: "take_bit 32 (gpr c r) = gpr c r" for r
    using assms(2) by (simp add: context_fits_def fits_def to_ulong_def b del: BITS_PER_LONG.simps CONFIG_64BIT.simps)
  have g: "take_bit 32 (fr_ip fr) = fr_ip fr" "take_bit 32 (fr_flags fr) = fr_flags fr" "take_bit 32 (fr_sp fr) = fr_sp fr"
    using assms(3) by (simp_all add: frame_fits_def fits_def to_ulong_def b del: BITS_PER_LONG.simps)
  have u: "ucast (ucast s :: u64) = s" for s :: u16
    by (rule bit_word_eqI) (auto simp: bit_simps)
  have v: "ucast (of_nat vec :: u64) = (of_nat vec :: u32)" by (simp flip: vector_word [OF assms(4)])
  have "\<exists>x y stk1. frame_words e sw fr @ stk = [fr_ip fr, fr_cs fr, fr_flags fr, x, y] @ stk1 \<and> (sw \<longrightarrow> x = fr_sp fr \<and> y = fr_ss fr)"
    using assms(1,5) by (cases sw) (auto simp: frame_words_def Suc_le_length_iff numeral_2_eq_2)
  then obtain x y stk1 where
    w: "frame_words e sw fr @ stk = [fr_ip fr, fr_cs fr, fr_flags fr, x, y] @ stk1" and x: "sw \<longrightarrow> x = fr_sp fr \<and> y = fr_ss fr"
    by blast
  show ?thesis unfolding w using assms(1) x
    by (auto simp: regs_at_32 entry_words_def f g u v simp del: CONFIG_64BIT.simps split: option.split)
qed


lemma pseudo_entries:
  "entry_EVTCHN e = exception_entry e 0x200 @ handle_exception e"
  "entry_SYSCALL e = exception_entry e 0x100 @ handle_exception e"
  "entry_SYSENTER e = exception_entry e 0x200 @ handle_exception e"
  by (simp_all add: entry_EVTCHN_def entry_SYSCALL_def entry_SYSENTER_def pseudo_entry_def exception_entry_def handle_exception_def
      X86_EXC_HAVE_EC_def)

definition example_context :: cpu_context where
  "example_context = \<lparr>gpr = (\<lambda>r. if r = RAX then 7 else 1), sel_ds = 0x18, sel_es = 0x18, sp = 0x1000, stack = [11, 12, 13]\<rparr>"

definition example_frame :: iret_frame where
  "example_frame = \<lparr>fr_ip = 0x100200, fr_cs = 8, fr_flags = 0x202, fr_sp = 0x1000, fr_ss = 0x10\<rparr>"

lemma example_fits: "context_fits e example_context" "frame_fits e example_frame"
  by (cases e; simp add: context_fits_def frame_fits_def fits_def to_ulong_def example_context_def example_frame_def)+




text \<open>
  The way back gives the interrupted code what \<open>struct cpu_regs\<close> holds when the handler returns, so the
  changes that \<open>do_exception\<close> and the handlers of the exception table make to the instruction pointer and to
  the registers take effect: every general register is the structure's member, a 32-bit build also loads
  the data segments from it, and the frame that \<open>iret\<close> reads starts with the structure's instruction
  pointer, code segment and flags.
\<close>

lemma handler_changes_apply:
  assumes "regs_at e (stack_bytes e (stack c)) = Some R" "\<forall>w \<in> set (stack c). fits e w"
    and "(if CONFIG_64BIT e then 21 else 16) \<le> length (stack c)"
  shows "\<exists>c2. run e (handle_exception_exit e) c = Some c2
    \<and> gpr c2 RAX = regs_ax R \<and> gpr c2 RBX = regs_bx R \<and> gpr c2 RCX = regs_cx R \<and> gpr c2 RDX = regs_dx R
    \<and> gpr c2 RSI = regs_si R \<and> gpr c2 RDI = regs_di R \<and> gpr c2 RBP = regs_bp R
    \<and> (CONFIG_64BIT e \<longrightarrow> map (gpr c2) [R8, R9, R10, R11, R12, R13, R14, R15] = regs_r8_r15 R)
    \<and> (\<not> CONFIG_64BIT e \<longrightarrow> sel_ds c2 = regs_ds R \<and> sel_es c2 = regs_es R)
    \<and> stack c2 ! 0 = regs_ip R \<and> ucast (stack c2 ! 1) = regs_cs R \<and> stack c2 ! 2 = regs_flags R"
proof (cases "CONFIG_64BIT e")
  case True
  then have len: "21 \<le> length (stack c)" and len': "16 \<le> length (stack c)" using assms(3) by simp_all
  obtain c2 where c2: "run e (handle_exception_exit e) c = Some c2" "stack c2 = drop 16 (stack c)"
    and g: "map (gpr c2) [R15, R14, R13, R12, RBP, RBX, R11, R10, R9, R8, RAX, RCX, RDX, RSI, RDI] = take 15 (stack c)"
    using exit_64 [OF True len'] by blast
  have "gpr c2 r = stack c ! i" if "i < 15" "[R15, R14, R13, R12, RBP, RBX, R11, R10, R9, R8, RAX, RCX, RDX, RSI, RDI] ! i = r" for i r
    using arg_cong [OF g, of "\<lambda>xs. xs ! i"] that by (simp del: list.map)
  note at = this [of 0] this [of 1] this [of 2] this [of 3] this [of 4] this [of 5] this [of 6] this [of 7] this [of 8] this [of 9]
    this [of 10] this [of 11] this [of 12] this [of 13] this [of 14]
  show ?thesis using c2 assms(1) True len unfolding regs_at_64 [OF True len] by (auto simp: at simp del: CONFIG_64BIT.simps)
next
  case False
  then have len: "16 \<le> length (stack c)" and len': "11 \<le> length (stack c)" using assms(3) by simp_all
  obtain c2 where c2: "run e (handle_exception_exit e) c = Some c2" "stack c2 = drop 11 (stack c)"
      "sel_ds c2 = ucast (stack c ! 7)" "sel_es c2 = ucast (stack c ! 8)"
    and g: "map (gpr c2) [RBP, RBX, RAX, RCX, RDX, RSI, RDI] = take 7 (stack c)"
    using exit_32 [OF False len'] by blast
  have "gpr c2 r = stack c ! i" if "i < 7" "[RBP, RBX, RAX, RCX, RDX, RSI, RDI] ! i = r" for i r
    using arg_cong [OF g, of "\<lambda>xs. xs ! i"] that by (simp del: list.map)
  note at = this [of 0] this [of 1] this [of 2] this [of 3] this [of 4] this [of 5] this [of 6]
  have f: "take_bit 32 (stack c ! i) = stack c ! i" if "i < length (stack c)" for i
    using assms(2) False that by (simp add: fits_def to_ulong_def)
  have f0: "take_bit 32 (stack c ! 0) = stack c ! 0" using f [of 0] len by linarith
  show ?thesis using c2 assms(1) False len unfolding regs_at_32 [OF False len] by (auto simp: at f f0 simp del: CONFIG_64BIT.simps)
qed

lemma handler_changes_apply_witness:
  "\<exists>c2. run HVM32 (handle_exception_exit HVM32)
      \<lparr>gpr = (\<lambda>r. 0), sel_ds = 24, sel_es = 24, sp = 0x1000, stack = [1, 2, 3, 4, 5, 6, 7, 0x23, 0x23, 14, 2, 0x100, 8, 0x202, 9, 10]\<rparr>
        = Some c2
    \<and> gpr c2 RAX = 3 \<and> gpr c2 RDI = 7 \<and> sel_ds c2 = 0x23 \<and> stack c2 ! 0 = 0x100"
  using handler_changes_apply [of HVM32
      "\<lparr>gpr = (\<lambda>r. 0), sel_ds = 24, sel_es = 24, sp = 0x1000, stack = [1, 2, 3, 4, 5, 6, 7, 0x23, 0x23, 14, 2, 0x100, 8, 0x202, 9, 10]\<rparr>",
      OF regs_at_32]
  by (auto simp: fits_def to_ulong_def)

end
