(* ===== verification/Hypercall_Stubs.thy ===== *)
theory Hypercall_Stubs imports
  X86_Entry
begin

text \<open>
  The hypercall stubs of \<open>arch/hypercall-x86_64.h\<close> and \<open>arch/hypercall-x86_32.h\<close> and the numbers of
  \<open>xen/xen.h\<close>. A stub puts its arguments into registers and calls the entry of the hypercall in the page
  that Xen fills. What Xen puts there is a parameter; the calling convention that it relies on is a
  hypothesis of the theorem. The model of the rest of the program sends a number and a list of
  arguments to the hypervisor; this theory is about how they get there.
\<close>

section \<open>Numbers\<close>

definition hypercall_numbers :: "(string \<times> nat) list" where
  "hypercall_numbers =
     [(''set_trap_table'', 0), (''mmu_update'', 1), (''set_gdt'', 2), (''stack_switch'', 3),
      (''set_callbacks'', 4), (''fpu_taskswitch'', 5), (''sched_op_compat'', 6), (''platform_op'', 7),
      (''set_debugreg'', 8), (''get_debugreg'', 9), (''update_descriptor'', 10), (''memory_op'', 12),
      (''multicall'', 13), (''update_va_mapping'', 14), (''set_timer_op'', 15), (''event_channel_op_compat'', 16),
      (''xen_version'', 17), (''console_io'', 18), (''physdev_op_compat'', 19), (''grant_table_op'', 20),
      (''vm_assist'', 21), (''update_va_mapping_otherdomain'', 22), (''iret'', 23), (''vcpu_op'', 24),
      (''set_segment_base'', 25), (''mmuext_op'', 26), (''xsm_op'', 27), (''nmi_op'', 28),
      (''sched_op'', 29), (''callback_op'', 30), (''xenoprof_op'', 31), (''event_channel_op'', 32),
      (''physdev_op'', 33), (''hvm_op'', 34), (''sysctl'', 35), (''domctl'', 36),
      (''kexec_op'', 37), (''tmem_op'', 38), (''argo_op'', 39), (''xenpmu_op'', 40),
      (''arch_0'', 48), (''arch_1'', 49), (''arch_2'', 50), (''arch_3'', 51),
      (''arch_4'', 52), (''arch_5'', 53), (''arch_6'', 54), (''arch_7'', 55)]"

section \<open>The stubs\<close>

text \<open>
  The code at an offset of \<open>hypercall_page\<close> as a function on the registers. \<open>call_page\<close> is the inline assembly:
  the operands are loaded, the page is called, and the result is the \<open>long\<close> in \<open>rax\<close>, with the registers
  as the call leaves them.
\<close>

type_synonym hypercall_page = "nat \<Rightarrow> (reg \<Rightarrow> u64) \<Rightarrow> reg \<Rightarrow> u64"

definition load_operands :: "(reg \<times> u64) list \<Rightarrow> (reg \<Rightarrow> u64) \<Rightarrow> reg \<Rightarrow> u64" where
  "load_operands ops g = foldl (\<lambda>g (r, v). g(r := v)) g ops"

definition call_page ::
    "nat \<Rightarrow> hypercall_page \<Rightarrow> nat \<Rightarrow> (reg \<times> u64) list \<Rightarrow> (reg \<Rightarrow> u64) \<Rightarrow> int \<times> (reg \<Rightarrow> u64)" where
  "call_page bits page offset ops g =
     (let g' = page offset (load_operands ops g) in (signed_take_bit (bits - 1) (uint (g' RAX)), g'))"

definition hypercall64_0 :: "hypercall_page \<Rightarrow> nat \<Rightarrow> (reg \<Rightarrow> u64) \<Rightarrow> int \<times> (reg \<Rightarrow> u64)" where
  "hypercall64_0 page hcall = call_page 64 page (hcall * 32) []"

definition hypercall64_1 :: "hypercall_page \<Rightarrow> nat \<Rightarrow> u64 \<Rightarrow> (reg \<Rightarrow> u64) \<Rightarrow> int \<times> (reg \<Rightarrow> u64)" where
  "hypercall64_1 page hcall a1 = call_page 64 page (hcall * 32) [(RDI, a1)]"

definition hypercall64_2 :: "hypercall_page \<Rightarrow> nat \<Rightarrow> u64 \<Rightarrow> u64 \<Rightarrow> (reg \<Rightarrow> u64) \<Rightarrow> int \<times> (reg \<Rightarrow> u64)" where
  "hypercall64_2 page hcall a1 a2 = call_page 64 page (hcall * 32) [(RDI, a1), (RSI, a2)]"

definition hypercall64_3 :: "hypercall_page \<Rightarrow> nat \<Rightarrow> u64 \<Rightarrow> u64 \<Rightarrow> u64 \<Rightarrow> (reg \<Rightarrow> u64) \<Rightarrow> int \<times> (reg \<Rightarrow> u64)" where
  "hypercall64_3 page hcall a1 a2 a3 = call_page 64 page (hcall * 32) [(RDI, a1), (RSI, a2), (RDX, a3)]"

definition hypercall64_4 :: "hypercall_page \<Rightarrow> nat \<Rightarrow> u64 \<Rightarrow> u64 \<Rightarrow> u64 \<Rightarrow> u64 \<Rightarrow> (reg \<Rightarrow> u64) \<Rightarrow> int \<times> (reg \<Rightarrow> u64)" where
  "hypercall64_4 page hcall a1 a2 a3 a4 = call_page 64 page (hcall * 32) [(RDI, a1), (RSI, a2), (RDX, a3), (R10, a4)]"

definition hypercall64_5 :: "hypercall_page \<Rightarrow> nat \<Rightarrow> u64 \<Rightarrow> u64 \<Rightarrow> u64 \<Rightarrow> u64 \<Rightarrow> u64 \<Rightarrow> (reg \<Rightarrow> u64) \<Rightarrow> int \<times> (reg \<Rightarrow> u64)" where
  "hypercall64_5 page hcall a1 a2 a3 a4 a5 = call_page 64 page (hcall * 32) [(RDI, a1), (RSI, a2), (RDX, a3), (R10, a4), (R8, a5)]"

definition hypercall32_0 :: "hypercall_page \<Rightarrow> nat \<Rightarrow> (reg \<Rightarrow> u64) \<Rightarrow> int \<times> (reg \<Rightarrow> u64)" where
  "hypercall32_0 page hcall = call_page 32 page (hcall * 32) []"

definition hypercall32_1 :: "hypercall_page \<Rightarrow> nat \<Rightarrow> u64 \<Rightarrow> (reg \<Rightarrow> u64) \<Rightarrow> int \<times> (reg \<Rightarrow> u64)" where
  "hypercall32_1 page hcall a1 = call_page 32 page (hcall * 32) [(RBX, take_bit 32 a1)]"

definition hypercall32_2 :: "hypercall_page \<Rightarrow> nat \<Rightarrow> u64 \<Rightarrow> u64 \<Rightarrow> (reg \<Rightarrow> u64) \<Rightarrow> int \<times> (reg \<Rightarrow> u64)" where
  "hypercall32_2 page hcall a1 a2 = call_page 32 page (hcall * 32) [(RBX, take_bit 32 a1), (RCX, take_bit 32 a2)]"

definition hypercall32_3 :: "hypercall_page \<Rightarrow> nat \<Rightarrow> u64 \<Rightarrow> u64 \<Rightarrow> u64 \<Rightarrow> (reg \<Rightarrow> u64) \<Rightarrow> int \<times> (reg \<Rightarrow> u64)" where
  "hypercall32_3 page hcall a1 a2 a3 = call_page 32 page (hcall * 32) [(RBX, take_bit 32 a1), (RCX, take_bit 32 a2), (RDX, take_bit 32 a3)]"

definition hypercall32_4 :: "hypercall_page \<Rightarrow> nat \<Rightarrow> u64 \<Rightarrow> u64 \<Rightarrow> u64 \<Rightarrow> u64 \<Rightarrow> (reg \<Rightarrow> u64) \<Rightarrow> int \<times> (reg \<Rightarrow> u64)" where
  "hypercall32_4 page hcall a1 a2 a3 a4 = call_page 32 page (hcall * 32) [(RBX, take_bit 32 a1), (RCX, take_bit 32 a2), (RDX, take_bit 32 a3), (RSI, take_bit 32 a4)]"

definition hypercall32_5 :: "hypercall_page \<Rightarrow> nat \<Rightarrow> u64 \<Rightarrow> u64 \<Rightarrow> u64 \<Rightarrow> u64 \<Rightarrow> u64 \<Rightarrow> (reg \<Rightarrow> u64) \<Rightarrow> int \<times> (reg \<Rightarrow> u64)" where
  "hypercall32_5 page hcall a1 a2 a3 a4 a5 = call_page 32 page (hcall * 32) [(RBX, take_bit 32 a1), (RCX, take_bit 32 a2), (RDX, take_bit 32 a3), (RSI, take_bit 32 a4), (RDI, take_bit 32 a5)]"

text \<open>\<open>HYPERCALL0\<close> to \<open>HYPERCALL5\<close>: the stub for the number of arguments and the build.\<close>

fun HYPERCALL ::
    "env \<Rightarrow> hypercall_page \<Rightarrow> nat \<Rightarrow> u64 list \<Rightarrow> (reg \<Rightarrow> u64) \<Rightarrow> (int \<times> (reg \<Rightarrow> u64)) option" where
  "HYPERCALL e page nr [] g =
     Some (if CONFIG_64BIT e then hypercall64_0 page nr g else hypercall32_0 page nr g)"
| "HYPERCALL e page nr [a1] g =
     Some (if CONFIG_64BIT e then hypercall64_1 page nr a1 g else hypercall32_1 page nr a1 g)"
| "HYPERCALL e page nr [a1, a2] g =
     Some (if CONFIG_64BIT e then hypercall64_2 page nr a1 a2 g else hypercall32_2 page nr a1 a2 g)"
| "HYPERCALL e page nr [a1, a2, a3] g =
     Some (if CONFIG_64BIT e then hypercall64_3 page nr a1 a2 a3 g else hypercall32_3 page nr a1 a2 a3 g)"
| "HYPERCALL e page nr [a1, a2, a3, a4] g =
     Some (if CONFIG_64BIT e then hypercall64_4 page nr a1 a2 a3 a4 g else hypercall32_4 page nr a1 a2 a3 a4 g)"
| "HYPERCALL e page nr [a1, a2, a3, a4, a5] g =
     Some (if CONFIG_64BIT e then hypercall64_5 page nr a1 a2 a3 a4 a5 g else hypercall32_5 page nr a1 a2 a3 a4 a5 g)"
| "HYPERCALL e page nr _ g = None"

section \<open>What Xen promises of the page\<close>

text \<open>
  The registers of the arguments in order. Entry \<open>nr\<close> of the page asks the hypervisor \<open>hv\<close> for hypercall
  \<open>nr\<close> with the values in these registers, returns its answer in \<open>rax\<close>, and changes no other register
  than those of the arguments that the hypercall has (\<open>arity\<close>), which Xen may clobber.
\<close>

definition argument_registers :: "env \<Rightarrow> reg list" where
  "argument_registers e = (if CONFIG_64BIT e then [RDI, RSI, RDX, R10, R8, R9] else [RBX, RCX, RDX, RSI, RDI, RBP])"

definition xen_fills_page :: "env \<Rightarrow> (nat \<Rightarrow> u64 list \<Rightarrow> u64) \<Rightarrow> (nat \<Rightarrow> nat) \<Rightarrow> hypercall_page \<Rightarrow> bool" where
  "xen_fills_page e hv arity page \<longleftrightarrow>
     (\<forall>nr g. page (nr * 32) g RAX = hv nr (map g (argument_registers e))
       \<and> (\<forall>r. r \<noteq> RAX \<and> r \<notin> set (take (arity nr) (argument_registers e)) \<longrightarrow> page (nr * 32) g r = g r))"

definition long_of :: "env \<Rightarrow> u64 \<Rightarrow> int" where
  "long_of e w = signed_take_bit (BITS_PER_LONG e - 1) (uint w)"

lemma HYPERCALL_call:
  assumes "length args \<le> 5"
  shows "HYPERCALL e page nr args g
    = Some (call_page (BITS_PER_LONG e) page (nr * 32) (zip (argument_registers e) (map (to_ulong e) args)) g)"
proof -
  have full: "take_bit 64 v = v" for v :: u64 by (simp add: take_bit_word_eq_self)
  consider "args = []" | a where "args = [a]" | a b where "args = [a, b]" | a b c where "args = [a, b, c]"
    | a b c d where "args = [a, b, c, d]" | a b c d f where "args = [a, b, c, d, f]"
    using assms by (auto simp: length_Suc_conv le_Suc_eq numeral_eq_Suc)
  then show ?thesis
    by cases (simp_all add: argument_registers_def to_ulong_def full
      hypercall64_0_def hypercall64_1_def hypercall64_2_def hypercall64_3_def hypercall64_4_def hypercall64_5_def
      hypercall32_0_def hypercall32_1_def hypercall32_2_def hypercall32_3_def hypercall32_4_def hypercall32_5_def)
qed

lemma load_operands_other: "r \<notin> set (map fst ops) \<Longrightarrow> load_operands ops g r = g r"
  unfolding load_operands_def by (induction ops arbitrary: g) auto

lemma map_load_operands:
  assumes "distinct rs" "length vs \<le> length rs"
  shows "map (load_operands (zip rs vs) g) rs = vs @ map g (drop (length vs) rs)"
  using assms
proof (induction rs arbitrary: vs g)
  case (Cons r rs)
  show ?case
  proof (cases vs)
    case Nil
    then show ?thesis by (simp add: load_operands_def)
  next
    case (Cons v vs')
    have step1: "load_operands ((r, v) # zip rs vs') g = load_operands (zip rs vs') (g(r := v))"
      by (simp add: load_operands_def)
    have "r \<notin> set (map fst (zip rs vs'))" using Cons.prems(1) by (auto dest: set_zip_leftD)
    from load_operands_other [OF this, of "g(r := v)"] have "load_operands (zip rs vs') (g(r := v)) r = v" by simp
    moreover have "map (g(r := v)) (drop (length vs') rs) = map g (drop (length vs') rs)"
      using Cons.prems(1) by (auto dest: in_set_dropD)
    ultimately show ?thesis
      using Cons.IH [of vs' "g(r := v)"] Cons.prems Cons by (simp add: step1 del: fun_upd_apply)
  qed
qed simp


lemma numbers_small: "(name, nr) \<in> set hypercall_numbers \<Longrightarrow> nr < 128"
  by (auto simp: hypercall_numbers_def)

lemma numbers_distinct: "distinct (map snd hypercall_numbers)"
  by (simp add: hypercall_numbers_def)

section \<open>The page\<close>

text \<open>
  \<open>hypercall_page.S\<close>: the bytes before Xen fills the page, all of them \<open>ret\<close>, and \<open>DECLARE_HYPERCALL\<close>, which gives the entry of a
  hypercall a symbol of its own, for assembly code to jump to.
\<close>

definition initial_hypercall_page :: "8 word list" where
  "initial_hypercall_page = replicate (unat PAGE_SIZE) 0xc3"

definition declared_hypercalls :: "string list" where
  "declared_hypercalls =
    [''set_trap_table'', ''mmu_update'', ''set_gdt'', ''stack_switch'', ''set_callbacks'', ''fpu_taskswitch'',
     ''sched_op_compat'', ''platform_op'', ''set_debugreg'', ''get_debugreg'', ''update_descriptor'', ''memory_op'',
     ''multicall'', ''update_va_mapping'', ''set_timer_op'', ''event_channel_op_compat'', ''xen_version'', ''console_io'',
     ''physdev_op_compat'', ''grant_table_op'', ''vm_assist'', ''update_va_mapping_otherdomain'', ''iret'', ''vcpu_op'',
     ''set_segment_base'', ''mmuext_op'', ''xsm_op'', ''nmi_op'', ''sched_op'', ''callback_op'', ''xenoprof_op'',
     ''event_channel_op'', ''physdev_op'', ''hvm_op'', ''sysctl'', ''domctl'', ''kexec_op'', ''tmem_op'', ''argo_op'',
     ''xenpmu_op'', ''arch_0'', ''arch_1'', ''arch_2'', ''arch_3'', ''arch_4'', ''arch_5'', ''arch_6'', ''arch_7'']"

definition HYPERCALL_symbol :: "linkage \<Rightarrow> string \<Rightarrow> u64 option" where
  "HYPERCALL_symbol lnk name =
     (if name \<in> set declared_hypercalls
      then map_option (\<lambda>nr. lnk ''hypercall_page'' + of_nat nr * 32) (map_of hypercall_numbers name) else None)"

lemma declared_all: "map fst hypercall_numbers = declared_hypercalls"
  by (simp add: hypercall_numbers_def declared_hypercalls_def)

text \<open>Every hypercall that has a number has a symbol, at the entry that the stubs call, which is a \<open>ret\<close> at first.\<close>

lemma declared_entries:
  assumes "(name, nr) \<in> set hypercall_numbers"
  shows "HYPERCALL_symbol lnk name = Some (lnk ''hypercall_page'' + of_nat (nr * 32)) \<and> initial_hypercall_page ! (nr * 32) = 0xc3"
proof -
  have "name \<in> set declared_hypercalls" using assms unfolding declared_all [symmetric] by force
  moreover have "distinct (map fst hypercall_numbers)" unfolding declared_all by (simp add: declared_hypercalls_def)
  ultimately have names: "name \<in> set declared_hypercalls" "distinct (map fst hypercall_numbers)" by auto
  have "map_of hypercall_numbers name = Some nr" using assms names(2) by simp
  moreover have "nr * 32 < unat PAGE_SIZE" using numbers_small [OF assms] by (simp add: PAGE_SIZE_def)
  ultimately show ?thesis using names(1) by (simp add: HYPERCALL_symbol_def initial_hypercall_page_def)
qed

text \<open>
  C13: Every hypercall of \<open>xen/xen.h\<close> with up to five arguments reaches Xen as the number and the arguments
  that the caller gave, in both builds: what the stub returns is Xen's answer, as a \<open>long\<close>, to that number
  and to a list of six words that starts with the arguments, each cut to a \<open>long\<close>, the other words being
  whatever the remaining registers held. A hypercall that has no more arguments than the stub was given
  changes no register but those that the stub's constraints tell the compiler. The entry called is 32
  bytes inside the one page that is reserved, and no two hypercalls share a byte of it.
\<close>

theorem hypercall_reaches_xen:
  assumes "xen_fills_page e hv arity page" "(name, nr) \<in> set hypercall_numbers" "length args \<le> 5" "arity nr \<le> length args"
  shows "(\<exists>g'. HYPERCALL e page nr args g
      = Some (long_of e (hv nr (map (to_ulong e) args @ map g (drop (length args) (argument_registers e)))), g')
      \<and> (\<forall>r. r \<noteq> RAX \<and> r \<notin> set (take (length args) (argument_registers e)) \<longrightarrow> g' r = g r))
    \<and> nr * 32 + 32 \<le> unat PAGE_SIZE
    \<and> (\<forall>name' nr'. (name', nr') \<in> set hypercall_numbers \<and> name' \<noteq> name \<longrightarrow> nr * 32 + 32 \<le> nr' * 32 \<or> nr' * 32 + 32 \<le> nr * 32)"
proof (intro conjI allI impI)
  let ?rs = "argument_registers e" and ?ops = "zip (argument_registers e) (map (to_ulong e) args)"
  have len: "length (map (to_ulong e) args) \<le> length ?rs" using assms(3) by (simp add: argument_registers_def)
  have rs: "distinct ?rs" by (simp add: argument_registers_def)
  let ?g = "page (nr * 32) (load_operands ?ops g)"
  have "?g RAX = hv nr (map (load_operands ?ops g) ?rs)"
    and keep: "\<forall>r. r \<noteq> RAX \<and> r \<notin> set (take (arity nr) ?rs) \<longrightarrow> ?g r = load_operands ?ops g r"
    using assms(1) by (simp_all add: xen_fills_page_def)
  then have rax: "?g RAX = hv nr (map (to_ulong e) args @ map g (drop (length args) ?rs))"
    using map_load_operands [OF rs len, of g] by simp
  have "?g r = g r" if "r \<noteq> RAX" "r \<notin> set (take (length args) ?rs)" for r
  proof -
    have "r \<notin> set (take (arity nr) ?rs)" using that(2) set_take_subset_set_take [OF assms(4), of ?rs] by blast
    then have "?g r = load_operands ?ops g r" using keep that(1) by simp
    moreover have "min (length ?rs) (length args) = length args" using len by simp
    then have "r \<notin> set (map fst ?ops)" using that(2) by (simp add: map_fst_zip_take)
    ultimately show ?thesis by (metis load_operands_other)
  qed
  then show "\<exists>g'. HYPERCALL e page nr args g
      = Some (long_of e (hv nr (map (to_ulong e) args @ map g (drop (length args) ?rs))), g')
      \<and> (\<forall>r. r \<noteq> RAX \<and> r \<notin> set (take (length args) ?rs) \<longrightarrow> g' r = g r)"
    using HYPERCALL_call [OF assms(3), of e page nr g] rax by (simp add: call_page_def Let_def long_of_def)
next
  show "nr * 32 + 32 \<le> unat PAGE_SIZE" using numbers_small [OF assms(2)] by (simp add: PAGE_SIZE_def)
next
  fix name' nr'
  assume o: "(name', nr') \<in> set hypercall_numbers \<and> name' \<noteq> name"
  have "nr \<noteq> nr'"
    using o assms(2) numbers_distinct by (metis inj_onD distinct_map fst_conv snd_conv)
  then show "nr * 32 + 32 \<le> nr' * 32 \<or> nr' * 32 + 32 \<le> nr * 32" by linarith
qed

text \<open>A hypervisor that adds up what it gets, reached through a page that keeps the registers.\<close>

lemma hypercall_reaches_xen_witness:
  "\<exists>g'. HYPERCALL HVM64 (\<lambda>off g. g(RAX := of_nat (off div 32) + sum_list (map g (argument_registers HVM64)))) 12 [6, 0x1000]
      (\<lambda>r. 0) = Some (0x1012, g') \<and> g' R15 = 0"
  using hypercall_reaches_xen [of HVM64 "\<lambda>nr ws. of_nat nr + sum_list ws" "\<lambda>nr. 0"
      "\<lambda>off g. g(RAX := of_nat (off div 32) + sum_list (map g (argument_registers HVM64)))" "''memory_op''" 12 "[6, 0x1000]" "\<lambda>r. 0"]
  by (auto simp: xen_fills_page_def hypercall_numbers_def argument_registers_def long_of_def)

end
