(* ===== verification/X86_Exception.thy ===== *)
theory X86_Exception imports
  X86_Entry
begin

text \<open>
  The whole way of an exception: delivery, the stub, \<open>do_exception\<close> on the structure that the stub made,
  and the way back to the interrupted code, in one function. What the C code stores in \<open>struct cpu_regs\<close>
  reaches the stack through the layout of the structure.
\<close>

section \<open>Storing the structure\<close>

text \<open>Bits \<open>k\<close> to \<open>k + n\<close> of a word replaced, and a member of the structure stored in the words of the stack.\<close>

definition insert_bits :: "nat \<Rightarrow> nat \<Rightarrow> u64 \<Rightarrow> u64 \<Rightarrow> u64" where
  "insert_bits k n v w = (w AND NOT (push_bit k (mask n))) OR push_bit k (take_bit n v)"

definition poke :: "env \<Rightarrow> string list \<Rightarrow> u64 \<Rightarrow> u64 list \<Rightarrow> u64 list" where
  "poke e path v ws =
     (case offset_of e (cpu_regs_t e) path of
        Some (off, t) \<Rightarrow>
          ws[off div word_bytes e :=
               insert_bits (8 * (off mod word_bytes e)) (8 * size_of e t) v (ws ! (off div word_bytes e))]
      | None \<Rightarrow> ws)"

definition put_regs :: "env \<Rightarrow> cpu_regs \<Rightarrow> u64 list \<Rightarrow> u64 list" where
  "put_regs e R ws =
     foldl (\<lambda>ws (path, v). poke e path v ws) ws
       ([([''ax'', ''ax''], regs_ax R), ([''bx'', ''bx''], regs_bx R), ([''cx'', ''cx''], regs_cx R),
         ([''dx'', ''dx''], regs_dx R), ([''si'', ''si''], regs_si R), ([''di'', ''di''], regs_di R),
         ([''bp'', ''bp''], regs_bp R)]
        @ (if CONFIG_64BIT e
           then zip [[''r8''], [''r9''], [''r10''], [''r11''], [''r12''], [''r13''], [''r14''], [''r15'']] (regs_r8_r15 R)
           else [([''ds''], ucast (regs_ds R)), ([''es''], ucast (regs_es R))])
        @ [([''entry_vector''], ucast (entry_vector R)), ([''error_code''], ucast (error_code R)),
           ([''ip'', ''ip''], regs_ip R), ([''cs''], ucast (regs_cs R)), ([''flags'', ''flags''], regs_flags R),
           ([''_sp'', ''_sp''], regs_sp R), ([''_ss''], ucast (regs_ss R))])"

section \<open>The way of an exception\<close>

text \<open>
  \<open>scratch\<close> are the registers when \<open>do_exception\<close> returns to the stub. None if the stub cannot run; a handler
  that panics ends the run with \<open>Stop\<close>. What \<open>Done\<close> holds is the state at the \<open>iret\<close>, with the frame on top of
  the stack.
\<close>

definition exception_path ::
    "env \<Rightarrow> bool \<Rightarrow> nat \<Rightarrow> u32 option \<Rightarrow> iret_frame \<Rightarrow> u64 \<times> u64 \<Rightarrow> (reg \<Rightarrow> u64) \<Rightarrow> ex_handler extable_entry option
     \<Rightarrow> 'z kernel_scheme exception_hook \<Rightarrow> cpu_context \<Rightarrow> hw \<Rightarrow> 'z kernel_scheme
     \<Rightarrow> ('z kernel_scheme, cpu_context) outcome option" where
  "exception_path e sw vec ec fr junk scratch stray hook c h s =
     do {
       c1 \<leftarrow> run e (exception_entry e vec @ handle_exception e) (deliver e sw ec fr junk c);
       R \<leftarrow> regs_at e (stack_bytes e (stack c1));
       (case do_exception stray hook R h s of
          Stop s1 \<Rightarrow> Some (Stop s1)
        | Done R1 s1 \<Rightarrow>
            do {
              c2 \<leftarrow> run e (handle_exception_exit e) (c1\<lparr>gpr := scratch, stack := put_regs e R1 (stack c1)\<rparr>);
              Some (Done c2 s1)
            })
     }"

section \<open>Stored words\<close>

lemma insert_bits_64 [simp]: "insert_bits 0 64 v w = v"
  by (rule bit_word_eqI) (auto simp: insert_bits_def bit_simps)

lemma insert_bits_same: "insert_bits k n (drop_bit k w) w = w" "insert_bits k n (take_bit n (drop_bit k w)) w = w"
  by (rule bit_word_eqI; auto simp: insert_bits_def bit_simps dest: bit_imp_le_length)+

lemma insert_bits_16 [simp]: "insert_bits 0 16 (ucast (ucast w :: u16)) w = w" "insert_bits 0 32 (ucast (ucast w :: u32)) w = w"
    "insert_bits 32 32 (ucast (ucast (drop_bit 32 w) :: u32)) w = w"
  by (rule bit_word_eqI; auto simp: insert_bits_def bit_simps dest: bit_imp_le_length)+

lemma poke_at:
  assumes "offset_of e (cpu_regs_t e) path = Some (off, t)"
  shows "poke e path v ws =
    ws[off div word_bytes e := insert_bits (8 * (off mod word_bytes e)) (8 * size_of e t) v (ws ! (off div word_bytes e))]"
  using assms by (simp add: poke_def)

lemma pokes_64:
  assumes "CONFIG_64BIT e"
  shows
    "poke e [''r15''] v ws = ws[0 := v]" "poke e [''r14''] v ws = ws[1 := v]" "poke e [''r13''] v ws = ws[2 := v]"
    "poke e [''r12''] v ws = ws[3 := v]" "poke e [''bp'', ''bp''] v ws = ws[4 := v]" "poke e [''bx'', ''bx''] v ws = ws[5 := v]"
    "poke e [''r11''] v ws = ws[6 := v]" "poke e [''r10''] v ws = ws[7 := v]" "poke e [''r9''] v ws = ws[8 := v]"
    "poke e [''r8''] v ws = ws[9 := v]" "poke e [''ax'', ''ax''] v ws = ws[10 := v]" "poke e [''cx'', ''cx''] v ws = ws[11 := v]"
    "poke e [''dx'', ''dx''] v ws = ws[12 := v]" "poke e [''si'', ''si''] v ws = ws[13 := v]" "poke e [''di'', ''di''] v ws = ws[14 := v]"
    "poke e [''error_code''] v ws = ws[15 := insert_bits 0 32 v (ws ! 15)]"
    "poke e [''entry_vector''] v ws = ws[15 := insert_bits 32 32 v (ws ! 15)]"
    "poke e [''ip'', ''ip''] v ws = ws[16 := v]" "poke e [''cs''] v ws = ws[17 := insert_bits 0 16 v (ws ! 17)]"
    "poke e [''flags'', ''flags''] v ws = ws[18 := v]" "poke e [''_sp'', ''_sp''] v ws = ws[19 := v]"
    "poke e [''_ss''] v ws = ws[20 := insert_bits 0 16 v (ws ! 20)]"
proof -
  have w: "word_bytes e = 8" using assms by (simp add: word_bytes_def)
  note at = offsets_64 [OF assms, THEN poke_at]
  show
    "poke e [''r15''] v ws = ws[0 := v]" "poke e [''r14''] v ws = ws[1 := v]" "poke e [''r13''] v ws = ws[2 := v]"
    "poke e [''r12''] v ws = ws[3 := v]" "poke e [''bp'', ''bp''] v ws = ws[4 := v]" "poke e [''bx'', ''bx''] v ws = ws[5 := v]"
    "poke e [''r11''] v ws = ws[6 := v]" "poke e [''r10''] v ws = ws[7 := v]" "poke e [''r9''] v ws = ws[8 := v]"
    "poke e [''r8''] v ws = ws[9 := v]" "poke e [''ax'', ''ax''] v ws = ws[10 := v]" "poke e [''cx'', ''cx''] v ws = ws[11 := v]"
    "poke e [''dx'', ''dx''] v ws = ws[12 := v]" "poke e [''si'', ''si''] v ws = ws[13 := v]" "poke e [''di'', ''di''] v ws = ws[14 := v]"
    "poke e [''error_code''] v ws = ws[15 := insert_bits 0 32 v (ws ! 15)]"
    "poke e [''entry_vector''] v ws = ws[15 := insert_bits 32 32 v (ws ! 15)]"
    "poke e [''ip'', ''ip''] v ws = ws[16 := v]" "poke e [''cs''] v ws = ws[17 := insert_bits 0 16 v (ws ! 17)]"
    "poke e [''flags'', ''flags''] v ws = ws[18 := v]" "poke e [''_sp'', ''_sp''] v ws = ws[19 := v]"
    "poke e [''_ss''] v ws = ws[20 := insert_bits 0 16 v (ws ! 20)]"
    unfolding at by (simp_all add: w)
qed

lemma put_regs_64:
  assumes "CONFIG_64BIT e" "21 \<le> length ws" "regs_r8_r15 R = [r8, r9, r10, r11, r12, r13, r14, r15]"
  shows "put_regs e R ws =
    [r15, r14, r13, r12, regs_bp R, regs_bx R, r11, r10, r9, r8, regs_ax R, regs_cx R, regs_dx R, regs_si R, regs_di R,
     insert_bits 0 32 (ucast (error_code R)) (insert_bits 32 32 (ucast (entry_vector R)) (ws ! 15)), regs_ip R,
     insert_bits 0 16 (ucast (regs_cs R)) (ws ! 17), regs_flags R, regs_sp R, insert_bits 0 16 (ucast (regs_ss R)) (ws ! 20)]
    @ drop 21 ws"
proof -
  have "put_regs e R ws = ws
    [10 := regs_ax R, 5 := regs_bx R, 11 := regs_cx R, 12 := regs_dx R, 13 := regs_si R, 14 := regs_di R, 4 := regs_bp R,
     9 := r8, 8 := r9, 7 := r10, 6 := r11, 3 := r12, 2 := r13, 1 := r14, 0 := r15,
     15 := insert_bits 32 32 (ucast (entry_vector R)) (ws ! 15),
     15 := insert_bits 0 32 (ucast (error_code R)) (insert_bits 32 32 (ucast (entry_vector R)) (ws ! 15)),
     16 := regs_ip R, 17 := insert_bits 0 16 (ucast (regs_cs R)) (ws ! 17), 18 := regs_flags R, 19 := regs_sp R,
     20 := insert_bits 0 16 (ucast (regs_ss R)) (ws ! 20)]"
    using assms unfolding put_regs_def by (simp add: pokes_64 [OF assms(1)] del: CONFIG_64BIT.simps)
  also have "\<dots> = [r15, r14, r13, r12, regs_bp R, regs_bx R, r11, r10, r9, r8, regs_ax R, regs_cx R, regs_dx R, regs_si R, regs_di R,
     insert_bits 0 32 (ucast (error_code R)) (insert_bits 32 32 (ucast (entry_vector R)) (ws ! 15)), regs_ip R,
     insert_bits 0 16 (ucast (regs_cs R)) (ws ! 17), regs_flags R, regs_sp R, insert_bits 0 16 (ucast (regs_ss R)) (ws ! 20)]
    @ drop 21 ws" (is "?upd = ?list")
  proof (rule nth_equalityI)
    show "length ?upd = length ?list" using assms(2) by simp
    fix i assume "i < length ?upd"
    show "?upd ! i = ?list ! i"
    proof (cases "i < 21")
      case True
      then have "i \<in> {0, 1, 2, 3, 4, 5, 6, 7, 8, 9, 10, 11, 12, 13, 14, 15, 16, 17, 18, 19, 20}" by (simp, presburger)
      moreover have "ws \<noteq> []" using assms(2) by auto
      ultimately show ?thesis using assms(2) by (elim insertE emptyE) simp_all
    next
      case False
      then show ?thesis using assms(2) by (simp add: nth_append)
    qed
  qed
  finally show ?thesis .
qed

lemma pokes_32:
  assumes "\<not> CONFIG_64BIT e"
  defines "ins \<equiv> (\<lambda>n i v ws. ws[i := insert_bits 0 n v (ws ! i)])"
  shows
    "poke e [''bp'', ''bp''] v ws = ins 32 0 v ws" "poke e [''bx'', ''bx''] v ws = ins 32 1 v ws"
    "poke e [''ax'', ''ax''] v ws = ins 32 2 v ws" "poke e [''cx'', ''cx''] v ws = ins 32 3 v ws"
    "poke e [''dx'', ''dx''] v ws = ins 32 4 v ws" "poke e [''si'', ''si''] v ws = ins 32 5 v ws"
    "poke e [''di'', ''di''] v ws = ins 32 6 v ws" "poke e [''ds''] v ws = ins 16 7 v ws" "poke e [''es''] v ws = ins 16 8 v ws"
    "poke e [''entry_vector''] v ws = ins 32 9 v ws" "poke e [''error_code''] v ws = ins 32 10 v ws"
    "poke e [''ip'', ''ip''] v ws = ins 32 11 v ws" "poke e [''cs''] v ws = ins 16 12 v ws"
    "poke e [''flags'', ''flags''] v ws = ins 32 13 v ws" "poke e [''_sp'', ''_sp''] v ws = ins 32 14 v ws"
    "poke e [''_ss''] v ws = ins 16 15 v ws"
proof -
  have w: "word_bytes e = 4" using assms(1) by (simp add: word_bytes_def)
  note at = offsets_32 [OF assms(1), THEN poke_at]
  show
    "poke e [''bp'', ''bp''] v ws = ins 32 0 v ws" "poke e [''bx'', ''bx''] v ws = ins 32 1 v ws"
    "poke e [''ax'', ''ax''] v ws = ins 32 2 v ws" "poke e [''cx'', ''cx''] v ws = ins 32 3 v ws"
    "poke e [''dx'', ''dx''] v ws = ins 32 4 v ws" "poke e [''si'', ''si''] v ws = ins 32 5 v ws"
    "poke e [''di'', ''di''] v ws = ins 32 6 v ws" "poke e [''ds''] v ws = ins 16 7 v ws" "poke e [''es''] v ws = ins 16 8 v ws"
    "poke e [''entry_vector''] v ws = ins 32 9 v ws" "poke e [''error_code''] v ws = ins 32 10 v ws"
    "poke e [''ip'', ''ip''] v ws = ins 32 11 v ws" "poke e [''cs''] v ws = ins 16 12 v ws"
    "poke e [''flags'', ''flags''] v ws = ins 32 13 v ws" "poke e [''_sp'', ''_sp''] v ws = ins 32 14 v ws"
    "poke e [''_ss''] v ws = ins 16 15 v ws"
    unfolding at ins_def by (simp_all add: w)
qed

lemma put_regs_32:
  assumes "\<not> CONFIG_64BIT e" "16 \<le> length ws"
  shows "put_regs e R ws = map (\<lambda>(n, i, v). insert_bits 0 n v (ws ! i))
     [(32, 0, regs_bp R), (32, 1, regs_bx R), (32, 2, regs_ax R), (32, 3, regs_cx R), (32, 4, regs_dx R), (32, 5, regs_si R),
      (32, 6, regs_di R), (16, 7, ucast (regs_ds R)), (16, 8, ucast (regs_es R)), (32, 9, ucast (entry_vector R)),
      (32, 10, ucast (error_code R)), (32, 11, regs_ip R), (16, 12, ucast (regs_cs R)), (32, 13, regs_flags R),
      (32, 14, regs_sp R), (16, 15, ucast (regs_ss R))] @ drop 16 ws"
proof -
  let ?ins = "\<lambda>n i v. insert_bits 0 n v (ws ! i)"
  have "put_regs e R ws = ws
    [2 := ?ins 32 2 (regs_ax R), 1 := ?ins 32 1 (regs_bx R), 3 := ?ins 32 3 (regs_cx R), 4 := ?ins 32 4 (regs_dx R),
     5 := ?ins 32 5 (regs_si R), 6 := ?ins 32 6 (regs_di R), 0 := ?ins 32 0 (regs_bp R), 7 := ?ins 16 7 (ucast (regs_ds R)),
     8 := ?ins 16 8 (ucast (regs_es R)), 9 := ?ins 32 9 (ucast (entry_vector R)), 10 := ?ins 32 10 (ucast (error_code R)),
     11 := ?ins 32 11 (regs_ip R), 12 := ?ins 16 12 (ucast (regs_cs R)), 13 := ?ins 32 13 (regs_flags R),
     14 := ?ins 32 14 (regs_sp R), 15 := ?ins 16 15 (ucast (regs_ss R))]"
    using assms unfolding put_regs_def by (simp add: pokes_32 [OF assms(1)] del: CONFIG_64BIT.simps)
  also have "\<dots> = map (\<lambda>(n, i, v). insert_bits 0 n v (ws ! i))
     [(32, 0, regs_bp R), (32, 1, regs_bx R), (32, 2, regs_ax R), (32, 3, regs_cx R), (32, 4, regs_dx R), (32, 5, regs_si R),
      (32, 6, regs_di R), (16, 7, ucast (regs_ds R)), (16, 8, ucast (regs_es R)), (32, 9, ucast (entry_vector R)),
      (32, 10, ucast (error_code R)), (32, 11, regs_ip R), (16, 12, ucast (regs_cs R)), (32, 13, regs_flags R),
      (32, 14, regs_sp R), (16, 15, ucast (regs_ss R))] @ drop 16 ws" (is "?upd = ?list")
  proof (rule nth_equalityI)
    show "length ?upd = length ?list" using assms(2) by simp
    fix i assume "i < length ?upd"
    show "?upd ! i = ?list ! i"
    proof (cases "i < 16")
      case True
      then have "i \<in> {0, 1, 2, 3, 4, 5, 6, 7, 8, 9, 10, 11, 12, 13, 14, 15}" by (simp, presburger)
      moreover have "ws \<noteq> []" using assms(2) by auto
      ultimately show ?thesis using assms(2) by (elim insertE emptyE) simp_all
    next
      case False
      then show ?thesis using assms(2) by (simp add: nth_append)
    qed
  qed
  finally show ?thesis .
qed

lemma explicit_stack:
  assumes "21 \<le> length ws"
  shows "ws = [ws ! 0, ws ! 1, ws ! 2, ws ! 3, ws ! 4, ws ! 5, ws ! 6, ws ! 7, ws ! 8, ws ! 9, ws ! 10, ws ! 11, ws ! 12, ws ! 13,
    ws ! 14, ws ! 15, ws ! 16, ws ! 17, ws ! 18, ws ! 19, ws ! 20] @ drop 21 ws"
proof -
  have u: "[0..<21] = [0, 1, 2, 3, 4, 5, 6, 7, 8, 9, 10, 11, 12, 13, 14, 15, 16, 17, 18, 19, 20 :: nat]" by code_simp
  show ?thesis using split_stack [OF assms] unfolding u by simp
qed

lemma put_regs_update_64:
  assumes "CONFIG_64BIT e" "21 \<le> length ws" "regs_at e (stack_bytes e ws) = Some R"
  shows "put_regs e (R\<lparr>regs_ax := a, regs_dx := d, regs_cx := x, regs_di := i, regs_ip := ip\<rparr>) ws
    = ws[10 := a, 11 := x, 12 := d, 14 := i, 16 := ip]"
proof -
  have R: "R = the (regs_at e (stack_bytes e ws))" using assms(3) by simp
  have "ws[10 := a, 11 := x, 12 := d, 14 := i, 16 := ip] = [ws ! 0, ws ! 1, ws ! 2, ws ! 3, ws ! 4, ws ! 5, ws ! 6, ws ! 7, ws ! 8, ws ! 9, a, x, d, ws ! 13,
    i, ws ! 15, ip, ws ! 17, ws ! 18, ws ! 19, ws ! 20] @ drop 21 ws"
    by (subst explicit_stack [OF assms(2)]) simp
  then show ?thesis
    using put_regs_64 [OF assms(1,2), of "R\<lparr>regs_ax := a, regs_dx := d, regs_cx := x, regs_di := i, regs_ip := ip\<rparr>"]
    unfolding R regs_at_64 [OF assms(1,2)] by simp
qed

lemma explicit_stack_32:
  assumes "16 \<le> length ws"
  shows "ws = [ws ! 0, ws ! 1, ws ! 2, ws ! 3, ws ! 4, ws ! 5, ws ! 6, ws ! 7, ws ! 8, ws ! 9, ws ! 10, ws ! 11, ws ! 12, ws ! 13,
    ws ! 14, ws ! 15] @ drop 16 ws"
proof -
  have u: "[0..<16] = [0, 1, 2, 3, 4, 5, 6, 7, 8, 9, 10, 11, 12, 13, 14, 15 :: nat]" by code_simp
  show ?thesis using split_stack [OF assms] unfolding u by simp
qed

lemma insert_bits_fits: "take_bit n v = v \<Longrightarrow> take_bit n w = w \<Longrightarrow> insert_bits 0 n v w = v"
proof (rule bit_word_eqI)
  fix i
  assume v: "take_bit n v = v" and w: "take_bit n w = w" and i: "i < LENGTH(64)"
  have "bit v i \<Longrightarrow> i < n" "bit w i \<Longrightarrow> i < n" using v w by (metis bit_take_bit_iff)+
  then show "bit (insert_bits 0 n v w) i = bit v i" using i by (auto simp: insert_bits_def bit_simps)
qed

lemma put_regs_update_32:
  assumes "\<not> CONFIG_64BIT e" "16 \<le> length ws" "regs_at e (stack_bytes e ws) = Some R"
    and "\<forall>v \<in> {a, x, d, i, ip, ws ! 2, ws ! 3, ws ! 4, ws ! 6, ws ! 11}. fits e v"
  shows "put_regs e (R\<lparr>regs_ax := a, regs_dx := d, regs_cx := x, regs_di := i, regs_ip := ip\<rparr>) ws
    = ws[2 := a, 3 := x, 4 := d, 6 := i, 11 := ip]"
proof -
  have R: "R = the (regs_at e (stack_bytes e ws))" using assms(3) by simp
  have b: "BITS_PER_LONG e = 32" using assms(1) by simp
  have f: "take_bit 32 v = v" if "v \<in> {a, x, d, i, ip, ws ! 2, ws ! 3, ws ! 4, ws ! 6, ws ! 11}" for v
    using assms(4) that by (auto simp: fits_def to_ulong_def b simp del: BITS_PER_LONG.simps)
  have "ws[2 := a, 3 := x, 4 := d, 6 := i, 11 := ip] = [ws ! 0, ws ! 1, a, x, d, ws ! 5, i, ws ! 7, ws ! 8, ws ! 9, ws ! 10, ip, ws ! 12, ws ! 13,
    ws ! 14, ws ! 15] @ drop 16 ws"
    by (subst explicit_stack_32 [OF assms(2)]) simp
  then show ?thesis
    using put_regs_32 [OF assms(1,2), of "R\<lparr>regs_ax := a, regs_dx := d, regs_cx := x, regs_di := i, regs_ip := ip\<rparr>"]
    unfolding R regs_at_32 [OF assms(1,2)] by (simp add: insert_bits_fits f insert_bits_same(2) [of 0, simplified])
qed

section \<open>The path of a fixed-up exception\<close>

text \<open>
  A handler that changes the registers of \<open>rdmsr\<close> and \<open>edi\<close> and the instruction pointer, as all handlers of the
  exception table do, leaves on the stack what the stub would have made of a context and a frame with
  these changes.
\<close>

lemma put_regs_entry:
  assumes "context_fits e c" "frame_fits e fr" "\<forall>v \<in> {a, x, d, i, ip}. fits e v" "CONFIG_64BIT e \<or> sw \<or> 2 \<le> length stk"
    and "regs_at e (stack_bytes e (entry_words e vec ec c @ frame_words e sw fr @ stk)) = Some R"
  shows "put_regs e (R\<lparr>regs_ax := a, regs_dx := d, regs_cx := x, regs_di := i, regs_ip := ip\<rparr>)
      (entry_words e vec ec c @ frame_words e sw fr @ stk)
    = entry_words e vec ec (c\<lparr>gpr := (gpr c)(RAX := a, RCX := x, RDX := d, RDI := i)\<rparr>) @ frame_words e sw (fr\<lparr>fr_ip := ip\<rparr>) @ stk"
proof (cases "CONFIG_64BIT e")
  case True
  then have len: "21 \<le> length (entry_words e vec ec c @ frame_words e sw fr @ stk)"
    by (simp add: entry_words_def frame_words_def)
  show ?thesis
    unfolding put_regs_update_64 [OF True len assms(5)] using True
    by (simp add: entry_words_def frame_words_def Let_def del: CONFIG_64BIT.simps)
next
  case False
  let ?ws = "entry_words e vec ec c @ frame_words e sw fr @ stk"
  have len: "16 \<le> length ?ws"
    using False assms(4) by (auto simp: entry_words_def frame_words_def)
  have "?ws ! 2 = gpr c RAX" "?ws ! 3 = gpr c RCX" "?ws ! 4 = gpr c RDX" "?ws ! 6 = gpr c RDI" "?ws ! 11 = fr_ip fr"
    using False by (simp_all add: entry_words_def frame_words_def Let_def del: CONFIG_64BIT.simps)
  then have fit: "\<forall>v \<in> {a, x, d, i, ip, ?ws ! 2, ?ws ! 3, ?ws ! 4, ?ws ! 6, ?ws ! 11}. fits e v"
    using assms(1-3) by (simp add: context_fits_def frame_fits_def del: nth_append)
  show ?thesis
    unfolding put_regs_update_32 [OF False len assms(5) fit] using False
    by (simp add: entry_words_def frame_words_def Let_def del: CONFIG_64BIT.simps)
qed

lemma entry_regs:
  assumes "vec < 32" "context_fits e c" "frame_fits e fr" "CONFIG_64BIT e \<or> sw \<or> 2 \<le> length stk"
  shows "\<exists>R. regs_at e (stack_bytes e (entry_words e vec ec c @ frame_words e sw fr @ stk)) = Some R
    \<and> regs_ax R = gpr c RAX \<and> regs_cx R = gpr c RCX \<and> regs_dx R = gpr c RDX \<and> regs_di R = gpr c RDI
    \<and> regs_ip R = fr_ip fr \<and> entry_vector R = of_nat vec \<and> error_code R = (case ec of None \<Rightarrow> 0 | Some x \<Rightarrow> x)"
proof (cases "CONFIG_64BIT e")
  case True
  then show ?thesis using entry_regs_64 [OF True, of vec ec c sw fr stk] by blast
next
  case False
  then show ?thesis using entry_regs_32 [OF False assms(2,3), of vec sw stk ec] assms(1,4) by auto
qed

lemma exception_path_Done:
  assumes "vec < 32" "(ec \<noteq> None) = bit X86_EXC_HAVE_EC vec" "context_fits e c" "frame_fits e fr"
    and "\<forall>v \<in> {a, x, d, i, ip}. fits e v"
    and handled: "\<And>R. regs_ip R = fr_ip fr \<Longrightarrow> entry_vector R = of_nat vec \<Longrightarrow> error_code R = (case ec of None \<Rightarrow> 0 | Some x \<Rightarrow> x)
      \<Longrightarrow> regs_ax R = gpr c RAX \<Longrightarrow> regs_cx R = gpr c RCX \<Longrightarrow> regs_dx R = gpr c RDX \<Longrightarrow> regs_di R = gpr c RDI
      \<Longrightarrow> do_exception stray hook R h s = Done (R\<lparr>regs_ax := a, regs_dx := d, regs_cx := x, regs_di := i, regs_ip := ip\<rparr>) s1"
  shows "\<exists>c2. exception_path e sw vec ec fr junk scratch stray hook c h s = Some (Done c2 s1)
    \<and> map (gpr c2) (registers e) = map ((gpr c)(RAX := a, RCX := x, RDX := d, RDI := i)) (registers e)
    \<and> sel_ds c2 = sel_ds c \<and> sel_es c2 = sel_es c
    \<and> stack c2 = frame_words e sw (fr\<lparr>fr_ip := ip\<rparr>) @ stack c
    \<and> sp c2 = sp c - of_nat (word_bytes e * length (frame_words e sw fr))"
proof -
  have long: "CONFIG_64BIT e \<or> sw \<or> 2 \<le> length (stack c)" using assms(3) by (auto simp: context_fits_def)
  let ?c = "c\<lparr>gpr := (gpr c)(RAX := a, RCX := x, RDX := d, RDI := i)\<rparr>"
  obtain c1 where run1: "run e (exception_entry e vec @ handle_exception e) (deliver e sw ec fr junk c) = Some c1"
    and s: "stack c1 = entry_words e vec ec c @ frame_words e sw fr @ stack c"
    and p: "sp c1 = sp c - of_nat (word_bytes e * length (entry_words e vec ec c @ frame_words e sw fr))"
    and d: "CONFIG_64BIT e \<longrightarrow> sel_ds c1 = sel_ds c \<and> sel_es c1 = sel_es c"
    using entry_run [OF _ assms(2,3)] assms(1) by fastforce
  obtain R where R: "regs_at e (stack_bytes e (stack c1)) = Some R"
    and f: "regs_ip R = fr_ip fr" "entry_vector R = of_nat vec" "error_code R = (case ec of None \<Rightarrow> 0 | Some x \<Rightarrow> x)"
      "regs_ax R = gpr c RAX" "regs_cx R = gpr c RCX" "regs_dx R = gpr c RDX" "regs_di R = gpr c RDI"
    using entry_regs [OF assms(1,3,4) long, of ec] unfolding s by blast
  let ?R1 = "R\<lparr>regs_ax := a, regs_dx := d, regs_cx := x, regs_di := i, regs_ip := ip\<rparr>"
  have put: "put_regs e ?R1 (stack c1) = entry_words e vec ec ?c @ frame_words e sw (fr\<lparr>fr_ip := ip\<rparr>) @ stack c"
    unfolding s by (rule put_regs_entry [OF assms(3-5) long R [unfolded s]])
  obtain c2 where c2: "run e (handle_exception_exit e) (c1\<lparr>gpr := scratch, stack := put_regs e ?R1 (stack c1)\<rparr>) = Some c2"
    "map (gpr c2) (registers e) = map (gpr ?c) (registers e)" "sel_ds c2 = sel_ds c" "sel_es c2 = sel_es c"
    "stack c2 = frame_words e sw (fr\<lparr>fr_ip := ip\<rparr>) @ stack c"
    "sp c2 = sp c1 + of_nat (word_bytes e * length (entry_words e vec ec ?c))"
    using exit_run [of "c1\<lparr>gpr := scratch, stack := put_regs e ?R1 (stack c1)\<rparr>" e vec ec ?c] put d by auto
  have "length (entry_words e vec ec ?c) = length (entry_words e vec ec c)" by (simp add: entry_words_def Let_def)
  then have "sp c2 = sp c - of_nat (word_bytes e * length (frame_words e sw fr))"
    unfolding c2(6) p by (simp add: algebra_simps)
  then show ?thesis using c2 run1 R handled [OF f] by (simp add: exception_path_def)
qed

text \<open>What each kind of table entry is for: the registers that it changes, given the vector and the error code.\<close>

definition fixup_changes :: "u32 \<Rightarrow> u32 \<Rightarrow> (ex_handler option \<times> (reg \<times> u64) list) set" where
  "fixup_changes vec ec =
     {(None, []),
      (Some ex_record_fault_eax, [(RAX, ucast (EXINFO vec ec))]),
      (Some ex_record_fault_edi, [(RDI, ucast (EXINFO vec ec))]),
      (Some ex_rdmsr_safe, [(RAX, 0), (RDX, 0), (RCX, 0xffffffff)]),
      (Some ex_wrmsr_safe, [(RCX, 0xffffffff)])}"

definition changed :: "(reg \<times> u64) list \<Rightarrow> (reg \<Rightarrow> u64) \<Rightarrow> reg \<Rightarrow> u64" where
  "changed change g r = (case map_of change r of Some v \<Rightarrow> v | None \<Rightarrow> g r)"

lemma changed_only:
  assumes "(hnd, change) \<in> fixup_changes vec ec"
  shows "g(RAX := changed change g RAX, RCX := changed change g RCX, RDX := changed change g RDX, RDI := changed change g RDI)
    = changed change g"
  using assms by (auto simp: fixup_changes_def changed_def fun_eq_iff)

lemma changed_fits:
  assumes "(hnd, change) \<in> fixup_changes vec ec" "\<forall>r. fits e (g r)"
  shows "fits e (changed change g r)"
proof -
  have "fits e 0" "fits e 0xffffffff" by (cases e; simp add: fits_def to_ulong_def)+
  then show ?thesis using assms by (auto simp: fixup_changes_def changed_def fits_ucast)
qed

lemma do_exception_changed:
  assumes "sorted (map fault (ex_table s))" "distinct (map fault (ex_table s))" "ex \<in> set (ex_table s)" "fault ex = regs_ip R"
    and "(handler ex, change) \<in> fixup_changes (entry_vector R) (error_code R)"
    and g: "g RAX = regs_ax R" "g RCX = regs_cx R" "g RDX = regs_dx R" "g RDI = regs_di R"
  shows "do_exception stray hook R h s
    = Done (R\<lparr>regs_ax := changed change g RAX, regs_dx := changed change g RDX, regs_cx := changed change g RCX,
              regs_di := changed change g RDI, regs_ip := fixup ex\<rparr>) s"
proof -
  note none = do_exception_fixup [OF assms(1-4), where stray = stray and hook = hook and h = h]
  note some = do_exception_handler [OF assms(1-4), where stray = stray and hook = hook and h = h]
  from assms(5) consider "handler ex = None" "change = []"
    | "handler ex = Some ex_record_fault_eax" "change = [(RAX, ucast (EXINFO (entry_vector R) (error_code R)))]"
    | "handler ex = Some ex_record_fault_edi" "change = [(RDI, ucast (EXINFO (entry_vector R) (error_code R)))]"
    | "handler ex = Some ex_rdmsr_safe" "change = [(RAX, 0), (RDX, 0), (RCX, 0xffffffff)]"
    | "handler ex = Some ex_wrmsr_safe" "change = [(RCX, 0xffffffff)]"
    by (auto simp: fixup_changes_def)
  then show ?thesis
  proof cases
    case 1
    then show ?thesis using none [OF 1(1)] by (cases R) (simp add: g changed_def)
  next
    case 2
    then show ?thesis using some [OF 2(1) ex_record_fault_eax_def] by (cases R) (simp add: g changed_def)
  next
    case 3
    then show ?thesis using some [OF 3(1) ex_record_fault_edi_def] by (cases R) (simp add: g changed_def)
  next
    case 4
    then show ?thesis using some [OF 4(1) ex_rdmsr_safe_def] by (cases R) (simp add: g changed_def)
  next
    case 5
    then show ?thesis using some [OF 5(1) ex_wrmsr_safe_def] by (cases R) (simp add: g changed_def)
  qed
qed



end
