(* ===== verification/Exec_User.thy ===== *)
theory Exec_User imports
  X86_Entry
begin

text \<open>
  Running a function in user mode: \<open>exec_user_param\<close>, \<open>exec_user_stub\<close> and \<open>entry_ret_to_kernel\<close> of
  \<open>entry_32.S\<close> and \<open>entry_64.S\<close>, with the wrappers of \<open>xtf/lib.h\<close>. Unlike the exception stubs these switch
  stacks through a saved stack pointer, so memory is explicit here: words at their addresses.
\<close>

section \<open>Processor\<close>

record exec_state =
  xr :: "reg \<Rightarrow> u64"
  xsp :: u64
  xmem :: "u64 \<Rightarrow> u64"
  xflags :: u64
  xip :: u64
  xcs :: u64
  xss :: u64

definition wb :: "env \<Rightarrow> u64" where
  "wb e = of_nat (word_bytes e)"

definition xpush :: "env \<Rightarrow> u64 \<Rightarrow> exec_state \<Rightarrow> exec_state" where
  "xpush e w s = s\<lparr>xsp := to_ulong e (xsp s - wb e), xmem := (xmem s)(to_ulong e (xsp s - wb e) := to_ulong e w)\<rparr>"

definition top_word :: "exec_state \<Rightarrow> u64" where
  "top_word s = xmem s (xsp s)"

definition set_top :: "u64 \<Rightarrow> exec_state \<Rightarrow> exec_state" where
  "set_top w s = s\<lparr>xmem := (xmem s)(xsp s := w)\<rparr>"

definition drop_top :: "env \<Rightarrow> exec_state \<Rightarrow> exec_state" where
  "drop_top e s = s\<lparr>xsp := to_ulong e (xsp s + wb e)\<rparr>"

definition set_reg :: "reg \<Rightarrow> u64 \<Rightarrow> exec_state \<Rightarrow> exec_state" where
  "set_reg r w s = s\<lparr>xr := (xr s)(r := w)\<rparr>"

definition xpop :: "env \<Rightarrow> reg \<Rightarrow> exec_state \<Rightarrow> exec_state" where
  "xpop e r s = drop_top e (set_reg r (top_word s) s)"

definition xret :: "env \<Rightarrow> exec_state \<Rightarrow> exec_state" where
  "xret e s = drop_top e (s\<lparr>xip := top_word s\<rparr>)"

text \<open>
  \<open>iret\<close> to an outer privilege level, which is also what Xen's \<open>iret\<close> hypercall does with the frame; and
  an interrupt from user mode, which pushes the frame on the kernel's stack \<open>sp0\<close>. For a 64-bit PV
  kernel Xen adds \<open>r11\<close> and \<open>rcx\<close> and enters with other values in them.
\<close>

definition env_IRET :: "env \<Rightarrow> exec_state \<Rightarrow> exec_state" where
  "env_IRET e s =
     s\<lparr>xip := xmem s (xsp s), xcs := xmem s (to_ulong e (xsp s + wb e)), xflags := xmem s (to_ulong e (xsp s + 2 * wb e)),
       xsp := xmem s (to_ulong e (xsp s + 3 * wb e)), xss := xmem s (to_ulong e (xsp s + 4 * wb e))\<rparr>"

definition interrupt :: "env \<Rightarrow> u64 \<Rightarrow> u64 \<Rightarrow> u64 \<times> u64 \<Rightarrow> exec_state \<Rightarrow> exec_state" where
  "interrupt e sp0 handler_ip junk s =
     (let s1 = foldl (\<lambda>s w. xpush e w s) (s\<lparr>xsp := sp0\<rparr>)
                 ([xss s, xsp s, xflags s, xcs s, xip s] @ (if e = PV64 then [xr s R11, xr s RCX] else []))
      in s1\<lparr>xip := handler_ip,
            xr := (if e = PV64 then (xr s)(RCX := fst junk, R11 := snd junk) else xr s)\<rparr>)"

section \<open>The program\<close>

text \<open>The four tunable parameters.\<close>

record exec_params =
  exec_user_cs :: u64
  exec_user_ss :: u64
  efl_and_mask :: u64
  efl_or_mask :: u64

text \<open>
  Their initial values in \<open>traps.c\<close>: the segments of user mode, and flags unchanged but for the interrupt
  flag, which PV guests see and must not hand to user mode.
\<close>

definition initial_exec_params :: "env \<Rightarrow> exec_params" where
  "initial_exec_params e =
     \<lparr>exec_user_cs = ucast (USER_CS e), exec_user_ss = ucast (USER_DS e),
      efl_and_mask = init_efl_and_mask e, efl_or_mask = 0\<rparr>"

text \<open>
  The registers of the function and of its parameter at the call, and the scratch register of the
  flags. Label 1 is \<open>exec_user_resume\<close>; the instruction after the call in the stub, which the call
  pushes, is \<open>exec_user_stub_int\<close>.
\<close>

definition fn_reg :: "env \<Rightarrow> reg" where "fn_reg e = (if CONFIG_64BIT e then RDI else RAX)"
definition p1_reg :: "env \<Rightarrow> reg" where "p1_reg e = (if CONFIG_64BIT e then RSI else RDX)"
definition mask_reg :: "env \<Rightarrow> reg" where "mask_reg e = (if CONFIG_64BIT e then RDX else RCX)"

definition exec_user_param :: "env \<Rightarrow> linkage \<Rightarrow> exec_params \<Rightarrow> exec_state \<Rightarrow> exec_state" where
  "exec_user_param e lnk p s =
     (let s = xpush e (xr s RBP) s;
          s = xpush e (lnk ''exec_user_resume'') s;
          s = set_reg RBP (xsp s) s;
          s = xpush e (exec_user_ss p) s;
          s = xpush e (lnk ''user_stack'' + PAGE_SIZE) s;
          s = xpush e (xflags s) s;
          s = set_reg (mask_reg e) (efl_and_mask p) s;
          s = set_top (xr s (mask_reg e) AND top_word s) s;
          s = set_reg (mask_reg e) (efl_or_mask p) s;
          s = set_top (xr s (mask_reg e) OR top_word s) s;
          s = xpush e (exec_user_cs p) s;
          s = xpush e (lnk ''exec_user_stub'') s
      in env_IRET e s)"

text \<open>\<open>exec_user_stub\<close> up to the first instruction of the function.\<close>

definition exec_user_stub :: "env \<Rightarrow> linkage \<Rightarrow> exec_state \<Rightarrow> exec_state" where
  "exec_user_stub e lnk s =
     (let f = xr s (fn_reg e); v = xr s (p1_reg e);
          s = set_reg (p1_reg e) f (set_reg (fn_reg e) v s);
          s = xpush e (lnk ''exec_user_stub_int'') s
      in s\<lparr>xip := xr s (p1_reg e)\<rparr>)"

definition entry_ret_to_kernel :: "env \<Rightarrow> exec_state \<Rightarrow> exec_state" where
  "entry_ret_to_kernel e s =
     (let s = (if e = PV64 then xpop e R11 (xpop e RCX s) else s);
          s = s\<lparr>xsp := xr s RBP\<rparr>
      in xret e s)"

text \<open>From label 1 to the return to the caller.\<close>

definition exec_user_resume :: "env \<Rightarrow> exec_state \<Rightarrow> exec_state" where
  "exec_user_resume e s = xret e (xpop e RBP s)"

text \<open>
  The whole excursion: \<open>fn\<close> is what the user function does with the state between its first instruction
  and its return. None if control arrives anywhere else than the labels expect.
\<close>

definition exec_user_run ::
    "env \<Rightarrow> linkage \<Rightarrow> exec_params \<Rightarrow> u64 \<Rightarrow> u64 \<times> u64 \<Rightarrow> (exec_state \<Rightarrow> exec_state) \<Rightarrow> exec_state \<Rightarrow> exec_state option" where
  "exec_user_run e lnk p sp0 junk fn s =
     (let u = exec_user_param e lnk p s in
      if xip u \<noteq> lnk ''exec_user_stub'' then None
      else let r = fn (exec_user_stub e lnk u) in
      if xip r \<noteq> lnk ''exec_user_stub_int'' then None
      else let k = entry_ret_to_kernel e (interrupt e sp0 (lnk ''entry_ret_to_kernel'') junk r) in
      if xip k \<noteq> lnk ''exec_user_resume'' then None
      else Some (exec_user_resume e k))"

text \<open>\<open>exec_user\<close>: the parameter is poisoned.\<close>

definition exec_user ::
    "env \<Rightarrow> linkage \<Rightarrow> exec_params \<Rightarrow> u64 \<Rightarrow> u64 \<times> u64 \<Rightarrow> (exec_state \<Rightarrow> exec_state) \<Rightarrow> u64 \<Rightarrow> exec_state \<Rightarrow> exec_state option" where
  "exec_user e lnk p sp0 junk fn f s =
     exec_user_run e lnk p sp0 junk fn (set_reg (p1_reg e) 0xdead0000 (set_reg (fn_reg e) f s))"

section \<open>What the caller relies on\<close>

text \<open>
  A function that obeys the calling convention: it returns to the address on top of the stack, and
  keeps \<open>rbp\<close>. In user mode it cannot write the kernel's stack, whose bytes are \<open>boot_stack\<close>.
\<close>

definition kernel_stack :: "linkage \<Rightarrow> u64 set" where
  "kernel_stack lnk = {a. lnk ''boot_stack'' \<le> a \<and> a < lnk ''boot_stack'' + 3 * PAGE_SIZE}"

definition user_function :: "env \<Rightarrow> linkage \<Rightarrow> (exec_state \<Rightarrow> exec_state) \<Rightarrow> bool" where
  "user_function e lnk fn \<longleftrightarrow>
     (\<forall>u. xip (fn u) = top_word u \<and> xr (fn u) RBP = xr u RBP \<and> (\<forall>a \<in> kernel_stack lnk. xmem (fn u) a = xmem u a))"

lemma fits_iff: "fits e w \<longleftrightarrow> unat w < 2 ^ BITS_PER_LONG e"
proof
  assume "fits e w"
  then have "take_bit (BITS_PER_LONG e) w = w" by (simp add: fits_def to_ulong_def)
  then have "unat w = take_bit (BITS_PER_LONG e) (unat w)" by (metis unsigned_take_bit_eq)
  then show "unat w < 2 ^ BITS_PER_LONG e" by (metis take_bit_nat_less_exp)
next
  assume "unat w < 2 ^ BITS_PER_LONG e"
  then show "fits e w"
    unfolding fits_def to_ulong_def
    by (simp only: word_unat_eq_iff unsigned_take_bit_eq) (simp only: take_bit_nat_eq_self)
qed

lemma fits_less_eq: "fits e w \<Longrightarrow> v \<le> w \<Longrightarrow> fits e v"
  unfolding fits_iff word_le_nat_alt by linarith

section \<open>Running it\<close>

lemmas exec_simps = xpush_def top_word_def set_top_def drop_top_def set_reg_def xpop_def xret_def env_IRET_def Let_def

lemma step_selectors:
  "xsp (xpush e w s) = to_ulong e (xsp s - wb e)" "xr (xpush e w s) = xr s" "xflags (xpush e w s) = xflags s"
  "xmem (xpush e w s) = (xmem s)(to_ulong e (xsp s - wb e) := to_ulong e w)"
  "xsp (set_reg r v s) = xsp s" "xr (set_reg r v s) = (xr s)(r := v)" "xflags (set_reg r v s) = xflags s" "xmem (set_reg r v s) = xmem s"
  "xsp (set_top w s) = xsp s" "xr (set_top w s) = xr s" "xflags (set_top w s) = xflags s" "xmem (set_top w s) = (xmem s)(xsp s := w)"
  by (simp_all add: exec_simps)

lemma wb_values: "wb e = (if CONFIG_64BIT e then 8 else 4)"
  by (simp add: wb_def word_bytes_def)

text \<open>The addresses that the pushes of \<open>exec_user_param\<close> use.\<close>

lemma push_addresses:
  assumes "fits e S" "8 * wb e \<le> S"
  shows "fits e (S - wb e)" "fits e (S - 2 * wb e)" "fits e (S - 3 * wb e)" "fits e (S - 4 * wb e)"
    "fits e (S - 5 * wb e)" "fits e (S - 6 * wb e)" "fits e (S - 7 * wb e)"
proof -
  have "fits e (S - x)" if "x \<le> 8 * wb e" for x
    by (rule fits_less_eq [OF assms(1)]) (use that assms(2) in \<open>auto intro: word_sub_le order_trans\<close>)
  then show "fits e (S - wb e)" "fits e (S - 2 * wb e)" "fits e (S - 3 * wb e)" "fits e (S - 4 * wb e)"
    "fits e (S - 5 * wb e)" "fits e (S - 6 * wb e)" "fits e (S - 7 * wb e)"
    by (simp_all add: wb_values)
qed

lemma exec_user_param_state:
  assumes "fits e (xsp s)" "8 * wb e \<le> xsp s"
    and "fits e (xr s RBP)" "fits e (lnk ''exec_user_resume'')" "fits e (lnk ''exec_user_stub'')"
    and "fits e (lnk ''user_stack'' + PAGE_SIZE)" "fits e (xflags s)" "fits e (efl_and_mask p)" "fits e (efl_or_mask p)"
    and "fits e (exec_user_cs p)" "fits e (exec_user_ss p)"
  shows "\<exists>u. exec_user_param e lnk p s = u \<and> xip u = lnk ''exec_user_stub'' \<and> xcs u = exec_user_cs p
    \<and> xflags u = (xflags s AND efl_and_mask p) OR efl_or_mask p \<and> xsp u = lnk ''user_stack'' + PAGE_SIZE
    \<and> xss u = exec_user_ss p \<and> xr u = (xr s)(RBP := xsp s - 2 * wb e, mask_reg e := efl_or_mask p)
    \<and> xmem u (xsp s - wb e) = xr s RBP \<and> xmem u (xsp s - 2 * wb e) = lnk ''exec_user_resume''
    \<and> (\<forall>a. a \<notin> set (map (\<lambda>k. xsp s - k * wb e) [1, 2, 3, 4, 5, 6, 7]) \<longrightarrow> xmem u a = xmem s a)"
proof (cases "CONFIG_64BIT e")
  case True
  then have w: "wb e = 8" "to_ulong e w = w" for w by (auto simp: wb_values)
  show ?thesis
    by (simp add: exec_user_param_def Let_def env_IRET_def top_word_def step_selectors w or.commute and.commute)
next
  case False
  then have w: "wb e = 4" by (simp add: wb_values)
  note addr = push_addresses [OF assms(1,2), unfolded fits_def w, simplified]
  note vals = assms(3-) [unfolded fits_def]
  show ?thesis
    by (simp add: exec_user_param_def Let_def env_IRET_def top_word_def step_selectors w addr vals or.commute and.commute
        del: CONFIG_64BIT.simps)
qed

text \<open>Pushes leave what lies above the stack pointer and below the last word alone.\<close>

lemma pushes_keep:
  assumes "fits e (xsp s)" "unat (wb e) * length ws \<le> unat (xsp s)"
  shows "xsp (foldl (\<lambda>s w. xpush e w s) s ws) = xsp s - of_nat (length ws) * wb e
    \<and> (\<forall>a. unat a + unat (wb e) * length ws < unat (xsp s) \<or> xsp s \<le> a
          \<longrightarrow> xmem (foldl (\<lambda>s w. xpush e w s) s ws) a = xmem s a)
    \<and> xr (foldl (\<lambda>s w. xpush e w s) s ws) = xr s"
  using assms
proof (induction ws arbitrary: s)
  case (Cons w ws)
  let ?s = "xpush e w s"
  have le: "wb e \<le> xsp s" using Cons.prems(2) by (simp add: word_le_nat_alt)
  have low: "unat (xsp s - wb e) = unat (xsp s) - unat (wb e)" using le by (rule unat_sub)
  have "fits e (xsp s - wb e)" by (rule fits_less_eq [OF Cons.prems(1)]) (rule word_sub_le [OF le])
  then have sp: "xsp ?s = xsp s - wb e" by (simp add: step_selectors fits_def)
  have IH: "xsp (foldl (\<lambda>s w. xpush e w s) ?s ws) = xsp ?s - of_nat (length ws) * wb e
    \<and> (\<forall>a. unat a + unat (wb e) * length ws < unat (xsp ?s) \<or> xsp ?s \<le> a
          \<longrightarrow> xmem (foldl (\<lambda>s w. xpush e w s) ?s ws) a = xmem ?s a)
    \<and> xr (foldl (\<lambda>s w. xpush e w s) ?s ws) = xr ?s"
    by (rule Cons.IH) (use \<open>fits e (xsp s - wb e)\<close> Cons.prems(2) low sp in simp_all)
  have "xmem (foldl (\<lambda>s w. xpush e w s) ?s ws) a = xmem s a"
    if a: "unat a + unat (wb e) * length (w # ws) < unat (xsp s) \<or> xsp s \<le> a" for a
  proof -
    have "0 < unat (wb e)" by (simp add: wb_values)
    then have "a \<noteq> xsp s - wb e" using a low le by (auto simp: word_le_nat_alt)
    then have "xmem ?s a = xmem s a" using \<open>fits e (xsp s - wb e)\<close> by (simp add: step_selectors fits_def)
    moreover have "unat a + unat (wb e) * length ws < unat (xsp ?s) \<or> xsp ?s \<le> a"
      using a low le sp by (auto simp: word_le_nat_alt)
    ultimately show ?thesis using conjunct1 [OF conjunct2 [OF IH], rule_format, of a] by simp
  qed
  then show ?case using IH sp by (simp add: step_selectors algebra_simps)
qed simp

lemma interrupt_return:
  assumes "fits e sp0" "unat (xr r RBP) + unat (wb e) * 7 < unat sp0"
  shows "\<exists>k. entry_ret_to_kernel e (interrupt e sp0 h junk r) = k
    \<and> xip k = xmem r (xr r RBP) \<and> xsp k = to_ulong e (xr r RBP + wb e) \<and> xr k = xr r
    \<and> (\<forall>a. unat a + unat (wb e) * 7 < unat sp0 \<longrightarrow> xmem k a = xmem r a)"
proof -
  define ws where "ws = [xss r, xsp r, xflags r, xcs r, xip r] @ (if e = PV64 then [xr r R11, xr r RCX] else [])"
  define s1 where "s1 = foldl (\<lambda>s w. xpush e w s) (r\<lparr>xsp := sp0\<rparr>) ws"
  have len: "unat (wb e) * length ws \<le> unat (wb e) * 7" by (simp add: ws_def)
  have keep: "xmem s1 a = xmem r a" if "unat a + unat (wb e) * 7 < unat sp0" for a
  proof -
    have "unat a + unat (wb e) * length ws < unat sp0" using that len by linarith
    then show ?thesis using pushes_keep [of e "r\<lparr>xsp := sp0\<rparr>" ws] assms len by (simp add: s1_def)
  qed
  have regs: "xr s1 = xr r" using pushes_keep [of e "r\<lparr>xsp := sp0\<rparr>" ws] assms len by (simp add: s1_def)
  have i: "interrupt e sp0 h junk r = s1\<lparr>xip := h, xr := (if e = PV64 then (xr r)(RCX := fst junk, R11 := snd junk) else xr r)\<rparr>"
    by (simp add: interrupt_def s1_def ws_def)
  show ?thesis
  proof (cases "e = PV64")
    case True
    have w: "wb e = 8" "to_ulong e v = v" for v by (simp_all add: True wb_values)
    have top1: "xsp s1 = sp0 - 56" "xmem s1 (sp0 - 56) = xr r RCX" "xmem s1 (sp0 - 48) = xr r R11"
      by (simp_all add: s1_def ws_def True step_selectors wb_values)
    show ?thesis using keep assms(2)
      by (auto simp: i [unfolded True] True entry_ret_to_kernel_def exec_simps wb_values top1 fun_eq_iff)
  next
    case False
    then show ?thesis using keep assms(2) by (simp add: i entry_ret_to_kernel_def exec_simps)
  qed
qed

lemma pushed_below:
  assumes "8 * wb e \<le> S" "x \<in> set (map (\<lambda>k. k * wb e) [1, 2, 3, 4, 5, 6, 7])"
  shows "unat (S - x) = unat S - unat x \<and> S - x < S"
proof -
  have "x \<le> 8 * wb e" "0 < x" using assms(2) by (auto simp: wb_values word_le_nat_alt word_less_nat_alt)
  then show ?thesis using assms(1) by (auto simp: unat_sub word_less_nat_alt word_le_nat_alt)
qed

lemma exec_user_stub_state:
  assumes "fits e (xsp s - wb e)" "fits e (lnk ''exec_user_stub_int'')"
  shows "xip (exec_user_stub e lnk s) = xr s (fn_reg e) \<and> xr (exec_user_stub e lnk s) (fn_reg e) = xr s (p1_reg e)
    \<and> xr (exec_user_stub e lnk s) RBP = xr s RBP \<and> xcs (exec_user_stub e lnk s) = xcs s \<and> xss (exec_user_stub e lnk s) = xss s
    \<and> xflags (exec_user_stub e lnk s) = xflags s \<and> xsp (exec_user_stub e lnk s) = xsp s - wb e
    \<and> top_word (exec_user_stub e lnk s) = lnk ''exec_user_stub_int''
    \<and> (\<forall>a. a \<noteq> xsp s - wb e \<longrightarrow> xmem (exec_user_stub e lnk s) a = xmem s a)"
  using assms by (simp add: exec_user_stub_def exec_simps fn_reg_def p1_reg_def fits_def del: CONFIG_64BIT.simps)

text \<open>
  The stack of the caller: a pointer into the first page of \<open>boot_stack\<close>, the work page, with room for what
  \<open>exec_user_param\<close> pushes and for the return address above it.
\<close>

definition on_work_page :: "env \<Rightarrow> linkage \<Rightarrow> u64 \<Rightarrow> bool" where
  "on_work_page e lnk S \<longleftrightarrow>
     unat (lnk ''boot_stack'') + 3 * 4096 < 2 ^ BITS_PER_LONG e
     \<and> unat (lnk ''boot_stack'') + 64 \<le> unat S \<and> unat S + 8 \<le> unat (lnk ''boot_stack'') + 4096"

lemma work_page:
  assumes "on_work_page e lnk S"
  shows "unat (lnk ''boot_stack'' + PAGE_SIZE) = unat (lnk ''boot_stack'') + 4096"
    and "unat (lnk ''boot_stack'' + 2 * PAGE_SIZE) = unat (lnk ''boot_stack'') + 8192"
    and "unat (lnk ''boot_stack'' + 3 * PAGE_SIZE) = unat (lnk ''boot_stack'') + 12288"
    and "fits e S" "fits e (lnk ''boot_stack'' + 2 * PAGE_SIZE)" "8 * wb e \<le> S"
    and "unat (S - wb e) = unat S - unat (wb e)" "unat (S - 2 * wb e) = unat S - 2 * unat (wb e)"
    and "unat S - 16 \<le> unat a \<Longrightarrow> unat a < unat (lnk ''boot_stack'') + 4096 \<Longrightarrow> a \<in> kernel_stack lnk"
proof -
  note stack = assms [unfolded on_work_page_def]
  have small: "unat (lnk ''boot_stack'') + 3 * 4096 < 2 ^ 64" using stack by (cases "CONFIG_64BIT e") simp_all
  show page: "unat (lnk ''boot_stack'' + PAGE_SIZE) = unat (lnk ''boot_stack'') + 4096"
    and sp0: "unat (lnk ''boot_stack'' + 2 * PAGE_SIZE) = unat (lnk ''boot_stack'') + 8192"
    and last: "unat (lnk ''boot_stack'' + 3 * PAGE_SIZE) = unat (lnk ''boot_stack'') + 12288"
    using small by (simp_all add: unat_word_ariths PAGE_SIZE_def)
  show "fits e S" "fits e (lnk ''boot_stack'' + 2 * PAGE_SIZE)" using stack sp0 by (simp_all add: fits_iff)
  show low: "8 * wb e \<le> S" using stack by (simp add: word_le_nat_alt wb_values)
  show "unat (S - wb e) = unat S - unat (wb e)" "unat (S - 2 * wb e) = unat S - 2 * unat (wb e)"
    using pushed_below [OF low, of "wb e"] pushed_below [OF low, of "2 * wb e"] by (simp_all add: wb_values)
  show "a \<in> kernel_stack lnk" if "unat S - 16 \<le> unat a" "unat a < unat (lnk ''boot_stack'') + 4096"
  proof -
    have "unat (lnk ''boot_stack'') \<le> unat a" using that(1) stack by linarith
    then show ?thesis using that(2) last by (simp add: kernel_stack_def word_le_nat_alt word_less_nat_alt)
  qed
qed

text \<open>The way to user mode, up to the first instruction of the function.\<close>

lemma exec_user_enter:
  assumes "on_work_page e lnk (xsp s)"
    and user: "lnk ''user_stack'' + PAGE_SIZE - wb e \<notin> kernel_stack lnk" "fits e (lnk ''user_stack'' + PAGE_SIZE)"
      "fits e (lnk ''user_stack'' + PAGE_SIZE - wb e)"
    and labels: "fits e (lnk ''exec_user_resume'')" "fits e (lnk ''exec_user_stub'')" "fits e (lnk ''exec_user_stub_int'')"
    and vals: "fits e (xr s RBP)" "fits e (xflags s)" "fits e (efl_and_mask p)" "fits e (efl_or_mask p)"
      "fits e (exec_user_cs p)" "fits e (exec_user_ss p)"
    and u: "u = exec_user_stub e lnk (exec_user_param e lnk p s)"
  shows "xip (exec_user_param e lnk p s) = lnk ''exec_user_stub''
    \<and> xip u = xr s (fn_reg e) \<and> xr u (fn_reg e) = xr s (p1_reg e) \<and> xr u RBP = xsp s - 2 * wb e
    \<and> xcs u = exec_user_cs p \<and> xss u = exec_user_ss p \<and> xflags u = (xflags s AND efl_and_mask p) OR efl_or_mask p
    \<and> xsp u = lnk ''user_stack'' + PAGE_SIZE - wb e \<and> top_word u = lnk ''exec_user_stub_int''
    \<and> xmem u (xsp s - wb e) = xr s RBP \<and> xmem u (xsp s - 2 * wb e) = lnk ''exec_user_resume''
    \<and> (\<forall>a. xsp s \<le> a \<and> a < lnk ''boot_stack'' + PAGE_SIZE \<longrightarrow> xmem u a = xmem s a)"
proof -
  let ?S = "xsp s" and ?U = "lnk ''user_stack'' + PAGE_SIZE"
  note page = work_page [OF assms(1)]
  have d: "0 < unat (wb e)" "unat (wb e) \<le> 8" by (simp_all add: wb_values)
  obtain u0 where u0: "exec_user_param e lnk p s = u0" "xip u0 = lnk ''exec_user_stub''" "xcs u0 = exec_user_cs p"
      "xflags u0 = (xflags s AND efl_and_mask p) OR efl_or_mask p" "xsp u0 = ?U" "xss u0 = exec_user_ss p"
      "xr u0 = (xr s)(RBP := ?S - 2 * wb e, mask_reg e := efl_or_mask p)"
      "xmem u0 (?S - wb e) = xr s RBP" "xmem u0 (?S - 2 * wb e) = lnk ''exec_user_resume''"
    and rest: "\<forall>a. a \<notin> set (map (\<lambda>k. ?S - k * wb e) [1, 2, 3, 4, 5, 6, 7]) \<longrightarrow> xmem u0 a = xmem s a"
    using exec_user_param_state [OF page(4,6) vals(1) labels(1,2) user(2) vals(2-6)] by blast
  have u1: "xip u = xr s (fn_reg e)" "xr u (fn_reg e) = xr s (p1_reg e)" "xr u RBP = ?S - 2 * wb e" "xcs u = exec_user_cs p"
      "xss u = exec_user_ss p" "xflags u = xflags u0" "xsp u = ?U - wb e" "top_word u = lnk ''exec_user_stub_int''"
    and mem: "\<forall>a. a \<noteq> ?U - wb e \<longrightarrow> xmem u a = xmem u0 a"
    using exec_user_stub_state [of e u0 lnk] u0(3-7) user(3) labels(3) unfolding u u0(1)
    by (simp_all add: fn_reg_def p1_reg_def mask_reg_def del: CONFIG_64BIT.simps)
  have same: "xmem u a = xmem u0 a" if "unat ?S - 16 \<le> unat a" "unat a < unat (lnk ''boot_stack'') + 4096" for a
    using mem page(9) [OF that] user(1) by metis
  have "xmem u a = xmem s a" if "?S \<le> a" "a < lnk ''boot_stack'' + PAGE_SIZE" for a
  proof -
    have "a \<notin> set (map (\<lambda>k. ?S - k * wb e) [1, 2, 3, 4, 5, 6, 7])"
      using pushed_below [OF page(6)] that(1) by (fastforce simp: word_le_nat_alt word_less_nat_alt)
    then show ?thesis using rest same [of a] that page(1) by (simp add: word_le_nat_alt word_less_nat_alt)
  qed
  moreover have "unat ?S < unat (lnk ''boot_stack'') + 4096" using assms(1) by (simp add: on_work_page_def)
  ultimately show ?thesis
    using u0 u1 same [of "?S - wb e"] same [of "?S - 2 * wb e"] page(7,8) d by simp
qed

text \<open>The way back, from the interrupt to the return of \<open>exec_user_param\<close>.\<close>

lemma exec_user_leave:
  assumes "on_work_page e lnk S" "xr r RBP = S - 2 * wb e"
    and "xmem r (S - wb e) = bp" "xmem r (S - 2 * wb e) = lnk ''exec_user_resume''"
    and k: "k = entry_ret_to_kernel e (interrupt e (lnk ''boot_stack'' + 2 * PAGE_SIZE) h junk r)"
  shows "xip k = lnk ''exec_user_resume'' \<and> xip (exec_user_resume e k) = xmem r S \<and> xsp (exec_user_resume e k) = S + wb e
    \<and> xr (exec_user_resume e k) = (xr r)(RBP := bp)
    \<and> (\<forall>a. S \<le> a \<and> a < lnk ''boot_stack'' + PAGE_SIZE \<longrightarrow> xmem (exec_user_resume e k) a = xmem r a)"
proof -
  note page = work_page [OF assms(1)] and stack = assms(1) [unfolded on_work_page_def]
  have d: "0 < unat (wb e)" "unat (wb e) \<le> 8" by (simp_all add: wb_values)
  have apart: "unat (xr r RBP) + unat (wb e) * 7 < unat (lnk ''boot_stack'' + 2 * PAGE_SIZE)"
    using assms(2) page(2,8) stack d by simp
  have k1: "xip k = xmem r (S - 2 * wb e)" "xsp k = to_ulong e (S - 2 * wb e + wb e)" "xr k = xr r"
    and below: "\<forall>a. unat a + unat (wb e) * 7 < unat (lnk ''boot_stack'' + 2 * PAGE_SIZE) \<longrightarrow> xmem k a = xmem r a"
    using interrupt_return [OF page(5) apart, of h junk] assms(2) unfolding k by auto
  have mem: "xmem k a = xmem r a" if "unat a < unat (lnk ''boot_stack'') + 4096" for a using below that page(2) d by simp
  have spk: "xsp k = S - wb e"
    using k1(2) push_addresses(1) [OF page(4,6)] by (simp add: fits_def algebra_simps)
  have bound: "fits e (S + wb e)" using stack d by (auto simp: fits_iff unat_word_ariths)
  have "xmem k (S - wb e) = bp" "xmem k S = xmem r S" using mem page(7) stack assms(3) by auto
  then have "exec_user_resume e k = k\<lparr>xr := (xr k)(RBP := bp), xsp := S + wb e, xip := xmem r S\<rparr>"
    using page(4) bound by (simp add: exec_user_resume_def exec_simps spk fits_def)
  then show ?thesis using k1(1,3) assms(4) mem page(1) by (auto simp: word_less_nat_alt)
qed

text \<open>
  C12: \<open>exec_user_param(fn, p1)\<close> calls \<open>fn\<close> in user mode and comes back. The first instruction of \<open>fn\<close> runs
  with its parameter in the first argument register, on the user stack, with the code and stack segment
  and the flags that the four parameters ask for. If \<open>fn\<close> keeps the calling convention, control returns
  to the caller of \<open>exec_user_param\<close> with its stack pointer and frame pointer and with the result
  register of \<open>fn\<close>, every other register being what \<open>fn\<close> left; nothing of the caller's stack has
  changed. The interrupt that leads back runs on the exception page of \<open>boot_stack\<close>, so it does not
  overwrite the work page, where the saved frame is.
\<close>

theorem exec_user_round_trip:
  assumes "user_function e lnk fn" "on_work_page e lnk (xsp s)"
    and user: "lnk ''user_stack'' + PAGE_SIZE - wb e \<notin> kernel_stack lnk" "fits e (lnk ''user_stack'' + PAGE_SIZE)"
      "fits e (lnk ''user_stack'' + PAGE_SIZE - wb e)"
    and labels: "fits e (lnk ''exec_user_resume'')" "fits e (lnk ''exec_user_stub'')" "fits e (lnk ''exec_user_stub_int'')"
    and vals: "fits e (xr s RBP)" "fits e (xflags s)" "fits e (efl_and_mask p)" "fits e (efl_or_mask p)"
      "fits e (exec_user_cs p)" "fits e (exec_user_ss p)"
    and u: "u = exec_user_stub e lnk (exec_user_param e lnk p s)"
  shows "xip u = xr s (fn_reg e) \<and> xr u (fn_reg e) = xr s (p1_reg e)
    \<and> xcs u = exec_user_cs p \<and> xss u = exec_user_ss p
    \<and> xflags u = (xflags s AND efl_and_mask p) OR efl_or_mask p \<and> xsp u = lnk ''user_stack'' + PAGE_SIZE - wb e
    \<and> (\<exists>k. exec_user_run e lnk p (lnk ''boot_stack'' + 2 * PAGE_SIZE) junk fn s = Some k
      \<and> xip k = xmem s (xsp s) \<and> xsp k = xsp s + wb e
      \<and> xr k = (xr (fn u))(RBP := xr s RBP)
      \<and> (\<forall>a. xsp s \<le> a \<and> a < lnk ''boot_stack'' + PAGE_SIZE \<longrightarrow> xmem k a = xmem s a))"
proof -
  note page = work_page [OF assms(2)] and stack = assms(2) [unfolded on_work_page_def]
  note enter = exec_user_enter [OF assms(2) user labels vals u]
  have d: "0 < unat (wb e)" "unat (wb e) \<le> 8" by (simp_all add: wb_values)
  define k where "k = entry_ret_to_kernel e (interrupt e (lnk ''boot_stack'' + 2 * PAGE_SIZE) (lnk ''entry_ret_to_kernel'') junk (fn u))"
  have fn: "xip (fn u) = lnk ''exec_user_stub_int''" "xr (fn u) RBP = xsp s - 2 * wb e"
    and kept: "\<And>a. unat (xsp s) - 16 \<le> unat a \<Longrightarrow> unat a < unat (lnk ''boot_stack'') + 4096 \<Longrightarrow> xmem (fn u) a = xmem u a"
    using assms(1) enter page(9) unfolding user_function_def by metis+
  have "xmem (fn u) (xsp s - wb e) = xr s RBP" "xmem (fn u) (xsp s - 2 * wb e) = lnk ''exec_user_resume''"
    using enter kept page(7,8) stack d by auto
  note leave = exec_user_leave [OF assms(2) fn(2) this k_def]
  have "xmem (fn u) a = xmem s a" if "xsp s \<le> a" "a < lnk ''boot_stack'' + PAGE_SIZE" for a
    using enter kept [of a] that page(1) by (simp add: word_le_nat_alt word_less_nat_alt)
  moreover have "xsp s < lnk ''boot_stack'' + PAGE_SIZE" using stack page(1) by (simp add: word_less_nat_alt)
  moreover have "exec_user_run e lnk p (lnk ''boot_stack'' + 2 * PAGE_SIZE) junk fn s = Some (exec_user_resume e k)"
    using enter fn(1) leave by (simp add: exec_user_run_def Let_def u [symmetric] k_def [symmetric])
  ultimately show ?thesis using enter leave by simp
qed

text \<open>With the initial parameters that is ring 3 in every build, with the caller's flags but for a PV guest's interrupt flag.\<close>

lemma initial_params:
  assumes "fits e f"
  shows "exec_user_cs (initial_exec_params e) AND 3 = 3 \<and> exec_user_ss (initial_exec_params e) AND 3 = 3"
    and "(f AND efl_and_mask (initial_exec_params e)) OR efl_or_mask (initial_exec_params e)
      = (if CONFIG_PV e then f AND NOT X86_EFLAGS_IF else f)"
proof -
  show "exec_user_cs (initial_exec_params e) AND 3 = 3 \<and> exec_user_ss (initial_exec_params e) AND 3 = 3"
    by (cases e) (simp_all add: initial_exec_params_def USER_CS_def USER_DS_def FLAT_RING3_CS64_def FLAT_RING3_SS64_def
        FLAT_RING3_CS_def FLAT_RING3_DS_def)
  have "f AND to_ulong e (NOT x) = f AND NOT x" for x
  proof (rule bit_word_eqI)
    fix n
    have "bit f n \<Longrightarrow> n < BITS_PER_LONG e" using assms unfolding fits_def to_ulong_def by (metis bit_take_bit_iff)
    then show "bit (f AND to_ulong e (NOT x)) n = bit (f AND NOT x) n" by (auto simp: to_ulong_def bit_simps)
  qed
  then show "(f AND efl_and_mask (initial_exec_params e)) OR efl_or_mask (initial_exec_params e)
      = (if CONFIG_PV e then f AND NOT X86_EFLAGS_IF else f)"
    by (simp add: initial_exec_params_def init_efl_and_mask_def)
qed

text \<open>A function that returns 42, called in an HVM guest with the work stack near its top.\<close>

definition answer :: "exec_state \<Rightarrow> exec_state" where
  "answer u = u\<lparr>xip := top_word u, xsp := xsp u + 8, xr := (xr u)(RAX := 42)\<rparr>"

definition example_linkage :: linkage where
  "example_linkage n = (if n = ''boot_stack'' then 0x110000 else if n = ''user_stack'' then 0x120000 else 0x100000)"

definition example_caller :: exec_state where
  "example_caller =
     \<lparr>xr = (\<lambda>r. if r = RDI then 0x100400 else if r = RSI then 5 else 3), xsp = 0x110f00, xmem = (\<lambda>a. a), xflags = 0x202,
      xip = 0, xcs = 8, xss = 16\<rparr>"

lemma exec_user_round_trip_witness:
  "\<exists>k. exec_user_run HVM64 example_linkage (initial_exec_params HVM64) (0x110000 + 2 * PAGE_SIZE) (0, 0) answer example_caller = Some k
     \<and> xip k = 0x110f00 \<and> xsp k = 0x110f08 \<and> xr k RAX = 42 \<and> xr k RBP = 3"
proof -
  have f: "user_function HVM64 example_linkage answer" by (simp add: user_function_def answer_def)
  have fit: "fits HVM64 w" for w by (simp add: fits_def)
  have u: "example_linkage ''user_stack'' + PAGE_SIZE - wb HVM64 \<notin> kernel_stack example_linkage"
    by (simp add: kernel_stack_def example_linkage_def PAGE_SIZE_def wb_values)
  have w: "on_work_page HVM64 example_linkage (xsp example_caller)"
    by (simp add: on_work_page_def example_linkage_def example_caller_def)
  obtain v k where "exec_user_run HVM64 example_linkage (initial_exec_params HVM64) (example_linkage ''boot_stack'' + 2 * PAGE_SIZE) (0, 0) answer
      example_caller = Some k" "xip k = xmem example_caller (xsp example_caller)" "xsp k = xsp example_caller + wb HVM64"
      "xr k = (xr (answer v))(RBP := xr example_caller RBP)"
    using exec_user_round_trip [OF f w u fit fit fit fit fit fit fit fit fit fit fit refl, of "initial_exec_params HVM64" "(0, 0)"] by blast
  then show ?thesis by (auto simp: example_caller_def example_linkage_def answer_def wb_values)
qed

end
