(* ===== verification/X86_Layout.thy ===== *)
theory X86_Layout imports
  C_Layout
  X86_Tss
  X86_Devices
begin

text \<open>
  The structures that the processor and the devices read, as \<open>desc.h\<close>, \<open>x86-gate.h\<close>, \<open>x86-tss.h\<close>, \<open>msr.h\<close> and
  \<open>hpet.c\<close> declare them: the places that the C rules give to their members and bit-fields. The other
  theories write these structures with shifts and masks; here both are compared.
\<close>

section \<open>Bit-fields\<close>

text \<open>
  A member with a name (empty for padding), the width of its declared type and its own width in bits; an
  ordinary integer is a field as wide as its type. In a packed structure fields follow one another; in
  others a field that would cross the boundary of a unit of its type starts at the next unit.
\<close>

datatype bit_member =
    Bits string nat nat
  | Packed_bits string nat

fun place_bits :: "nat \<Rightarrow> bit_member list \<Rightarrow> (string \<times> nat \<times> nat) list" where
  "place_bits off [] = []"
| "place_bits off (Packed_bits n w # ds) = (n, off, w) # place_bits (off + w) ds"
| "place_bits off (Bits n u w # ds) =
     (if off div u = (off + w - 1) div u then (n, off, w) # place_bits (off + w) ds
      else (n, round_up off u, w) # place_bits (round_up off u + w) ds)"

definition read_field :: "bit_member list \<Rightarrow> string \<Rightarrow> int \<Rightarrow> int option" where
  "read_field ds n raw = map_option (\<lambda>(off, w). take_bit w (drop_bit off raw)) (map_of (place_bits 0 ds) n)"

section \<open>Declarations\<close>

definition seg_desc32_common :: "bit_member list" where
  "seg_desc32_common =
     [Bits ''limit0'' 16 16, Bits ''base0'' 16 16, Bits ''base1'' 8 8,
      Packed_bits ''type'' 4, Packed_bits ''s'' 1, Packed_bits ''dpl'' 2, Packed_bits ''p'' 1,
      Packed_bits ''limit1'' 4, Packed_bits ''avl'' 1, Packed_bits [] 1, Packed_bits [] 1, Packed_bits ''g'' 1,
      Bits ''base2'' 8 8]"

definition seg_desc32_code :: "bit_member list" where
  "seg_desc32_code =
     [Bits ''limit0'' 16 16, Bits ''base0'' 16 16, Bits ''base1'' 8 8,
      Packed_bits ''a'' 1, Packed_bits ''r'' 1, Packed_bits ''c'' 1, Packed_bits ''x'' 1,
      Packed_bits [] 4, Packed_bits [] 4, Packed_bits [] 1, Packed_bits ''l'' 1, Packed_bits ''d'' 1, Packed_bits [] 1,
      Bits ''base2'' 8 8]"

definition seg_desc32_data :: "bit_member list" where
  "seg_desc32_data =
     [Bits ''limit0'' 16 16, Bits ''base0'' 16 16, Bits ''base1'' 8 8,
      Packed_bits [] 1, Packed_bits ''w'' 1, Packed_bits ''e'' 1, Packed_bits [] 1,
      Packed_bits [] 4, Packed_bits [] 4, Packed_bits [] 1, Packed_bits [] 1, Packed_bits ''b'' 1, Packed_bits [] 1,
      Bits ''base2'' 8 8]"

definition x86_gate32_bits :: "bit_member list" where
  "x86_gate32_bits =
     [Bits ''offset0'' 16 16, Bits ''selector'' 16 16, Bits ''param_count'' 32 5, Bits ''_r0'' 32 3,
      Bits ''type'' 32 4, Bits ''s'' 32 1, Bits ''dpl'' 32 2, Bits ''p'' 32 1, Bits ''offset1'' 16 16]"

definition x86_gate64_bits :: "bit_member list" where
  "x86_gate64_bits =
     [Bits ''offset0'' 16 16, Bits ''selector'' 16 16, Bits ''ist'' 32 3, Bits ''_r0'' 32 5,
      Bits ''type'' 32 4, Bits ''s'' 32 1, Bits ''dpl'' 32 2, Bits ''p'' 32 1, Bits ''offset1'' 16 16,
      Bits ''offset2'' 32 32, Bits ''_r1'' 32 32]"

definition hpet_timer_bits :: "bit_member list" where
  "hpet_timer_bits =
     [Bits [] 8 1, Bits ''level'' 8 1, Bits ''enabled'' 8 1, Bits ''periodic'' 8 1, Bits [] 8 4,
      Bits ''mode_32bit'' 8 1, Bits ''irq'' 8 5, Bits [] 32 18]"

definition msr_feature_control_bits :: "bit_member list" where
  "msr_feature_control_bits =
     [Bits ''lock'' 8 1, Bits ''vmxon_inside_smx'' 8 1, Bits ''vmxon_outside_smx'' 8 1]"

definition msr_vmx_basic_bits :: "bit_member list" where
  "msr_vmx_basic_bits =
     [Bits ''vmcs_rev_id'' 32 31, Bits ''mbz'' 8 1, Bits ''vmcs_size'' 32 13, Bits [] 32 3, Bits ''paddr_32bit'' 8 1,
      Bits ''smm_dual'' 8 1, Bits ''vmcs_mem_type'' 32 4, Bits ''inouts_exit_info'' 8 1, Bits ''true_ctls'' 8 1]"

section \<open>The bits of a structure\<close>

definition desc_raw :: "user_desc \<Rightarrow> int" where
  "desc_raw d = uint (desc_lo d) OR push_bit 32 (uint (desc_hi d))"

definition gate32_raw :: "x86_gate32 \<Rightarrow> int" where
  "gate32_raw g = uint (gate32_lo g) OR push_bit 32 (uint (gate32_hi g))"

definition gate64_raw :: "x86_gate64 \<Rightarrow> int" where
  "gate64_raw g = uint (gate64_lo g) OR push_bit 64 (uint (gate64_hi g))"

lemma read_fieldI:
  assumes "map_of (place_bits 0 ds) n = Some (off, w)" "\<And>k. bit v k = (k < w \<and> bit raw (off + k))"
  shows "read_field ds n raw = Some v"
proof -
  have "take_bit w (drop_bit off raw) = v" by (rule bit_eqI) (simp add: assms(2) bit_simps)
  then show ?thesis by (simp add: read_field_def assms(1))
qed

lemmas place_simps = round_up_def numeral_2_eq_2 [symmetric] seg_desc32_common_def seg_desc32_code_def seg_desc32_data_def
  x86_gate32_bits_def x86_gate64_bits_def hpet_timer_bits_def msr_feature_control_bits_def msr_vmx_basic_bits_def

lemmas field_bits = bit_simps bit_uint_iff desc_raw_def gate32_raw_def gate64_raw_def desc_fields

lemma desc_fields_placed:
  "read_field seg_desc32_common ''limit0'' (desc_raw d) = Some (uint (desc_limit0 d))"
  "read_field seg_desc32_common ''base0'' (desc_raw d) = Some (uint (desc_base0 d))"
  "read_field seg_desc32_common ''base1'' (desc_raw d) = Some (uint (desc_base1 d))"
  "read_field seg_desc32_common ''type'' (desc_raw d) = Some (uint (desc_type d))"
  "read_field seg_desc32_common ''s'' (desc_raw d) = Some (of_bool (desc_s d))"
  "read_field seg_desc32_common ''dpl'' (desc_raw d) = Some (uint (desc_dpl d))"
  "read_field seg_desc32_common ''p'' (desc_raw d) = Some (of_bool (desc_p d))"
  "read_field seg_desc32_common ''limit1'' (desc_raw d) = Some (uint (desc_limit1 d))"
  "read_field seg_desc32_common ''g'' (desc_raw d) = Some (of_bool (desc_g d))"
  "read_field seg_desc32_common ''base2'' (desc_raw d) = Some (uint (desc_base2 d))"
  "read_field seg_desc32_code ''l'' (desc_raw d) = Some (of_bool (desc_l d))"
  "read_field seg_desc32_code ''d'' (desc_raw d) = Some (of_bool (desc_db d))"
  "read_field seg_desc32_data ''b'' (desc_raw d) = Some (of_bool (desc_db d))"
  by ((rule read_fieldI, (simp add: place_simps)[1], (auto simp: field_bits dest: bit_imp_le_length)[1])+)

lemmas gate_bits = field_bits gate32_lo_def gate32_hi_def gate64_lo_def gate64_hi_def

lemma bit_beyond: "LENGTH('a) \<le> n \<Longrightarrow> bit (x :: 'a :: len word) n = False"
  using bit_imp_le_length by fastforce

lemma gate32_fields_placed:
  "read_field x86_gate32_bits ''offset0'' (gate32_raw g) = Some (uint (g32_offset0 g))"
  "read_field x86_gate32_bits ''selector'' (gate32_raw g) = Some (uint (g32_selector g))"
  "read_field x86_gate32_bits ''param_count'' (gate32_raw g) = Some (uint (g32_param_count g))"
  "read_field x86_gate32_bits ''_r0'' (gate32_raw g) = Some (uint (g32_r0 g))"
  "read_field x86_gate32_bits ''type'' (gate32_raw g) = Some (uint (g32_type g))"
  "read_field x86_gate32_bits ''dpl'' (gate32_raw g) = Some (uint (g32_dpl g))"
  "read_field x86_gate32_bits ''offset1'' (gate32_raw g) = Some (uint (g32_offset1 g))"
  "read_field x86_gate32_bits ''s'' (gate32_raw g) = Some (of_bool (g32_s g))"
  "read_field x86_gate32_bits ''p'' (gate32_raw g) = Some (of_bool (g32_p g))"
  by ((rule read_fieldI, (simp add: place_simps)[1], (simp add: gate_bits bit_beyond cong: conj_cong; auto dest: bit_imp_le_length)[1])+)

lemma gate64_fields_placed:
  "read_field x86_gate64_bits ''offset0'' (gate64_raw g) = Some (uint (g64_offset0 g))"
  "read_field x86_gate64_bits ''selector'' (gate64_raw g) = Some (uint (g64_selector g))"
  "read_field x86_gate64_bits ''ist'' (gate64_raw g) = Some (uint (g64_ist g))"
  "read_field x86_gate64_bits ''_r0'' (gate64_raw g) = Some (uint (g64_r0 g))"
  "read_field x86_gate64_bits ''type'' (gate64_raw g) = Some (uint (g64_type g))"
  "read_field x86_gate64_bits ''dpl'' (gate64_raw g) = Some (uint (g64_dpl g))"
  "read_field x86_gate64_bits ''offset1'' (gate64_raw g) = Some (uint (g64_offset1 g))"
  "read_field x86_gate64_bits ''offset2'' (gate64_raw g) = Some (uint (g64_offset2 g))"
  "read_field x86_gate64_bits ''_r1'' (gate64_raw g) = Some (uint (g64_r1 g))"
  "read_field x86_gate64_bits ''s'' (gate64_raw g) = Some (of_bool (g64_s g))"
  "read_field x86_gate64_bits ''p'' (gate64_raw g) = Some (of_bool (g64_p g))"
  by ((rule read_fieldI, (simp add: place_simps)[1], (simp add: gate_bits bit_beyond cong: conj_cong; auto dest: bit_imp_le_length)[1])+)

lemma hpet_fields_placed:
  "read_field hpet_timer_bits ''level'' (uint (hpet_timer_raw level enabled periodic mode_32bit irq)) = Some (of_bool level)"
  "read_field hpet_timer_bits ''enabled'' (uint (hpet_timer_raw level enabled periodic mode_32bit irq)) = Some (of_bool enabled)"
  "read_field hpet_timer_bits ''periodic'' (uint (hpet_timer_raw level enabled periodic mode_32bit irq)) = Some (of_bool periodic)"
  "read_field hpet_timer_bits ''mode_32bit'' (uint (hpet_timer_raw level enabled periodic mode_32bit irq)) = Some (of_bool mode_32bit)"
  "read_field hpet_timer_bits ''irq'' (uint (hpet_timer_raw level enabled periodic mode_32bit irq)) = Some (uint irq)"
  by ((rule read_fieldI, (simp add: place_simps)[1], (auto simp: field_bits hpet_timer_raw_def dest: bit_imp_le_length)[1])+)

section \<open>Pointers and task state segments\<close>

definition desc_ptr64 :: ctype where
  "desc_ptr64 = CPacked [(''limit'', uint16), (''base'', uint64)]"

definition desc_ptr32 :: ctype where
  "desc_ptr32 = CPacked [(''limit'', uint16), (''base'', uint32)]"

definition far_ptr64 :: ctype where
  "far_ptr64 = CPacked
     [([], CUnion [(''offset_intel'', uint64), ([], CStruct [([], uint32), (''offset_amd'', uint32)])]), (''selector'', uint16)]"

definition far_ptr32 :: ctype where
  "far_ptr32 = CPacked [(''offset'', uint32), (''selector'', uint16)]"

definition desc_ptr :: "env \<Rightarrow> ctype" where
  "desc_ptr e = (if CONFIG_64BIT e then desc_ptr64 else desc_ptr32)"

definition x86_tss32_t :: ctype where
  "x86_tss32_t = CPacked
     [(''link'', uint16), ([], uint16), (''esp0'', uint32), (''ss0'', uint16), ([], uint16),
      (''esp1'', uint32), (''ss1'', uint16), ([], uint16), (''esp2'', uint32), (''ss2'', uint16), ([], uint16),
      (''cr3'', uint32), (''eip'', uint32), (''eflags'', uint32), (''eax'', uint32), (''ecx'', uint32), (''edx'', uint32),
      (''ebx'', uint32), (''esp'', uint32), (''ebp'', uint32), (''esi'', uint32), (''edi'', uint32),
      (''es'', uint16), ([], uint16), (''cs'', uint16), ([], uint16), (''ss'', uint16), ([], uint16),
      (''ds'', uint16), ([], uint16), (''fs'', uint16), ([], uint16), (''gs'', uint16), ([], uint16),
      (''ldtr'', uint16), ([], uint16), (''trace'', uint16), (''iopb'', uint16)]"

definition x86_tss64_t :: ctype where
  "x86_tss64_t = CPacked
     [([], uint32), (''rsp0'', uint64), (''rsp1'', uint64), (''rsp2'', uint64), ([], uint64), (''ist'', CArray 7 uint64),
      ([], uint64), (''trace'', uint16), (''iopb'', uint16)]"

text \<open>The named members with their offsets, and the size.\<close>

definition named_layout :: "env \<Rightarrow> ctype \<Rightarrow> (string \<times> nat) list \<times> nat" where
  "named_layout e t = (map (\<lambda>(n, o1, t). (n, o1)) (filter (\<lambda>(n, o1, t). n \<noteq> []) (members e t)), size_of e t)"

text \<open>The values of \<open>gdt_ptr\<close> and \<open>idt_ptr\<close>: the tables have \<open>NR_GDT_ENTRIES\<close> and 256 entries.\<close>

definition gdt_ptr :: "linkage \<Rightarrow> u16 \<times> u64" where
  "gdt_ptr lnk = (of_nat (8 * NR_GDT_ENTRIES) - 1, lnk ''gdt'')"

definition idt_ptr :: "env \<Rightarrow> linkage \<Rightarrow> u16 \<times> u64" where
  "idt_ptr e lnk = (of_nat ((if CONFIG_64BIT e then 16 else 8) * 256) - 1, lnk ''idt'')"

section \<open>ELF headers\<close>

definition EI_NIDENT :: nat where "EI_NIDENT = 16"

definition Elf32_Ehdr :: ctype where
  "Elf32_Ehdr = CStruct
     [(''e_ident'', CArray EI_NIDENT uint8), (''e_type'', uint16), (''e_machine'', uint16), (''e_version'', uint32),
      (''e_entry'', uint32), (''e_phoff'', uint32), (''e_shoff'', uint32), (''e_flags'', uint32), (''e_ehsize'', uint16),
      (''e_phentsize'', uint16), (''e_phnum'', uint16), (''e_shentsize'', uint16), (''e_shnum'', uint16), (''e_shstrndx'', uint16)]"

definition Elf32_Shdr :: ctype where
  "Elf32_Shdr = CStruct
     [(''sh_name'', uint32), (''sh_type'', uint32), (''sh_flags'', uint32), (''sh_addr'', uint32), (''sh_offset'', uint32),
      (''sh_size'', uint32), (''sh_link'', uint32), (''sh_info'', uint32), (''sh_addralign'', uint32), (''sh_entsize'', uint32)]"

definition Elf64_Shdr :: ctype where
  "Elf64_Shdr = CStruct
     [(''sh_name'', uint32), (''sh_type'', uint32), (''sh_flags'', uint64), (''sh_addr'', uint64), (''sh_offset'', uint64),
      (''sh_size'', uint64), (''sh_link'', uint32), (''sh_info'', uint32), (''sh_addralign'', uint64), (''sh_entsize'', uint64)]"

section \<open>The shifts are those of the declarations\<close>


lemma elf_layouts:
  "named_layout e Elf32_Ehdr
       = ([(''e_ident'', 0), (''e_type'', 16), (''e_machine'', 18), (''e_version'', 20), (''e_entry'', 24), (''e_phoff'', 28),
           (''e_shoff'', 32), (''e_flags'', 36), (''e_ehsize'', 40), (''e_phentsize'', 42), (''e_phnum'', 44),
           (''e_shentsize'', 46), (''e_shnum'', 48), (''e_shstrndx'', 50)], 52)"
  "named_layout e Elf32_Shdr
       = ([(''sh_name'', 0), (''sh_type'', 4), (''sh_flags'', 8), (''sh_addr'', 12), (''sh_offset'', 16), (''sh_size'', 20),
           (''sh_link'', 24), (''sh_info'', 28), (''sh_addralign'', 32), (''sh_entsize'', 36)], 40)"
  "named_layout e Elf64_Shdr
       = ([(''sh_name'', 0), (''sh_type'', 4), (''sh_flags'', 8), (''sh_addr'', 16), (''sh_offset'', 24), (''sh_size'', 32),
           (''sh_link'', 40), (''sh_info'', 44), (''sh_addralign'', 48), (''sh_entsize'', 56)], 64)"
  by (cases e; simp add: named_layout_def Elf32_Ehdr_def Elf32_Shdr_def Elf64_Shdr_def EI_NIDENT_def layout_simps)+

text \<open>
  The structures that the processor reads have the layout that its manual prescribes, in every
  build: the operands of \<open>lgdt\<close> and of far jumps without padding, both task state segments with their
  stack pointers, interrupt stacks and the offset of the I/O bitmap at the architectural places and the
  architectural size of 104 bytes, and the two VMX MSRs with their fields at the documented bits. The
  ELF headers have the offsets and sizes of the ELF specification.
\<close>

lemma x86_documented_layouts:
  "named_layout e desc_ptr64 = ([(''limit'', 0), (''base'', 2)], 10)
   \<and> named_layout e desc_ptr32 = ([(''limit'', 0), (''base'', 2)], 6)
   \<and> named_layout e far_ptr32 = ([(''offset'', 0), (''selector'', 4)], 6)
   \<and> offset_of e far_ptr64 [[], ''offset_intel''] = Some (0, uint64)
   \<and> offset_of e far_ptr64 [[], [], ''offset_amd''] = Some (4, uint32)
   \<and> offset_of e far_ptr64 [''selector''] = Some (8, uint16)
   \<and> named_layout e x86_tss32_t
       = ([(''link'', 0), (''esp0'', 4), (''ss0'', 8), (''esp1'', 12), (''ss1'', 16), (''esp2'', 20), (''ss2'', 24),
           (''cr3'', 28), (''eip'', 32), (''eflags'', 36), (''eax'', 40), (''ecx'', 44), (''edx'', 48), (''ebx'', 52),
           (''esp'', 56), (''ebp'', 60), (''esi'', 64), (''edi'', 68), (''es'', 72), (''cs'', 76), (''ss'', 80), (''ds'', 84),
           (''fs'', 88), (''gs'', 92), (''ldtr'', 96), (''trace'', 100), (''iopb'', 102)], 104)
   \<and> named_layout e x86_tss64_t
       = ([(''rsp0'', 4), (''rsp1'', 12), (''rsp2'', 20), (''ist'', 36), (''trace'', 100), (''iopb'', 102)], 104)
   \<and> filter (\<lambda>(n, off, w). n \<noteq> []) (place_bits 0 msr_feature_control_bits)
       = [(''lock'', 0, 1), (''vmxon_inside_smx'', 1, 1), (''vmxon_outside_smx'', 2, 1)]
   \<and> filter (\<lambda>(n, off, w). n \<noteq> []) (place_bits 0 msr_vmx_basic_bits)
       = [(''vmcs_rev_id'', 0, 31), (''mbz'', 31, 1), (''vmcs_size'', 32, 13), (''paddr_32bit'', 48, 1), (''smm_dual'', 49, 1),
          (''vmcs_mem_type'', 50, 4), (''inouts_exit_info'', 54, 1), (''true_ctls'', 55, 1)]
   \<and> named_layout e Elf32_Ehdr
       = ([(''e_ident'', 0), (''e_type'', 16), (''e_machine'', 18), (''e_version'', 20), (''e_entry'', 24), (''e_phoff'', 28),
           (''e_shoff'', 32), (''e_flags'', 36), (''e_ehsize'', 40), (''e_phentsize'', 42), (''e_phnum'', 44),
           (''e_shentsize'', 46), (''e_shnum'', 48), (''e_shstrndx'', 50)], 52)
   \<and> named_layout e Elf32_Shdr
       = ([(''sh_name'', 0), (''sh_type'', 4), (''sh_flags'', 8), (''sh_addr'', 12), (''sh_offset'', 16), (''sh_size'', 20),
           (''sh_link'', 24), (''sh_info'', 28), (''sh_addralign'', 32), (''sh_entsize'', 36)], 40)
   \<and> named_layout e Elf64_Shdr
       = ([(''sh_name'', 0), (''sh_type'', 4), (''sh_flags'', 8), (''sh_addr'', 16), (''sh_offset'', 24), (''sh_size'', 32),
           (''sh_link'', 40), (''sh_info'', 44), (''sh_addralign'', 48), (''sh_entsize'', 56)], 64)"
  by (intro conjI; (rule elf_layouts | simp add: named_layout_def desc_ptr64_def desc_ptr32_def far_ptr32_def far_ptr64_def
      x86_tss32_t_def x86_tss64_t_def place_simps layout_simps))

end
