(* ===== verification/Config_Macros.thy ===== *)
theory Config_Macros imports
  Prelude
begin

text \<open>
  The preprocessor macros with a computation of their own: the argument counting and the test for a
  defined \<open>CONFIG_\<close> token of \<open>macro_magic.h\<close>, and the configuration of \<open>arch/config.h\<close> for the environments.
  A macro argument is a token, kept as text; numbers are those that the macro itself inserts.
\<close>

section \<open>Counting arguments\<close>

datatype token = Tok string | Num nat

text \<open>\<open>VA_NARGS_\<close> (here with a name) selects its thirteenth argument.\<close>

definition VA_NARGS_select :: "token list \<Rightarrow> token" where
  "VA_NARGS_select args = args ! 12"

definition VA_NARGS :: "string list \<Rightarrow> token" where
  "VA_NARGS args = VA_NARGS_select ([Tok ''X''] @ map Tok args @ map Num [11, 10, 9, 8, 7, 6, 5, 4, 3, 2, 1, 0])"

text \<open>\<open>VAR_MACRO_C1\<close>: the name and the count, pasted, with the arguments of the call.\<close>

definition VAR_MACRO_C1 :: "string \<Rightarrow> string \<Rightarrow> string list \<Rightarrow> (string \<times> token) \<times> string list" where
  "VAR_MACRO_C1 macro c1 args = ((macro, VA_NARGS args), c1 # args)"

section \<open>Defined tokens\<close>

text \<open>
  \<open>IS_DEFINED(x)\<close>: \<open>defs\<close> gives the replacement of a macro name. The replacement is pasted to
  \<open>_IS_DEFINED_PARTIAL_\<close>, which is itself a macro for \<open>1\<close> only and then adds an argument in front.
\<close>

definition IS_DEFINED :: "(string \<rightharpoonup> string) \<Rightarrow> string \<Rightarrow> nat" where
  "IS_DEFINED defs x =
     (let y = (case defs x of Some r \<Rightarrow> r | None \<Rightarrow> x);
          args = (if y = ''1'' then [Tok ''0'', Num 1, Num 0] else [Tok (''_IS_DEFINED_PARTIAL_'' @ y @ '' 1''), Num 0])
      in case args ! 1 of Num n \<Rightarrow> n | Tok t \<Rightarrow> 2)"

section \<open>The environments\<close>

definition XTF_VIRT_START :: nat where "XTF_VIRT_START = 2 ^ 20"

text \<open>What \<open>arch/config.h\<close> defines for each environment, and the text that describes it.\<close>

fun env_defines :: "env \<Rightarrow> (string \<times> string) list" where
  "env_defines PV64 = [(''CONFIG_PV'', ''1''), (''CONFIG_64BIT'', ''1''), (''CONFIG_PAGING_LEVELS'', ''4'')]"
| "env_defines PV32PAE = [(''CONFIG_PV'', ''1''), (''CONFIG_32BIT'', ''1''), (''CONFIG_PAGING_LEVELS'', ''3'')]"
| "env_defines HVM64 = [(''CONFIG_HVM'', ''1''), (''CONFIG_64BIT'', ''1''), (''CONFIG_PAGING_LEVELS'', ''4'')]"
| "env_defines HVM32PAE = [(''CONFIG_HVM'', ''1''), (''CONFIG_32BIT'', ''1''), (''CONFIG_PAGING_LEVELS'', ''3'')]"
| "env_defines HVM32PSE = [(''CONFIG_HVM'', ''1''), (''CONFIG_32BIT'', ''1''), (''CONFIG_PAGING_LEVELS'', ''2'')]"
| "env_defines HVM32 = [(''CONFIG_HVM'', ''1''), (''CONFIG_32BIT'', ''1''), (''CONFIG_PAGING_LEVELS'', ''0'')]"

fun ENVIRONMENT_DESCRIPTION :: "env \<Rightarrow> string" where
  "ENVIRONMENT_DESCRIPTION PV64 = ''PV 64bit (Long mode 4 levels)''"
| "ENVIRONMENT_DESCRIPTION PV32PAE = ''PV 32bit (PAE 3 levels)''"
| "ENVIRONMENT_DESCRIPTION HVM64 = ''HVM 64bit (Long mode 4 levels)''"
| "ENVIRONMENT_DESCRIPTION HVM32PAE = ''HVM 32bit (PAE 3 levels)''"
| "ENVIRONMENT_DESCRIPTION HVM32PSE = ''HVM 32bit (PSE 2 levels)''"
| "ENVIRONMENT_DESCRIPTION HVM32 = ''HVM 32bit (No paging)''"

definition all_envs :: "env list" where
  "all_envs = [PV64, PV32PAE, HVM64, HVM32PAE, HVM32PSE, HVM32]"

lemma VA_NARGS_few:
  assumes "length args \<le> 11"
  shows "VA_NARGS args = Num (length args)"
proof -
  have r: "[11, 10, 9, 8, 7, 6, 5, 4, 3, 2, 1, 0 :: nat] = rev [0..<12]" by code_simp
  have "map Num (rev [0..<12]) ! (11 - length args) = Num (length args)"
    using assms by (simp add: rev_nth)
  then show ?thesis using assms unfolding VA_NARGS_def VA_NARGS_select_def r
    by (simp add: nth_append nth_Cons' del: upt_Suc)
qed

lemma VA_NARGS_many: "12 \<le> length args \<Longrightarrow> VA_NARGS args = Tok (args ! 11)"
  by (simp add: VA_NARGS_def VA_NARGS_select_def nth_append)

lemma IS_DEFINED_iff: "IS_DEFINED defs x = of_bool (defs x = Some ''1'' \<or> (defs x = None \<and> x = ''1''))"
  by (auto simp: IS_DEFINED_def split: option.split)

text \<open>
  The configuration macros compute what the model assumes of them. \<open>IS_DEFINED\<close> is 1 for a token
  that is defined as 1 and 0 otherwise, so in each of the six environments it says of \<open>CONFIG_PV\<close>, \<open>CONFIG_HVM\<close>
  and \<open>CONFIG_64BIT\<close> what the model's predicates say; \<open>VA_NARGS\<close> counts up to eleven arguments, and for more
  than that yields an argument of the caller instead of a number, so \<open>VAR_MACRO_C1\<close> calls the variant
  for its number of arguments exactly up to eleven; and the descriptions of the environments differ.
\<close>

lemma config_macros:
  "IS_DEFINED (map_of (env_defines e)) ''CONFIG_PV'' = of_bool (CONFIG_PV e)
   \<and> IS_DEFINED (map_of (env_defines e)) ''CONFIG_HVM'' = of_bool (CONFIG_HVM e)
   \<and> IS_DEFINED (map_of (env_defines e)) ''CONFIG_64BIT'' = of_bool (CONFIG_64BIT e)
   \<and> IS_DEFINED (map_of (env_defines e)) ''CONFIG_32BIT'' = of_bool (\<not> CONFIG_64BIT e)
   \<and> (VAR_MACRO_C1 macro c1 args = ((macro, Num (length args)), c1 # args)) = (length args \<le> 11)
   \<and> distinct (map ENVIRONMENT_DESCRIPTION all_envs)"
proof (intro conjI)
  show "(VAR_MACRO_C1 macro c1 args = ((macro, Num (length args)), c1 # args)) = (length args \<le> 11)"
    using VA_NARGS_few [of args] VA_NARGS_many [of args] by (cases "length args \<le> 11") (auto simp: VAR_MACRO_C1_def)
qed (cases e; simp add: IS_DEFINED_iff; fail | simp add: all_envs_def)+

end
