(* ===== verification/X86_Paging.thy ===== *)
theory X86_Paging imports
  X86_Page
begin

text \<open>
  The geometry of the page tables: the sizes, orders and shifts of \<open>page-pae.h\<close>, \<open>page-pse.h\<close> and \<open>page.h\<close>,
  and the choice of \<open>page.h\<close> by the number of paging levels. The theorem says that with them a linear
  address and its table offsets determine each other in every paging mode.
\<close>

section \<open>The two kinds of tables\<close>

definition PAE_PTE_SIZE :: nat where [xtf_consts]: "PAE_PTE_SIZE = 8"
definition PAE_PTE_ORDER :: nat where [xtf_consts]: "PAE_PTE_ORDER = 3"
definition PAE_PT_ORDER :: nat where [xtf_consts]: "PAE_PT_ORDER = 9"
definition PAE_PT_ENTRIES :: nat where [xtf_consts]: "PAE_PT_ENTRIES = unat PAGE_SIZE div PAE_PTE_SIZE"
definition PAE32_L3_ENTRIES :: nat where [xtf_consts]: "PAE32_L3_ENTRIES = 4"
definition PAE_PT_SHIFTS :: "nat list" where [xtf_consts]: "PAE_PT_SHIFTS = [12, 21, 30, 39]"

definition PSE_PTE_SIZE :: nat where [xtf_consts]: "PSE_PTE_SIZE = 4"
definition PSE_PTE_ORDER :: nat where [xtf_consts]: "PSE_PTE_ORDER = 2"
definition PSE_PT_ORDER :: nat where [xtf_consts]: "PSE_PT_ORDER = 10"
definition PSE_PT_ENTRIES :: nat where [xtf_consts]: "PSE_PT_ENTRIES = unat PAGE_SIZE div PSE_PTE_SIZE"
definition PSE_PT_SHIFTS :: "nat list" where [xtf_consts]: "PSE_PT_SHIFTS = [12, 22]"

definition PAGE_ORDER_4K :: nat where [xtf_consts]: "PAGE_ORDER_4K = 0"
definition PAGE_ORDER_2M :: nat where [xtf_consts]: "PAGE_ORDER_2M = 9"
definition PAGE_ORDER_4M :: nat where [xtf_consts]: "PAGE_ORDER_4M = 10"
definition PAGE_ORDER_1G :: nat where [xtf_consts]: "PAGE_ORDER_1G = 18"

section \<open>The tables of a build\<close>

definition PTE_SIZE :: "env \<Rightarrow> nat" where
  "PTE_SIZE e = (if CONFIG_PAGING_LEVELS e = 2 then PSE_PTE_SIZE else PAE_PTE_SIZE)"

definition PTE_ORDER :: "env \<Rightarrow> nat" where
  "PTE_ORDER e = (if CONFIG_PAGING_LEVELS e = 2 then PSE_PTE_ORDER else PAE_PTE_ORDER)"

definition PT_ORDER :: "env \<Rightarrow> nat" where
  "PT_ORDER e = (if CONFIG_PAGING_LEVELS e = 2 then PSE_PT_ORDER else PAE_PT_ORDER)"

text \<open>\<open>L1_PT_SHIFT\<close> to \<open>L4_PT_SHIFT\<close> and \<open>L1_PT_ENTRIES\<close> to \<open>L4_PT_ENTRIES\<close>, where the build has the level.\<close>

definition PT_SHIFT :: "env \<Rightarrow> nat \<Rightarrow> nat" where
  "PT_SHIFT e l = (if CONFIG_PAGING_LEVELS e = 2 then PSE_PT_SHIFTS ! (l - 1) else PAE_PT_SHIFTS ! (l - 1))"

definition PT_ENTRIES :: "env \<Rightarrow> nat" where
  "PT_ENTRIES e = (if CONFIG_PAGING_LEVELS e = 2 then PSE_PT_ENTRIES else PAE_PT_ENTRIES)"

definition l3_table_offset :: "u64 \<Rightarrow> u32" where
  "l3_table_offset linear = pae_l3_table_offset linear"

definition l4_table_offset :: "u64 \<Rightarrow> u32" where
  "l4_table_offset linear = pae_l4_table_offset linear"

text \<open>The offset at a level, the width of a linear address, and the entries that a table of the level has.\<close>

definition table_offset :: "env \<Rightarrow> nat \<Rightarrow> u64 \<Rightarrow> u32" where
  "table_offset e l linear =
     (if l = 1 then l1_table_offset e linear else if l = 2 then l2_table_offset e linear
      else if l = 3 then l3_table_offset linear else l4_table_offset linear)"

definition linear_bits :: "env \<Rightarrow> nat" where
  "linear_bits e = (if CONFIG_PAGING_LEVELS e = 4 then 48 else 32)"

definition table_entries :: "env \<Rightarrow> nat \<Rightarrow> nat" where
  "table_entries e l = (if CONFIG_PAGING_LEVELS e = 3 \<and> l = 3 then PAE32_L3_ENTRIES else PT_ENTRIES e)"

text \<open>The address that the offsets and the offset in the page stand for.\<close>

definition walk_address :: "env \<Rightarrow> (nat \<Rightarrow> nat) \<Rightarrow> nat \<Rightarrow> nat" where
  "walk_address e offs low = (\<Sum>l = 1..CONFIG_PAGING_LEVELS e. offs l * 2 ^ PT_SHIFT e l) + low"

section \<open>Geometry\<close>

lemma entries_values: "PAE_PT_ENTRIES = 512" "PSE_PT_ENTRIES = 1024" "unat PAGE_SIZE = 4096"
  by (simp_all add: xtf_consts)

lemma paging_modes:
  assumes "CONFIG_PAGING_LEVELS e \<noteq> 0"
  obtains "CONFIG_PAGING_LEVELS e = 2" "\<not> CONFIG_64BIT e" | "CONFIG_PAGING_LEVELS e = 3" "\<not> CONFIG_64BIT e"
    | "CONFIG_PAGING_LEVELS e = 4" "CONFIG_64BIT e"
  using assms by (cases e) auto

lemma mod_digit: "(n :: nat) mod 2 ^ (k + b) = (n div 2 ^ k mod 2 ^ b) * 2 ^ k + n mod 2 ^ k"
  using mod_mult2_eq [of n "2 ^ k" "2 ^ b"] by (simp add: power_add mult.commute)

lemma linear_digits:
  fixes n :: nat
  shows "n mod 2 ^ 48 = (n div 2 ^ 39 mod 512) * 2 ^ 39 + (n div 2 ^ 30 mod 512) * 2 ^ 30 + (n div 2 ^ 21 mod 512) * 2 ^ 21
     + (n div 2 ^ 12 mod 512) * 2 ^ 12 + n mod 2 ^ 12"
    and "n mod 2 ^ 32 = (n div 2 ^ 30 mod 4) * 2 ^ 30 + (n div 2 ^ 21 mod 512) * 2 ^ 21 + (n div 2 ^ 12 mod 512) * 2 ^ 12
     + n mod 2 ^ 12"
    and "n mod 2 ^ 32 = (n div 2 ^ 22 mod 1024) * 2 ^ 22 + (n div 2 ^ 12 mod 1024) * 2 ^ 12 + n mod 2 ^ 12"
proof -
  have pae: "n mod 2 ^ 48 = (n div 2 ^ 39 mod 512) * 2 ^ 39 + n mod 2 ^ 39" "n mod 2 ^ 39 = (n div 2 ^ 30 mod 512) * 2 ^ 30 + n mod 2 ^ 30"
    "n mod 2 ^ 30 = (n div 2 ^ 21 mod 512) * 2 ^ 21 + n mod 2 ^ 21" "n mod 2 ^ 21 = (n div 2 ^ 12 mod 512) * 2 ^ 12 + n mod 2 ^ 12"
    subgoal using mod_digit [of n 39 9] by simp
    subgoal using mod_digit [of n 30 9] by simp
    subgoal using mod_digit [of n 21 9] by simp
    subgoal using mod_digit [of n 12 9] by simp
    done
  have l3: "n mod 2 ^ 32 = (n div 2 ^ 30 mod 4) * 2 ^ 30 + n mod 2 ^ 30" using mod_digit [of n 30 2] by simp
  have pse: "n mod 2 ^ 32 = (n div 2 ^ 22 mod 1024) * 2 ^ 22 + n mod 2 ^ 22" using mod_digit [of n 22 10] by simp
  have pse': "n mod 2 ^ 22 = (n div 2 ^ 12 mod 1024) * 2 ^ 12 + n mod 2 ^ 12" using mod_digit [of n 12 10] by simp
  show "n mod 2 ^ 48 = (n div 2 ^ 39 mod 512) * 2 ^ 39 + (n div 2 ^ 30 mod 512) * 2 ^ 30 + (n div 2 ^ 21 mod 512) * 2 ^ 21
     + (n div 2 ^ 12 mod 512) * 2 ^ 12 + n mod 2 ^ 12"
    by (simp only: pae add.assoc)
  show "n mod 2 ^ 32 = (n div 2 ^ 30 mod 4) * 2 ^ 30 + (n div 2 ^ 21 mod 512) * 2 ^ 21 + (n div 2 ^ 12 mod 512) * 2 ^ 12
     + n mod 2 ^ 12"
    by (simp only: l3 pae add.assoc)
  show "n mod 2 ^ 32 = (n div 2 ^ 22 mod 1024) * 2 ^ 22 + (n div 2 ^ 12 mod 1024) * 2 ^ 12 + n mod 2 ^ 12"
    by (simp only: pse pse' add.assoc)
qed

lemma word_32_bits:
  assumes "\<not> CONFIG_64BIT e" "to_ulong e x = x"
  shows "unat x < 2 ^ 32"
proof -
  have "take_bit 32 x = x" using assms by (simp add: to_ulong_def)
  then have "unat x = take_bit 32 (unat x)" by (metis unsigned_take_bit_eq)
  then show ?thesis by (metis take_bit_nat_less_exp)
qed

text \<open>
  C28: In every paging mode the constants fit together and a linear address is its table offsets. A
  table is one page of \<open>2 ^ PT_ORDER\<close> entries of \<open>2 ^ PTE_ORDER\<close> bytes, the page orders are those of
  what one entry of the second and the third level maps, every offset of an address is inside its table (of four
  entries for the third level of a 32-bit build), and the offsets, put at the shifts of their levels,
  with the offset in the page give the 48 or 32 bits of the address again.
\<close>

theorem linear_address_splits:
  assumes "CONFIG_PAGING_LEVELS e \<noteq> 0" "to_ulong e linear = linear"
  shows "walk_address e (\<lambda>l. unat (table_offset e l linear)) (unat linear mod unat PAGE_SIZE) = unat linear mod 2 ^ linear_bits e
    \<and> (\<forall>l \<in> {1..CONFIG_PAGING_LEVELS e}. unat (table_offset e l linear) < table_entries e l)
    \<and> PT_ENTRIES e * PTE_SIZE e = unat PAGE_SIZE \<and> PTE_SIZE e = 2 ^ PTE_ORDER e \<and> PT_ENTRIES e = 2 ^ PT_ORDER e
    \<and> 2 ^ PT_SHIFT e 1 = unat PAGE_SIZE * 2 ^ PAGE_ORDER_4K
    \<and> 2 ^ PT_SHIFT e 2 = unat PAGE_SIZE * 2 ^ (if CONFIG_PAGING_LEVELS e = 2 then PAGE_ORDER_4M else PAGE_ORDER_2M)
    \<and> (3 \<le> CONFIG_PAGING_LEVELS e \<longrightarrow> 2 ^ PT_SHIFT e 3 = unat PAGE_SIZE * 2 ^ PAGE_ORDER_1G)"
proof -
  note defs = walk_address_def table_offset_def l1_table_offset_def l2_table_offset_def l3_table_offset_def l4_table_offset_def
    table_offsets_unat PT_SHIFT_def PTE_SIZE_def PTE_ORDER_def PT_ORDER_def PT_ENTRIES_def table_entries_def linear_bits_def
    PAE_PT_SHIFTS_def PSE_PT_SHIFTS_def entries_values PAE_PTE_SIZE_def PAE_PTE_ORDER_def PAE_PT_ORDER_def PSE_PTE_SIZE_def
    PSE_PTE_ORDER_def PSE_PT_ORDER_def PAE32_L3_ENTRIES_def PAGE_ORDER_4K_def PAGE_ORDER_2M_def PAGE_ORDER_4M_def PAGE_ORDER_1G_def
  have range: "{Suc 0..2} = {Suc 0, 2}" "{Suc 0..3} = {Suc 0, 2, 3}" "{Suc 0..4} = {Suc 0, 2, 3, 4}" by auto
  from assms(1) show ?thesis
  proof (cases rule: paging_modes)
    case 1
    then show ?thesis using linear_digits(3) [of "unat linear"] by (simp add: defs range del: CONFIG_PAGING_LEVELS.simps CONFIG_64BIT.simps)
  next
    case 2
    have "unat linear div 2 ^ 30 < 4" using word_32_bits [OF 2(2) assms(2)] by (simp add: less_mult_imp_div_less)
    then show ?thesis using 2 linear_digits(2) [of "unat linear"] by (simp add: defs range del: CONFIG_PAGING_LEVELS.simps CONFIG_64BIT.simps)
  next
    case 3
    have d: "unat linear mod 281474976710656 = unat linear div 549755813888 mod 512 * 549755813888
        + unat linear div 1073741824 mod 512 * 1073741824 + unat linear div 2097152 mod 512 * 2097152
        + unat linear div 4096 mod 512 * 4096 + unat linear mod 4096"
      using linear_digits(1) [of "unat linear"] by simp
    show ?thesis using 3 by (simp add: defs range del: CONFIG_PAGING_LEVELS.simps CONFIG_64BIT.simps) (use d in linarith)
  qed
qed

lemma linear_address_splits_witness:
  "walk_address HVM64 (\<lambda>l. unat (table_offset HVM64 l 0xffe01234)) (unat (0xffe01234 :: u64) mod unat PAGE_SIZE)
     = unat (0xffe01234 :: u64) mod 2 ^ linear_bits HVM64"
proof -
  have "to_ulong HVM64 0xffe01234 = 0xffe01234" by (simp only: to_ulong_def take_bit_word_eq_self) simp
  moreover have "CONFIG_PAGING_LEVELS HVM64 \<noteq> 0" by simp
  ultimately show ?thesis using linear_address_splits by blast
qed

end
