(* ===== verification/X86_Boot.thy ===== *)
theory X86_Boot imports
  C_Layout
  Config_Macros
  X86_Paging
  X86_Symbols
begin

text \<open>
  How an HVM guest starts: the page tables that \<open>hvm/pagetables.S\<close> assembles, the assertions of the linker
  script, and the entry point of \<open>hvm/head.S\<close>, which switches paging on. The walk of the tables is the
  processor's, for the three paging modes of the builds; memory is a function from addresses to entries.
\<close>

section \<open>The linked image\<close>

text \<open>The assertions at the end of \<open>link.lds.S\<close>, and those of \<open>arch/link.lds.h\<close>.\<close>

definition common_link_asserts :: "linkage \<Rightarrow> bool" where
  "common_link_asserts lnk \<longleftrightarrow>
     list_all (\<lambda>name. IS_ALIGNED (lnk name) PAGE_SIZE)
       [''__start_user_text'', ''__end_user_text'', ''__start_user_data'', ''__end_user_data'',
        ''__start_user_bss'', ''__end_user_bss'']"

definition arch_link_asserts :: "env \<Rightarrow> linkage \<Rightarrow> bool" where
  "arch_link_asserts e lnk \<longleftrightarrow>
     IS_ALIGNED (lnk ''hypercall_page'') PAGE_SIZE
     \<and> (if CONFIG_HVM e
        then lnk ''_end'' < push_bit (PT_ORDER e + PAGE_SHIFT) 1
          \<and> IS_ALIGNED (lnk ''pae_l1_identmap'') PAGE_SIZE \<and> IS_ALIGNED (lnk ''pae_l2_identmap'') PAGE_SIZE
          \<and> IS_ALIGNED (lnk ''pae_l3_identmap'') PAGE_SIZE \<and> IS_ALIGNED (lnk ''pae_l4_identmap'') PAGE_SIZE
          \<and> IS_ALIGNED (lnk ''pae32_l3_identmap'') 32
          \<and> IS_ALIGNED (lnk ''pse_l1_identmap'') PAGE_SIZE \<and> IS_ALIGNED (lnk ''pse_l2_identmap'') PAGE_SIZE
        else IS_ALIGNED (lnk ''gdt'') PAGE_SIZE)"

text \<open>An object of the image, between the load address of \<open>arch/config.h\<close> and \<open>_end\<close>.\<close>

definition in_image :: "linkage \<Rightarrow> string \<Rightarrow> nat \<Rightarrow> bool" where
  "in_image lnk name len \<longleftrightarrow> XTF_VIRT_START \<le> unat (lnk name) \<and> unat (lnk name) + len \<le> unat (lnk ''_end'')"

section \<open>The page tables\<close>

definition PAGE_PSE :: u64 where [xtf_consts]: "PAGE_PSE = 0x0080"
definition PAGE_LEAF :: u64 where [xtf_consts]: "PAGE_LEAF = PAGE_AD + PAGE_RW + PAGE_PRESENT"
definition PAGE_SUPER :: u64 where [xtf_consts]: "PAGE_SUPER = PAGE_PSE + PAGE_LEAF"
definition PAGE_NONLEAF :: u64 where [xtf_consts]: "PAGE_NONLEAF = PAGE_USER + PAGE_LEAF"

text \<open>
  \<open>.long\<close> emits 32 bits. The upper half of an 8-byte entry is a \<open>.long 0\<close>, so an entry is its lower half. \<open>PAE_IDX\<close>
  is the number of the entry in its table.
\<close>

definition dot_long :: "u64 \<Rightarrow> u64" where
  "dot_long w = take_bit 32 w"

definition pae_l1_identmap :: "u64 list" where
  "pae_l1_identmap = dot_long 0 # map (\<lambda>i. dot_long (push_bit 12 (of_nat i) + PAGE_LEAF)) [1..<PAE_PT_ENTRIES]"

definition pae_l2_identmap :: "linkage \<Rightarrow> u64 list" where
  "pae_l2_identmap lnk =
     dot_long (lnk ''pae_l1_identmap'' + PAGE_NONLEAF)
     # map (\<lambda>i. dot_long (push_bit 21 (of_nat i) + PAGE_SUPER)) [1..<4 * PAE_PT_ENTRIES]"

definition pae_l3_identmap :: "linkage \<Rightarrow> u64 list" where
  "pae_l3_identmap lnk =
     map (\<lambda>i. dot_long (lnk ''pae_l2_identmap'' + push_bit PAGE_SHIFT (of_nat i) + PAGE_NONLEAF)) [0..<4]
     @ replicate (PAE_PT_ENTRIES - 4) 0"

definition pae_l4_identmap :: "linkage \<Rightarrow> u64 list" where
  "pae_l4_identmap lnk = dot_long (lnk ''pae_l3_identmap'' + PAGE_NONLEAF) # replicate (PAE_PT_ENTRIES - 1) 0"

definition pse_l1_identmap :: "u64 list" where
  "pse_l1_identmap = dot_long 0 # map (\<lambda>i. dot_long (push_bit 12 (of_nat i) + PAGE_LEAF)) [1..<PSE_PT_ENTRIES]"

definition pse_l2_identmap :: "linkage \<Rightarrow> u64 list" where
  "pse_l2_identmap lnk =
     dot_long (lnk ''pse_l1_identmap'' + PAGE_NONLEAF)
     # map (\<lambda>i. dot_long (push_bit 22 (of_nat i) + PAGE_SUPER)) [1..<PSE_PT_ENTRIES]"

definition pae32_l3_identmap :: "linkage \<Rightarrow> u64 list" where
  "pae32_l3_identmap lnk =
     map (\<lambda>i. dot_long (lnk ''pae_l2_identmap'' + push_bit PAGE_SHIFT (of_nat i) + PAGE_PRESENT)) [0..<PAE32_L3_ENTRIES]"

text \<open>The aliases of the live tables.\<close>

definition init_l1_identmap :: "env \<Rightarrow> u64 list" where
  "init_l1_identmap e = (if CONFIG_PAGING_LEVELS e \<ge> 3 then pae_l1_identmap else pse_l1_identmap)"

definition cr3_target :: "env \<Rightarrow> linkage \<Rightarrow> u64" where
  "cr3_target e lnk =
     (if CONFIG_PAGING_LEVELS e > 0 then
        (if CONFIG_PAGING_LEVELS e = 2 then lnk ''pse_l2_identmap''
         else if CONFIG_PAGING_LEVELS e = 3 then lnk ''pae32_l3_identmap'' else lnk ''pae_l4_identmap'')
      else 0)"

text \<open>
  The tables that \<open>cr3_target\<close> leads to, at their addresses. The entries of the lowest table are an argument, because
  \<open>arch_init_traps\<close> changes them.
\<close>

definition live_tables :: "env \<Rightarrow> linkage \<Rightarrow> u64 list \<Rightarrow> (string \<times> u64 list) list" where
  "live_tables e lnk l1 =
     (if CONFIG_PAGING_LEVELS e = 2
      then [(''pse_l1_identmap'', l1), (''pse_l2_identmap'', pse_l2_identmap lnk)]
      else [(''pae_l1_identmap'', l1), (''pae_l2_identmap'', pae_l2_identmap lnk)]
        @ (if CONFIG_PAGING_LEVELS e = 3 then [(''pae32_l3_identmap'', pae32_l3_identmap lnk)]
           else [(''pae_l3_identmap'', pae_l3_identmap lnk), (''pae_l4_identmap'', pae_l4_identmap lnk)]))"

definition tables_in_memory :: "env \<Rightarrow> linkage \<Rightarrow> u64 list \<Rightarrow> (u64 \<Rightarrow> u64) \<Rightarrow> bool" where
  "tables_in_memory e lnk l1 ram \<longleftrightarrow>
     (\<forall>(name, es) \<in> set (live_tables e lnk l1). in_image lnk name (length es * PTE_SIZE e)
        \<and> (\<forall>i < length es. ram (lnk name + of_nat (i * PTE_SIZE e)) = es ! i))"

section \<open>The walk\<close>

text \<open>
  What the processor does with a linear address: the physical address, and whether user mode may use it and whether
  it is writable, which every level must grant. The four entries of the top level of 32-bit PAE paging have no such
  bits. An entry with the page-size bit is a leaf, whose frame is the PSE-36 one in a two-level walk.
\<close>

definition leaf_frame :: "env \<Rightarrow> nat \<Rightarrow> u64 \<Rightarrow> u64" where
  "leaf_frame e l pte =
     (if CONFIG_PAGING_LEVELS e = 2 \<and> l = 2 then unfold_pse36 (ucast pte) else pte) AND PADDR_MASK AND NOT (mask (PT_SHIFT e l))"

fun hw_walk :: "env \<Rightarrow> (u64 \<Rightarrow> u64) \<Rightarrow> nat \<Rightarrow> u64 \<Rightarrow> u64 \<Rightarrow> bool \<Rightarrow> bool \<Rightarrow> (u64 \<times> bool \<times> bool) option" where
  "hw_walk e ram 0 table va us rw = None"
| "hw_walk e ram (Suc k) table va us rw =
     (let l = Suc k; pte = ram (table + of_nat (unat (table_offset e l va) * PTE_SIZE e));
          top = (CONFIG_PAGING_LEVELS e = 3 \<and> l = 3);
          us1 = (us \<and> (top \<or> bit pte 2)); rw1 = (rw \<and> (top \<or> bit pte 1))
      in if \<not> bit pte 0 then None
         else if l = 1 \<or> (l = 2 \<or> l = 3 \<and> \<not> top) \<and> bit pte 7
         then Some (leaf_frame e l pte OR (va AND mask (PT_SHIFT e l)), us1, rw1)
         else hw_walk e ram k (pte_to_paddr pte) va us1 rw1)"

declare hw_walk.simps [simp del]

section \<open>Entries\<close>

lemma flag_values: "PAGE_LEAF = 0x63" "PAGE_SUPER = 0xe3" "PAGE_NONLEAF = 0x67" "PAGE_PRESENT = 1"
  by (simp_all add: xtf_consts)

lemma low_bits_zero:
  assumes "a AND mask 12 = (0 :: u64)" "k < 12"
  shows "\<not> bit a k"
proof
  assume "bit a k"
  then have "bit (a AND mask 12) k" using assms(2) by (simp add: bit_simps)
  then show False using assms(1) by simp
qed

lemma high_bits_zero:
  assumes "unat (a :: u64) < 2 ^ n" "bit a k"
  shows "k < n"
proof -
  have "take_bit n a = a" using assms(1) by (simp add: word_unat_eq_iff unsigned_take_bit_eq take_bit_nat_eq_self)
  then show ?thesis using assms(2) by (metis bit_take_bit_iff)
qed

text \<open>An entry is a page-aligned address below 4G and flags.\<close>

lemma entry_parts:
  assumes "a AND mask 12 = (0 :: u64)" "unat a < 2 ^ 32" "fl AND mask 12 = fl"
  shows "dot_long (a + fl) = a OR fl" "k < 12 \<Longrightarrow> bit (a OR fl) k = bit fl k" "pte_to_paddr (a OR fl) = a"
proof -
  have fl: "bit fl k \<Longrightarrow> k < 12" for k using assms(3) by (metis bit_and_iff bit_mask_iff)
  note a = low_bits_zero [OF assms(1)] and hi = high_bits_zero [OF assms(2)]
  have "a AND fl = 0"
    by (rule bit_word_eqI) (use a fl in \<open>auto simp: bit_simps\<close>)
  then have "a + fl = a OR fl" by (simp add: disjunctive_add_eq_or)
  moreover have "take_bit 32 (a OR fl) = a OR fl"
    by (rule bit_word_eqI) (use hi fl in \<open>fastforce simp: bit_simps\<close>)
  ultimately show "dot_long (a + fl) = a OR fl" by (simp add: dot_long_def)
  show "k < 12 \<Longrightarrow> bit (a OR fl) k = bit fl k" using a by (simp add: bit_simps)
  show "pte_to_paddr (a OR fl) = a"
    unfolding pte_to_paddr_def
    by (rule bit_word_eqI) (use a hi fl in \<open>fastforce simp: bit_simps bit_frame_mask not_less\<close>)
qed


text \<open>The leaf of an identity map: the address of the page, at the shift of the level, and flags.\<close>

lemma page_base: "push_bit s (of_nat (unat (va :: u64) div 2 ^ s)) = va AND NOT (mask s)"
proof -
  have "unat va div 2 ^ s = unat (drop_bit s va)" by (metis drop_bit_eq_div unat_drop_bit_eq)
  then have "(of_nat (unat va div 2 ^ s) :: u64) = drop_bit s va" by (simp only: of_nat_unat ucast_id)
  then show ?thesis by (simp only:) (rule bit_word_eqI, auto simp: bit_simps not_less)
qed

lemma unfold_pse36_below:
  assumes "\<And>n. bit (x :: u64) n \<Longrightarrow> n < 12 \<or> 22 \<le> n \<and> n < 32"
  shows "unfold_pse36 (ucast x) = x"
proof (rule bit_word_eqI)
  fix k :: nat
  assume "k < LENGTH(64)"
  then show "bit (unfold_pse36 (ucast x)) k = bit x k"
    using assms [of k] assms [of "k - 19"] by (auto simp: bit_unfold_pse36 bit_ucast_iff)
qed

lemma leaf_identity:
  assumes "unat va < 2 ^ 32" "fl AND mask 12 = fl" "PT_SHIFT e l = s" "12 \<le> s" "CONFIG_PAGING_LEVELS e = 2 \<and> l = 2 \<longrightarrow> 22 \<le> s"
  shows "leaf_frame e l (push_bit s (of_nat (unat va div 2 ^ s)) OR fl) OR (va AND mask s) = va"
proof -
  let ?x = "va AND NOT (mask s) OR fl"
  have fl: "bit fl k \<Longrightarrow> k < 12" for k using assms(2) by (metis bit_and_iff bit_mask_iff)
  note hi = high_bits_zero [OF assms(1)]
  have bits: "bit ?x k \<longleftrightarrow> (if k < 12 then bit fl k else s \<le> k \<and> bit va k)" for k
  proof -
    have "bit ?x k \<longleftrightarrow> bit va k \<and> s \<le> k \<or> bit fl k"
      by (auto simp: bit_simps not_less dest: bit_imp_le_length)
    then show ?thesis using fl [of k] assms(4) by auto
  qed
  have "n < 12 \<or> 22 \<le> n \<and> n < 32" if "22 \<le> s" "bit ?x n" for n
    using that(1) that(2) [unfolded bits] hi [of n] by (simp split: if_splits)
  then have "unfold_pse36 (ucast ?x) = ?x" if "22 \<le> s" using that by (intro unfold_pse36_below) blast
  then have "leaf_frame e l ?x = ?x AND PADDR_MASK AND NOT (mask s)"
    using assms(3,5) unfolding leaf_frame_def by (cases "CONFIG_PAGING_LEVELS e = 2 \<and> l = 2") (simp_all only: if_True if_False if_cancel)
  moreover have "(?x AND PADDR_MASK AND NOT (mask s)) OR (va AND mask s) = va"
  proof (rule bit_word_eqI)
    fix k :: nat
    assume "k < LENGTH(64)"
    then show "bit ((?x AND PADDR_MASK AND NOT (mask s)) OR (va AND mask s)) k = bit va k"
      unfolding bit_or_iff [of "?x AND PADDR_MASK AND NOT (mask s)"] bit_and_iff bits
      using hi [of k] assms(4) by (auto simp: bit_not_iff bit_mask_iff bit_PADDR_MASK)
  qed
  ultimately show ?thesis unfolding page_base by simp
qed


section \<open>The identity map\<close>

text \<open>A lowest table that maps every page but the first to itself, for user mode too where \<open>u\<close> says so.\<close>

definition l1_maps :: "env \<Rightarrow> (nat \<Rightarrow> bool) \<Rightarrow> u64 list \<Rightarrow> bool" where
  "l1_maps e u l1 \<longleftrightarrow> length l1 = PT_ENTRIES e
     \<and> (\<forall>i < length l1. l1 ! i = (if i = 0 then 0 else push_bit 12 (of_nat i) OR PAGE_LEAF) OR (if u i then PAGE_USER else 0))"

definition identity_walk :: "(nat \<Rightarrow> bool) \<Rightarrow> u64 \<Rightarrow> (u64 \<times> bool \<times> bool) option" where
  "identity_walk u va =
     (if unat va < 4096 \<or> 2 ^ 32 \<le> unat va then None else Some (va, u (unat va div 4096), True))"

lemma hw_walk_step:
  assumes "unat (table_offset e (Suc k) va) = i" "ram (table + of_nat (i * PTE_SIZE e)) = pte"
  shows "hw_walk e ram (Suc k) table va us rw =
    (let top = (CONFIG_PAGING_LEVELS e = 3 \<and> Suc k = 3); us1 = (us \<and> (top \<or> bit pte 2)); rw1 = (rw \<and> (top \<or> bit pte 1))
     in if \<not> bit pte 0 then None
        else if Suc k = 1 \<or> (Suc k = 2 \<or> Suc k = 3 \<and> \<not> top) \<and> bit pte 7
        then Some (leaf_frame e (Suc k) pte OR (va AND mask (PT_SHIFT e (Suc k))), us1, rw1)
        else hw_walk e ram k (pte_to_paddr pte) va us1 rw1)"
  by (simp only: hw_walk.simps(2) Let_def assms)

lemma hw_walk_1:
  assumes "CONFIG_PAGING_LEVELS e \<noteq> 0" "l1_maps e u l1" "unat va < 4096 * PT_ENTRIES e"
    and "\<forall>i < length l1. ram (table + of_nat (i * PTE_SIZE e)) = l1 ! i"
  shows "hw_walk e ram 1 table va True True = (if unat va < 4096 then None else Some (va, u (unat va div 4096), True))"
proof -
  define i where "i = unat va div 4096"
  have i: "unat (table_offset e 1 va) = i" "i < length l1" "unat va < 2 ^ 32" "PT_SHIFT e 1 = 12"
    using assms(1-3) by (auto simp: i_def table_offset_def l1_table_offset_def table_offsets_unat PT_ENTRIES_def l1_maps_def
      entries_values PT_SHIFT_def PAE_PT_SHIFTS_def PSE_PT_SHIFTS_def less_mult_imp_div_less split: if_splits)
  define fl where "fl = (if u i then 0x67 else 0x63 :: u64)"
  have pte: "ram (table + of_nat (i * PTE_SIZE e)) = (if i = 0 then (if u 0 then 4 else 0) else push_bit 12 (of_nat i) OR fl)"
    using assms(2,4) i(2) by (auto simp: l1_maps_def fl_def flag_values PAGE_USER_def or.assoc)
  have fl: "fl AND mask 12 = fl" "bit fl 0" "bit fl 1" "bit fl 2 = u i"
    by (simp_all add: fl_def mask_eq_exp_minus_1)
  have zero: "i = 0 \<longleftrightarrow> unat va < 4096" by (simp add: i_def div_eq_0_iff)
  have base: "push_bit 12 (of_nat i) AND mask 12 = (0 :: u64)"
    by (rule bit_word_eqI) (auto simp: bit_simps)
  have "leaf_frame e 1 (push_bit 12 (of_nat i) OR fl) OR (va AND mask 12) = va"
    using leaf_identity [OF i(3) fl(1) i(4)] by (simp add: i_def)
  moreover have "bit (push_bit 12 (of_nat i) OR fl) k = bit fl k" if "k < 12" for k
    using that by (auto simp: bit_simps)
  ultimately show ?thesis
    using hw_walk_step [of e 0 va i ram table _ True True] i(1,4) pte fl zero
    by (cases "i = 0") (simp_all add: Let_def i_def [symmetric] del: push_bit_of_nat)
qed

text \<open>
  The table above it, at whose entry for the address the walk reads either the lowest table, for the first entry, or
  a superpage that maps itself.
\<close>

lemma hw_walk_2:
  assumes "CONFIG_PAGING_LEVELS e \<noteq> 0" "l1_maps e u l1" "\<forall>i < length l1. ram (T + of_nat (i * PTE_SIZE e)) = l1 ! i"
    and T: "T AND mask 12 = 0" "unat T < 2 ^ 32"
    and "unat va < 2 ^ 32" "s = PT_SHIFT e 2" "i = unat (table_offset e 2 va)" "j = unat va div 2 ^ s"
    and "ram (table + of_nat (i * PTE_SIZE e)) = (if j = 0 then T OR PAGE_NONLEAF else push_bit s (of_nat j) OR PAGE_SUPER)"
    and "\<forall>i \<ge> PT_ENTRIES e. \<not> u i"
  shows "hw_walk e ram 2 table va True True = identity_walk u va"
proof -
  have s: "12 \<le> s" "CONFIG_PAGING_LEVELS e = 2 \<longrightarrow> 22 \<le> s" "2 ^ s = 4096 * PT_ENTRIES e" "0 < PT_ENTRIES e"
    using assms(1,7) by (auto simp: PT_SHIFT_def PAE_PT_SHIFTS_def PSE_PT_SHIFTS_def PT_ENTRIES_def entries_values)
  note step = hw_walk_step [of e 1 va i ram table _ True True, unfolded Suc_1, OF assms(8) [symmetric] assms(10)]
  show ?thesis
  proof (cases "j = 0")
    case True
    then have low: "unat va < 4096 * PT_ENTRIES e" using assms(9) s(3,4) by (simp add: div_eq_0_iff)
    have nl: "PAGE_NONLEAF AND mask 12 = PAGE_NONLEAF" by (simp add: flag_values mask_eq_exp_minus_1)
    note parts = entry_parts [OF T nl]
    show ?thesis
      using step True parts(2) [of 0] parts(2) [of 1] parts(2) [of 2] parts(2) [of 7] parts(3)
        hw_walk_1 [OF assms(1,2) low assms(3)] assms(6)
      by (simp add: flag_values identity_walk_def)
  next
    case False
    have sup: "PAGE_SUPER AND mask 12 = PAGE_SUPER" by (simp add: flag_values mask_eq_exp_minus_1)
    have page: "push_bit s (of_nat j) AND mask 12 = (0 :: u64)"
      by (rule bit_word_eqI) (use s(1) in \<open>auto simp: bit_simps\<close>)
    have bits: "bit (push_bit s (of_nat j) OR PAGE_SUPER) k = bit PAGE_SUPER k" if "k < 12" for k
      using low_bits_zero [OF page that] by (simp add: bit_or_iff)
    have "leaf_frame e 2 (push_bit s (of_nat j) OR PAGE_SUPER) OR (va AND mask s) = va"
      unfolding assms(9) by (rule leaf_identity) (use assms(6,7) sup s in auto)
    moreover have "4096 * PT_ENTRIES e \<le> unat va" using False assms(9) s(3) by (metis div_less not_less)
    then have "4096 \<le> unat va" "\<not> u (unat va div 4096)"
      using assms(1,11) by (auto simp: PT_ENTRIES_def entries_values split: if_splits)
    ultimately show ?thesis
      using step False bits [of 0] bits [of 1] bits [of 2] bits [of 7] assms(6,7)
      by (simp add: flag_values identity_walk_def del: push_bit_of_nat)
  qed
qed


text \<open>Symbols of an HVM image: page tables are page-aligned and below what one lowest table maps.\<close>

lemma aligned_page: "IS_ALIGNED (a :: u64) PAGE_SIZE \<longleftrightarrow> a AND mask 12 = 0"
  by (simp add: IS_ALIGNED_def PAGE_SIZE_def mask_eq_exp_minus_1)

lemma image_bound:
  assumes "CONFIG_HVM e" "arch_link_asserts e lnk"
  shows "unat (lnk ''_end'') < 4096 * PT_ENTRIES e" "unat (lnk ''_end'') < 2 ^ 22"
proof -
  have "unat (push_bit (PT_ORDER e + PAGE_SHIFT) 1 :: u64) = 4096 * PT_ENTRIES e"
    by (simp add: PT_ORDER_def PSE_PT_ORDER_def PAE_PT_ORDER_def PAGE_SHIFT_def PT_ENTRIES_def entries_values)
  moreover have "lnk ''_end'' < push_bit (PT_ORDER e + PAGE_SHIFT) 1" using assms by (simp only: arch_link_asserts_def if_True)
  ultimately show "unat (lnk ''_end'') < 4096 * PT_ENTRIES e" by (simp only: word_less_nat_alt)
  then show "unat (lnk ''_end'') < 2 ^ 22" by (auto simp: PT_ENTRIES_def entries_values split: if_splits)
qed

lemma nth_table: "j < n \<Longrightarrow> (x # map f [Suc 0..<n]) ! j = (if j = 0 then x else f j)"
  by (cases j) (simp_all add: nth_map)

lemma flags_low: "fl \<in> {PAGE_LEAF, PAGE_SUPER, PAGE_NONLEAF, PAGE_PRESENT} \<Longrightarrow> fl AND mask 12 = fl"
  by (auto simp: flag_values mask_eq_exp_minus_1)

lemma mapped_entry:
  assumes "12 \<le> s" "j * 2 ^ s < 2 ^ 32" "fl \<in> {PAGE_LEAF, PAGE_SUPER}"
  shows "dot_long (push_bit s (of_nat j) + fl) = push_bit s (of_nat j) OR fl"
proof (rule entry_parts(1))
  show "push_bit s (of_nat j) AND mask 12 = (0 :: u64)" by (rule bit_word_eqI) (use assms(1) in \<open>auto simp: bit_simps\<close>)
  have "push_bit s (of_nat j) = (of_nat (j * 2 ^ s) :: u64)" by (simp add: push_bit_eq_mult)
  then show "unat (push_bit s (of_nat j) :: u64) < 2 ^ 32" using assms(2) by (simp only: unat_of_nat) simp
qed (use assms(3) flags_low in blast)

lemma length_l2: "length (pae_l2_identmap lnk) = 2048" "length (pse_l2_identmap lnk) = 1024"
  by (simp_all add: pae_l2_identmap_def pse_l2_identmap_def entries_values)

lemma nth_pae_l2:
  assumes "j < 2048" "lnk ''pae_l1_identmap'' AND mask 12 = 0" "unat (lnk ''pae_l1_identmap'') < 2 ^ 32"
  shows "pae_l2_identmap lnk ! j = (if j = 0 then lnk ''pae_l1_identmap'' OR PAGE_NONLEAF else push_bit 21 (of_nat j) OR PAGE_SUPER)"
proof -
  have "j < 4 * PAE_PT_ENTRIES" using assms(1) by (simp add: entries_values)
  then show ?thesis
    using mapped_entry [of 21 j PAGE_SUPER] entry_parts(1) [OF assms(2,3) flags_low, of PAGE_NONLEAF] assms(1)
    by (simp add: pae_l2_identmap_def nth_table del: push_bit_of_nat)
qed

lemma nth_pse_l2:
  assumes "j < 1024" "lnk ''pse_l1_identmap'' AND mask 12 = 0" "unat (lnk ''pse_l1_identmap'') < 2 ^ 32"
  shows "pse_l2_identmap lnk ! j = (if j = 0 then lnk ''pse_l1_identmap'' OR PAGE_NONLEAF else push_bit 22 (of_nat j) OR PAGE_SUPER)"
proof -
  have "j < PSE_PT_ENTRIES" using assms(1) by (simp add: entries_values)
  then show ?thesis
    using mapped_entry [of 22 j PAGE_SUPER] entry_parts(1) [OF assms(2,3) flags_low, of PAGE_NONLEAF] assms(1)
    by (simp add: pse_l2_identmap_def nth_table del: push_bit_of_nat)
qed

lemma init_l1_maps:
  assumes "CONFIG_PAGING_LEVELS e \<noteq> 0"
  shows "l1_maps e (\<lambda>i. False) (init_l1_identmap e)"
proof -
  have "dot_long (push_bit 12 (of_nat i) + PAGE_LEAF) = push_bit 12 (of_nat i) OR PAGE_LEAF" if "i < 1024" for i
    using mapped_entry [of 12 i PAGE_LEAF] that by simp
  then show ?thesis
    using assms unfolding l1_maps_def init_l1_identmap_def pae_l1_identmap_def pse_l1_identmap_def
    by (cases e) (simp_all add: nth_table PT_ENTRIES_def entries_values dot_long_def del: push_bit_of_nat upt_rec_numeral)
qed


text \<open>Two levels: \<open>pse_l2_identmap\<close>, and the quarter of \<open>pae_l2_identmap\<close> for the gigabyte of the address.\<close>

lemma pse_walk:
  assumes "CONFIG_PAGING_LEVELS e = 2" "l1_maps e u l1" "\<forall>i \<ge> PT_ENTRIES e. \<not> u i" "unat va < 2 ^ 32"
    and T: "lnk ''pse_l1_identmap'' AND mask 12 = 0" "unat (lnk ''pse_l1_identmap'') < 2 ^ 32"
    and ram: "\<forall>i < length l1. ram (lnk ''pse_l1_identmap'' + of_nat (i * PTE_SIZE e)) = l1 ! i"
      "\<forall>i < length (pse_l2_identmap lnk). ram (lnk ''pse_l2_identmap'' + of_nat (i * PTE_SIZE e)) = pse_l2_identmap lnk ! i"
  shows "hw_walk e ram 2 (lnk ''pse_l2_identmap'') va True True = identity_walk u va"
proof -
  let ?i = "unat (table_offset e 2 va)"
  have i: "?i = unat va div 2 ^ PT_SHIFT e 2" "?i < 1024"
    using assms(1,4) by (simp_all add: table_offset_def l2_table_offset_def table_offsets_unat PT_SHIFT_def PSE_PT_SHIFTS_def
        less_mult_imp_div_less)
  have "ram (lnk ''pse_l2_identmap'' + of_nat (?i * PTE_SIZE e))
      = (if ?i = 0 then lnk ''pse_l1_identmap'' OR PAGE_NONLEAF else push_bit (PT_SHIFT e 2) (of_nat ?i) OR PAGE_SUPER)"
    using ram(2) [unfolded length_l2, rule_format, OF i(2)] nth_pse_l2 [OF i(2), of lnk] T assms(1)
    by (simp only: PT_SHIFT_def PSE_PT_SHIFTS_def) simp
  then show ?thesis
    using hw_walk_2 [OF _ assms(2) ram(1) T assms(4) refl refl i(1) _ assms(3)] assms(1) by simp
qed

lemma pae_l2_walk:
  assumes "CONFIG_PAGING_LEVELS e \<ge> 3" "l1_maps e u l1" "\<forall>i \<ge> PT_ENTRIES e. \<not> u i" "unat va < 2 ^ 32"
    and T: "lnk ''pae_l1_identmap'' AND mask 12 = 0" "unat (lnk ''pae_l1_identmap'') < 2 ^ 32"
    and ram: "\<forall>i < length l1. ram (lnk ''pae_l1_identmap'' + of_nat (i * PTE_SIZE e)) = l1 ! i"
      "\<forall>i < length (pae_l2_identmap lnk). ram (lnk ''pae_l2_identmap'' + of_nat (i * PTE_SIZE e)) = pae_l2_identmap lnk ! i"
  shows "hw_walk e ram 2 (lnk ''pae_l2_identmap'' + push_bit 12 (of_nat (unat va div 2 ^ 30))) va True True = identity_walk u va"
proof -
  let ?i = "unat (table_offset e 2 va)" and ?j = "unat va div 2 ^ PT_SHIFT e 2"
  have quarter: "a + push_bit 12 (of_nat q) + of_nat (i * 8) = a + of_nat ((i + 512 * q) * 8)" for a :: u64 and q i
    by (simp add: push_bit_eq_mult algebra_simps)
  have lv: "CONFIG_PAGING_LEVELS e \<noteq> 0" "CONFIG_PAGING_LEVELS e \<noteq> 2" using assms(1) by auto
  have s: "PT_SHIFT e 2 = 21" "PTE_SIZE e = 8"
    using lv by (simp_all add: PT_SHIFT_def PAE_PT_SHIFTS_def PTE_SIZE_def PAE_PTE_SIZE_def)
  have "?i = unat va div 2 ^ 21 mod 512" using lv by (simp add: table_offset_def l2_table_offset_def table_offsets_unat)
  then have j: "?j = ?i + 512 * (unat va div 2 ^ 30)" using walk_level [of "unat va" 21 9] s(1) by simp
  have lt: "?j < 2048" using assms(4) s(1) by (simp add: less_mult_imp_div_less)
  have "lnk ''pae_l2_identmap'' + push_bit 12 (of_nat (unat va div 2 ^ 30)) + of_nat (?i * PTE_SIZE e)
      = lnk ''pae_l2_identmap'' + of_nat (?j * PTE_SIZE e)"
    unfolding j s(2) by (rule quarter)
  then have "ram (lnk ''pae_l2_identmap'' + push_bit 12 (of_nat (unat va div 2 ^ 30)) + of_nat (?i * PTE_SIZE e))
      = (if ?j = 0 then lnk ''pae_l1_identmap'' OR PAGE_NONLEAF else push_bit (PT_SHIFT e 2) (of_nat ?j) OR PAGE_SUPER)"
    unfolding s(1) using ram(2) [unfolded length_l2, rule_format, OF lt [unfolded s(1)]] nth_pae_l2 [OF lt [unfolded s(1)], of lnk] T by metis
  then show ?thesis
    by (rule hw_walk_2 [OF lv(1) assms(2) ram(1) T assms(4) refl refl refl _ assms(3)])
qed

text \<open>The entries above: each leads to its table, for user mode and for writing.\<close>

lemma next_table:
  assumes "a AND mask 12 = (0 :: u64)" "unat a < 2 ^ 22" "i < 4" "fl \<in> {PAGE_NONLEAF, PAGE_PRESENT}"
  shows "pte_to_paddr (dot_long (a + push_bit 12 (of_nat i) + fl)) = a + push_bit 12 (of_nat i)"
    and "k < 12 \<Longrightarrow> bit (dot_long (a + push_bit 12 (of_nat i) + fl)) k = bit fl k"
proof -
  let ?b = "push_bit 12 (of_nat i) :: u64"
  have "unat ?b < 2 ^ 14" using assms(3) by (simp add: push_bit_eq_mult unat_word_ariths unat_of_nat)
  then have small: "unat (a + ?b) < 2 ^ 32" using assms(2) by (simp add: unat_word_ariths)
  have "push_bit 12 (drop_bit 12 a) = a"
  proof (rule bit_word_eqI)
    show "bit (push_bit 12 (drop_bit 12 a)) n = bit a n" if "n < LENGTH(64)" for n
      using that low_bits_zero [OF assms(1), of n] by (cases "n < 12") (auto simp: bit_simps)
  qed
  then have "a + ?b = push_bit 12 (drop_bit 12 a + of_nat i)" by (simp only: push_bit_add)
  moreover have "push_bit 12 x AND mask 12 = 0" for x :: u64 by (rule bit_word_eqI) (auto simp: bit_simps)
  ultimately have page: "(a + ?b) AND mask 12 = 0" by simp
  have "fl AND mask 12 = fl" using flags_low assms(4) by blast
  note parts = entry_parts [OF page small this]
  show "pte_to_paddr (dot_long (a + ?b + fl)) = a + ?b" "k < 12 \<Longrightarrow> bit (dot_long (a + ?b + fl)) k = bit fl k"
    unfolding parts(1) by (rule parts(3), erule parts(2))
qed


lemma nth_l3:
  assumes "i < 512"
  shows "pae_l3_identmap lnk ! i = (if i < 4 then dot_long (lnk ''pae_l2_identmap'' + push_bit 12 (of_nat i) + PAGE_NONLEAF) else 0)"
    "i < 4 \<Longrightarrow> pae32_l3_identmap lnk ! i = dot_long (lnk ''pae_l2_identmap'' + push_bit 12 (of_nat i) + PAGE_PRESENT)"
    "pae_l4_identmap lnk ! i = (if i = 0 then dot_long (lnk ''pae_l3_identmap'' + push_bit 12 (of_nat 0) + PAGE_NONLEAF) else 0)"
  using assms by (auto simp: pae_l3_identmap_def pae32_l3_identmap_def pae_l4_identmap_def PAE32_L3_ENTRIES_def PAGE_SHIFT_def
      entries_values nth_append nth_Cons')

lemma in_memory:
  assumes "tables_in_memory e lnk l1 ram" "(name, es) \<in> set (live_tables e lnk l1)"
  shows "in_image lnk name (length es * PTE_SIZE e)" "\<forall>i < length es. ram (lnk name + of_nat (i * PTE_SIZE e)) = es ! i"
  using assms unfolding tables_in_memory_def by fastforce+

lemma pae_walk:
  assumes "CONFIG_PAGING_LEVELS e \<ge> 3" "l1_maps e u l1" "\<forall>i \<ge> PT_ENTRIES e. \<not> u i" "tables_in_memory e lnk l1 ram"
    and l1: "lnk ''pae_l1_identmap'' AND mask 12 = 0" "unat (lnk ''pae_l1_identmap'') < 2 ^ 32"
    and l2: "lnk ''pae_l2_identmap'' AND mask 12 = 0" "unat (lnk ''pae_l2_identmap'') < 2 ^ 22"
    and "i = unat va div 2 ^ 30" "unat (table_offset e 3 va) = i" "i < 512" "CONFIG_PAGING_LEVELS e = 3 \<Longrightarrow> i < 4"
  shows "hw_walk e ram 3 (if CONFIG_PAGING_LEVELS e = 3 then lnk ''pae32_l3_identmap'' else lnk ''pae_l3_identmap'') va True True
    = identity_walk u va"
proof -
  let ?T = "if CONFIG_PAGING_LEVELS e = 3 then lnk ''pae32_l3_identmap'' else lnk ''pae_l3_identmap''"
  let ?fl = "if CONFIG_PAGING_LEVELS e = 3 then PAGE_PRESENT else PAGE_NONLEAF"
  have live: "set (live_tables e lnk l1) = {(''pae_l1_identmap'', l1), (''pae_l2_identmap'', pae_l2_identmap lnk)} \<union>
      (if CONFIG_PAGING_LEVELS e = 3 then {(''pae32_l3_identmap'', pae32_l3_identmap lnk)}
       else {(''pae_l3_identmap'', pae_l3_identmap lnk), (''pae_l4_identmap'', pae_l4_identmap lnk)})"
    using assms(1) by (auto simp: live_tables_def)
  note memory = in_memory(2) [OF assms(4)]
  have len: "length (pae32_l3_identmap lnk) = 4" "length (pae_l3_identmap lnk) = 512"
    by (simp_all add: pae32_l3_identmap_def pae_l3_identmap_def PAE32_L3_ENTRIES_def entries_values)
  have pte: "ram (?T + of_nat (i * PTE_SIZE e)) = (if i < 4 then dot_long (lnk ''pae_l2_identmap'' + push_bit 12 (of_nat i) + ?fl) else 0)"
    using memory [of "''pae32_l3_identmap''" "pae32_l3_identmap lnk"] memory [of "''pae_l3_identmap''" "pae_l3_identmap lnk"]
      nth_l3(1,2) [OF assms(11), of lnk] live len assms(11,12) by auto
  note step = hw_walk_step [of e 2 va i ram ?T _ True True, OF _ pte]
  show ?thesis
  proof (cases "i < 4")
    case True
    then have "unat va < 2 ^ 32" using assms(9) by (simp add: div_less_iff_less_mult)
    then have "hw_walk e ram 2 (lnk ''pae_l2_identmap'' + push_bit 12 (of_nat i)) va True True = identity_walk u va"
      unfolding assms(9) by (rule pae_l2_walk [OF assms(1-3)]) (use l1 memory live in auto)
    then show ?thesis
      using step next_table [OF l2 True, of ?fl] assms(10) True
      by (cases "CONFIG_PAGING_LEVELS e = 3") (simp_all add: flag_values Let_def del: CONFIG_PAGING_LEVELS.simps)
  next
    case False
    then have "2 ^ 32 \<le> unat va" using less_mult_imp_div_less [of "unat va" 4 "2 ^ 30"] assms(9) by (simp add: not_less [symmetric])
    then show ?thesis using step assms(10) False by (simp add: identity_walk_def Let_def del: CONFIG_PAGING_LEVELS.simps)
  qed
qed


lemma long_walk:
  assumes "CONFIG_PAGING_LEVELS e = 4" "l1_maps e u l1" "\<forall>i \<ge> PT_ENTRIES e. \<not> u i" "tables_in_memory e lnk l1 ram"
    and l1: "lnk ''pae_l1_identmap'' AND mask 12 = 0" "unat (lnk ''pae_l1_identmap'') < 2 ^ 32"
    and l2: "lnk ''pae_l2_identmap'' AND mask 12 = 0" "unat (lnk ''pae_l2_identmap'') < 2 ^ 22"
    and l3: "lnk ''pae_l3_identmap'' AND mask 12 = 0" "unat (lnk ''pae_l3_identmap'') < 2 ^ 22"
    and "unat va < 2 ^ 48"
  shows "hw_walk e ram 4 (lnk ''pae_l4_identmap'') va True True = identity_walk u va"
proof -
  let ?i = "unat va div 2 ^ 39" and ?j = "unat va div 2 ^ 30"
  let ?pte = "dot_long (lnk ''pae_l3_identmap'' + push_bit 12 (of_nat 0) + PAGE_NONLEAF)"
  have i: "?i < 512" "unat (table_offset e 4 va) = ?i"
    using assms(11) by (simp_all add: less_mult_imp_div_less table_offset_def l4_table_offset_def table_offsets_unat)
  have "(''pae_l4_identmap'', pae_l4_identmap lnk) \<in> set (live_tables e lnk l1)" using assms(1) by (simp only: live_tables_def) simp
  moreover have "length (pae_l4_identmap lnk) = 512" by (simp add: pae_l4_identmap_def entries_values)
  ultimately have pte: "ram (lnk ''pae_l4_identmap'' + of_nat (?i * PTE_SIZE e)) = (if ?i = 0 then ?pte else 0)"
    using in_memory(2) [OF assms(4)] i(1) nth_l3(3) [OF i(1), of lnk] by fastforce
  have nl: "pte_to_paddr ?pte = lnk ''pae_l3_identmap''" "\<And>k. k < 12 \<Longrightarrow> bit ?pte k = bit PAGE_NONLEAF k"
    using next_table [OF l3, of 0 PAGE_NONLEAF] by simp_all
  note step = hw_walk_step [of e 3 va ?i ram _ _ True True, OF _ pte]
  show ?thesis
  proof (cases "?i = 0")
    case True
    then have "?j < 512" by (simp add: div_eq_0_iff less_mult_imp_div_less)
    then have "hw_walk e ram 3 (lnk ''pae_l3_identmap'') va True True = identity_walk u va"
      using pae_walk [OF _ assms(2-4) l1 l2 refl, of va] assms(1)
      by (simp add: table_offset_def l3_table_offset_def table_offsets_unat del: CONFIG_PAGING_LEVELS.simps)
    then show ?thesis
      using step i(2) nl(1) nl(2) [of 0] nl(2) [of 1] nl(2) [of 2] nl(2) [of 7] True
      by (simp add: flag_values Let_def del: CONFIG_PAGING_LEVELS.simps)
  next
    case False
    then have "2 ^ 32 \<le> unat va" by (simp add: div_eq_0_iff)
    then show ?thesis using step i(2) False by (simp add: identity_walk_def Let_def del: CONFIG_PAGING_LEVELS.simps)
  qed
qed

text \<open>The tables of a build with paging map every address below 4G, but for the first page, to itself, and nothing else.\<close>

lemma tables_walk:
  assumes "CONFIG_HVM e" "CONFIG_PAGING_LEVELS e \<noteq> 0" "arch_link_asserts e lnk" "tables_in_memory e lnk l1 ram"
    and "l1_maps e u l1" "\<forall>i \<ge> PT_ENTRIES e. \<not> u i" "unat va < 2 ^ linear_bits e"
  shows "hw_walk e ram (CONFIG_PAGING_LEVELS e) (cr3_target e lnk) va True True = identity_walk u va"
proof -
  have links: "lnk ''pae_l1_identmap'' AND mask 12 = 0" "lnk ''pae_l2_identmap'' AND mask 12 = 0"
    "lnk ''pae_l3_identmap'' AND mask 12 = 0" "lnk ''pse_l1_identmap'' AND mask 12 = 0"
    using assms(1,3) by (simp_all add: arch_link_asserts_def aligned_page)
  note memory = in_memory [OF assms(4)]
  have below: "(name, es) \<in> set (live_tables e lnk l1) \<Longrightarrow> unat (lnk name) < 2 ^ 22" for name es
    using image_bound(2) [OF assms(1,3)] memory(1) by (fastforce simp: in_image_def)
  have wide: "(name, es) \<in> set (live_tables e lnk l1) \<Longrightarrow> unat (lnk name) < 2 ^ 32" for name es
    using below [of name es] by simp
  have live: "CONFIG_PAGING_LEVELS e \<noteq> 2 \<Longrightarrow> (''pae_l1_identmap'', l1) \<in> set (live_tables e lnk l1)"
    "CONFIG_PAGING_LEVELS e \<noteq> 2 \<Longrightarrow> (''pae_l2_identmap'', pae_l2_identmap lnk) \<in> set (live_tables e lnk l1)"
    by (simp_all only: live_tables_def) simp_all
  from assms(2) show ?thesis
  proof (cases rule: paging_modes)
    case 1
    have pse: "(''pse_l1_identmap'', l1) \<in> set (live_tables e lnk l1)" "(''pse_l2_identmap'', pse_l2_identmap lnk) \<in> set (live_tables e lnk l1)"
      using 1(1) by (simp_all only: live_tables_def) simp_all
    show ?thesis
      using pse_walk [OF 1(1) assms(5,6) _ links(4) wide [OF pse(1)] memory(2) [OF pse(1)] memory(2) [OF pse(2)]] 1(1) assms(7)
      by (simp only: cr3_target_def linear_bits_def) simp
  next
    case 2
    then have mode: "CONFIG_PAGING_LEVELS e \<ge> 3" "CONFIG_PAGING_LEVELS e \<noteq> 2" "unat va div 2 ^ 30 < 4"
      using assms(7) by (simp_all add: linear_bits_def less_mult_imp_div_less del: CONFIG_PAGING_LEVELS.simps)
    then have "hw_walk e ram 3 (lnk ''pae32_l3_identmap'') va True True = identity_walk u va"
      using pae_walk [OF mode(1) assms(5,6,4) links(1) wide [OF live(1) [OF mode(2)]] links(2) below [OF live(2) [OF mode(2)]] refl, of va] 2(1)
      by (simp add: table_offset_def l3_table_offset_def table_offsets_unat del: CONFIG_PAGING_LEVELS.simps)
    then show ?thesis using 2(1) by (simp only: cr3_target_def) simp
  next
    case 3
    have l3: "(''pae_l3_identmap'', pae_l3_identmap lnk) \<in> set (live_tables e lnk l1)" using 3(1) by (simp only: live_tables_def) simp
    have "CONFIG_PAGING_LEVELS e \<noteq> 2" using 3(1) by simp
    note live = live [OF this]
    show ?thesis
      using long_walk [OF 3(1) assms(5,6,4) links(1) wide [OF live(1)] links(2) below [OF live(2)] links(3) below [OF l3]] 3(1) assms(7)
      by (simp only: cr3_target_def linear_bits_def) simp
  qed
qed


section \<open>The user sections\<close>

lemma user_pages_below:
  assumes "CONFIG_HVM e" "arch_link_asserts e lnk" "\<forall>(a, b) \<in> set user_sections. in_image lnk b 0"
  shows "\<forall>(a, b) \<in> set user_sections. page_of lnk b \<le> PT_ENTRIES e"
proof (safe)
  fix a b
  assume "(a, b) \<in> set user_sections"
  then have "unat (lnk b) < 4096 * PT_ENTRIES e" using assms(3) image_bound(1) [OF assms(1,2)] by (fastforce simp: in_image_def)
  moreover have "page_of lnk b = take_bit 32 (unat (drop_bit 12 (lnk b)))"
    by (simp only: page_of_def virt_to_pfn_def PAGE_SHIFT_def unsigned_ucast_eq) simp
  then have "page_of lnk b \<le> unat (lnk b) div 4096"
    using take_bit_nat_less_eq_self [of 32 "unat (drop_bit 12 (lnk b))"] unat_drop_bit_eq [of 12 "lnk b"]
    by (simp only: drop_bit_eq_div) simp
  ultimately show "page_of lnk b \<le> PT_ENTRIES e" by (metis less_mult_imp_div_less mult.commute nat_less_le order_trans)
qed

definition user_page :: "linkage \<Rightarrow> nat \<Rightarrow> bool" where
  "user_page lnk i \<longleftrightarrow> (\<exists>(a, b) \<in> set user_sections. page_of lnk a \<le> i \<and> i < page_of lnk b)"

text \<open>The sections start and end on page boundaries, so their pages are their bytes.\<close>

definition user_byte :: "linkage \<Rightarrow> u64 \<Rightarrow> bool" where
  "user_byte lnk va \<longleftrightarrow> (\<exists>(a, b) \<in> set user_sections. lnk a \<le> va \<and> va < lnk b)"

lemma user_page_byte:
  assumes "CONFIG_HVM e" "arch_link_asserts e lnk" "common_link_asserts lnk"
    and "\<forall>(a, b) \<in> set user_sections. in_image lnk a 0 \<and> in_image lnk b 0"
  shows "user_page lnk (unat va div 4096) = user_byte lnk va"
proof -
  have page: "unat (lnk name) = 4096 * page_of lnk name" if "IS_ALIGNED (lnk name) PAGE_SIZE" "in_image lnk name 0" for name
  proof -
    have "unat (lnk name) < 2 ^ 22" using that(2) image_bound(2) [OF assms(1,2)] by (simp add: in_image_def)
    moreover have "page_of lnk name = take_bit 32 (unat (drop_bit 12 (lnk name)))"
      by (simp only: page_of_def virt_to_pfn_def PAGE_SHIFT_def unsigned_ucast_eq) simp
    ultimately have "page_of lnk name = unat (lnk name) div 4096"
      using unat_drop_bit_eq [of 12 "lnk name"] by (simp only: drop_bit_eq_div take_bit_eq_mod) simp
    moreover have "unat (lnk name AND mask 12) = 0" using that(1) by (simp add: aligned_page)
    then have "unat (lnk name) mod 4096 = 0" by (simp add: unat_mod take_bit_eq_mod flip: take_bit_eq_mask)
    ultimately show ?thesis by (metis mult_div_mod_eq add_0_right)
  qed
  have "page_of lnk a \<le> unat va div 4096 \<and> unat va div 4096 < page_of lnk b \<longleftrightarrow> lnk a \<le> va \<and> va < lnk b"
    if "(a, b) \<in> set user_sections" for a b
  proof -
    have "IS_ALIGNED (lnk a) PAGE_SIZE" "IS_ALIGNED (lnk b) PAGE_SIZE" "in_image lnk a 0" "in_image lnk b 0"
      using that assms(3,4) by (auto simp: common_link_asserts_def user_sections_def)
    then show ?thesis
      using page [of a] page [of b] by (simp add: word_le_nat_alt word_less_nat_alt less_eq_div_iff_mult_less_eq div_less_iff_less_mult mult.commute)
  qed
  then show ?thesis unfolding user_page_def user_byte_def by fast
qed

lemma user_maps:
  assumes "l1_maps e (\<lambda>i. False) l1"
  shows "l1_maps e (user_page lnk) (hvm_l1 lnk l1)"
proof -
  have "length (hvm_l1 lnk l1) = length l1" by (simp add: hvm_l1_def user_sections_def)
  moreover have "hvm_l1 lnk l1 ! i = l1 ! i OR (if user_page lnk i then PAGE_USER else 0)" if "i < length l1" for i
    using hvm_l1_user [OF that, of lnk] by (simp add: user_page_def)
  ultimately show ?thesis using assms by (simp add: l1_maps_def)
qed

text \<open>
  C10: From the assembled tables to what user mode may touch. Run \<open>arch_init_traps\<close> on the initial tables of an HVM
  build with paging: it returns, and with the table it leaves in memory the processor translates every
  address below 4G and above the first page to itself, writable; nothing is mapped in the first page, so a null pointer
  faults, nor above 4G; and user mode may access exactly the bytes of the user sections.
\<close>

theorem user_access_exact:
  fixes s :: "'z kernel_scheme"
  assumes "CONFIG_HVM (hw_env h)" "CONFIG_PAGING_LEVELS (hw_env h) \<noteq> 0" "arch_link_asserts (hw_env h) lnk"
    and "common_link_asserts lnk" "\<forall>(a, b) \<in> set user_sections. in_image lnk a 0 \<and> in_image lnk b 0"
    and "length (idt s) = 256" "l1_identmap s = init_l1_identmap (hw_env h)"
  shows "\<exists>s1. hvm_init_traps lnk h s = Done () s1 \<and> length (l1_identmap s1) = length (l1_identmap s)
    \<and> (\<forall>ram va. tables_in_memory (hw_env h) lnk (l1_identmap s1) ram \<and> unat va < 2 ^ linear_bits (hw_env h)
      \<longrightarrow> hw_walk (hw_env h) ram (CONFIG_PAGING_LEVELS (hw_env h)) (cr3_target (hw_env h) lnk) va True True
        = (if unat va < 4096 \<or> 2 ^ 32 \<le> unat va then None else Some (va, user_byte lnk va, True)))"
proof -
  let ?e = "hw_env h"
  have len: "length (l1_identmap s) = PT_ENTRIES ?e" using init_l1_maps [OF assms(2)] assms(7) by (simp add: l1_maps_def)
  have "\<forall>(a, b) \<in> set user_sections. in_image lnk b 0" using assms(5) by blast
  note pages = user_pages_below [OF assms(1,3) this]
  obtain s1 where s1: "hvm_init_traps lnk h s = Done () s1" "l1_identmap s1 = hvm_l1 lnk (l1_identmap s)"
    using hvm_init_traps_run [OF assms(6) pages [folded len] refl] by fastforce
  have "l1_maps ?e (user_page lnk) (l1_identmap s1)"
    unfolding s1(2) assms(7) by (rule user_maps) (rule init_l1_maps [OF assms(2)])
  moreover have "\<forall>i \<ge> PT_ENTRIES ?e. \<not> user_page lnk i" using pages unfolding user_page_def by fastforce
  ultimately have "hw_walk ?e ram (CONFIG_PAGING_LEVELS ?e) (cr3_target ?e lnk) va True True = identity_walk (user_page lnk) va"
    if "tables_in_memory ?e lnk (l1_identmap s1) ram" "unat va < 2 ^ linear_bits ?e" for ram va
    using tables_walk [OF assms(1-3)] that by simp
  moreover have "length (l1_identmap s1) = length (l1_identmap s)" by (simp add: s1(2) hvm_l1_def user_sections_def)
  ultimately show ?thesis using s1(1) unfolding identity_walk_def user_page_byte [OF assms(1,3,4,5)] by blast
qed


text \<open>An image of a 32-bit build with two-level paging, and the memory that holds its tables.\<close>

definition example_image :: linkage where
  "example_image n =
     (case map_of [(''pse_l1_identmap'', 0x110000), (''pse_l2_identmap'', 0x111000), (''boot_stack'', 0x112000), (''__start_user_text'', 0x120000),
        (''__end_user_text'', 0x121000), (''__start_user_data'', 0x121000), (''__end_user_data'', 0x122000),
        (''__start_user_bss'', 0x122000), (''__end_user_bss'', 0x122000), (''_end'', 0x130000)] n
      of Some a \<Rightarrow> a | None \<Rightarrow> 0x100000)"

definition example_ram :: "u64 list \<Rightarrow> u64 \<Rightarrow> u64" where
  "example_ram l1 a =
     (if a < 0x111000 then l1 ! ((unat a - 0x110000) div 4) else pse_l2_identmap example_image ! ((unat a - 0x111000) div 4))"

lemma example_image_asserts: "arch_link_asserts HVM32PSE example_image"
  by (simp add: arch_link_asserts_def example_image_def IS_ALIGNED_def PAGE_SIZE_def PT_ORDER_def PSE_PT_ORDER_def PAGE_SHIFT_def)

lemma example_tables:
  assumes "length l1 = 1024"
  shows "tables_in_memory HVM32PSE example_image l1 (example_ram l1)"
proof -
  have u: "unat (A + of_nat (i * 4)) = unat A + i * 4" if "i < 1024" "unat A < 2 ^ 22" for A :: u64 and i
    using that by (simp add: unat_word_ariths unat_of_nat)
  have sz: "PTE_SIZE HVM32PSE = 4" by (simp add: PTE_SIZE_def PSE_PTE_SIZE_def)
  have "example_ram l1 (0x110000 + of_nat (i * 4)) = l1 ! i" "example_ram l1 (0x111000 + of_nat (i * 4)) = pse_l2_identmap example_image ! i"
    if "i < 1024" for i
    using u [OF that, of "0x110000"] u [OF that, of "0x111000"] that by (simp_all only: example_ram_def word_less_nat_alt) simp_all
  moreover have "example_image ''pse_l1_identmap'' = 0x110000" "example_image ''pse_l2_identmap'' = 0x111000" "example_image ''_end'' = 0x130000"
    by (simp_all add: example_image_def)
  ultimately show ?thesis
    using assms by (simp add: tables_in_memory_def live_tables_def length_l2 sz in_image_def XTF_VIRT_START_def)
qed

lemma user_access_exact_witness:
  "\<exists>s1. hvm_init_traps example_image (accept_hw HVM32PSE) ((kernel0 HVM32PSE)\<lparr>l1_identmap := init_l1_identmap HVM32PSE\<rparr>) = Done () s1
     \<and> map (\<lambda>va. hw_walk HVM32PSE (example_ram (l1_identmap s1)) 2 0x111000 va True True) [0x10, 0x110000, 0x120010, 0xc0000000]
       = [None, Some (0x110000, False, True), Some (0x120010, True, True), Some (0xc0000000, False, True)]"
proof -
  let ?s = "(kernel0 HVM32PSE)\<lparr>l1_identmap := init_l1_identmap HVM32PSE\<rparr>" and ?h = "accept_hw HVM32PSE"
  have env: "hw_env ?h = HVM32PSE" by (simp add: accepting_def)
  have "CONFIG_HVM (hw_env ?h)" "CONFIG_PAGING_LEVELS (hw_env ?h) \<noteq> 0" "arch_link_asserts (hw_env ?h) example_image"
    "common_link_asserts example_image" "\<forall>(a, b) \<in> set user_sections. in_image example_image a 0 \<and> in_image example_image b 0" "length (idt ?s) = 256" "l1_identmap ?s = init_l1_identmap (hw_env ?h)"
    using example_image_asserts by (simp_all add: env init_states user_sections_def common_link_asserts_def IS_ALIGNED_def PAGE_SIZE_def in_image_def XTF_VIRT_START_def example_image_def)
  from user_access_exact [OF this] obtain s1 where s1: "hvm_init_traps example_image ?h ?s = Done () s1"
    "length (l1_identmap s1) = length (init_l1_identmap HVM32PSE)"
    and walk: "\<And>ram va. tables_in_memory HVM32PSE example_image (l1_identmap s1) ram \<Longrightarrow> unat va < 2 ^ linear_bits HVM32PSE
      \<Longrightarrow> hw_walk HVM32PSE ram (CONFIG_PAGING_LEVELS HVM32PSE) (cr3_target HVM32PSE example_image) va True True
        = (if unat va < 4096 \<or> 2 ^ 32 \<le> unat va then None else Some (va, user_byte example_image va, True))"
    unfolding env by auto
  have "length (l1_identmap s1) = 1024" using s1(2) init_l1_maps [of HVM32PSE] by (simp add: l1_maps_def PT_ENTRIES_def entries_values)
  note walk = walk [OF example_tables [OF this]]
  have "user_byte example_image va \<longleftrightarrow> 0x120000 \<le> va \<and> va < 0x122000" for va
    by (auto simp: user_byte_def user_sections_def example_image_def word_le_nat_alt word_less_nat_alt)
  moreover have "cr3_target HVM32PSE example_image = 0x111000" by (simp add: cr3_target_def example_image_def)
  ultimately show ?thesis
    using s1(1) walk [of "0x10"] walk [of "0x110000"] walk [of "0x120010"] walk [of "0xc0000000"] by (simp add: linear_bits_def)
qed

section \<open>The entry point\<close>

text \<open>
  The state that the entry code changes: control registers, the loaded GDT, segment selectors, the stack as the words pushed since the
  stack pointer was set, the flags, the register with the start-info pointer (\<open>ebx\<close> under PVH, \<open>rsi\<close> in a PV guest),
  and the variable for it.
\<close>

record boot_cpu =
  bcr0 :: u64
  bcr3 :: u64
  bcr4 :: u64
  befer :: u64
  bgdt :: "user_desc list"
  bcs :: u32
  bss :: u32
  bdata :: "string \<Rightarrow> u32"
  bsp :: u64
  bstack :: "u64 list"
  bflags :: u64
  bip :: u64
  binfo :: u64
  bstart_info :: u64

definition cr0_bit :: "string \<Rightarrow> u64" where "cr0_bit n = ucast (the (map_of X86_CR0 n))"
definition cr4_bit :: "string \<Rightarrow> u64" where "cr4_bit n = ucast (the (map_of X86_CR4 n))"
definition efer_bit :: "string \<Rightarrow> u64" where "efer_bit n = the (map_of EFER n)"

text \<open>
  The processor: the levels of the walk that the control registers ask for, and the translation of an address with it. Without CR4.PSE
  the superpages of a two-level table would not be superpages, which no build wants, so that is no mode here. The low bits of CR3 are
  ignored: five in 32-bit PAE mode and twelve otherwise.
\<close>

definition hw_levels :: "boot_cpu \<Rightarrow> nat option" where
  "hw_levels c =
     (if bcr0 c AND cr0_bit ''PG'' = 0 then Some 0
      else if befer c AND efer_bit ''LMA'' \<noteq> 0 then Some 4
      else if bcr4 c AND cr4_bit ''PAE'' \<noteq> 0 then Some 3
      else if bcr4 c AND cr4_bit ''PSE'' \<noteq> 0 then Some 2 else None)"

definition translate :: "env \<Rightarrow> (u64 \<Rightarrow> u64) \<Rightarrow> boot_cpu \<Rightarrow> u64 \<Rightarrow> (u64 \<times> bool \<times> bool) option" where
  "translate e ram c va =
     (if hw_levels c = Some 0 then Some (va, True, True)
      else if hw_levels c = Some (CONFIG_PAGING_LEVELS e)
      then hw_walk e ram (CONFIG_PAGING_LEVELS e) (bcr3 c AND NOT (mask (if hw_levels c = Some 3 then 5 else 12))) va True True
      else None)"

text \<open>A kernel access through the tables to what is linked at the address; a write needs a writable page, because CR0.WP is set.\<close>

definition reachable :: "env \<Rightarrow> (u64 \<Rightarrow> u64) \<Rightarrow> boot_cpu \<Rightarrow> u64 \<Rightarrow> bool" where
  "reachable e ram c va \<longleftrightarrow> (case translate e ram c va of Some (pa, us, rw) \<Rightarrow> pa = va \<and> rw | None \<Rightarrow> False)"

definition mode64 :: "boot_cpu \<Rightarrow> bool" where
  "mode64 c \<longleftrightarrow> befer c AND efer_bit ''LMA'' \<noteq> 0 \<and> desc_l (bgdt c ! (unat (bcs c) div 8))"

text \<open>The instructions: \<open>None\<close> is an exception, for which nothing is installed yet.\<close>

definition mov_cr0 :: "u64 \<Rightarrow> boot_cpu \<Rightarrow> boot_cpu option" where
  "mov_cr0 v c =
     (let pg = (v AND cr0_bit ''PG'' \<noteq> 0); lme = (befer c AND efer_bit ''LME'' \<noteq> 0) in
      if pg \<and> v AND cr0_bit ''PE'' = 0 then None
      else if pg \<and> lme \<and> bcr4 c AND cr4_bit ''PAE'' = 0 then None
      else Some (c\<lparr>bcr0 := v, befer := (if pg \<and> lme then befer c OR efer_bit ''LMA'' else befer c)\<rparr>))"

definition selected :: "u32 \<Rightarrow> boot_cpu \<Rightarrow> user_desc option" where
  "selected sel c =
     (let i = unat sel div 8 in
      if i = 0 \<or> length (bgdt c) \<le> i \<or> \<not> desc_p (bgdt c ! i) \<or> \<not> desc_s (bgdt c ! i) then None else Some (bgdt c ! i))"

definition ljmp :: "u32 \<Rightarrow> u64 \<Rightarrow> boot_cpu \<Rightarrow> boot_cpu option" where
  "ljmp sel target c =
     (case selected sel c of None \<Rightarrow> None
      | Some d \<Rightarrow> if bit (desc_type d) 3 \<and> desc_dpl d = 0 \<and> \<not> (desc_l d \<and> desc_db d) then Some (c\<lparr>bcs := sel, bip := target\<rparr>) else None)"

definition mov_ds :: "string \<Rightarrow> u32 \<Rightarrow> boot_cpu \<Rightarrow> boot_cpu option" where
  "mov_ds r sel c =
     (if sel AND 0xfffc = 0 then Some (c\<lparr>bdata := (bdata c)(r := sel)\<rparr>)
      else case selected sel c of None \<Rightarrow> None
      | Some d \<Rightarrow> if (bit (desc_type d) 3 \<longrightarrow> bit (desc_type d) 1) \<and> ucast (sel AND 3) \<le> desc_dpl d
                 then Some (c\<lparr>bdata := (bdata c)(r := sel)\<rparr>) else None)"

definition mov_ss :: "u32 \<Rightarrow> boot_cpu \<Rightarrow> boot_cpu option" where
  "mov_ss sel c =
     (if sel AND 0xfffc = 0 then (if mode64 c then Some (c\<lparr>bss := sel\<rparr>) else None)
      else case selected sel c of None \<Rightarrow> None
      | Some d \<Rightarrow> if \<not> bit (desc_type d) 3 \<and> bit (desc_type d) 1 \<and> desc_dpl d = 0 \<and> sel AND 3 = 0 then Some (c\<lparr>bss := sel\<rparr>) else None)"

definition bpush :: "env \<Rightarrow> (u64 \<Rightarrow> u64) \<Rightarrow> u64 \<Rightarrow> boot_cpu \<Rightarrow> boot_cpu option" where
  "bpush e ram w c =
     (let sp = bsp c - of_nat (word_bytes e)
      in if reachable e ram c sp then Some (c\<lparr>bsp := sp, bstack := w # bstack c\<rparr>) else None)"

text \<open>\<open>popf\<close> in the kernel: the reserved bit 1 always reads as one.\<close>

definition bpopf :: "env \<Rightarrow> boot_cpu \<Rightarrow> boot_cpu option" where
  "bpopf e c = (case bstack c of [] \<Rightarrow> None
     | w # ws \<Rightarrow> Some (c\<lparr>bflags := w OR 2, bstack := ws, bsp := bsp c + of_nat (word_bytes e)\<rparr>))"

text \<open>Each instruction is fetched first.\<close>

primrec run_steps :: "env \<Rightarrow> (u64 \<Rightarrow> u64) \<Rightarrow> u64 \<Rightarrow> (boot_cpu \<Rightarrow> boot_cpu option) list \<Rightarrow> boot_cpu \<Rightarrow> boot_cpu option" where
  "run_steps e ram code [] c = Some c"
| "run_steps e ram code (f # fs) c = (if reachable e ram c code then Option.bind (f c) (run_steps e ram code fs) else None)"

text \<open>\<open>_elf_start\<close> of an HVM guest: first the control registers, then the way to the first instruction of \<open>xtf_main\<close>.\<close>

definition set_control_registers :: "env \<Rightarrow> linkage \<Rightarrow> (boot_cpu \<Rightarrow> boot_cpu option) list" where
  "set_control_registers e lnk =
     (if CONFIG_PAGING_LEVELS e > 0
      then [\<lambda>c. Some (c\<lparr>bcr4 := cr4_bit (if CONFIG_PAGING_LEVELS e = 2 then ''PSE'' else ''PAE'')\<rparr>),
            \<lambda>c. Some (c\<lparr>bcr3 := cr3_target e lnk\<rparr>)]
      else [])
     @ (if CONFIG_64BIT e then [\<lambda>c. Some (c\<lparr>befer := befer c OR efer_bit ''LME''\<rparr>)] else [])
     @ [\<lambda>c. mov_cr0 (bcr0 c OR (cr0_bit ''WP'' OR (if CONFIG_PAGING_LEVELS e > 0 then cr0_bit ''PG'' else 0))) c]"

definition enter_c :: "env \<Rightarrow> linkage \<Rightarrow> (u64 \<Rightarrow> u64) \<Rightarrow> (boot_cpu \<Rightarrow> boot_cpu option) list" where
  "enter_c e lnk ram =
     [\<lambda>c. if reachable e ram c (lnk ''gdt_ptr'') then Some (c\<lparr>bgdt := init_gdt e\<rparr>) else None,
      ljmp (KERN_CS e) (lnk ''elf_start_1''),
      mov_ds ''ds'' (USER_DS e), mov_ds ''es'' (USER_DS e), mov_ds ''fs'' (USER_DS e), mov_ds ''gs'' (USER_DS e),
      mov_ss (KERN_DS e),
      \<lambda>c. Some (c\<lparr>bsp := lnk ''boot_stack'' + PAGE_SIZE, bstack := []\<rparr>),
      bpush e ram (ucast (the (map_of X86_EFLAGS ''MBS''))), bpopf e,
      \<lambda>c. Option.bind (bpush e ram (lnk ''elf_start_returned'') c) (\<lambda>c. Some (c\<lparr>bip := lnk ''xtf_main''\<rparr>))]"

definition hvm_elf_start :: "env \<Rightarrow> linkage \<Rightarrow> (u64 \<Rightarrow> u64) \<Rightarrow> boot_cpu \<Rightarrow> boot_cpu option" where
  "hvm_elf_start e lnk ram = run_steps e ram (lnk ''_elf_start'') (set_control_registers e lnk @ enter_c e lnk ram)"

text \<open>The entry point of the PVH ABI stores the start-info pointer first.\<close>

definition pvh_start :: "env \<Rightarrow> linkage \<Rightarrow> (u64 \<Rightarrow> u64) \<Rightarrow> boot_cpu \<Rightarrow> boot_cpu option" where
  "pvh_start e lnk ram c =
     (if reachable e ram c (lnk ''pvh_start_info'') then hvm_elf_start e lnk ram (c\<lparr>bstart_info := binfo c\<rparr>) else None)"


text \<open>The entry point of a PV guest, which starts in the mode of the build with Xen's page tables.\<close>

definition pv_elf_start :: "env \<Rightarrow> linkage \<Rightarrow> (u64 \<Rightarrow> u64) \<Rightarrow> boot_cpu \<Rightarrow> boot_cpu option" where
  "pv_elf_start e lnk ram =
     run_steps e ram (lnk ''_elf_start'')
       [\<lambda>c. Some (c\<lparr>bstart_info := binfo c\<rparr>),
        \<lambda>c. Some (c\<lparr>bsp := lnk ''boot_stack'' + PAGE_SIZE, bstack := []\<rparr>),
        \<lambda>c. Option.bind (bpush e ram (lnk ''elf_start_returned'') c) (\<lambda>c. Some (c\<lparr>bip := lnk ''xtf_main''\<rparr>))]"

lemma run_steps_append: "run_steps e ram code (fs @ gs) c = Option.bind (run_steps e ram code fs c) (run_steps e ram code gs)"
  by (induction fs arbitrary: c) (auto simp: Option.bind_assoc split: bind_splits)

lemma control_bits:
  "x AND cr0_bit ''PE'' = 0 \<longleftrightarrow> \<not> bit x 0" "x AND cr0_bit ''WP'' = 0 \<longleftrightarrow> \<not> bit x 16" "x AND cr0_bit ''PG'' = 0 \<longleftrightarrow> \<not> bit x 31"
  "x AND cr4_bit ''PSE'' = 0 \<longleftrightarrow> \<not> bit x 4" "x AND cr4_bit ''PAE'' = 0 \<longleftrightarrow> \<not> bit x 5"
  "x AND efer_bit ''LME'' = 0 \<longleftrightarrow> \<not> bit x 8" "x AND efer_bit ''LMA'' = 0 \<longleftrightarrow> \<not> bit x 10"
proof -
  have "cr0_bit ''PE'' = 2 ^ 0" "cr0_bit ''WP'' = 2 ^ 16" "cr0_bit ''PG'' = 2 ^ 31" "cr4_bit ''PSE'' = 2 ^ 4" "cr4_bit ''PAE'' = 2 ^ 5"
    "efer_bit ''LME'' = 2 ^ 8" "efer_bit ''LMA'' = 2 ^ 10"
    by (simp_all add: cr0_bit_def cr4_bit_def efer_bit_def X86_CR0_def X86_CR4_def EFER_def)
  then show "x AND cr0_bit ''PE'' = 0 \<longleftrightarrow> \<not> bit x 0" "x AND cr0_bit ''WP'' = 0 \<longleftrightarrow> \<not> bit x 16" "x AND cr0_bit ''PG'' = 0 \<longleftrightarrow> \<not> bit x 31"
    "x AND cr4_bit ''PSE'' = 0 \<longleftrightarrow> \<not> bit x 4" "x AND cr4_bit ''PAE'' = 0 \<longleftrightarrow> \<not> bit x 5"
    "x AND efer_bit ''LME'' = 0 \<longleftrightarrow> \<not> bit x 8" "x AND efer_bit ''LMA'' = 0 \<longleftrightarrow> \<not> bit x 10"
    by (simp_all only: and_exp_eq_0_iff_not_bit)
qed

lemma control_values:
  "cr0_bit ''PE'' = 1" "cr0_bit ''WP'' = 0x10000" "cr0_bit ''PG'' = 0x80000000" "cr4_bit ''PSE'' = 0x10" "cr4_bit ''PAE'' = 0x20"
  "efer_bit ''LME'' = 0x100" "efer_bit ''LMA'' = 0x400"
  by (simp_all add: cr0_bit_def cr4_bit_def efer_bit_def X86_CR0_def X86_CR4_def EFER_def)

text \<open>What the code uses of the image, and the state in which a loader enters it: protected mode, no paging.\<close>

definition boot_image :: "env \<Rightarrow> linkage \<Rightarrow> (u64 \<Rightarrow> u64) \<Rightarrow> bool" where
  "boot_image e lnk ram \<longleftrightarrow> CONFIG_HVM e \<and> arch_link_asserts e lnk
     \<and> (CONFIG_PAGING_LEVELS e \<noteq> 0 \<longrightarrow> tables_in_memory e lnk (init_l1_identmap e) ram)
     \<and> in_image lnk ''_elf_start'' 1 \<and> in_image lnk ''gdt_ptr'' 10 \<and> in_image lnk ''boot_stack'' (3 * 4096)
     \<and> in_image lnk ''pvh_start_info'' (word_bytes e)"

definition boot_entry :: "boot_cpu \<Rightarrow> bool" where
  "boot_entry c \<longleftrightarrow> bit (bcr0 c) 0 \<and> \<not> bit (bcr0 c) 31 \<and> \<not> bit (befer c) 8 \<and> \<not> bit (befer c) 10"

text \<open>Once the control registers are set, the walk starts at \<open>cr3_target\<close>.\<close>

lemma cr3_aligned:
  assumes "CONFIG_HVM e" "arch_link_asserts e lnk" "CONFIG_PAGING_LEVELS e \<noteq> 0"
  shows "cr3_target e lnk AND NOT (mask (if CONFIG_PAGING_LEVELS e = 3 then 5 else 12)) = cr3_target e lnk"
proof -
  have "a AND NOT (mask n) = a" if "a AND mask n = 0" for a :: u64 and n
  proof (rule bit_word_eqI)
    fix k
    have "bit (a AND mask n) k = bit 0 k" using that by simp
    then have "\<not> (bit a k \<and> k < n)" by (auto simp: bit_simps dest: bit_imp_le_length)
    then show "bit (a AND NOT (mask n)) k = bit a k" by (auto simp: bit_simps dest: bit_imp_le_length)
  qed
  moreover have "cr3_target e lnk AND mask (if CONFIG_PAGING_LEVELS e = 3 then 5 else 12) = 0"
    using assms by (cases e) (simp_all add: cr3_target_def arch_link_asserts_def aligned_page IS_ALIGNED_def mask_eq_exp_minus_1 PAGE_SIZE_def)
  ultimately show ?thesis by blast
qed

lemma translate_identity:
  assumes "boot_image e lnk ram" "hw_levels c = Some (CONFIG_PAGING_LEVELS e)" "CONFIG_PAGING_LEVELS e \<noteq> 0 \<Longrightarrow> bcr3 c = cr3_target e lnk"
    and "unat va < 2 ^ linear_bits e"
  shows "translate e ram c va = (if CONFIG_PAGING_LEVELS e = 0 then Some (va, True, True) else identity_walk (\<lambda>i. False) va)"
proof (cases "CONFIG_PAGING_LEVELS e = 0")
  case True
  then show ?thesis using assms(2) by (simp add: translate_def del: CONFIG_PAGING_LEVELS.simps)
next
  case False
  note image = assms(1) [unfolded boot_image_def]
  have "hw_walk e ram (CONFIG_PAGING_LEVELS e) (cr3_target e lnk) va True True = identity_walk (\<lambda>i. False) va"
    by (rule tables_walk [OF _ False _ _ init_l1_maps [OF False] _ assms(4)]) (use image False in blast)+
  then show ?thesis
    using False assms(2,3) cr3_aligned [OF _ _ False] image by (simp add: translate_def del: CONFIG_PAGING_LEVELS.simps CONFIG_HVM.simps)
qed

lemma reachable_paging:
  assumes "boot_image e lnk ram" "hw_levels c = Some (CONFIG_PAGING_LEVELS e)" "CONFIG_PAGING_LEVELS e \<noteq> 0 \<Longrightarrow> bcr3 c = cr3_target e lnk"
    and "4096 \<le> unat va" "unat va < 2 ^ 22"
  shows "reachable e ram c va"
proof -
  have "unat va < 2 ^ linear_bits e" using assms(5) by (simp add: linear_bits_def)
  then show ?thesis
    using translate_identity [OF assms(1-3), of va] assms(4,5) by (simp add: reachable_def identity_walk_def)
qed


lemma reachable_unpaged:
  assumes "\<not> bit (bcr0 c) 31"
  shows "reachable e ram c va"
  using assms by (simp add: reachable_def translate_def hw_levels_def control_bits)

lemma set_control_registers_run:
  assumes "CONFIG_HVM e" "boot_entry c"
  shows "\<exists>c1. run_steps e ram code (set_control_registers e lnk) c = Some c1 \<and> hw_levels c1 = Some (CONFIG_PAGING_LEVELS e)
    \<and> (CONFIG_PAGING_LEVELS e \<noteq> 0 \<longrightarrow> bcr3 c1 = cr3_target e lnk) \<and> bit (bcr0 c1) 16 \<and> bit (befer c1) 10 = CONFIG_64BIT e
    \<and> bstart_info c1 = bstart_info c"
  using assms
  by (cases e) (simp_all add: set_control_registers_def reachable_unpaged mov_cr0_def boot_entry_def hw_levels_def control_values
      control_bits [unfolded control_values] bit_or_iff Let_def)

text \<open>What follows leaves the control registers alone.\<close>

lemma reachable_update:
  "reachable e ram (c\<lparr>bgdt := g\<rparr>) = reachable e ram c" "reachable e ram (c\<lparr>bcs := x\<rparr>) = reachable e ram c"
  "reachable e ram (c\<lparr>bip := w\<rparr>) = reachable e ram c" "reachable e ram (c\<lparr>bdata := f\<rparr>) = reachable e ram c"
  "reachable e ram (c\<lparr>bss := x\<rparr>) = reachable e ram c" "reachable e ram (c\<lparr>bsp := w\<rparr>) = reachable e ram c"
  "reachable e ram (c\<lparr>bstack := ws\<rparr>) = reachable e ram c" "reachable e ram (c\<lparr>bflags := w\<rparr>) = reachable e ram c"
  by (simp_all add: fun_eq_iff reachable_def translate_def hw_levels_def)

lemmas boot_descriptors = init_gdt_def code_desc_def data_desc_def GDTE_def KERN_CS_def KERN_DS_def USER_DS_def NR_GDT_ENTRIES_def
  desc_p_def desc_s_def desc_type_def desc_dpl_def desc_l_def desc_db_def SEG_ATTR_COMMON_def SEG_ATTR_CODE_def SEG_ATTR_DATA_def
  SEG_ATTR_DPL0_def SEG_ATTR_DPL3_def SEG_ATTR_L_def SEG_ATTR_D_def SEG_ATTR_B_def SEG_ATTR_W_def SEG_ATTR_R_def

lemma segments_load:
  assumes "CONFIG_HVM e" "bgdt c = init_gdt e"
  shows "ljmp (KERN_CS e) t c = Some (c\<lparr>bcs := KERN_CS e, bip := t\<rparr>)"
    "mov_ds r (USER_DS e) c = Some (c\<lparr>bdata := (bdata c)(r := USER_DS e)\<rparr>)"
    "bcs c = KERN_CS e \<Longrightarrow> mode64 c = (CONFIG_64BIT e \<and> bit (befer c) 10)"
    "bcs c = KERN_CS e \<Longrightarrow> bit (befer c) 10 = CONFIG_64BIT e \<Longrightarrow> mov_ss (KERN_DS e) c = Some (c\<lparr>bss := KERN_DS e\<rparr>)"
  using assms by (cases e; simp add: ljmp_def mov_ds_def mov_ss_def selected_def mode64_def control_bits boot_descriptors Let_def)+


lemma image_address:
  assumes "CONFIG_HVM e" "arch_link_asserts e lnk" "in_image lnk name len" "k \<le> len"
  shows "4096 \<le> unat (lnk name + of_nat k)" "unat (lnk name + of_nat k) < 2 ^ 22"
proof -
  have "2 ^ 20 \<le> unat (lnk name)" "unat (lnk name) + len < 2 ^ 22"
    using assms(3) image_bound(2) [OF assms(1,2)] by (simp_all add: in_image_def XTF_VIRT_START_def)
  then have "unat (lnk name + of_nat k) = unat (lnk name) + k" using assms(4) by (simp add: unat_word_ariths unat_of_nat)
  then show "4096 \<le> unat (lnk name + of_nat k)" "unat (lnk name + of_nat k) < 2 ^ 22"
    using \<open>2 ^ 20 \<le> unat (lnk name)\<close> \<open>unat (lnk name) + len < 2 ^ 22\<close> assms(4) by simp_all
qed

text \<open>
  C11: The boot code brings every HVM build, from the protected mode without paging in which it is loaded, to the first
  instruction of \<open>xtf_main\<close>: no instruction faults, though the tables, descriptors and the stack are used as soon as they are
  installed. There the paging mode is that of the build, with write protection for the kernel, in 64-bit mode for a 64-bit build
  only; the code, stack and data selectors are the kernel's and the user's of the build, the flags are clear, the return address is
  on top of the first page of the boot stack; and memory is the identity map: all of it without paging, otherwise everything below
  4G but for the first page, for the kernel only.
\<close>

theorem boot_reaches_xtf_main:
  assumes "boot_image e lnk ram" "boot_entry c"
  shows "\<exists>c1. pvh_start e lnk ram c = Some c1 \<and> bip c1 = lnk ''xtf_main'' \<and> bstart_info c1 = binfo c
    \<and> hw_levels c1 = Some (CONFIG_PAGING_LEVELS e) \<and> bit (bcr0 c1) 16 \<and> mode64 c1 = CONFIG_64BIT e
    \<and> bcs c1 = KERN_CS e \<and> bss c1 = KERN_DS e \<and> (\<forall>r \<in> {''ds'', ''es'', ''fs'', ''gs''}. bdata c1 r = USER_DS e)
    \<and> bflags c1 = 2 \<and> bsp c1 = lnk ''boot_stack'' + PAGE_SIZE - of_nat (word_bytes e)
    \<and> bstack c1 = [lnk ''elf_start_returned'']
    \<and> (\<forall>va. unat va < 2 ^ linear_bits e \<longrightarrow> translate e ram c1 va =
          (if CONFIG_PAGING_LEVELS e = 0 then Some (va, True, True)
           else if unat va < 4096 \<or> 2 ^ 32 \<le> unat va then None else Some (va, False, True)))"
proof -
  note image = assms(1) [unfolded boot_image_def]
  let ?code = "lnk ''_elf_start''" and ?sp = "lnk ''boot_stack'' + PAGE_SIZE - of_nat (word_bytes e)"
  have "boot_entry (c\<lparr>bstart_info := binfo c\<rparr>)" using assms(2) by (simp add: boot_entry_def)
  then obtain c1 where c1: "run_steps e ram ?code (set_control_registers e lnk) (c\<lparr>bstart_info := binfo c\<rparr>) = Some c1"
      "hw_levels c1 = Some (CONFIG_PAGING_LEVELS e)" "CONFIG_PAGING_LEVELS e \<noteq> 0 \<longrightarrow> bcr3 c1 = cr3_target e lnk"
      "bit (bcr0 c1) 16" "bit (befer c1) 10 = CONFIG_64BIT e" "bstart_info c1 = binfo c"
    using set_control_registers_run [of e "c\<lparr>bstart_info := binfo c\<rparr>"] image by fastforce
  have reach: "reachable e ram c1 va" if "4096 \<le> unat va" "unat va < 2 ^ 22" for va
    using reachable_paging [OF assms(1) c1(2) _ that] c1(3) by blast
  have at: "reachable e ram c1 (lnk name + of_nat k)" if "in_image lnk name len" "k \<le> len" for name len k
    using reach image_address [OF _ _ that] image by blast
  have sp: "?sp = lnk ''boot_stack'' + of_nat (4096 - word_bytes e)" by (simp add: PAGE_SIZE_def word_bytes_def)
  have code: "reachable e ram c1 ?code" "reachable e ram c1 (lnk ''gdt_ptr'')" "reachable e ram c1 ?sp"
    using at [of "''_elf_start''" 1 0] at [of "''gdt_ptr''" 10 0] at [of "''boot_stack''" "3 * 4096" "4096 - word_bytes e"] image
    unfolding sp by simp_all
  define c2 where "c2 = c1\<lparr>bgdt := init_gdt e, bcs := KERN_CS e, bip := lnk ''xtf_main'', bss := KERN_DS e,
      bdata := (bdata c1)(''ds'' := USER_DS e, ''es'' := USER_DS e, ''fs'' := USER_DS e, ''gs'' := USER_DS e),
      bflags := 2, bsp := ?sp, bstack := [lnk ''elf_start_returned'']\<rparr>"
  have "run_steps e ram ?code (enter_c e lnk ram) c1 = Some c2"
    using code c1(5) image unfolding c2_def
    by (simp add: enter_c_def segments_load reachable_update bpush_def bpopf_def X86_EFLAGS_def del: CONFIG_64BIT.simps CONFIG_HVM.simps)
  then have run: "pvh_start e lnk ram c = Some c2"
    using c1(1) assms(2) by (simp add: pvh_start_def hvm_elf_start_def run_steps_append reachable_unpaged boot_entry_def)
  have same: "hw_levels c2 = hw_levels c1" "bcr3 c2 = bcr3 c1" "befer c2 = befer c1" "bgdt c2 = init_gdt e" "bcs c2 = KERN_CS e"
    by (simp_all add: c2_def hw_levels_def cong: if_cong)
  have "translate e ram c2 va = (if CONFIG_PAGING_LEVELS e = 0 then Some (va, True, True)
           else if unat va < 4096 \<or> 2 ^ 32 \<le> unat va then None else Some (va, False, True))" if "unat va < 2 ^ linear_bits e" for va
    using translate_identity [OF assms(1) _ _ that, of c2] c1(2,3) same(1,2) unfolding identity_walk_def by metis
  moreover have "mode64 c2 = CONFIG_64BIT e" using segments_load(3) [OF _ same(4,5)] c1(5) same(3) image by metis
  ultimately show ?thesis
    using run c1(2,4,6) same(1) by (intro exI [of _ c2]) (simp add: c2_def del: CONFIG_64BIT.simps CONFIG_PAGING_LEVELS.simps)
qed


text \<open>A PV guest arrives there with the same stack, if Xen has mapped the code and the boot stack at their addresses.\<close>

lemma pv_boot_reaches_xtf_main:
  assumes "\<forall>c'. bcr0 c' = bcr0 c \<and> bcr3 c' = bcr3 c \<and> bcr4 c' = bcr4 c \<and> befer c' = befer c
      \<longrightarrow> reachable e ram c' (lnk ''_elf_start'') \<and> reachable e ram c' (lnk ''boot_stack'' + PAGE_SIZE - of_nat (word_bytes e))"
  shows "pv_elf_start e lnk ram c = Some (c\<lparr>bstart_info := binfo c, bsp := lnk ''boot_stack'' + PAGE_SIZE - of_nat (word_bytes e),
    bstack := [lnk ''elf_start_returned''], bip := lnk ''xtf_main''\<rparr>)"
  using assms by (simp add: pv_elf_start_def bpush_def)

text \<open>A loader's state, with nothing but protected mode.\<close>

definition example_boot_cpu :: boot_cpu where
  "example_boot_cpu = \<lparr>bcr0 = 0x11, bcr3 = 0, bcr4 = 0, befer = 0, bgdt = [], bcs = 8, bss = 16, bdata = (\<lambda>r. 16), bsp = 0, bstack = [],
     bflags = 2, bip = 0x100000, binfo = 0x9000, bstart_info = 0\<rparr>"

lemma boot_reaches_xtf_main_witness:
  "\<exists>c1. pvh_start HVM32PSE example_image (example_ram (init_l1_identmap HVM32PSE)) example_boot_cpu = Some c1
     \<and> bsp c1 = 0x112ffc \<and> bstart_info c1 = 0x9000 \<and> \<not> mode64 c1
     \<and> translate HVM32PSE (example_ram (init_l1_identmap HVM32PSE)) c1 0x8 = None
     \<and> translate HVM32PSE (example_ram (init_l1_identmap HVM32PSE)) c1 0xfee00000 = Some (0xfee00000, False, True)"
proof -
  let ?ram = "example_ram (init_l1_identmap HVM32PSE)"
  have "length (init_l1_identmap HVM32PSE) = 1024" using init_l1_maps [of HVM32PSE] by (simp add: l1_maps_def PT_ENTRIES_def entries_values)
  from example_tables [OF this] have image: "boot_image HVM32PSE example_image ?ram"
    using example_image_asserts by (simp add: boot_image_def in_image_def XTF_VIRT_START_def example_image_def word_bytes_def)
  have entry: "boot_entry example_boot_cpu" by (simp add: boot_entry_def example_boot_cpu_def)
  obtain c1 where c1: "pvh_start HVM32PSE example_image ?ram example_boot_cpu = Some c1" "bstart_info c1 = binfo example_boot_cpu"
      "mode64 c1 = CONFIG_64BIT HVM32PSE" "bsp c1 = example_image ''boot_stack'' + PAGE_SIZE - of_nat (word_bytes HVM32PSE)"
    and tr: "\<And>va. unat va < 2 ^ linear_bits HVM32PSE \<Longrightarrow> translate HVM32PSE ?ram c1 va =
          (if CONFIG_PAGING_LEVELS HVM32PSE = 0 then Some (va, True, True)
           else if unat va < 4096 \<or> 2 ^ 32 \<le> unat va then None else Some (va, False, True))"
    using boot_reaches_xtf_main [OF image entry] by blast
  show ?thesis
    using c1 tr [of "0x8"] tr [of "0xfee00000"]
    by (simp add: linear_bits_def example_boot_cpu_def example_image_def PAGE_SIZE_def word_bytes_def)
qed

end
