(* ===== verification/X86_Update.thy ===== *)
theory X86_Update imports
  X86_Traps
  X86_Tss
begin

text \<open>
  \<open>update_desc\<close> of \<open>arch/xtf.h\<close>, which changes an entry of the live GDT, and \<open>dump_env_tss\<close>. Every caller
  passes \<open>&gdt[n]\<close>, so the pointer is the index. A PV guest must not write the table itself: Xen has
  it mapped read-only and changes the entry at a machine address on request.
\<close>

section \<open>Operations\<close>

definition desc_word :: "user_desc \<Rightarrow> u64" where
  "desc_word d = ucast (desc_lo d) OR push_bit 32 (ucast (desc_hi d))"

definition gdt_entry_addr :: "linkage \<Rightarrow> nat \<Rightarrow> u64" where
  "gdt_entry_addr lnk n = lnk ''gdt'' + of_nat (8 * n)"

definition update_desc :: "linkage \<Rightarrow> (u64 \<Rightarrow> u64) \<Rightarrow> nat \<Rightarrow> user_desc \<Rightarrow> ('z kernel_scheme, unit) prog" where
  "update_desc lnk p2m n new =
     bnd (config id) (\<lambda>e.
     if \<not> CONFIG_PV e
     then bnd (fetch (\<lambda>s. length (gdt s))) (\<lambda>len.
          if n < len then update (\<lambda>s. s\<lparr>gdt := (gdt s)[n := new]\<rparr>) else halt)
     else or_panic ''Update descriptor failed: %d''
            (hypercall_update_descriptor e (virt_to_maddr p2m (gdt_entry_addr lnk n)) (desc_word new)))"

definition dump_env_tss :: "u64 \<Rightarrow> x86_tss32 + x86_tss64 \<Rightarrow> ('z machine_scheme, unit) prog" where
  "dump_env_tss addr t = (case t of Inl t32 \<Rightarrow> dump_x86_tss32 addr t32 | Inr t64 \<Rightarrow> dump_x86_tss64 addr t64)"

section \<open>What Xen gets\<close>

text \<open>The two 64-bit arguments of the hypercall as Xen reads them from the argument words of each build.\<close>

fun update_request :: "env \<Rightarrow> u64 list \<Rightarrow> (u64 \<times> u64) option" where
  "update_request e [maddr, desc] = (if CONFIG_64BIT e then Some (maddr, desc) else None)"
| "update_request e [maddr_lo, maddr_hi, lo, hi] =
     (if CONFIG_64BIT e then None else Some (maddr_lo OR push_bit 32 maddr_hi, lo OR push_bit 32 hi))"
| "update_request e _ = None"

lemma split_join: "take_bit 32 (v :: u64) OR push_bit 32 (drop_bit 32 v) = v"
proof (rule bit_word_eqI)
  fix n assume "n < LENGTH(64)"
  then show "bit (take_bit 32 v OR push_bit 32 (drop_bit 32 v)) n = bit v n"
    by (cases "n < 32") (simp_all add: bit_simps)
qed

lemma update_request_split: "update_request e (split_arg e maddr @ split_arg e desc) = Some (maddr, desc)"
  by (simp add: split_arg_def split_join)

lemma desc_word_inj: "desc_lo d = ucast (desc_word d)" "desc_hi d = ucast (drop_bit 32 (desc_word d))"
  unfolding desc_word_def by (rule bit_word_eqI; auto simp: bit_simps dest: bit_imp_le_length)+



end
