(* ===== verification/Spec2Isabelle.thy ===== *)
theory Spec2Isabelle imports
  Setup
  X86_Msr
  Printk
  Selftest_Heapsort
  X86_Features
  X86_Lib
  X86_Bitops
  Selftest_Vsnprintf
  Xen_Abi
  Xen_Numbers
  Hypercall_Stubs
  X86_Exception
  Exec_User
  X86_Layout
  X86_Boot
  X86_Update
  Config_Macros
begin

text \<open>
  A model of the Xen Test Framework: a microkernel of a few thousand lines of C that boots as a Xen
  guest, sets up the machine, runs one test and reports its result. The development covers the
  library that every test is linked with (\<open>common/\<close>, \<open>arch/x86/\<close> and their headers); the tests
  under \<open>tests/\<close> are its clients and are not part of it.

  \<^bold>\<open>How the program works.\<close> The entry stub calls \<open>xtf_main\<close> (\<open>common/setup.c\<close>), which calls
  \<open>arch_setup\<close> (\<open>arch/x86/setup.c\<close>): console callbacks are registered, CPUID data is collected, the
  exception table is sorted, traps are installed, hypercalls are located, the console and xenstore
  rings are found and the shared-info page is mapped. \<open>xtf_main\<close> then prints a banner, runs
  \<open>test_setup\<close> and the test, and \<open>xtf_exit\<close> reports the status and shuts the guest down. An
  exception enters \<open>do_exception\<close>, which searches the exception table, calls a fixup handler or
  panics.

  \<^bold>\<open>How it is modelled.\<close> C values are words of their width (\<open>unsigned long\<close> is held in 64 bits and cut
  with \<open>to_ulong\<close> on a 32-bit build); C \<open>int\<close> arithmetic is on \<open>int\<close> with every overflow a \<open>None\<close>
  (\<open>c_int\<close>); a buffer is a list of characters and an access outside it is \<open>None\<close>. The six build
  environments are the datatype \<open>env\<close>, and \<open>IS_DEFINED(..)\<close> and \<open>#ifdef\<close> are tests on it. A function
  with effects is a \<open>prog\<close> (theory Machine): it reads the hardware \<open>hw\<close>, a record of functions
  that give an arbitrary answer to each hypercall, MSR access, CPUID query, MMIO read and
  instruction, depending on all that was asked before; it updates the static variables, an
  extensible record to which each component adds its own (\<open>machine\<close>, \<open>report\<close>, \<open>console\<close>,
  \<open>xenstore\<close>, \<open>cpu\<close>, \<open>devices\<close>, \<open>kernel\<close>, \<open>gnttab\<close>); and it appends every request to the trace. A
  path that does not return is the outcome \<open>Stop\<close>. Code that is not in the repository (Xen, the
  processor, the daemons at the other end of the rings, the linker's addresses) is a parameter.

  \<^bold>\<open>Theories.\<close>
  \<^item> Prelude: integer types, environments, the helpers of \<open>xtf/numbers.h\<close> and \<open>xtf/lib.h\<close>, shared
    lemmas and the collections of rewrite rules.
  \<^item> Libc_String (\<open>common/libc/string.c\<close>), X86_Div (\<open>arch/div.h\<close>), Vsnprintf
    (\<open>common/libc/vsnprintf.c\<close>, \<open>stdio.c\<close>). Vsnprintf_Correct proves that the formatter only
    appends, and its buffer contract, once for every pointer hook, in the locale
    \<open>fmt_hook_contract\<close>; the locale is interpreted on the weak default and on the x86 hook.
    Fmt_Number gives a declarative specification of number formatting and proves the code equal to it.
    Printf_Spec gives the meaning of a whole format string, as a list of items, and proves that the
    formatter renders it; its locale \<open>plain_hook\<close> states what the pointer hook must leave alone.
  \<^item> Machine: hardware, traces, \<open>prog\<close>, and the hypercall wrappers of \<open>xtf/hypercall.h\<close>. Framework
    (\<open>common/lib.c\<close>): panic, ASSERT, the probes. Report (\<open>common/report.c\<close>): the status, a
    linear order.
  \<^item> Heapsort (\<open>common/heapsort.c\<close>): the C loops on byte offsets with the callbacks as parameters.
    The locale \<open>sortable\<close> states what the callbacks owe; in it the loops are proved to implement an
    abstract heap sort on lists, which sorts. Extable (\<open>common/extable.c\<close>) interprets the locale for
    the exception table of both word sizes, and proves bisection.
  \<^item> Ring, Console (\<open>common/console.c\<close>), Printk (\<open>vprintk\<close> with the x86 hook), Xenbus and Xenstore (\<open>common/xenbus.c\<close>, the domain id
    of \<open>common/lib.c\<close>): shared-memory rings against any peer that behaves as the protocol says. The
    abstract view of a ring is a pair of byte streams, \<open>requests\<close> and \<open>replies\<close>.
  \<^item> X86_Desc (gates and descriptors), X86_Page (page tables and address conversions), X86_Tss,
    X86_Decode (\<open>decode.c\<close>, \<open>arch/x86/extable.c\<close>), X86_Cpuid, X86_Msr, X86_Devices (\<open>apic.c\<close>,
    \<open>hpet.c\<close>, \<open>io-apic.c\<close>), X86_Traps (\<open>traps.c\<close>, \<open>hvm/traps.c\<close>, \<open>pv/traps.c\<close>), Grant_Table
    (both \<open>grant_table.c\<close>). X86_Lib: the wrappers of single instructions (\<open>arch/lib.h\<close>,
    \<open>x86-dbg-reg.h\<close>, \<open>tsx.h\<close>); X86_Bitops (\<open>arch/bitops.h\<close>), which implements a set of bit numbers;
    X86_Features (\<open>cpufeatureset.h\<close>, \<open>cpuid.h\<close>); X86_Symbols: the mnemonics of the headers as tables,
    the macros that paste tokens, and the error strings of \<open>vmx.c\<close>.
  \<^item> X86_Entry (\<open>entry_32.S\<close>, \<open>entry_64.S\<close>, \<open>asm_macros.h\<close>, \<open>regs.h\<close>): the exception stubs as lists of
    instructions with an interpreter on registers and a stack of words; \<open>struct cpu_regs\<close> is read from
    the bytes of that stack through its C layout, which connects the stubs with the record that
    \<open>do_exception\<close> gets in X86_Traps. X86_Exception composes the stubs with \<open>do_exception\<close> into the whole way of an
    exception from the interrupted code and back. Exec_User: \<open>exec_user_param\<close> and the way back from user mode, with
    memory by addresses. Hypercall_Stubs: the inline assembly of \<open>hypercall-x86_*.h\<close> and the numbers
    of \<open>xen.h\<close>, and \<open>hypercall_page.S\<close>; what Xen puts into the page is a parameter.
  \<^item> C_Layout: C types as a datatype, their sizes, alignments and member offsets by the rules of
    the System V ABI of both word sizes, and the general facts: members lie inside, are aligned and do
    not overlap, and what is stored in one is loaded from it. Xen_Abi declares the structures of \<open>include/xen/\<close>
    in it, Xen_Numbers the operations, states and flags of the same headers as tables, X86_Layout the
    structures and bit-fields that the processor reads and the ELF headers; its bit-fields are proved
    to be those that X86_Desc and X86_Devices write with shifts.
  \<^item> X86_Paging: the constants of the paging modes, and that the table offsets of an address are
    the address. X86_Boot (\<open>hvm/pagetables.S\<close>, \<open>hvm/head.S\<close>, \<open>pv/head.S\<close>, the assertions of \<open>link.lds.S\<close> and
    \<open>arch/link.lds.h\<close>): the tables that are assembled into the image, a model of the processor's walk of them in the
    three paging modes, and the boot code as instructions that may fault; composed with \<open>arch_init_traps\<close>,
    which opens the user sections. X86_Update (\<open>arch/xtf.h\<close>): the update of a live descriptor. Config_Macros
    (\<open>macro_magic.h\<close>, \<open>arch/config.h\<close>): the preprocessor macros that compute, on tokens.
  \<^item> Printf_C11: the C11 rules for the conversions, stated without reference to the code, with
    the theorem that the formatter follows them and the list of the corner cases where it does not.
    Selftest_Vsnprintf (\<open>selftests/vsnprintf.c\<close>): the table of the host program against any C library
    that gives the standard's texts.
  \<^item> Selftest_Heapsort (\<open>selftests/heapsort.c\<close>): a second interpretation of \<open>sortable\<close>, on arrays of
    \<open>int\<close>.
  \<^item> Frame: a Hoare-like predicate \<open>keeps f p\<close>, that a program leaves the field \<open>f\<close> alone, with rules
    for every combinator. Setup (\<open>arch/x86/setup.c\<close>, \<open>common/setup.c\<close>, \<open>weak-defaults.c\<close>): the whole
    boot and the properties that span components.

  \<^bold>\<open>Loops and bounds.\<close> A loop over data is a structural recursion or a \<open>function\<close> with a measure. A
  loop that may not end (heapsort, whose callbacks are arbitrary) is a \<open>partial_function\<close>. A loop
  that waits for a peer takes fuel; the theorems give an amount that is enough for every peer that
  makes progress (for a xenbus exchange \<open>2 * length data + len * 1025 + 1025\<close>, as a peer may take 1024 turns
  before each byte; for the console 2048 turns), or prove that no amount is.
  \<open>hpet_read_counter\<close> and \<open>remap_linear_range\<close> take the number of rounds left.

  \<^bold>\<open>Not modelled.\<close> The call of \<open>panic\<close> in \<open>head.S\<close> for an \<open>xtf_main\<close> that returns; the
  ways out of \<open>entry_SYSCALL\<close> and \<open>entry_SYSENTER\<close>, which end in the \<open>iret\<close> hypercall with flags of their own;
  the memory barriers of \<open>barrier.h\<close> and the weak memory model (a ring's peer acts between two accesses,
  never inside one); timing; the VMCS encodings; how the linker places sections (what it asserts of the result is in X86_Boot); compiler attributes and
  declarations without a value. Of the self-tests, what they print. The console output of \<open>panic\<close> and of the reports is the
  event \<open>Printk\<close> with format and arguments; Printk shows what becomes of one such call. The
  addresses of symbols are a parameter \<open>linkage\<close>; what the linker script asserts of them, and that an object lies inside the
  image, are hypotheses where they matter.
\<close>

end
